(* ===== verification/Prelude.thy ===== *)
theory Prelude
  imports Main "HOL-Library.AList" "HOL-Library.Word"
begin

text \<open>
  What every component of the development shares: the lemma collections, machine
  integers in release-build (wrapping) arithmetic, the result type of fallible Rust
  functions, and the model of the standard library's hash map.

  Conventions of the whole development:
  \<^item> signed and unsigned machine integers are \<open>int\<close> values kept in range by the wrapping
    functions below, except for bytes and ring offsets, which are machine words;
  \<^item> the workspace's release profile does not enable overflow checks, so integer overflow
    wraps around;
  \<^item> a method with \<open>&mut self\<close> takes the state and returns the new one, together with its
    return value where it has one;
  \<^item> a wall-clock or monotonic reading (\<open>Utc::now\<close>, \<open>SystemTime::now\<close>) is an argument;
  \<^item> logging is not modelled, and a message built by \<open>format!\<close> is represented by the
    values it prints.
\<close>

named_theorems i32_simps \<open>facts that evaluate wrapped integer arithmetic in range\<close>
named_theorems inv_intros \<open>preservation lemmas of the components' invariants\<close>

section \<open>Machine integers\<close>

definition wrap_i32 :: "int \<Rightarrow> int" where
  "wrap_i32 x = (x + 2 ^ 31) mod 2 ^ 32 - 2 ^ 31"

definition wrap_u32 :: "int \<Rightarrow> int" where
  "wrap_u32 x = x mod 2 ^ 32"

definition wrap_u64 :: "int \<Rightarrow> int" where
  "wrap_u64 x = x mod 2 ^ 64"

definition in_i32 :: "int \<Rightarrow> bool" where
  "in_i32 x \<longleftrightarrow> - (2 ^ 31) \<le> x \<and> x < 2 ^ 31"

definition in_u32 :: "int \<Rightarrow> bool" where
  "in_u32 x \<longleftrightarrow> 0 \<le> x \<and> x < 2 ^ 32"

definition in_u64 :: "int \<Rightarrow> bool" where
  "in_u64 x \<longleftrightarrow> 0 \<le> x \<and> x < 2 ^ 64"

text \<open>\<open>i32::signum\<close>, \<open>i32::unsigned_abs\<close>, \<open>i32::abs\<close> (wrapping at the minimum) and
  \<open>u64::saturating_sub\<close>.\<close>

definition signum_i32 :: "int \<Rightarrow> int" where
  "signum_i32 x = (if 0 < x then 1 else if x = 0 then 0 else - 1)"

definition unsigned_abs_i32 :: "int \<Rightarrow> int" where
  "unsigned_abs_i32 x = \<bar>x\<bar>"

definition abs_i32 :: "int \<Rightarrow> int" where
  "abs_i32 x = wrap_i32 \<bar>x\<bar>"

definition saturating_sub :: "int \<Rightarrow> int \<Rightarrow> int" where
  "saturating_sub a b = max 0 (a - b)"

lemma in_i32_wrap [simp, intro]: "in_i32 (wrap_i32 x)"
proof -
  have "0 \<le> (x + 2 ^ 31) mod 2 ^ 32 \<and> (x + 2 ^ 31) mod 2 ^ 32 < (2::int) ^ 32"
    by simp
  then show ?thesis by (simp add: in_i32_def wrap_i32_def)
qed

lemma in_u32_wrap [simp, intro]: "in_u32 (wrap_u32 x)"
  by (simp add: in_u32_def wrap_u32_def)

lemma in_u64_wrap [simp, intro]: "in_u64 (wrap_u64 x)"
  by (simp add: in_u64_def wrap_u64_def)

lemma wrap_i32_id [i32_simps]: "in_i32 x \<Longrightarrow> wrap_i32 x = x"
  by (simp add: in_i32_def wrap_i32_def)

lemma wrap_u32_id [i32_simps]: "in_u32 x \<Longrightarrow> wrap_u32 x = x"
  by (simp add: in_u32_def wrap_u32_def)

lemma wrap_u64_id [i32_simps]: "in_u64 x \<Longrightarrow> wrap_u64 x = x"
  by (simp add: in_u64_def wrap_u64_def)

lemma wrap_i32_add_left [simp]: "wrap_i32 (wrap_i32 a + b) = wrap_i32 (a + b)"
proof -
  have "((a + 2 ^ 31) mod 2 ^ 32 - 2 ^ 31 + b + 2 ^ 31) mod 2 ^ 32 =
      ((a + 2 ^ 31) mod 2 ^ 32 + b) mod (2 ^ 32 :: int)" by (simp add: algebra_simps)
  also have "\<dots> = ((a + 2 ^ 31) + b) mod 2 ^ 32" by (rule mod_add_left_eq)
  also have "\<dots> = (a + b + 2 ^ 31) mod 2 ^ 32" by (simp add: algebra_simps)
  finally show ?thesis by (simp add: wrap_i32_def)
qed

lemma wrap_u32_add_left [simp]: "wrap_u32 (wrap_u32 a + b) = wrap_u32 (a + b)"
  by (simp add: wrap_u32_def mod_add_left_eq)

lemma wrap_u32_add_right [simp]: "wrap_u32 (a + wrap_u32 b) = wrap_u32 (a + b)"
  by (simp add: wrap_u32_def mod_add_right_eq)

lemma in_i32_zero [simp]: "in_i32 0"
  by (simp add: in_i32_def)

section \<open>Results\<close>

text \<open>\<open>Result<T, E>\<close> is \<open>'e + 't\<close>; \<open>and_then\<close> is the \<open>?\<close> operator.\<close>

definition and_then :: "'e + 'a \<Rightarrow> ('a \<Rightarrow> 'e + 'b) \<Rightarrow> 'e + 'b" where
  "and_then r f = (case r of Inl e \<Rightarrow> Inl e | Inr x \<Rightarrow> f x)"

lemma and_then_simps [simp]:
  "and_then (Inl e) f = Inl e"
  "and_then (Inr x) f = f x"
  by (simp_all add: and_then_def)

section \<open>Hash maps\<close>

text \<open>
  \<open>std::collections::HashMap\<close> is an association list with distinct keys: the iteration
  order of a hash map is not specified, and the order of the list stands for whichever
  order an iteration takes. The locale states what the clients rely on.
\<close>

type_synonym ('k, 'v) hmap = "('k \<times> 'v) list"

definition hm_new :: "('k, 'v) hmap" where
  "hm_new = []"

definition hm_get :: "('k, 'v) hmap \<Rightarrow> 'k \<Rightarrow> 'v option" where
  "hm_get m k = map_of m k"

definition hm_insert :: "'k \<Rightarrow> 'v \<Rightarrow> ('k, 'v) hmap \<Rightarrow> ('k, 'v) hmap" where
  "hm_insert k v m = AList.update k v m"

definition hm_remove :: "'k \<Rightarrow> ('k, 'v) hmap \<Rightarrow> ('k, 'v) hmap" where
  "hm_remove k m = AList.delete k m"

definition hm_contains :: "('k, 'v) hmap \<Rightarrow> 'k \<Rightarrow> bool" where
  "hm_contains m k = (hm_get m k \<noteq> None)"

definition hm_values :: "('k, 'v) hmap \<Rightarrow> 'v list" where
  "hm_values m = map snd m"

definition hm_len :: "('k, 'v) hmap \<Rightarrow> nat" where
  "hm_len m = length m"

definition hm_ok :: "('k, 'v) hmap \<Rightarrow> bool" where
  "hm_ok m = distinct (map fst m)"

locale hash_map =
  fixes new :: "'m"
    and get :: "'m \<Rightarrow> 'k \<Rightarrow> 'v option"
    and insert :: "'k \<Rightarrow> 'v \<Rightarrow> 'm \<Rightarrow> 'm"
    and remove :: "'k \<Rightarrow> 'm \<Rightarrow> 'm"
    and elems :: "'m \<Rightarrow> 'v list"
    and ok :: "'m \<Rightarrow> bool"
  assumes get_new: "get new k = None"
    and get_insert: "get (insert k v m) k' = (if k' = k then Some v else get m k')"
    and get_remove: "get (remove k m) k' = (if k' = k then None else get m k')"
    and elems_get: "ok m \<Longrightarrow> v \<in> set (elems m) \<longleftrightarrow> (\<exists>k. get m k = Some v)"
    and ok_new: "ok new"
    and ok_insert: "ok m \<Longrightarrow> ok (insert k v m)"
    and ok_remove: "ok m \<Longrightarrow> ok (remove k m)"
begin

lemma get_insert_same: "get (insert k v m) k = Some v"
  by (simp add: get_insert)

lemma get_insert_other: "k' \<noteq> k \<Longrightarrow> get (insert k v m) k' = get m k'"
  by (simp add: get_insert)

lemma get_remove_same: "get (remove k m) k = None"
  by (simp add: get_remove)

lemma get_remove_Some: "get (remove k m) k' = Some v \<Longrightarrow> k' \<noteq> k \<and> get m k' = Some v"
  by (simp add: get_remove split: if_splits)

lemma insert_overrides: "get (insert k v (insert k w m)) = get (insert k v m)"
  by (rule ext) (simp add: get_insert)

lemma remove_insert: "get m k = None \<Longrightarrow> get (remove k (insert k v m)) = get m"
  by (rule ext) (simp add: get_insert get_remove)

end

interpretation hm: hash_map
  "hm_new :: ('k, 'v) hmap" hm_get hm_insert hm_remove hm_values hm_ok
proof unfold_locales
  fix m :: "('k, 'v) hmap" and k k' :: 'k and v :: 'v
  show "hm_get hm_new k = None"
    by (simp add: hm_get_def hm_new_def)
  show "hm_get (hm_insert k v m) k' = (if k' = k then Some v else hm_get m k')"
    by (simp add: hm_get_def hm_insert_def update_conv')
  show "hm_get (hm_remove k m) k' = (if k' = k then None else hm_get m k')"
    by (simp add: hm_get_def hm_remove_def delete_conv')
  show "hm_ok m \<Longrightarrow> v \<in> set (hm_values m) \<longleftrightarrow> (\<exists>k. hm_get m k = Some v)"
    by (force simp: hm_ok_def hm_values_def hm_get_def dest: map_of_SomeD)
  show "hm_ok hm_new"
    by (simp add: hm_ok_def hm_new_def)
  show "hm_ok m \<Longrightarrow> hm_ok (hm_insert k v m)"
    by (simp add: hm_ok_def hm_insert_def distinct_update)
  show "hm_ok m \<Longrightarrow> hm_ok (hm_remove k m)"
    by (simp add: hm_ok_def hm_remove_def distinct_delete)
qed

lemmas hm_simps = hm.get_new hm.get_insert hm.get_remove

lemma set_hm_insert: "set (hm_insert k v m) \<subseteq> insert (k, v) (set m)"
  unfolding hm_insert_def by (induction m) auto

lemma set_hm_remove: "set (hm_remove k m) \<subseteq> set m"
  by (auto simp: hm_remove_def AList.delete_eq)

lemma hm_all_values:
  assumes "\<forall>kp \<in> set m. P (snd kp)"
  shows "P v \<Longrightarrow> \<forall>kp \<in> set (hm_insert k v m). P (snd kp)" "\<forall>kp \<in> set (hm_remove k m). P (snd kp)"
  using assms set_hm_insert [of k v m] set_hm_remove [of k m] by auto

lemma hm_get_in_set: "hm_ok m \<Longrightarrow> (k, v) \<in> set m \<longleftrightarrow> hm_get m k = Some v"
  by (simp add: hm_ok_def hm_get_def)

lemma hm_len_remove: "hm_ok m \<Longrightarrow> hm_get m k \<noteq> None \<Longrightarrow> Suc (hm_len (hm_remove k m)) = hm_len m"
proof (induction m)
  case Nil
  then show ?case by (simp add: hm_get_def)
next
  case (Cons p m)
  obtain a b where p: "p = (a, b)" by (cases p)
  show ?case
  proof (cases "a = k")
    case True
    with Cons.prems p have "k \<notin> fst ` set m" by (auto simp: hm_ok_def)
    then have "AList.delete k m = m" by (simp add: AList.delete_id)
    with True p show ?thesis by (simp add: hm_len_def hm_remove_def)
  next
    case False
    with Cons p show ?thesis by (simp add: hm_ok_def hm_get_def hm_len_def hm_remove_def)
  qed
qed

section \<open>Lists\<close>

lemma nth_remove_at:
  "i < length xs \<Longrightarrow> j < length xs - 1 \<Longrightarrow>
   (take i xs @ drop (Suc i) xs) ! j = (if j < i then xs ! j else xs ! Suc j)"
  by (auto simp: nth_append)

end
