(* ===== verification/Float64.thy ===== *)
theory Float64
  imports Prelude Complex_Main
begin

text \<open>
  Rust's \<open>f64\<close>: IEEE 754 binary64 with round-to-nearest, ties-to-even. A value is a NaN
  (payloads are not distinguished), an infinity, the negative zero, or \<open>Fin q\<close> for the
  finite number \<open>q\<close> (\<open>Fin 0\<close> is the positive zero). Arithmetic computes the exact
  rational result and rounds it once, so the model agrees with the hardware bit by bit on
  \<open>+ - * /\<close>, comparisons, casts and decimal literals. The transcendental functions of
  the platform's libm (\<open>ln\<close>, \<open>exp\<close>, ...), whose precision Rust leaves unspecified, are
  parameters of the definitions that use them.
\<close>

datatype f64 = NaN | PInf | NInf | NZero | Fin rat

section \<open>Rounding\<close>

text \<open>The number of bits of a positive integer and the binary exponent of a rational.\<close>

fun blen :: "int \<Rightarrow> int" where
  "blen n = (if n \<le> 0 then 0 else 1 + blen (n div 2))"

declare blen.simps [simp del]

definition p2 :: "int \<Rightarrow> rat" where
  "p2 k = (if 0 \<le> k then 2 ^ nat k else 1 / 2 ^ nat (- k))"

definition ilog2 :: "rat \<Rightarrow> int" where
  "ilog2 q =
     (let (n, d) = quotient_of q; e = blen n - blen d
      in if p2 e \<le> q then e else e - 1)"

text \<open>Round to the nearest integer, ties to even.\<close>

definition rne :: "rat \<Rightarrow> int" where
  "rne q =
     (let f = \<lfloor>q\<rfloor>; r = q - of_int f
      in if r < 1 / 2 then f else if 1 / 2 < r then f + 1
         else if even f then f else f + 1)"

text \<open>The exponent of the unit in the last place: 53 significant bits, and the fixed grid
  \<open>2 ^ -1074\<close> of the subnormal numbers.\<close>

definition ulp_exp :: "rat \<Rightarrow> int" where
  "ulp_exp q = max (ilog2 q) (- 1022) - 52"

definition mant :: "rat \<Rightarrow> int" where
  "mant q = rne (q / p2 (ulp_exp q))"

definition grid :: "rat \<Rightarrow> rat" where
  "grid q = of_int (mant q) * p2 (ulp_exp q)"

definition overflows :: "rat \<Rightarrow> bool" where
  "overflows q \<longleftrightarrow> 971 < ulp_exp q \<or> ulp_exp q = 971 \<and> 2 ^ 53 \<le> mant q"

definition rnd :: "rat \<Rightarrow> f64" where
  "rnd q =
     (if q = 0 then Fin 0
      else if 0 < q then (if overflows q then PInf else Fin (grid q))
      else (if overflows (- q) then NInf
            else if grid (- q) = 0 then NZero else Fin (- grid (- q))))"

text \<open>A decimal literal, and \<open>n as f64\<close> of an integer.\<close>

definition lit :: "rat \<Rightarrow> f64" where
  "lit q = rnd q"

definition of_i :: "int \<Rightarrow> f64" where
  "of_i n = rnd (of_int n)"

section \<open>Comparisons\<close>

text \<open>The value of a finite number, and the sign bit.\<close>

fun val :: "f64 \<Rightarrow> rat" where
  "val (Fin q) = q"
| "val _ = 0"

fun is_finite :: "f64 \<Rightarrow> bool" where
  "is_finite (Fin q) = True"
| "is_finite NZero = True"
| "is_finite _ = False"

fun is_nan :: "f64 \<Rightarrow> bool" where
  "is_nan NaN = True"
| "is_nan _ = False"

fun is_infinite :: "f64 \<Rightarrow> bool" where
  "is_infinite PInf = True"
| "is_infinite NInf = True"
| "is_infinite _ = False"

fun neg_bit :: "f64 \<Rightarrow> bool" where
  "neg_bit NInf = True"
| "neg_bit NZero = True"
| "neg_bit (Fin q) = (q < 0)"
| "neg_bit _ = False"

fun flt :: "f64 \<Rightarrow> f64 \<Rightarrow> bool" where
  "flt NaN _ = False"
| "flt _ NaN = False"
| "flt PInf _ = False"
| "flt _ NInf = False"
| "flt NInf _ = True"
| "flt _ PInf = True"
| "flt a b = (val a < val b)"

definition fle :: "f64 \<Rightarrow> f64 \<Rightarrow> bool" where
  "fle a b \<longleftrightarrow> a \<noteq> NaN \<and> b \<noteq> NaN \<and> \<not> flt b a"

definition feq :: "f64 \<Rightarrow> f64 \<Rightarrow> bool" where
  "feq a b \<longleftrightarrow> fle a b \<and> fle b a"

abbreviation fgt :: "f64 \<Rightarrow> f64 \<Rightarrow> bool" where
  "fgt a b \<equiv> flt b a"

abbreviation fge :: "f64 \<Rightarrow> f64 \<Rightarrow> bool" where
  "fge a b \<equiv> fle b a"

abbreviation fzero :: f64 where
  "fzero \<equiv> Fin 0"

abbreviation fone :: f64 where
  "fone \<equiv> Fin 1"

section \<open>Arithmetic\<close>

definition signed_zero :: "bool \<Rightarrow> f64" where
  "signed_zero s = (if s then NZero else Fin 0)"

definition signed_inf :: "bool \<Rightarrow> f64" where
  "signed_inf s = (if s then NInf else PInf)"

fun fneg :: "f64 \<Rightarrow> f64" where
  "fneg NaN = NaN"
| "fneg PInf = NInf"
| "fneg NInf = PInf"
| "fneg NZero = Fin 0"
| "fneg (Fin q) = (if q = 0 then NZero else Fin (- q))"

fun fabs :: "f64 \<Rightarrow> f64" where
  "fabs NaN = NaN"
| "fabs PInf = PInf"
| "fabs NInf = PInf"
| "fabs NZero = Fin 0"
| "fabs (Fin q) = Fin \<bar>q\<bar>"

fun fadd :: "f64 \<Rightarrow> f64 \<Rightarrow> f64" where
  "fadd NaN _ = NaN"
| "fadd _ NaN = NaN"
| "fadd PInf NInf = NaN"
| "fadd NInf PInf = NaN"
| "fadd PInf _ = PInf"
| "fadd _ PInf = PInf"
| "fadd NInf _ = NInf"
| "fadd _ NInf = NInf"
| "fadd NZero NZero = NZero"
| "fadd a b = rnd (val a + val b)"

definition fsub :: "f64 \<Rightarrow> f64 \<Rightarrow> f64" where
  "fsub a b = fadd a (fneg b)"

definition fmul :: "f64 \<Rightarrow> f64 \<Rightarrow> f64" where
  "fmul a b =
     (let s = (neg_bit a \<noteq> neg_bit b) in
      if a = NaN \<or> b = NaN then NaN
      else if is_finite a \<and> is_finite b then
        (if val a * val b = 0 then signed_zero s else rnd (val a * val b))
      else if (is_finite a \<and> val a = 0) \<or> (is_finite b \<and> val b = 0) then NaN
      else signed_inf s)"

definition fdiv :: "f64 \<Rightarrow> f64 \<Rightarrow> f64" where
  "fdiv a b =
     (let s = (neg_bit a \<noteq> neg_bit b) in
      if a = NaN \<or> b = NaN then NaN
      else if is_finite a \<and> is_finite b then
        (if val b = 0 then (if val a = 0 then NaN else signed_inf s)
         else if val a = 0 then signed_zero s else rnd (val a / val b))
      else if is_finite a then signed_zero s
      else if is_finite b then signed_inf s
      else NaN)"

text \<open>\<open>f64::round\<close>: half away from zero, keeping the sign of a zero result.\<close>

fun fround :: "f64 \<Rightarrow> f64" where
  "fround (Fin q) =
     (if 0 \<le> q then Fin (of_int \<lfloor>q + 1 / 2\<rfloor>)
      else if \<lfloor>1 / 2 - q\<rfloor> = 0 then NZero else Fin (- of_int \<lfloor>1 / 2 - q\<rfloor>))"
| "fround x = x"

text \<open>\<open>x as i32\<close>, \<open>x as i64\<close>: truncation towards zero, saturating, NaN to 0.\<close>

definition trunc :: "rat \<Rightarrow> int" where
  "trunc q = (if 0 \<le> q then \<lfloor>q\<rfloor> else - \<lfloor>- q\<rfloor>)"

fun to_int_sat :: "int \<Rightarrow> int \<Rightarrow> f64 \<Rightarrow> int" where
  "to_int_sat lo hi NaN = 0"
| "to_int_sat lo hi PInf = hi"
| "to_int_sat lo hi NInf = lo"
| "to_int_sat lo hi x = max lo (min hi (trunc (val x)))"

definition to_i32 :: "f64 \<Rightarrow> int" where
  "to_i32 = to_int_sat (- (2 ^ 31)) (2 ^ 31 - 1)"

definition to_i64 :: "f64 \<Rightarrow> int" where
  "to_i64 = to_int_sat (- (2 ^ 63)) (2 ^ 63 - 1)"

text \<open>\<open>f64::max\<close> and \<open>f64::min\<close>, which ignore a NaN.\<close>

definition fmax :: "f64 \<Rightarrow> f64 \<Rightarrow> f64" where
  "fmax a b = (if a = NaN then b else if b = NaN then a else if flt a b then b else a)"

definition fmin :: "f64 \<Rightarrow> f64 \<Rightarrow> f64" where
  "fmin a b = (if a = NaN then b else if b = NaN then a else if flt b a then b else a)"

text \<open>\<open>Iterator::sum\<close> of floats: the standard library starts it at \<open>-0.0\<close>, the neutral
  element of the addition, so the sum of no floats, or of negative zeros only, is \<open>-0.0\<close>.\<close>

definition fsum :: "f64 list \<Rightarrow> f64" where
  "fsum xs = foldl fadd NZero xs"

section \<open>Facts about rounding\<close>

lemma p2_powi: "p2 k = 2 powi k"
  by (simp add: p2_def power_int_def field_simps)

lemma p2_add: "p2 (a + b) = p2 a * p2 b"
  by (simp add: p2_powi power_int_add)

lemma p2_pos [simp]: "0 < p2 k"
  by (simp add: p2_powi)

lemma p2_nz [simp]: "p2 k \<noteq> 0"
  by (simp add: p2_powi)

lemma p2_ge0 [simp]: "0 \<le> p2 k"
  by (simp add: p2_powi)

lemma p2_le_iff [simp]: "p2 a \<le> p2 b \<longleftrightarrow> a \<le> b"
proof -
  have "a < b \<Longrightarrow> p2 a < p2 b" for a b
    unfolding p2_powi by (rule power_int_strict_increasing) simp_all
  then show ?thesis by (metis less_le_not_le linorder_not_le order_le_less)
qed

lemma p2_less_iff [simp]: "p2 a < p2 b \<longleftrightarrow> a < b"
  by (metis p2_le_iff not_le)

lemma p2_diff: "p2 (a - b) = p2 a / p2 b"
  by (simp add: p2_powi power_int_diff)

lemma p2_of_int: "0 \<le> k \<Longrightarrow> p2 k = of_int (2 ^ nat k)"
  by (simp add: p2_def)

lemma p2_Suc: "p2 (k + 1) = 2 * p2 k"
  by (simp add: p2_add) (simp add: p2_def)

lemma blen_nonneg: "0 \<le> blen n"
  by (induction n rule: blen.induct) (subst blen.simps, auto)

lemma blen_bounds: "0 < n \<Longrightarrow> p2 (blen n - 1) \<le> of_int n \<and> of_int n < p2 (blen n)"
proof (induction n rule: blen.induct)
  case (1 n)
  show ?case
  proof (cases "n = 1")
    case True
    have "blen 1 = 1" by (simp add: blen.simps [of 1] blen.simps [of 0])
    with True show ?thesis by (simp add: p2_def)
  next
    case False
    with "1.prems" have n: "0 < n div 2" "\<not> n \<le> 0" by auto
    have b: "blen n = blen (n div 2) + 1" using n by (simp add: blen.simps [of n])
    from "1.IH" [OF n(2) n(1)] have lo: "p2 (blen (n div 2) - 1) \<le> of_int (n div 2)"
      and hi: "of_int (n div 2) < p2 (blen (n div 2))" by auto
    have "p2 (blen (n div 2)) = of_int (2 ^ nat (blen (n div 2)))"
      by (rule p2_of_int [OF blen_nonneg])
    with hi have "n div 2 < 2 ^ nat (blen (n div 2))"
      by (metis of_int_less_iff)
    then have "n < 2 * 2 ^ nat (blen (n div 2))" by linarith
    then have "of_int n < (of_int (2 * 2 ^ nat (blen (n div 2))) :: rat)"
      by (simp only: of_int_less_iff)
    then have up: "of_int n < p2 (blen n)"
      by (simp add: b p2_Suc p2_of_int blen_nonneg)
    have "p2 (blen n - 1) = 2 * p2 (blen (n div 2) - 1)"
      using p2_Suc [of "blen (n div 2) - 1"] by (simp add: b)
    also have "\<dots> \<le> of_int (2 * (n div 2))" using lo by simp
    also have "\<dots> \<le> of_int n" unfolding of_int_le_iff by simp
    finally show ?thesis using up by simp
  qed
qed

lemma ilog2_bounds:
  assumes "0 < q"
  shows "p2 (ilog2 q) \<le> q \<and> q < p2 (ilog2 q + 1)"
proof -
  obtain n d where nd: "quotient_of q = (n, d)" by (cases "quotient_of q")
  then have d: "0 < d" by (rule quotient_of_denom_pos)
  have q: "q = of_int n / of_int d" using nd by (rule quotient_of_div)
  with assms d have n: "0 < n" by (simp add: zero_less_divide_iff)
  let ?e = "blen n - blen d"
  have bn: "p2 (blen n - 1) \<le> of_int n" "of_int n < p2 (blen n)"
    and bd: "p2 (blen d - 1) \<le> of_int d" "of_int d < p2 (blen d)"
    using blen_bounds [OF n] blen_bounds [OF d] by auto
  have dpos: "(0::rat) < of_int d" using d by simp
  have "q \<le> of_int n / p2 (blen d - 1)"
    unfolding q by (rule divide_left_mono) (use bd n d in \<open>simp_all\<close>)
  also have "\<dots> < p2 (blen n) / p2 (blen d - 1)"
    by (rule divide_strict_right_mono) (use bn in simp_all)
  also have "\<dots> = p2 (?e + 1)" by (simp add: p2_diff [symmetric] algebra_simps)
  finally have hi: "q < p2 (?e + 1)" .
  have "p2 (?e - 1) = p2 (blen n - 1) / p2 (blen d)"
    by (simp add: p2_diff [symmetric] algebra_simps)
  also have "\<dots> \<le> of_int n / p2 (blen d)"
    by (rule divide_right_mono) (use bn in simp_all)
  also have "\<dots> \<le> q"
    unfolding q by (rule divide_left_mono) (use bd n d in \<open>simp_all\<close>)
  finally have lo: "p2 (?e - 1) \<le> q" .
  show ?thesis using hi lo nd by (auto simp: ilog2_def Let_def not_le)
qed

lemma ilog2_unique:
  assumes "p2 e \<le> q" "q < p2 (e + 1)"
  shows "ilog2 q = e"
proof -
  from assms(1) have "0 < q" using p2_pos [of e] by linarith
  then have b: "p2 (ilog2 q) \<le> q" "q < p2 (ilog2 q + 1)" using ilog2_bounds by auto
  from b(1) assms(2) have "p2 (ilog2 q) < p2 (e + 1)" by linarith
  moreover from assms(1) b(2) have "p2 e < p2 (ilog2 q + 1)" by linarith
  ultimately show ?thesis by simp
qed

lemma ilog2_mono: "0 < q \<Longrightarrow> q \<le> r \<Longrightarrow> ilog2 q \<le> ilog2 r"
proof -
  assume "0 < q" "q \<le> r"
  then have "p2 (ilog2 q) \<le> q" "r < p2 (ilog2 r + 1)" using ilog2_bounds by auto
  with \<open>q \<le> r\<close> have "p2 (ilog2 q) < p2 (ilog2 r + 1)" by linarith
  then show ?thesis by simp
qed

lemma rne_of_int [simp]: "rne (of_int n) = n"
  by (simp add: rne_def)

lemma rne_floor_cases: "rne q = \<lfloor>q\<rfloor> \<or> rne q = \<lfloor>q\<rfloor> + 1"
  by (auto simp: rne_def Let_def)

lemma rne_close: "\<bar>of_int (rne q) - q\<bar> \<le> 1 / 2"
proof -
  have "of_int \<lfloor>q\<rfloor> \<le> q" "q < of_int \<lfloor>q\<rfloor> + 1" by linarith+
  then show ?thesis by (simp add: rne_def Let_def abs_le_iff)
qed

lemma rne_mono: "q \<le> r \<Longrightarrow> rne q \<le> rne r"
proof (cases "\<lfloor>q\<rfloor> = \<lfloor>r\<rfloor>")
  case True
  assume "q \<le> r"
  with True show ?thesis by (auto simp: rne_def Let_def)
next
  case False
  assume "q \<le> r"
  then have "\<lfloor>q\<rfloor> \<le> \<lfloor>r\<rfloor>" by (rule floor_mono)
  with False have "\<lfloor>q\<rfloor> + 1 \<le> \<lfloor>r\<rfloor>" by simp
  then show ?thesis using rne_floor_cases [of q] rne_floor_cases [of r] by linarith
qed

lemma rne_le_of_int: "q \<le> of_int n \<Longrightarrow> rne q \<le> n"
  using rne_mono [of q "of_int n"] by simp

lemma rne_ge_of_int: "of_int n \<le> q \<Longrightarrow> n \<le> rne q"
  using rne_mono [of "of_int n" q] by simp

text \<open>The rounded magnitude of a positive number.\<close>

lemma ulp_exp_mono: "0 < q \<Longrightarrow> q \<le> r \<Longrightarrow> ulp_exp q \<le> ulp_exp r"
  using ilog2_mono [of q r] by (simp add: ulp_exp_def)

lemma scaled_less: "0 < q \<Longrightarrow> q / p2 (ulp_exp q) < 2 ^ 53"
proof -
  assume "0 < q"
  then have "q < p2 (ilog2 q + 1)" using ilog2_bounds by blast
  also have "\<dots> \<le> p2 (53 + ulp_exp q)" by (simp add: ulp_exp_def)
  also have "\<dots> = 2 ^ 53 * p2 (ulp_exp q)" by (simp only: p2_add) (simp add: p2_def)
  finally show ?thesis by (simp add: divide_less_eq)
qed

lemma scaled_ge: "0 < q \<Longrightarrow> - 1022 \<le> ilog2 q \<Longrightarrow> 2 ^ 52 \<le> q / p2 (ulp_exp q)"
proof -
  assume q: "0 < q" and n: "- 1022 \<le> ilog2 q"
  have "2 ^ 52 * p2 (ulp_exp q) = p2 (52 + ulp_exp q)" by (simp only: p2_add) (simp add: p2_def)
  also have "\<dots> = p2 (ilog2 q)" using n by (simp add: ulp_exp_def)
  also have "\<dots> \<le> q" using q ilog2_bounds by blast
  finally show ?thesis by (simp add: le_divide_eq)
qed

lemma mant_nonneg: "0 < q \<Longrightarrow> 0 \<le> mant q"
  unfolding mant_def by (rule rne_ge_of_int) simp

lemma mant_le: "0 < q \<Longrightarrow> mant q \<le> 2 ^ 53"
  unfolding mant_def by (rule rne_le_of_int) (use scaled_less [of q] in simp)

lemma mant_ge: "0 < q \<Longrightarrow> - 1022 \<le> ilog2 q \<Longrightarrow> 2 ^ 52 \<le> mant q"
  unfolding mant_def by (rule rne_ge_of_int) (use scaled_ge [of q] in simp)

lemma grid_nonneg: "0 < q \<Longrightarrow> 0 \<le> grid q"
  by (simp add: grid_def mant_nonneg)

lemma grid_le: "0 < q \<Longrightarrow> grid q \<le> p2 (max (ilog2 q) (- 1022) + 1)"
proof -
  assume q: "0 < q"
  have "grid q \<le> of_int (2 ^ 53) * p2 (ulp_exp q)"
    unfolding grid_def using mant_le [OF q] by (intro mult_right_mono) (simp_all only: of_int_le_iff p2_ge0)
  also have "\<dots> = p2 (53 + ulp_exp q)" by (simp only: p2_add) (simp add: p2_def)
  finally show ?thesis by (simp add: ulp_exp_def add.commute)
qed

lemma grid_ge: "0 < q \<Longrightarrow> - 1022 \<le> ilog2 q \<Longrightarrow> p2 (ilog2 q) \<le> grid q"
proof -
  assume q: "0 < q" and n: "- 1022 \<le> ilog2 q"
  have "p2 (ilog2 q) = p2 (52 + ulp_exp q)" using n by (simp add: ulp_exp_def)
  also have "\<dots> = of_int (2 ^ 52) * p2 (ulp_exp q)" by (simp only: p2_add) (simp add: p2_def)
  also have "\<dots> \<le> grid q"
    unfolding grid_def using mant_ge [OF q n] by (intro mult_right_mono) (simp_all only: of_int_le_iff p2_ge0)
  finally show ?thesis .
qed

lemma grid_mono:
  assumes "0 < q" "q \<le> r"
  shows "grid q \<le> grid r"
proof (cases "ulp_exp q = ulp_exp r")
  case True
  from assms(2) have "q / p2 (ulp_exp q) \<le> r / p2 (ulp_exp r)"
    by (simp add: True divide_right_mono)
  then have "mant q \<le> mant r" unfolding mant_def by (rule rne_mono)
  then show ?thesis by (simp add: grid_def True)
next
  case False
  from assms have r: "0 < r" by simp
  from ilog2_mono [OF assms] False have e: "max (ilog2 q) (- 1022) + 1 \<le> ilog2 r"
    "- 1022 \<le> ilog2 r" by (auto simp: ulp_exp_def max_def split: if_splits)
  have "grid q \<le> p2 (max (ilog2 q) (- 1022) + 1)" by (rule grid_le [OF assms(1)])
  also have "\<dots> \<le> p2 (ilog2 r)" using e by simp
  also have "\<dots> \<le> grid r" using r e by (intro grid_ge) auto
  finally show ?thesis .
qed

lemma overflows_mono:
  assumes "0 < q" "q \<le> r" "overflows q"
  shows "overflows r"
proof (cases "ulp_exp q = ulp_exp r")
  case True
  from assms(2) have "q / p2 (ulp_exp q) \<le> r / p2 (ulp_exp r)"
    by (simp add: True divide_right_mono)
  then have "mant q \<le> mant r" unfolding mant_def by (rule rne_mono)
  with assms(3) True show ?thesis by (auto simp: overflows_def)
next
  case False
  with ulp_exp_mono [OF assms(1,2)] assms(3) show ?thesis by (auto simp: overflows_def)
qed

lemma grid_close: "0 < q \<Longrightarrow> \<bar>grid q - q\<bar> \<le> p2 (ulp_exp q) / 2"
proof -
  assume "0 < q"
  have "grid q - q = (of_int (mant q) - q / p2 (ulp_exp q)) * p2 (ulp_exp q)"
    by (simp add: grid_def algebra_simps)
  then have "\<bar>grid q - q\<bar> = \<bar>of_int (mant q) - q / p2 (ulp_exp q)\<bar> * p2 (ulp_exp q)"
    by (simp add: abs_mult)
  also have "\<dots> \<le> (1 / 2) * p2 (ulp_exp q)"
    unfolding mant_def by (intro mult_right_mono rne_close) simp
  finally show ?thesis by simp
qed

section \<open>Representable numbers\<close>

definition rep :: "rat \<Rightarrow> bool" where
  "rep q \<longleftrightarrow> (\<exists>m u. q = of_int m * p2 u \<and> \<bar>m\<bar> < 2 ^ 53 \<and> - 1074 \<le> u \<and> u \<le> 971)"

lemma rep_uminus [simp]: "rep (- q) \<longleftrightarrow> rep q"
proof -
  have "rep q \<Longrightarrow> rep (- q)" for q
  proof -
    assume "rep q"
    then obtain m u where "q = of_int m * p2 u" "\<bar>m\<bar> < 2 ^ 53" "- 1074 \<le> u" "u \<le> 971"
      by (auto simp: rep_def)
    then have "- q = of_int (- m) * p2 u" "\<bar>- m\<bar> < 2 ^ 53" "- 1074 \<le> u" "u \<le> 971" by auto
    then show "rep (- q)" unfolding rep_def by blast
  qed
  from this [of q] this [of "- q"] show ?thesis by auto
qed

lemma rep_zero [simp]: "rep 0"
  unfolding rep_def by (rule exI [of _ 0], rule exI [of _ 0]) simp

lemma rep_exact:
  assumes "rep q" "0 < q"
  shows "grid q = q" and "\<not> overflows q"
proof -
  obtain m u where q: "q = of_int m * p2 u" and m: "\<bar>m\<bar> < 2 ^ 53"
    and u: "- 1074 \<le> u" "u \<le> 971"
    using assms(1) by (auto simp: rep_def)
  from assms(2) q have mp: "0 < m" by (simp add: zero_less_mult_iff not_less [of "p2 u" 0, THEN iffD2])
  from m mp have "m < 2 ^ 53" by simp
  then have "of_int m < (of_int (2 ^ 53) :: rat)" by (simp only: of_int_less_iff)
  then have "of_int m * p2 u < of_int (2 ^ 53) * p2 u" by (rule mult_strict_right_mono) simp
  then have "q < p2 (53 + u)" by (simp add: q p2_add) (simp add: p2_def [of 53])
  moreover have "p2 (ilog2 q) \<le> q" using assms(2) ilog2_bounds by blast
  ultimately have "p2 (ilog2 q) < p2 (53 + u)" by linarith
  then have le: "ulp_exp q \<le> u" using u by (simp add: ulp_exp_def)
  let ?k = "2 ^ nat (u - ulp_exp q) :: int"
  have "p2 u = of_int ?k * p2 (ulp_exp q)"
    using p2_add [of "u - ulp_exp q" "ulp_exp q"] le by (simp add: p2_of_int)
  then have "q = of_int (m * ?k) * p2 (ulp_exp q)" using q by simp
  then have sc: "q / p2 (ulp_exp q) = of_int (m * ?k)"
    by (simp only: nonzero_divide_eq_eq [OF p2_nz])
  then have mq: "mant q = m * ?k" by (simp only: mant_def rne_of_int)
  show "grid q = q"
    unfolding grid_def mq using sc by (simp add: field_simps)
  show "\<not> overflows q"
  proof
    assume "overflows q"
    with le u have "ulp_exp q = 971" "u = 971" "2 ^ 53 \<le> mant q"
      by (auto simp: overflows_def)
    with mq m show False by simp
  qed
qed

lemma rnd_minus: "q \<noteq> 0 \<Longrightarrow> rnd (- q) = fneg (rnd q)"
  using grid_nonneg [of q] grid_nonneg [of "- q"]
  by (auto simp: rnd_def not_less)

lemma rnd_exact: "rep q \<Longrightarrow> rnd q = Fin q"
  using rep_exact [of q] rep_exact [of "- q"] by (auto simp: rnd_def)

lemma rep_of_int: "\<bar>n\<bar> \<le> 2 ^ 53 \<Longrightarrow> rep (of_int n)"
proof -
  assume n: "\<bar>n\<bar> \<le> 2 ^ 53"
  consider "\<bar>n\<bar> < 2 ^ 53" | "n = 1 * 2 ^ 53" | "n = - 1 * 2 ^ 53" using n by linarith
  then show ?thesis
  proof cases
    case 1
    then show ?thesis unfolding rep_def
      by (intro exI [of _ n] exI [of _ 0]) (simp add: p2_def)
  next
    case 2
    then show ?thesis unfolding rep_def
      by (intro exI [of _ 1] exI [of _ 53]) (simp add: p2_def)
  next
    case 3
    then show ?thesis unfolding rep_def
      by (intro exI [of _ "- 1"] exI [of _ 53]) (simp add: p2_def)
  qed
qed

lemma rep_grid: "0 < q \<Longrightarrow> \<not> overflows q \<Longrightarrow> rep (grid q)"
proof -
  assume q: "0 < q" and o: "\<not> overflows q"
  have u: "- 1074 \<le> ulp_exp q" by (simp add: ulp_exp_def)
  consider "mant q < 2 ^ 53" | "mant q = 2 ^ 53" using mant_le [OF q] by linarith
  then show ?thesis
  proof cases
    case 1
    with mant_nonneg [OF q] u o show ?thesis
      unfolding rep_def grid_def
      by (intro exI [of _ "mant q"] exI [of _ "ulp_exp q"]) (auto simp: overflows_def)
  next
    case 2
    with o have u': "ulp_exp q \<le> 970" by (auto simp: overflows_def)
    have "grid q = of_int (2 ^ 52) * p2 (ulp_exp q + 1)"
      by (simp add: grid_def 2 p2_Suc)
    with u u' show ?thesis
      unfolding rep_def
      by (intro exI [of _ "2 ^ 52"] exI [of _ "ulp_exp q + 1"]) auto
  qed
qed

lemma rep_val_rnd: "rep (val (rnd q))"
  using rep_grid [of q] rep_grid [of "- q"] by (auto simp: rnd_def)

section \<open>Order\<close>

lemma flt_finite [simp]: "is_finite a \<Longrightarrow> is_finite b \<Longrightarrow> flt a b \<longleftrightarrow> val a < val b"
  by (cases a; cases b) auto

lemma fle_finite [simp]: "is_finite a \<Longrightarrow> is_finite b \<Longrightarrow> fle a b \<longleftrightarrow> val a \<le> val b"
  by (cases a; cases b) (auto simp: fle_def)

lemma flt_irrefl [simp]: "\<not> flt a a"
  by (cases a) auto

lemma flt_trans: "flt a b \<Longrightarrow> flt b c \<Longrightarrow> flt a c"
  by (cases a; cases b; cases c) auto

lemma flt_asym: "flt a b \<Longrightarrow> \<not> flt b a"
  using flt_trans flt_irrefl by blast

lemma flt_imp_fle: "flt a b \<Longrightarrow> fle a b"
  using flt_asym by (cases a; cases b) (auto simp: fle_def)

lemma fle_refl [simp]: "fle a a \<longleftrightarrow> a \<noteq> NaN"
  by (simp add: fle_def)

lemma fle_trans: "fle a b \<Longrightarrow> fle b c \<Longrightarrow> fle a c"
  by (cases a; cases b; cases c) (auto simp: fle_def)

lemma flt_fle_trans: "flt a b \<Longrightarrow> fle b c \<Longrightarrow> flt a c"
  by (cases a; cases b; cases c) (auto simp: fle_def)

lemma fle_flt_trans: "fle a b \<Longrightarrow> flt b c \<Longrightarrow> flt a c"
  by (cases a; cases b; cases c) (auto simp: fle_def)

lemma fle_linear: "a \<noteq> NaN \<Longrightarrow> b \<noteq> NaN \<Longrightarrow> fle a b \<or> flt b a"
  by (auto simp: fle_def)

lemma not_flt_iff: "a \<noteq> NaN \<Longrightarrow> b \<noteq> NaN \<Longrightarrow> \<not> flt a b \<longleftrightarrow> fle b a"
  by (auto simp: fle_def)

lemma flt_not_nan: "flt a b \<Longrightarrow> a \<noteq> NaN \<and> b \<noteq> NaN"
  by (cases a; cases b) auto

lemma fle_not_nan: "fle a b \<Longrightarrow> a \<noteq> NaN \<and> b \<noteq> NaN"
  by (simp add: fle_def)

lemma rnd_not_nan [simp]: "rnd q \<noteq> NaN" "rnd q = NaN \<longleftrightarrow> False"
  by (auto simp: rnd_def)

lemma rnd_nonneg: "0 \<le> q \<Longrightarrow> fle fzero (rnd q)"
  using grid_nonneg [of q] by (auto simp: rnd_def) (auto simp: fle_def)

lemma rnd_nonpos: "q \<le> 0 \<Longrightarrow> fle (rnd q) fzero"
  using grid_nonneg [of "- q"] by (auto simp: rnd_def) (auto simp: fle_def)

theorem rnd_mono: "q \<le> r \<Longrightarrow> fle (rnd q) (rnd r)"
proof -
  assume le: "q \<le> r"
  consider "0 < q" | "r < 0" | "q \<le> 0" "0 \<le> r" by linarith
  then show ?thesis
  proof cases
    case 1
    with le grid_mono [OF 1 le] overflows_mono [OF 1 le] show ?thesis
      by (auto simp: rnd_def fle_def)
  next
    case 2
    with le have "0 < - r" "- r \<le> - q" by auto
    from grid_mono [OF this] overflows_mono [OF this] grid_nonneg [of "- r"] 2 le show ?thesis
      by (auto simp: rnd_def fle_def)
  next
    case 3
    from rnd_nonpos [OF 3(1)] rnd_nonneg [OF 3(2)] show ?thesis by (rule fle_trans)
  qed
qed

section \<open>Facts about the operations\<close>

lemma of_i_exact [simp]: "\<bar>n\<bar> \<le> 2 ^ 53 \<Longrightarrow> of_i n = Fin (of_int n)"
  by (simp add: of_i_def rnd_exact rep_of_int)

lemma of_i_i32 [simp]: "in_i32 n \<Longrightarrow> of_i n = Fin (of_int n)"
  by (rule of_i_exact) (auto simp: in_i32_def)

lemma of_i_not_nan [simp]: "of_i n \<noteq> NaN"
  by (simp add: of_i_def)

lemma lit_not_nan [simp]: "lit q \<noteq> NaN"
  by (simp add: lit_def)

lemma fabs_not_nan [simp]: "fabs a = NaN \<longleftrightarrow> a = NaN"
  by (cases a) auto

lemma fneg_not_nan [simp]: "fneg a = NaN \<longleftrightarrow> a = NaN"
  by (cases a) auto

lemma fabs_nonneg: "a \<noteq> NaN \<Longrightarrow> fle fzero (fabs a)"
  by (cases a) (auto simp: fle_def)

lemma fabs_bound_iff: "flt b (fabs a) \<longleftrightarrow> flt b a \<or> flt b (fneg a)"
  by (cases a; cases b) (auto simp: abs_if)

lemma fneg_fneg [simp]: "fneg (fneg a) = a"
  by (cases a) auto

lemma val_fneg [simp]: "val (fneg a) = - val a"
  by (cases a) auto

lemma finite_fneg [simp]: "is_finite (fneg a) = is_finite a"
  by (cases a) auto

lemma finite_fabs [simp]: "is_finite (fabs a) = is_finite a"
  by (cases a) auto

lemma val_fabs [simp]: "val (fabs a) = \<bar>val a\<bar>"
  by (cases a) auto

lemma fadd_finite:
  "is_finite a \<Longrightarrow> is_finite b \<Longrightarrow> fadd a b = (if a = NZero \<and> b = NZero then NZero else rnd (val a + val b))"
  by (cases a; cases b) auto

lemma fadd_NaN [simp]: "fadd NaN b = NaN" "fadd a NaN = NaN"
  by (cases a; simp)+

lemma fmul_NaN [simp]: "fmul NaN b = NaN" "fmul a NaN = NaN"
  by (simp_all add: fmul_def)

lemma fsub_NaN [simp]: "fsub NaN b = NaN" "fsub a NaN = NaN"
  by (simp_all add: fsub_def)

lemma to_i32_range [simp]: "in_i32 (to_i32 x)"
  by (cases x) (auto simp: to_i32_def in_i32_def)

lemma fround_Fin: "\<exists>k. val (fround (Fin q)) = of_int k \<and> is_finite (fround (Fin q)) \<and> \<bar>of_int k - q\<bar> \<le> 1 / 2"
proof (cases "0 \<le> q")
  case True
  have "of_int \<lfloor>q + 1 / 2\<rfloor> \<le> q + 1 / 2" "q + 1 / 2 < of_int \<lfloor>q + 1 / 2\<rfloor> + 1" by linarith+
  then have "\<bar>of_int \<lfloor>q + 1 / 2\<rfloor> - q\<bar> \<le> 1 / 2" by linarith
  with True show ?thesis by (intro exI [of _ "\<lfloor>q + 1 / 2\<rfloor>"]) simp
next
  case False
  have "of_int \<lfloor>1 / 2 - q\<rfloor> \<le> 1 / 2 - q" "1 / 2 - q < of_int \<lfloor>1 / 2 - q\<rfloor> + 1" by linarith+
  then have "\<bar>of_int (- \<lfloor>1 / 2 - q\<rfloor>) - q\<bar> \<le> 1 / 2" unfolding of_int_minus by linarith
  with False show ?thesis by (intro exI [of _ "- \<lfloor>1 / 2 - q\<rfloor>"]) simp
qed

lemma trunc_of_int [simp]: "trunc (of_int k) = k"
  by (simp add: trunc_def flip: of_int_minus)

section \<open>Relative error\<close>

lemma grid_rel_error: "0 < q \<Longrightarrow> - 1022 \<le> ilog2 q \<Longrightarrow> \<bar>grid q - q\<bar> \<le> q / 2 ^ 53"
proof -
  assume q: "0 < q" and n: "- 1022 \<le> ilog2 q"
  have "p2 (ulp_exp q) / 2 = p2 (ulp_exp q - 1)"
    using p2_Suc [of "ulp_exp q - 1"] by simp
  also have "\<dots> = p2 (ilog2 q) / 2 ^ 53"
    using n by (simp add: ulp_exp_def p2_diff) (simp add: p2_def)
  also have "\<dots> \<le> q / 2 ^ 53"
    using ilog2_bounds [OF q] by (simp add: divide_right_mono)
  finally show ?thesis using grid_close [OF q] by linarith
qed

lemma ilog2_ge: "p2 k \<le> q \<Longrightarrow> k \<le> ilog2 q"
proof -
  assume k: "p2 k \<le> q"
  then have "0 < q" using p2_pos [of k] by linarith
  then have "q < p2 (ilog2 q + 1)" using ilog2_bounds by blast
  with k have "p2 k < p2 (ilog2 q + 1)" by linarith
  then show ?thesis by simp
qed

lemma ilog2_less: "0 < q \<Longrightarrow> q < p2 k \<Longrightarrow> ilog2 q < k"
proof -
  assume "0 < q" "q < p2 k"
  then have "p2 (ilog2 q) < p2 k" using ilog2_bounds [of q] by linarith
  then show ?thesis by simp
qed

lemma rnd_rel_error:
  assumes "p2 (- 1000) \<le> \<bar>q\<bar>" "\<bar>q\<bar> < p2 1000"
  shows "is_finite (rnd q)" and "\<bar>val (rnd q) - q\<bar> \<le> \<bar>q\<bar> / 2 ^ 53"
proof -
  have pos: "is_finite (rnd q) \<and> \<bar>val (rnd q) - q\<bar> \<le> \<bar>q\<bar> / 2 ^ 53"
    if b: "p2 (- 1000) \<le> q" "q < p2 1000" for q
  proof -
    from b(1) have q: "0 < q" using p2_pos [of "- 1000"] by linarith
    have l: "- 1000 \<le> ilog2 q" "ilog2 q < 1000" using ilog2_ge [OF b(1)] ilog2_less [OF q b(2)] .
    then have "\<not> overflows q" by (simp add: overflows_def ulp_exp_def)
    with q have "rnd q = Fin (grid q)" by (simp add: rnd_def)
    with grid_rel_error [OF q] l q show ?thesis by simp
  qed
  have both: "is_finite (rnd q) \<and> \<bar>val (rnd q) - q\<bar> \<le> \<bar>q\<bar> / 2 ^ 53"
  proof (cases "0 \<le> q")
    case True
    with assms pos [of q] show ?thesis by simp
  next
    case False
    with assms have "p2 (- 1000) \<le> - q" "- q < p2 1000" by simp_all
    from pos [OF this] have f: "is_finite (rnd (- q))" "\<bar>val (rnd (- q)) - (- q)\<bar> \<le> \<bar>- q\<bar> / 2 ^ 53"
      by auto
    have "rnd q = fneg (rnd (- q))" using rnd_minus [of "- q"] False by simp
    then have "val (rnd q) - q = - (val (rnd (- q)) - (- q))" by simp
    then have "\<bar>val (rnd q) - q\<bar> = \<bar>val (rnd (- q)) - (- q)\<bar>" by (simp only: abs_minus_cancel)
    with f \<open>rnd q = fneg (rnd (- q))\<close> show ?thesis by simp
  qed
  from both show "is_finite (rnd q)" "\<bar>val (rnd q) - q\<bar> \<le> \<bar>q\<bar> / 2 ^ 53" by auto
qed

lemma p2_m1000: "p2 (- 1000) \<le> 1 / 1048576"
proof -
  have "p2 (- 1000) \<le> p2 (- 20)" by simp
  then show ?thesis by (simp add: p2_def [of "- 20"])
qed

lemma p2_1000: "1152921504606846976 \<le> p2 1000"
proof -
  have "p2 60 \<le> p2 1000" by simp
  then show ?thesis by (simp add: p2_def [of 60])
qed

lemma lit_int [simp]: "\<bar>n\<bar> \<le> 2 ^ 53 \<Longrightarrow> lit (of_int n) = Fin (of_int n)"
  using of_i_exact [of n] by (simp add: of_i_def lit_def)

lemma lit_10000 [simp]: "lit 10000 = Fin 10000"
  using lit_int [of 10000] by simp

lemma floor_half [simp]: "\<lfloor>1 / 2 :: rat\<rfloor> = 0"
  by (simp add: floor_eq_iff)

lemma fround_near:
  assumes "\<bar>q - of_int n\<bar> < 1 / 2"
  shows "val (fround (Fin q)) = of_int n" and "is_finite (fround (Fin q))"
proof -
  obtain k where k: "val (fround (Fin q)) = of_int k" "is_finite (fround (Fin q))"
    "\<bar>of_int k - q\<bar> \<le> 1 / 2" using fround_Fin by blast
  with assms have "\<bar>(of_int k :: rat) - of_int n\<bar> < 1" by linarith
  then have "\<bar>k - n\<bar> < 1" by (simp flip: of_int_diff of_int_abs)
  with k show "val (fround (Fin q)) = of_int n" "is_finite (fround (Fin q))" by auto
qed

lemma to_i64_of_int: "is_finite x \<Longrightarrow> val x = of_int n \<Longrightarrow> \<bar>n\<bar> < 2 ^ 63 \<Longrightarrow> to_i64 x = n"
  by (cases x) (auto simp: to_i64_def trunc_def[of 0] abs_if split: if_splits)

lemma rnd_zero [simp]: "rnd 0 = Fin 0"
  by (simp add: rnd_def)

lemma rnd_one [simp]: "rnd 1 = Fin 1" "rnd (- 1) = Fin (- 1)"
  using rnd_exact [OF rep_of_int, of 1] rnd_exact [OF rep_of_int, of "- 1"] by simp_all

lemma val_signed_zero [simp]: "val (signed_zero s) = 0" "is_finite (signed_zero s)"
  "signed_zero s \<noteq> NaN" "signed_zero s = NaN \<longleftrightarrow> False"
  by (simp_all add: signed_zero_def)

lemma fmul_finite:
  "is_finite a \<Longrightarrow> is_finite b \<Longrightarrow>
   fmul a b = (if val a * val b = 0 then signed_zero (neg_bit a \<noteq> neg_bit b)
               else rnd (val a * val b))"
  by (auto simp: fmul_def Let_def)

lemma fmul_finite_not_nan: "is_finite a \<Longrightarrow> is_finite b \<Longrightarrow> fmul a b \<noteq> NaN"
  by (simp add: fmul_finite)

text \<open>Rounding a number between two representable ones stays between them.\<close>

lemma rnd_between:
  assumes "val lo \<le> q" "q \<le> val hi" "is_finite lo" "is_finite hi" "rep (val lo)" "rep (val hi)"
  shows "fle lo (rnd q) \<and> fle (rnd q) hi"
proof -
  have "fle (rnd (val lo)) (rnd q)" "fle (rnd q) (rnd (val hi))"
    using assms by (auto intro: rnd_mono)
  then have *: "fle (Fin (val lo)) (rnd q)" "fle (rnd q) (Fin (val hi))"
    using assms(5,6) by (simp_all add: rnd_exact)
  have "fle lo (Fin (val lo))" "fle (Fin (val hi)) hi" using assms(3,4) by simp_all
  with * show ?thesis by (blast intro: fle_trans)
qed

lemma fle_finite_sandwich: "fle lo x \<Longrightarrow> fle x hi \<Longrightarrow> is_finite lo \<Longrightarrow> is_finite hi \<Longrightarrow> is_finite x"
  by (cases x; cases lo; cases hi) (auto simp: fle_def)

lemma rep_double:
  assumes "rep q" "\<bar>q\<bar> \<le> p2 1000"
  shows "rep (2 * q)"
proof -
  obtain m u where q: "q = of_int m * p2 u" and m: "\<bar>m\<bar> < 2 ^ 53" and u: "- 1074 \<le> u" "u \<le> 971"
    using assms(1) by (auto simp: rep_def)
  show ?thesis
  proof (cases "u = 971")
    case False
    then have "2 * q = of_int m * p2 (u + 1)" using q by (simp add: p2_Suc)
    with m u False show ?thesis
      unfolding rep_def by (intro exI [of _ m] exI [of _ "u + 1"]) auto
  next
    case True
    have "p2 1000 = p2 29 * p2 971" by (simp flip: p2_add)
    with assms(2) True q have "\<bar>of_int m\<bar> * p2 971 \<le> p2 29 * p2 971"
      by (simp add: abs_mult)
    then have "\<bar>of_int m\<bar> \<le> p2 29" by (simp add: mult_le_cancel_right)
    then have "of_int \<bar>m\<bar> \<le> (of_int (2 ^ 29) :: rat)" by (simp add: p2_def)
    then have "\<bar>m\<bar> \<le> 2 ^ 29" by (simp only: of_int_le_iff)
    then show ?thesis
      unfolding rep_def using q True by (intro exI [of _ "2 * m"] exI [of _ u]) auto
  qed
qed

text \<open>The floating-point average of two numbers lies between them.\<close>

lemma fmid_between:
  assumes f: "is_finite a" "is_finite b" and r: "rep (val a)" "rep (val b)"
    and le: "fle a b" and m: "\<bar>val a\<bar> \<le> p2 1000" "\<bar>val b\<bar> \<le> p2 1000"
  shows "fle a (fdiv (fadd a b) (lit 2)) \<and> fle (fdiv (fadd a b) (lit 2)) b"
proof -
  have two: "lit 2 = Fin 2" using lit_int [of 2] by simp
  have v: "val a \<le> val b" using le f by simp
  have s: "fle (Fin (2 * val a)) (rnd (val a + val b)) \<and> fle (rnd (val a + val b)) (Fin (2 * val b))"
    by (rule rnd_between) (use v r m rep_double in auto)
  then have fs: "is_finite (rnd (val a + val b))"
    using fle_finite_sandwich [of "Fin (2 * val a)" _ "Fin (2 * val b)"] by auto
  then have s': "2 * val a \<le> val (rnd (val a + val b))" "val (rnd (val a + val b)) \<le> 2 * val b"
    using s by auto
  define c where "c = fadd a b"
  have c: "is_finite c" "2 * val a \<le> val c" "val c \<le> 2 * val b"
    using f fs s' v by (auto simp: c_def fadd_finite)
  have d: "fdiv c (Fin 2) = (if val c = 0 then signed_zero (neg_bit c) else rnd (val c / 2))"
    using c(1) by (auto simp: fdiv_def Let_def)
  show ?thesis
  proof (cases "val c = 0")
    case True
    then show ?thesis using c f by (simp add: two flip: c_def) (simp add: d)
  next
    case False
    have "fle a (rnd (val c / 2)) \<and> fle (rnd (val c / 2)) b"
      by (rule rnd_between) (use c f r in auto)
    then show ?thesis using False by (simp add: two flip: c_def) (simp add: d)
  qed
qed

text \<open>A sum of numbers none of which is a NaN or an infinity is not a NaN, even when it
  overflows.\<close>

lemma fadd_finite_right_not_nan: "a \<noteq> NaN \<Longrightarrow> is_finite b \<Longrightarrow> fadd a b \<noteq> NaN"
  by (cases a; cases b) auto

lemma foldl_fadd_not_nan: "a \<noteq> NaN \<Longrightarrow> (\<And>x. x \<in> set xs \<Longrightarrow> is_finite x) \<Longrightarrow> foldl fadd a xs \<noteq> NaN"
  by (induction xs arbitrary: a) (simp_all add: fadd_finite_right_not_nan)

lemma of_i_not_NZero: "of_i n \<noteq> NZero"
proof -
  consider "n = 0" | "1 \<le> n" | "n \<le> - 1" by linarith
  then show ?thesis
  proof cases
    case 2
    then have "fle (rnd 1) (rnd (of_int n))" by (intro rnd_mono) simp
    moreover have "rnd 1 = Fin 1" using rnd_exact [OF rep_of_int, of 1] by simp
    ultimately show ?thesis by (auto simp: of_i_def)
  next
    case 3
    then have "(of_int n :: rat) \<le> of_int (- 1)" by (simp only: of_int_le_iff)
    then have "fle (rnd (of_int n)) (rnd (of_int (- 1)))" by (rule rnd_mono)
    moreover have "rnd (of_int (- 1)) = Fin (- 1)" using rnd_exact [OF rep_of_int, of "- 1"] by simp
    ultimately show ?thesis by (auto simp: of_i_def)
  qed (simp add: of_i_def)
qed

text \<open>A sum started at \<open>+0.0\<close> differs from \<open>fsum\<close> only when it adds nothing but negative
  zeros.\<close>

lemma fadd_zeros: "x \<noteq> NZero \<Longrightarrow> fadd NZero x = fadd (Fin 0) x"
  by (cases x) simp_all

lemma foldl_fadd_NZero: "set xs \<subseteq> {NZero} \<Longrightarrow> foldl fadd NZero xs = NZero"
  by (induction xs) auto

lemma foldl_fadd_zeros:
  "foldl fadd (Fin 0) xs = (if set xs \<subseteq> {NZero} then Fin 0 else foldl fadd NZero xs)"
proof (induction xs)
  case (Cons x xs)
  then show ?case
    by (cases "x = NZero") (auto simp: fadd_zeros signed_zero_def)
qed simp

lemma foldl_fadd_is_fsum: "foldl fadd (Fin 0) xs = (if set xs \<subseteq> {NZero} then Fin 0 else fsum xs)"
  by (simp add: fsum_def foldl_fadd_zeros)

lemma fsum_negative_zeros: "set xs \<subseteq> {NZero} \<Longrightarrow> fsum xs = NZero"
  by (simp add: fsum_def foldl_fadd_NZero)

lemma fsum_not_nan: "(\<And>x. x \<in> set xs \<Longrightarrow> is_finite x) \<Longrightarrow> fsum xs \<noteq> NaN"
  by (simp add: fsum_def foldl_fadd_not_nan)

text \<open>A delta of magnitude at most one times a 32-bit quantity is finite.\<close>

lemma unit_times_i32_finite:
  assumes "fle (fneg fone) d" "fle d fone" "in_i32 n"
  shows "is_finite (fmul d (of_i n))"
proof -
  have fd: "is_finite d" using fle_finite_sandwich [OF assms(1,2)] by simp
  have v: "\<bar>val d\<bar> \<le> 1" using assms(1,2) fd by (simp add: abs_le_iff)
  have "\<bar>of_int n :: rat\<bar> \<le> of_int (2 ^ 31)"
    using assms(3) by (auto simp: in_i32_def simp flip: of_int_abs)
  with v have "\<bar>val d\<bar> * \<bar>of_int n\<bar> \<le> 1 * of_int (2 ^ 31)"
    by (intro mult_mono) auto
  then have b: "\<bar>val d * of_int n\<bar> \<le> 2147483648" by (simp add: abs_mult)
  have "fle (Fin (- 2147483648)) (rnd (val d * of_int n)) \<and> fle (rnd (val d * of_int n)) (Fin 2147483648)"
    by (rule rnd_between)
       (use b rep_of_int [of 2147483648] in \<open>auto simp: abs_le_iff\<close>)
  then have "is_finite (rnd (val d * of_int n))"
    using fle_finite_sandwich [of "Fin (- 2147483648)" _ "Fin 2147483648"] by auto
  then show ?thesis using fd assms(3) by (auto simp: fmul_finite)
qed

text \<open>An absolute error bound for moderate magnitudes.\<close>

lemma rnd_abs_error:
  assumes "\<bar>q\<bar> \<le> 2 ^ 21"
  shows "is_finite (rnd q) \<and> \<bar>val (rnd q) - q\<bar> \<le> 1 / 2 ^ 32"
proof (cases "p2 (- 1000) \<le> \<bar>q\<bar>")
  case True
  have "\<bar>q\<bar> < p2 1000" using assms p2_1000 by simp
  from rnd_rel_error [OF True this] assms show ?thesis by auto
next
  case False
  then have lo: "- p2 (- 1000) \<le> q" and hi: "q \<le> p2 (- 1000)" by auto
  have r: "rep (p2 (- 1000))"
    unfolding rep_def by (intro exI [of _ 1] exI [of _ "- 1000"]) simp
  have "fle (Fin (- p2 (- 1000))) (rnd q) \<and> fle (rnd q) (Fin (p2 (- 1000)))"
    by (rule rnd_between) (use lo hi r in auto)
  moreover from this have f: "is_finite (rnd q)"
    using fle_finite_sandwich [of "Fin (- p2 (- 1000))" _ "Fin (p2 (- 1000))"] by auto
  ultimately have "- p2 (- 1000) \<le> val (rnd q)" "val (rnd q) \<le> p2 (- 1000)" by auto
  with lo hi have "\<bar>val (rnd q) - q\<bar> \<le> 2 * p2 (- 1000)" by (simp add: abs_le_iff)
  also have "\<dots> = p2 (- 999)" using p2_Suc [of "- 1000"] by simp
  also have "\<dots> \<le> p2 (- 32)" by simp
  also have "\<dots> = 1 / 2 ^ 32" by (simp add: p2_def)
  finally show ?thesis using f by simp
qed

lemma fadd_abs_error:
  assumes "is_finite a" "is_finite b" "\<bar>val a + val b\<bar> \<le> 2 ^ 21"
  shows "is_finite (fadd a b) \<and> \<bar>val (fadd a b) - (val a + val b)\<bar> \<le> 1 / 2 ^ 32"
  using rnd_abs_error [OF assms(3)] assms(1,2) by (auto simp: fadd_finite)

lemma fsub_abs_error:
  assumes "is_finite a" "is_finite b" "\<bar>val a - val b\<bar> \<le> 2 ^ 21"
  shows "is_finite (fsub a b) \<and> \<bar>val (fsub a b) - (val a - val b)\<bar> \<le> 1 / 2 ^ 32"
  using fadd_abs_error [of a "fneg b"] assms by (simp add: fsub_def)

lemma fround_int:
  "is_finite x \<Longrightarrow> \<exists>k. is_finite (fround x) \<and> val (fround x) = of_int k \<and> \<bar>of_int k - val x\<bar> \<le> 1 / 2"
proof (cases x)
  case (Fin q)
  then show ?thesis using fround_Fin [of q] by (auto simp del: fround.simps)
qed (auto intro!: exI [of _ 0])

lemma trunc_zero [simp]: "trunc 0 = 0"
  using trunc_of_int [of 0] by simp

lemma to_i32_of_int: "is_finite x \<Longrightarrow> val x = of_int n \<Longrightarrow> in_i32 n \<Longrightarrow> to_i32 x = n"
  by (cases x) (auto simp: to_i32_def in_i32_def)

lemma fmul_abs_error:
  assumes "is_finite a" "is_finite b" "\<bar>val a * val b\<bar> \<le> 2 ^ 21"
  shows "is_finite (fmul a b) \<and> \<bar>val (fmul a b) - val a * val b\<bar> \<le> 1 / 2 ^ 32"
  using rnd_abs_error [OF assms(3)] assms(1,2) by (auto simp: fmul_finite)

lemma fdiv_finite:
  "is_finite a \<Longrightarrow> is_finite b \<Longrightarrow> val b \<noteq> 0 \<Longrightarrow>
   fdiv a b = (if val a = 0 then signed_zero (neg_bit a \<noteq> neg_bit b) else rnd (val a / val b))"
  by (auto simp: fdiv_def Let_def)

lemma fdiv_abs_error:
  assumes "is_finite a" "is_finite b" "val b \<noteq> 0" "\<bar>val a / val b\<bar> \<le> 2 ^ 21"
  shows "is_finite (fdiv a b) \<and> \<bar>val (fdiv a b) - val a / val b\<bar> \<le> 1 / 2 ^ 32"
  using rnd_abs_error [OF assms(4)] assms(1-3) by (auto simp: fdiv_finite)

end
