(* ===== verification/Broker_Api.thy ===== *)
theory Broker_Api
  imports Float64
begin

text \<open>
  The broker-agnostic value types of \<open>corsair_broker_api\<close>: contracts, orders, fills,
  ticks, positions and connection states, with the small methods they carry. Identifiers
  (\<open>OrderId\<close>, \<open>InstrumentId\<close>, \<open>TickStreamHandle\<close>) are the \<open>u64\<close> they wrap. A
  \<open>chrono::NaiveDate\<close> is the number of days since 1970-01-01 and a
  \<open>DateTime<Utc>\<close> the number of nanoseconds since the epoch; the code compares dates
  and subtracts times only. Strings are lists of characters with code points below 256:
  the symbols, rights and order references of the protocol are ASCII.
\<close>

type_synonym order_id = int
type_synonym instrument_id = int
type_synonym stream_handle = int
type_synonym naive_date = int
type_synonym date_time = int

text \<open>\<open>char::to_ascii_uppercase\<close>.\<close>

definition to_ascii_uppercase :: "char \<Rightarrow> char" where
  "to_ascii_uppercase c =
     (let n = (of_char c :: int)
      in if 97 \<le> n \<and> n \<le> 122 then char_of (n - 32) else c)"

section \<open>contract.rs\<close>

datatype contract_kind = Future | OptionKind

datatype right = Call | Put

fun right_as_char :: "right \<Rightarrow> char" where
  "right_as_char Call = CHR ''C''"
| "right_as_char Put = CHR ''P''"

definition right_from_char :: "char \<Rightarrow> right option" where
  "right_from_char c =
     (let u = to_ascii_uppercase c
      in if u = CHR ''C'' then Some Call
         else if u = CHR ''P'' then Some Put
         else None)"

datatype exchange = Cme | Comex | Nymex | Cbot | OtherExchange int

datatype currency = Usd | Eur | Gbp | Jpy

record contract =
  c_instrument_id :: instrument_id
  c_kind :: contract_kind
  c_symbol :: string
  c_local_symbol :: string
  c_expiry :: naive_date
  c_strike :: "f64 option"
  c_right :: "right option"
  c_multiplier :: f64
  c_exchange :: exchange
  c_currency :: currency

record future_query =
  fq_symbol :: string
  fq_expiry :: naive_date
  fq_exchange :: exchange
  fq_currency :: currency

record option_query =
  oq_symbol :: string
  oq_expiry :: naive_date
  oq_strike :: f64
  oq_right :: right
  oq_exchange :: exchange
  oq_currency :: currency
  oq_multiplier :: f64

record chain_query =
  cq_symbol :: string
  cq_exchange :: exchange
  cq_currency :: currency
  cq_kind :: "contract_kind option"
  cq_min_expiry :: "naive_date option"

section \<open>orders.rs\<close>

datatype side = Buy | Sell

fun side_as_char :: "side \<Rightarrow> char" where
  "side_as_char Buy = CHR ''B''"
| "side_as_char Sell = CHR ''S''"

datatype order_type = Limit | Market | StopLimit f64

datatype time_in_force = Gtc | Day | Gtd | Ioc | Fok

record place_order_req =
  po_contract :: contract
  po_side :: side
  po_qty :: int
  po_order_type :: order_type
  po_price :: "f64 option"
  po_tif :: time_in_force
  po_gtd_until_utc :: "date_time option"
  po_client_order_ref :: string
  po_account :: "string option"

record modify_order_req =
  mo_price :: "f64 option"
  mo_qty :: "int option"
  mo_gtd_until_utc :: "date_time option"

datatype order_status =
    PendingSubmit | Submitted | Filled | Cancelled | Rejected | PendingCancelStatus | Inactive

fun is_terminal :: "order_status \<Rightarrow> bool" where
  "is_terminal Filled = True"
| "is_terminal Cancelled = True"
| "is_terminal Rejected = True"
| "is_terminal _ = False"

record order_status_update =
  su_order_id :: order_id
  su_status :: order_status
  su_filled_qty :: int
  su_remaining_qty :: int
  su_avg_fill_price :: f64
  su_last_fill_price :: "f64 option"
  su_timestamp_ns :: int
  su_reject_reason :: "string option"

record open_order =
  oo_order_id :: order_id
  oo_contract :: contract
  oo_side :: side
  oo_qty :: int
  oo_order_type :: order_type
  oo_price :: "f64 option"
  oo_tif :: time_in_force
  oo_gtd_until_utc :: "date_time option"
  oo_client_order_ref :: string
  oo_status :: order_status
  oo_filled_qty :: int
  oo_remaining_qty :: int

section \<open>events.rs, tick.rs and position.rs\<close>

record fill =
  f_exec_id :: string
  f_order_id :: order_id
  f_instrument_id :: instrument_id
  f_side :: side
  f_qty :: int
  f_price :: f64
  f_timestamp_ns :: int
  f_commission :: "f64 option"

datatype connection_state =
    Disconnected | Connecting | Connected | LostConnection | Reconnecting | Closed

fun is_connected :: "connection_state \<Rightarrow> bool" where
  "is_connected Connected = True"
| "is_connected _ = False"

record connection_event =
  ce_state :: connection_state
  ce_reason :: "string option"
  ce_timestamp_ns :: int

datatype tick_kind = BidTick | AskTick | LastTick | BidSizeTick | AskSizeTick | VolumeTick

record tick =
  t_instrument_id :: instrument_id
  t_kind :: tick_kind
  t_price :: "f64 option"
  t_size :: "int option"
  t_timestamp_ns :: int

record tick_subscription =
  ts_instrument_id :: instrument_id
  ts_tick_by_tick :: bool
  ts_consumer_tag :: "string option"

record broker_position =
  bp_contract :: contract
  bp_quantity :: int
  bp_avg_cost :: f64
  bp_realized_pnl :: f64
  bp_unrealized_pnl :: f64

record account_snapshot =
  as_net_liquidation :: f64
  as_maintenance_margin :: f64
  as_initial_margin :: f64
  as_buying_power :: f64
  as_realized_pnl_today :: f64
  as_timestamp_ns :: int

section \<open>error.rs and capabilities.rs\<close>

datatype broker_error =
    ConnectionLostErr string
  | NotConnectedErr string
  | OrderRejectedErr "order_id option" string
  | CancelTerminalErr string
  | ModifyTerminalErr string
  | ContractNotFoundErr string
  | RateLimitedErr string
  | AccountErr string
  | InvalidRequestErr string
  | ProtocolErr "int option" string
  | InternalErr string

fun is_connection_error :: "broker_error \<Rightarrow> bool" where
  "is_connection_error (ConnectionLostErr _) = True"
| "is_connection_error (NotConnectedErr _) = True"
| "is_connection_error _ = False"

fun is_retriable :: "broker_error \<Rightarrow> bool" where
  "is_retriable (RateLimitedErr _) = True"
| "is_retriable (ConnectionLostErr _) = True"
| "is_retriable (ProtocolErr _ _) = True"
| "is_retriable _ = False"

datatype broker_kind = Ibkr | Ilink | Mock

record broker_capabilities =
  cap_kind :: broker_kind
  cap_requires_account_per_order :: bool
  cap_fills_on_separate_channel :: bool
  cap_supported_tifs :: "time_in_force list"
  cap_typical_rtt_ms :: "int \<times> int"
  cap_provides_maintenance_margin :: bool

definition ibkr_default :: broker_capabilities where
  "ibkr_default =
     \<lparr>cap_kind = Ibkr, cap_requires_account_per_order = True,
      cap_fills_on_separate_channel = False,
      cap_supported_tifs = [Gtc, Day, Gtd, Ioc, Fok],
      cap_typical_rtt_ms = (50, 300), cap_provides_maintenance_margin = True\<rparr>"

definition ilink_default :: broker_capabilities where
  "ilink_default =
     \<lparr>cap_kind = Ilink, cap_requires_account_per_order = False,
      cap_fills_on_separate_channel = True,
      cap_supported_tifs = [Day, Gtd, Ioc],
      cap_typical_rtt_ms = (1, 5), cap_provides_maintenance_margin = False\<rparr>"

section \<open>The strike grid\<close>

text \<open>
  The four-decimal integer key of a strike, \<open>(strike * 10_000.0).round() as i64\<close>. The
  same expression appears in the order book, the position book and the market data
  state; it is one function here.
\<close>

definition strike_key :: "f64 \<Rightarrow> int" where
  "strike_key s = to_i64 (fround (fmul s (lit 10000)))"

text \<open>A strike within rounding distance of the grid point \<open>n / 10000\<close> has the key \<open>n\<close>.\<close>

lemma strike_key_near:
  assumes s: "is_finite s" and d: "\<bar>val s * 10000 - of_int n\<bar> \<le> 1 / 4" and n: "\<bar>n\<bar> \<le> 2 ^ 45"
  shows "strike_key s = n"
proof -
  let ?q = "val s * 10000"
  let ?y = "fmul s (lit 10000)"
  have y: "val ?y = (if ?q = 0 then 0 else val (rnd ?q))" "is_finite ?y = (?q = 0 \<or> is_finite (rnd ?q))"
    using s by (auto simp: fmul_def Let_def signed_zero_def)
  have fin: "is_finite ?y \<and> \<bar>val ?y - of_int n\<bar> < 1 / 2"
  proof (cases "n = 0")
    case True
    with d have "\<bar>?q\<bar> \<le> 1 / 4" by simp
    then have "- (1 / 4) \<le> ?q" "?q \<le> 1 / 4" by (auto simp: abs_le_iff)
    then have "fle (rnd (- (1 / 4))) (rnd ?q)" "fle (rnd ?q) (rnd (1 / 4))"
      by (auto intro!: rnd_mono)
    moreover have "rep (1 / 4)"
      unfolding rep_def by (intro exI [of _ 1] exI [of _ "- 2"]) (simp add: p2_def)
    ultimately have "is_finite (rnd ?q) \<and> - (1 / 4) \<le> val (rnd ?q) \<and> val (rnd ?q) \<le> 1 / 4"
      using rnd_exact [of "1 / 4"] rnd_exact [of "- (1 / 4)"]
      by (cases "rnd ?q") (auto simp: fle_def)
    then show ?thesis using True y by (auto simp: abs_less_iff)
  next
    case False
    then have "1 \<le> \<bar>of_int n :: rat\<bar>" by (simp flip: of_int_abs)
    moreover have "\<bar>of_int n :: rat\<bar> \<le> 2 ^ 45" using n by (simp flip: of_int_abs)
    ultimately have q: "3 / 4 \<le> \<bar>?q\<bar>" "\<bar>?q\<bar> \<le> 2 ^ 45 + 1" using d by linarith+
    have lo: "p2 (- 1000) \<le> \<bar>?q\<bar>" using q p2_m1000 by linarith
    have hi: "\<bar>?q\<bar> < p2 1000" using q p2_1000 by simp
    from rnd_rel_error [OF lo hi] q have "is_finite (rnd ?q)" "\<bar>val (rnd ?q) - ?q\<bar> < 1 / 4" by auto
    moreover from this(2) d have "\<bar>val (rnd ?q) - of_int n\<bar> < 1 / 2" by linarith
    ultimately show ?thesis using y q by auto
  qed
  show ?thesis
  proof (cases ?y)
    case (Fin v)
    with fin have "\<bar>v - of_int n\<bar> < 1 / 2" by simp
    from fround_near [OF this] Fin n show ?thesis
      by (simp only: strike_key_def) (rule to_i64_of_int, auto)
  next
    case NZero
    with fin have "\<bar>of_int n :: rat\<bar> < 1 / 2" by simp
    then have "n = 0" by (simp flip: of_int_abs)
    with NZero show ?thesis by (simp add: strike_key_def to_i64_def trunc_def)
  qed (use fin in auto)
qed

lemma strike_key_grid:
  "\<bar>n\<bar> \<le> 2 ^ 45 \<Longrightarrow> strike_key (fdiv (of_i n) (lit 10000)) = n"
proof -
  assume n: "\<bar>n\<bar> \<le> 2 ^ 45"
  show ?thesis
  proof (cases "n = 0")
    case True
    then show ?thesis
      by (simp add: fdiv_def signed_zero_def strike_key_def fmul_def to_i64_def trunc_def)
  next
    case False
    let ?q = "of_int n / 10000 :: rat"
    have "1 \<le> \<bar>of_int n :: rat\<bar>" using False by (simp flip: of_int_abs)
    moreover have m: "\<bar>of_int n :: rat\<bar> \<le> 2 ^ 45" using n by (simp flip: of_int_abs)
    ultimately have q: "1 / 10000 \<le> \<bar>?q\<bar>" "\<bar>?q\<bar> \<le> 2 ^ 45" by (auto simp: field_simps)
    have lo: "p2 (- 1000) \<le> \<bar>?q\<bar>" using q p2_m1000 by linarith
    have hi: "\<bar>?q\<bar> < p2 1000" using q p2_1000 by simp
    note e = rnd_rel_error [OF lo hi]
    have d: "fdiv (of_i n) (lit 10000) = rnd ?q" using n False by (simp add: fdiv_def)
    show ?thesis
    proof (rule strike_key_near)
      have "\<bar>val (rnd ?q) * 10000 - of_int n\<bar> = 10000 * \<bar>val (rnd ?q) - ?q\<bar>"
        by (simp add: abs_mult_pos' algebra_simps)
      also have "\<dots> \<le> 10000 * (\<bar>?q\<bar> / 2 ^ 53)" using e(2) by (intro mult_left_mono) auto
      also have "\<dots> \<le> 1 / 4" using m by simp
      finally show "\<bar>val (fdiv (of_i n) (lit 10000)) * 10000 - of_int n\<bar> \<le> 1 / 4" by (simp only: d)
    qed (use e(1) n d in \<open>simp_all only:\<close>)
  qed
qed

lemma right_from_as_char [simp]: "right_from_char (right_as_char r) = Some r"
  by (cases r) (simp_all add: right_from_char_def to_ascii_uppercase_def)

lemma right_as_char_inj [simp]: "right_as_char r = right_as_char r' \<longleftrightarrow> r = r'"
  by (cases r; cases r') simp_all

lemma side_as_char_inj [simp]: "side_as_char r = side_as_char r' \<longleftrightarrow> r = r'"
  by (cases r; cases r') simp_all

end
