(* ===== verification/Orders.thy ===== *)
theory Orders
  imports Broker_Api
begin

text \<open>
  The order book of \<open>corsair_oms\<close> (\<open>key.rs\<close>, \<open>book.rs\<close>): the resting orders keyed by
  strike, expiry, right and side, the reverse index from broker order ids, and the
  operations that place, link, update and cancel them. The two indices are related by
  \<open>book_inv\<close>; the book is shown to keep it under every operation but an acknowledgement
  that reuses an id or replaces one (\<open>ack_ok\<close>), and to refine a per-key order life cycle.
\<close>

section \<open>Keys, records, book\<close>

record our_key =
  k_strike_key :: int
  k_expiry :: naive_date
  k_right :: right
  k_side :: side

definition our_key_new :: "f64 \<Rightarrow> naive_date \<Rightarrow> right \<Rightarrow> side \<Rightarrow> our_key" where
  "our_key_new strike expiry r s =
     \<lparr>k_strike_key = strike_key strike, k_expiry = expiry, k_right = r, k_side = s\<rparr>"

definition our_key_strike :: "our_key \<Rightarrow> f64" where
  "our_key_strike k = fdiv (of_i (k_strike_key k)) (lit 10000)"

datatype order_state = Pending | Live | PendingCancel | Terminal

record order_record =
  or_key :: our_key
  or_order_id :: "order_id option"
  or_price :: f64
  or_qty :: int
  or_state :: order_state
  or_placed_at :: date_time
  or_last_send_ns :: int

text \<open>\<open>num_milliseconds\<close> of a duration truncates towards zero.\<close>

definition age_seconds :: "date_time \<Rightarrow> order_record \<Rightarrow> f64" where
  "age_seconds now r =
     fdiv (of_i (trunc (of_int (now - or_placed_at r) / 10 ^ 6))) (lit 1000)"

definition is_live :: "order_record \<Rightarrow> bool" where
  "is_live r \<longleftrightarrow> or_state r = Live \<or> or_state r = Pending"

record order_book_counters =
  ct_places :: int
  ct_cancels :: int
  ct_modifies :: int
  ct_dead_band_skips :: int
  ct_gtd_refreshes :: int
  ct_cooldown_skips :: int
  ct_place_acks :: int
  ct_fills :: int
  ct_rejects :: int

definition order_book_counters_default :: order_book_counters where
  "order_book_counters_default =
     \<lparr>ct_places = 0, ct_cancels = 0, ct_modifies = 0, ct_dead_band_skips = 0,
      ct_gtd_refreshes = 0, ct_cooldown_skips = 0, ct_place_acks = 0, ct_fills = 0,
      ct_rejects = 0\<rparr>"

record order_book =
  by_key :: "(our_key, order_record) hmap"
  by_order_id :: "(order_id, our_key) hmap"
  counters :: order_book_counters

definition book_new :: order_book where
  "book_new = \<lparr>by_key = hm_new, by_order_id = hm_new, counters = order_book_counters_default\<rparr>"

section \<open>Operations\<close>

definition book_len :: "order_book \<Rightarrow> nat" where
  "book_len b = hm_len (by_key b)"

definition book_is_empty :: "order_book \<Rightarrow> bool" where
  "book_is_empty b \<longleftrightarrow> hm_len (by_key b) = 0"

definition book_get :: "order_book \<Rightarrow> our_key \<Rightarrow> order_record option" where
  "book_get b k = hm_get (by_key b) k"

definition get_by_order_id :: "order_book \<Rightarrow> order_id \<Rightarrow> order_record option" where
  "get_by_order_id b oid =
     (case hm_get (by_order_id b) oid of
        None \<Rightarrow> None
      | Some k \<Rightarrow> hm_get (by_key b) k)"

definition live_orders :: "order_book \<Rightarrow> order_record list" where
  "live_orders b = filter is_live (hm_values (by_key b))"

definition upsert_pending ::
  "date_time \<Rightarrow> our_key \<Rightarrow> f64 \<Rightarrow> int \<Rightarrow> int \<Rightarrow> order_book \<Rightarrow> order_book" where
  "upsert_pending now k price qty last_send_ns b =
     (let ids = (case hm_get (by_key b) k of
                   None \<Rightarrow> by_order_id b
                 | Some prev \<Rightarrow>
                     (case or_order_id prev of
                        None \<Rightarrow> by_order_id b
                      | Some oid \<Rightarrow> hm_remove oid (by_order_id b)));
          rec = \<lparr>or_key = k, or_order_id = None, or_price = price, or_qty = qty,
                 or_state = Pending, or_placed_at = now, or_last_send_ns = last_send_ns\<rparr>
      in \<lparr>by_key = hm_insert k rec (by_key b), by_order_id = ids,
          counters = (counters b)\<lparr>ct_places := wrap_u32 (ct_places (counters b) + 1)\<rparr>\<rparr>)"

definition link_order_id :: "our_key \<Rightarrow> order_id \<Rightarrow> order_book \<Rightarrow> order_book" where
  "link_order_id k oid b =
     (let b1 = (case hm_get (by_key b) k of
                  None \<Rightarrow> b
                | Some r \<Rightarrow>
                    b\<lparr>by_key := hm_insert k (r\<lparr>or_order_id := Some oid\<rparr>) (by_key b),
                      by_order_id := hm_insert oid k (by_order_id b)\<rparr>)
      in b1\<lparr>counters :=
              (counters b1)\<lparr>ct_place_acks := wrap_u32 (ct_place_acks (counters b1) + 1)\<rparr>\<rparr>)"

text \<open>What a status does to a record, to the counters, and whether it removes the record.\<close>

fun status_state :: "order_status \<Rightarrow> order_state" where
  "status_state PendingSubmit = Pending"
| "status_state PendingCancelStatus = Pending"
| "status_state Submitted = Live"
| "status_state Filled = Terminal"
| "status_state Cancelled = Terminal"
| "status_state Rejected = Terminal"
| "status_state Inactive = Terminal"

fun status_count :: "order_status \<Rightarrow> order_book_counters \<Rightarrow> order_book_counters" where
  "status_count Filled c = c\<lparr>ct_fills := wrap_u32 (ct_fills c + 1)\<rparr>"
| "status_count Cancelled c = c\<lparr>ct_cancels := wrap_u32 (ct_cancels c + 1)\<rparr>"
| "status_count Rejected c = c\<lparr>ct_rejects := wrap_u32 (ct_rejects c + 1)\<rparr>"
| "status_count _ c = c"

fun status_removes :: "order_status \<Rightarrow> bool" where
  "status_removes Filled = True"
| "status_removes Cancelled = True"
| "status_removes Rejected = True"
| "status_removes Inactive = True"
| "status_removes _ = False"

definition apply_status :: "order_id \<Rightarrow> order_status \<Rightarrow> order_book \<Rightarrow> order_book \<times> bool" where
  "apply_status oid status b =
     (case hm_get (by_order_id b) oid of
        None \<Rightarrow> (b, False)
      | Some k \<Rightarrow>
          (case hm_get (by_key b) k of
             None \<Rightarrow> (b, True)
           | Some r \<Rightarrow>
               (let b1 = b\<lparr>by_key := hm_insert k (r\<lparr>or_state := status_state status\<rparr>) (by_key b),
                           counters := status_count status (counters b)\<rparr>
                in (if status_removes status
                    then b1\<lparr>by_key := hm_remove k (by_key b1),
                            by_order_id := hm_remove oid (by_order_id b1)\<rparr>
                    else b1, True))))"

definition mark_pending_cancel :: "our_key \<Rightarrow> order_book \<Rightarrow> order_book" where
  "mark_pending_cancel k b =
     (case hm_get (by_key b) k of
        None \<Rightarrow> b
      | Some r \<Rightarrow> b\<lparr>by_key := hm_insert k (r\<lparr>or_state := PendingCancel\<rparr>) (by_key b)\<rparr>)"

definition count_state :: "order_state \<Rightarrow> order_record list \<Rightarrow> int" where
  "count_state s rs = int (length (filter (\<lambda>r. or_state r = s) rs))"

definition snapshot_state_counts :: "order_book \<Rightarrow> (order_state \<times> int) list" where
  "snapshot_state_counts b =
     map (\<lambda>s. (s, wrap_u32 (count_state s (hm_values (by_key b)))))
       [Pending, Live, PendingCancel, Terminal]"

definition book_clear :: "order_book \<Rightarrow> order_book" where
  "book_clear b = b\<lparr>by_key := hm_new, by_order_id := hm_new\<rparr>"

section \<open>The invariant\<close>

definition book_inv :: "order_book \<Rightarrow> bool" where
  "book_inv b \<longleftrightarrow>
     hm_ok (by_key b) \<and> hm_ok (by_order_id b) \<and>
     (\<forall>k r. hm_get (by_key b) k = Some r \<longrightarrow> or_key r = k \<and> or_state r \<noteq> Terminal) \<and>
     (\<forall>oid k. hm_get (by_order_id b) oid = Some k \<longleftrightarrow>
        (\<exists>r. hm_get (by_key b) k = Some r \<and> or_order_id r = Some oid))"

lemma book_inv_ok [simp]: "book_inv b \<Longrightarrow> hm_ok (by_key b)" "book_inv b \<Longrightarrow> hm_ok (by_order_id b)"
  by (simp_all add: book_inv_def)

lemma book_inv_record:
  "book_inv b \<Longrightarrow> hm_get (by_key b) k = Some r \<Longrightarrow> or_key r = k \<and> or_state r \<noteq> Terminal"
  unfolding book_inv_def by blast

lemma book_inv_index:
  "book_inv b \<Longrightarrow> hm_get (by_order_id b) oid = Some k \<longleftrightarrow>
   (\<exists>r. hm_get (by_key b) k = Some r \<and> or_order_id r = Some oid)"
  unfolding book_inv_def by blast

lemma book_inv_unique:
  assumes "book_inv b" "hm_get (by_key b) k = Some r" "or_order_id r = Some oid"
    "hm_get (by_key b) k' = Some r'" "or_order_id r' = Some oid"
  shows "k = k'"
proof -
  from assms have "hm_get (by_order_id b) oid = Some k" "hm_get (by_order_id b) oid = Some k'"
    using book_inv_index by blast+
  then show ?thesis by simp
qed

lemma book_inv_unlinked:
  "book_inv b \<Longrightarrow> hm_get (by_order_id b) oid = None \<Longrightarrow> hm_get (by_key b) k = Some r \<Longrightarrow>
   or_order_id r \<noteq> Some oid"
  using book_inv_index [of b oid k] by auto

lemma status_state_Terminal: "status_state st = Terminal \<longleftrightarrow> status_removes st"
  by (cases st) simp_all

lemma book_invI:
  assumes "hm_ok (by_key b)" "hm_ok (by_order_id b)"
    and "\<And>k r. hm_get (by_key b) k = Some r \<Longrightarrow> or_key r = k \<and> or_state r \<noteq> Terminal"
    and "\<And>oid k. hm_get (by_order_id b) oid = Some k \<longleftrightarrow>
           (\<exists>r. hm_get (by_key b) k = Some r \<and> or_order_id r = Some oid)"
  shows "book_inv b"
  unfolding book_inv_def using assms by blast

lemma book_new_inv [inv_intros]: "book_inv book_new"
  by (rule book_invI) (simp_all add: book_new_def hm_simps hm.ok_new)

lemma book_clear_inv [inv_intros]: "book_inv (book_clear b)"
  by (rule book_invI) (simp_all add: book_clear_def hm_simps hm.ok_new)

lemma upsert_pending_inv [inv_intros]:
  assumes "book_inv b"
  shows "book_inv (upsert_pending now k p q t b)"
proof (rule book_invI)
  show "hm_ok (by_key (upsert_pending now k p q t b))"
    "hm_ok (by_order_id (upsert_pending now k p q t b))"
    using assms by (auto simp: upsert_pending_def Let_def hm.ok_insert hm.ok_remove split: option.splits)
qed (use assms in \<open>auto simp: upsert_pending_def Let_def hm_simps book_inv_index dest: book_inv_record book_inv_unique book_inv_unlinked
       split: option.splits if_splits\<close>)

text \<open>
  \<open>link_order_id\<close> checks nothing. \<open>ack_ok\<close> is what an acknowledgement has to satisfy for the
  two indices to keep agreeing: the key has no record, or its record already carries the
  same id, or its record carries none and no order in the book carries the id.
\<close>

definition ack_ok :: "our_key \<Rightarrow> order_id \<Rightarrow> order_book \<Rightarrow> bool" where
  "ack_ok k oid b \<longleftrightarrow>
     (case book_get b k of
        None \<Rightarrow> True
      | Some r \<Rightarrow> or_order_id r = Some oid \<or>
                   (or_order_id r = None \<and> get_by_order_id b oid = None))"

lemma book_inv_counters [simp]: "book_inv (b\<lparr>counters := c\<rparr>) = book_inv b"
proof -
  have e: "by_key (b\<lparr>counters := c\<rparr>) = by_key b" "by_order_id (b\<lparr>counters := c\<rparr>) = by_order_id b"
    by simp_all
  show ?thesis unfolding book_inv_def e ..
qed

lemma link_order_id_inv:
  assumes inv: "book_inv b" and ok: "ack_ok k oid b"
  shows "book_inv (link_order_id k oid b)"
proof (cases "hm_get (by_key b) k")
  case None
  with inv show ?thesis by (simp add: link_order_id_def Let_def)
next
  case (Some r)
  have oks: "hm_ok (by_key (link_order_id k oid b))" "hm_ok (by_order_id (link_order_id k oid b))"
    using inv Some by (simp_all add: link_order_id_def Let_def hm.ok_insert)
  have recs: "or_key r' = k' \<and> or_state r' \<noteq> Terminal"
    if "hm_get (by_key (link_order_id k oid b)) k' = Some r'" for k' r'
    using that book_inv_record [OF inv] Some
    by (auto simp: link_order_id_def Let_def hm_simps split: if_splits)
  show ?thesis
  proof (cases "or_order_id r = Some oid")
    case True
    then have same: "r\<lparr>or_order_id := Some oid\<rparr> = r" by (cases r) simp
    from True Some have ix: "hm_get (by_order_id b) oid = Some k"
      using book_inv_index [OF inv] by blast
    have "hm_get (by_key (link_order_id k oid b)) k' = hm_get (by_key b) k'"
      "hm_get (by_order_id (link_order_id k oid b)) oid' = hm_get (by_order_id b) oid'" for k' oid'
      using Some ix by (simp_all add: link_order_id_def Let_def hm_simps same)
    then show ?thesis
      by (intro book_invI [OF oks recs]) (simp_all add: book_inv_index [OF inv])
  next
    case False
    with ok Some have un: "or_order_id r = None" and fresh: "get_by_order_id b oid = None"
      by (auto simp: ack_ok_def book_get_def)
    have "hm_get (by_order_id b) oid = None"
    proof (cases "hm_get (by_order_id b) oid")
      case (Some k2)
      then obtain r2 where "hm_get (by_key b) k2 = Some r2"
        using book_inv_index [OF inv] by blast
      with fresh Some show ?thesis by (simp add: get_by_order_id_def)
    qed
    then have no: "or_order_id r' \<noteq> Some oid" if "hm_get (by_key b) k' = Some r'" for k' r'
      using book_inv_unlinked [OF inv _ that] by blast
    show ?thesis
      by (rule book_invI [OF oks recs])
        (use Some un no in \<open>auto simp: link_order_id_def Let_def hm_simps book_inv_index [OF inv]\<close>)
  qed
qed

lemma mark_pending_cancel_inv [inv_intros]:
  assumes inv: "book_inv b"
  shows "book_inv (mark_pending_cancel k b)"
proof (cases "hm_get (by_key b) k")
  case None
  with inv show ?thesis by (simp add: mark_pending_cancel_def)
next
  case (Some r)
  show ?thesis
  proof (rule book_invI)
    show "hm_ok (by_key (mark_pending_cancel k b))"
      "hm_ok (by_order_id (mark_pending_cancel k b))"
      using inv Some by (simp_all add: mark_pending_cancel_def hm.ok_insert)
  qed (use inv book_inv_record [OF inv] Some in
      \<open>auto simp: mark_pending_cancel_def hm_simps book_inv_index [OF inv] split: if_splits\<close>)
qed

lemma apply_status_unknown: "hm_get (by_order_id b) oid = None \<Longrightarrow> apply_status oid st b = (b, False)"
  by (simp add: apply_status_def)

lemma apply_status_known:
  "hm_get (by_order_id b) oid = Some k \<Longrightarrow> hm_get (by_key b) k = Some r \<Longrightarrow>
   apply_status oid st b =
     (b\<lparr>by_key := (if status_removes st
                  then hm_remove k (hm_insert k (r\<lparr>or_state := status_state st\<rparr>) (by_key b))
                  else hm_insert k (r\<lparr>or_state := status_state st\<rparr>) (by_key b)),
       by_order_id := (if status_removes st then hm_remove oid (by_order_id b) else by_order_id b),
       counters := status_count st (counters b)\<rparr>, True)"
  by (simp add: apply_status_def Let_def)

lemma apply_status_inv [inv_intros]:
  assumes inv: "book_inv b"
  shows "book_inv (fst (apply_status oid st b))"
proof (cases "hm_get (by_order_id b) oid")
  case None
  with inv show ?thesis by (simp add: apply_status_unknown)
next
  case (Some k)
  then obtain r where r: "hm_get (by_key b) k = Some r" "or_order_id r = Some oid"
    using book_inv_index [OF inv] by blast
  note eq = apply_status_known [OF Some r(1)]
  have no: "or_order_id r' \<noteq> Some oid" if "hm_get (by_key b) k' = Some r'" "k' \<noteq> k" for k' r'
    using book_inv_unique [OF inv that(1) _ r] that(2) by blast
  show ?thesis
  proof (rule book_invI)
    show "hm_ok (by_key (fst (apply_status oid st b)))"
      "hm_ok (by_order_id (fst (apply_status oid st b)))"
      using inv by (simp_all add: eq hm.ok_insert hm.ok_remove)
  next
    fix k' r'
    assume "hm_get (by_key (fst (apply_status oid st b))) k' = Some r'"
    then show "or_key r' = k' \<and> or_state r' \<noteq> Terminal"
      using book_inv_record [OF inv] r
      by (auto simp: eq hm_simps status_state_Terminal split: if_splits)
  next
    fix oid' k'
    show "hm_get (by_order_id (fst (apply_status oid st b))) oid' = Some k' \<longleftrightarrow>
      (\<exists>r. hm_get (by_key (fst (apply_status oid st b))) k' = Some r \<and> or_order_id r = Some oid')"
      using r no by (auto simp: eq hm_simps book_inv_index [OF inv])
  qed
qed


section \<open>Runs of the book\<close>

text \<open>
  The calls that change a book, with arbitrary arguments and in any order: nothing is
  assumed of who makes them. \<open>acks_valid\<close> says of a sequence of calls that each
  acknowledgement in it satisfies \<open>ack_ok\<close> on the book it meets; the other calls are
  unrestricted.
\<close>

datatype book_op =
    PlaceOp date_time our_key f64 int int
  | AckOp our_key order_id
  | StatusOp order_id order_status
  | CancelOp our_key
  | ClearOp

fun book_apply :: "book_op \<Rightarrow> order_book \<Rightarrow> order_book" where
  "book_apply (PlaceOp now k p q t) b = upsert_pending now k p q t b"
| "book_apply (AckOp k oid) b = link_order_id k oid b"
| "book_apply (StatusOp oid st) b = fst (apply_status oid st b)"
| "book_apply (CancelOp k) b = mark_pending_cancel k b"
| "book_apply ClearOp b = book_clear b"

fun book_run :: "book_op list \<Rightarrow> order_book \<Rightarrow> order_book" where
  "book_run [] b = b"
| "book_run (op # ops) b = book_run ops (book_apply op b)"

fun op_ok :: "book_op \<Rightarrow> order_book \<Rightarrow> bool" where
  "op_ok (AckOp k oid) b = ack_ok k oid b"
| "op_ok _ b = True"

fun acks_valid :: "book_op list \<Rightarrow> order_book \<Rightarrow> bool" where
  "acks_valid [] b = True"
| "acks_valid (op # ops) b \<longleftrightarrow> op_ok op b \<and> acks_valid ops (book_apply op b)"

lemma book_apply_inv: "book_inv b \<Longrightarrow> op_ok op b \<Longrightarrow> book_inv (book_apply op b)"
  by (cases op) (auto intro: inv_intros link_order_id_inv)

lemma book_run_inv: "book_inv b \<Longrightarrow> acks_valid ops b \<Longrightarrow> book_inv (book_run ops b)"
  by (induction ops arbitrary: b) (auto intro: book_apply_inv)

lemmas book_reached_inv = book_run_inv [OF book_new_inv]

text \<open>Whatever is called: every record is stored under its own key and none is terminal.\<close>

definition records_ok :: "order_book \<Rightarrow> bool" where
  "records_ok b \<longleftrightarrow>
     hm_ok (by_key b) \<and>
     (\<forall>k r. book_get b k = Some r \<longrightarrow> or_key r = k \<and> or_state r \<noteq> Terminal)"

lemma records_okI:
  "hm_ok (by_key b) \<Longrightarrow>
   (\<And>k r. hm_get (by_key b) k = Some r \<Longrightarrow> or_key r = k \<and> or_state r \<noteq> Terminal) \<Longrightarrow> records_ok b"
  by (simp add: records_ok_def book_get_def)

lemma book_apply_records:
  assumes "records_ok b"
  shows "records_ok (book_apply op b)"
proof -
  from assms have ok: "hm_ok (by_key b)"
    and rec: "\<And>k r. hm_get (by_key b) k = Some r \<Longrightarrow> or_key r = k \<and> or_state r \<noteq> Terminal"
    by (auto simp: records_ok_def book_get_def)
  show ?thesis
  proof (cases op)
    case (PlaceOp now k p q t)
    then show ?thesis
      by (intro records_okI) (auto simp: upsert_pending_def Let_def hm_simps hm.ok_insert ok dest: rec split: if_splits)
  next
    case (AckOp k oid)
    then show ?thesis
      by (intro records_okI)
        (auto simp: link_order_id_def Let_def hm_simps hm.ok_insert ok dest: rec
          split: if_splits option.splits)
  next
    case (StatusOp oid st)
    then show ?thesis
      by (intro records_okI)
        (auto simp: apply_status_def Let_def hm_simps hm.ok_insert hm.ok_remove ok
          status_state_Terminal dest: rec split: if_splits option.splits)
  next
    case (CancelOp k)
    then show ?thesis
      by (intro records_okI)
        (auto simp: mark_pending_cancel_def hm_simps hm.ok_insert ok dest: rec
          split: if_splits option.splits)
  next
    case ClearOp
    then show ?thesis
      by (intro records_okI) (auto simp: book_clear_def hm_simps hm.ok_new)
  qed
qed

lemma book_run_records: "records_ok b \<Longrightarrow> records_ok (book_run ops b)"
  by (induction ops arbitrary: b) (auto intro: book_apply_records)

lemma book_new_records: "records_ok book_new"
  by (rule records_okI) (simp_all add: book_new_def hm_simps hm.ok_new)

text \<open>The agreement of the two indices, in terms of the look-ups the book offers.\<close>

definition indices_agree :: "order_book \<Rightarrow> bool" where
  "indices_agree b \<longleftrightarrow>
     (\<forall>oid r. get_by_order_id b oid = Some r \<longleftrightarrow>
        book_get b (or_key r) = Some r \<and> or_order_id r = Some oid)"

lemma get_by_order_id_iff:
  assumes inv: "book_inv b"
  shows "get_by_order_id b oid = Some r \<longleftrightarrow> book_get b (or_key r) = Some r \<and> or_order_id r = Some oid"
proof (cases "hm_get (by_order_id b) oid")
  case None
  then show ?thesis
    using book_inv_unlinked [OF inv None] by (auto simp: get_by_order_id_def book_get_def)
next
  case (Some k)
  then obtain r0 where r0: "hm_get (by_key b) k = Some r0" "or_order_id r0 = Some oid"
    using book_inv_index [OF inv] by blast
  have "or_key r = k" if "hm_get (by_key b) (or_key r) = Some r" "or_order_id r = Some oid"
    using book_inv_unique [OF inv that r0] .
  then show ?thesis
    using Some r0 book_inv_record [OF inv r0(1)]
    by (cases "r = r0") (auto simp: get_by_order_id_def book_get_def)
qed

lemma book_inv_agree: "book_inv b \<Longrightarrow> indices_agree b"
  by (simp add: indices_agree_def get_by_order_id_iff)

text \<open>An acknowledgement outside \<open>ack_ok\<close> breaks the agreement at once.\<close>

lemma bad_ack_disagrees:
  assumes inv: "book_inv b" and bad: "\<not> ack_ok k oid b"
  shows "\<not> indices_agree (link_order_id k oid b)"
proof -
  from bad obtain r where r: "hm_get (by_key b) k = Some r" and ne: "or_order_id r \<noteq> Some oid"
    and bad': "or_order_id r = None \<longrightarrow> get_by_order_id b oid \<noteq> None"
    by (auto simp: ack_ok_def book_get_def split: option.splits)
  let ?b = "link_order_id k oid b" and ?r = "r\<lparr>or_order_id := Some oid\<rparr>"
  show ?thesis
  proof (cases "or_order_id r")
    case (Some o1)
    with r have "hm_get (by_order_id b) o1 = Some k"
      using book_inv_index [OF inv] by blast
    with Some ne r have "get_by_order_id ?b o1 = Some ?r"
      by (simp add: link_order_id_def get_by_order_id_def hm_simps)
    moreover have "or_order_id ?r \<noteq> Some o1" using Some ne by simp
    ultimately show ?thesis unfolding indices_agree_def by blast
  next
    case None
    with bad' obtain r2 where g2: "get_by_order_id b oid = Some r2" by auto
    then have r2: "hm_get (by_key b) (or_key r2) = Some r2" "or_order_id r2 = Some oid"
      using get_by_order_id_iff [OF inv] by (auto simp: book_get_def)
    from r2 r None have k2: "or_key r2 \<noteq> k" by auto
    have "book_get ?b (or_key r2) = Some r2" "get_by_order_id ?b oid = Some ?r"
      using r r2 k2 by (simp_all add: link_order_id_def get_by_order_id_def book_get_def hm_simps)
    moreover have "or_key ?r \<noteq> or_key r2"
      using book_inv_record [OF inv r] k2 by auto
    then have "?r \<noteq> r2" by metis
    ultimately show ?thesis
      using r2(2) unfolding indices_agree_def by (metis option.inject)
  qed
qed

lemma agree_throughout_iff:
  assumes "book_inv b"
  shows "(\<forall>n \<le> length ops. indices_agree (book_run (take n ops) b)) \<longleftrightarrow> acks_valid ops b"
  using assms
proof (induction ops arbitrary: b)
  case Nil
  then show ?case by (simp add: book_inv_agree)
next
  case (Cons op ops)
  have sp: "(\<forall>n \<le> length (op # ops). indices_agree (book_run (take n (op # ops)) b)) \<longleftrightarrow>
      (\<forall>n \<le> length ops. indices_agree (book_run (take n ops) (book_apply op b)))"
    (is "?l \<longleftrightarrow> ?r")
  proof
    assume ?l
    show ?r
    proof (intro allI impI)
      fix n
      assume "n \<le> length ops"
      then show "indices_agree (book_run (take n ops) (book_apply op b))"
        using \<open>?l\<close> [rule_format, of "Suc n"] by simp
    qed
  next
    assume ?r
    show ?l
    proof (intro allI impI)
      fix n
      assume "n \<le> length (op # ops)"
      then show "indices_agree (book_run (take n (op # ops)) b)"
        using \<open>?r\<close> book_inv_agree [OF Cons.prems] by (cases n) auto
    qed
  qed
  show ?case
  proof (cases "op_ok op b")
    case True
    then show ?thesis
      unfolding sp using Cons.IH [OF book_apply_inv [OF Cons.prems True]] by simp
  next
    case False
    then have "\<not> indices_agree (book_apply op b)"
      using bad_ack_disagrees [OF Cons.prems] by (cases op) auto
    then have "\<not> (\<forall>n \<le> length ops. indices_agree (book_run (take n ops) (book_apply op b)))"
      by (auto intro!: exI [of _ 0])
    with False show ?thesis unfolding sp by simp
  qed
qed

section \<open>Refinement of the per-key life cycle\<close>

text \<open>
  The abstract book forgets the reverse index: each key has at most one order, with its
  broker id once acknowledged and its state. A status names a broker id and acts on the
  key that carries it.
\<close>

type_synonym abstract_book = "our_key \<Rightarrow> (order_id option \<times> order_state) option"

definition abs_book :: "order_book \<Rightarrow> abstract_book" where
  "abs_book b k = map_option (\<lambda>r. (or_order_id r, or_state r)) (hm_get (by_key b) k)"

definition spec_status :: "order_id \<Rightarrow> order_status \<Rightarrow> abstract_book \<Rightarrow> abstract_book" where
  "spec_status oid st a k =
     (case a k of
        Some (Some oid', s) \<Rightarrow>
          (if oid' = oid
           then (if status_removes st then None else Some (Some oid, status_state st))
           else a k)
      | _ \<Rightarrow> a k)"

definition spec_knows :: "order_id \<Rightarrow> abstract_book \<Rightarrow> bool" where
  "spec_knows oid a \<longleftrightarrow> (\<exists>k s. a k = Some (Some oid, s))"

fun spec_op :: "book_op \<Rightarrow> abstract_book \<Rightarrow> abstract_book" where
  "spec_op (PlaceOp now k p q t) a = a(k \<mapsto> (None, Pending))"
| "spec_op (AckOp k oid) a = (case a k of None \<Rightarrow> a | Some (_, s) \<Rightarrow> a(k \<mapsto> (Some oid, s)))"
| "spec_op (StatusOp oid st) a = spec_status oid st a"
| "spec_op (CancelOp k) a = (case a k of None \<Rightarrow> a | Some (i, _) \<Rightarrow> a(k \<mapsto> (i, PendingCancel)))"
| "spec_op ClearOp a = Map.empty"

definition spec_run :: "book_op list \<Rightarrow> abstract_book" where
  "spec_run ops = fold spec_op ops Map.empty"

lemma spec_knows_index:
  "book_inv b \<Longrightarrow> spec_knows oid (abs_book b) \<longleftrightarrow> hm_get (by_order_id b) oid \<noteq> None"
  by (auto simp: spec_knows_def abs_book_def book_inv_index)

lemma apply_status_refines_spec:
  assumes inv: "book_inv b"
  shows "abs_book (fst (apply_status oid st b)) = spec_status oid st (abs_book b)"
proof (rule ext)
  fix k'
  show "abs_book (fst (apply_status oid st b)) k' = spec_status oid st (abs_book b) k'"
  proof (cases "hm_get (by_order_id b) oid")
    case None
    then show ?thesis
      using book_inv_unlinked [OF inv None]
      by (auto simp: apply_status_unknown abs_book_def spec_status_def split: option.splits)
  next
    case (Some k)
    then obtain r where r: "hm_get (by_key b) k = Some r" "or_order_id r = Some oid"
      using book_inv_index [OF inv] by blast
    have "or_order_id r' \<noteq> Some oid" if "hm_get (by_key b) k' = Some r'" "k' \<noteq> k" for r'
      using book_inv_unique [OF inv that(1) _ r] that(2) by blast
    then show ?thesis
      using r by (cases "k' = k"; cases "hm_get (by_key b) k'")
        (auto simp: apply_status_known [OF Some r(1)] abs_book_def spec_status_def hm_simps
          split: option.splits)
  qed
qed

lemma book_apply_refines_spec:
  assumes inv: "book_inv b"
  shows "abs_book (book_apply op b) = spec_op op (abs_book b)"
proof (cases op)
  case (StatusOp oid st)
  then show ?thesis using apply_status_refines_spec [OF inv] by simp
qed (auto simp: abs_book_def upsert_pending_def link_order_id_def mark_pending_cancel_def
    book_clear_def Let_def hm_simps fun_eq_iff split: option.splits)

lemma book_run_refines_spec:
  "book_inv b \<Longrightarrow> acks_valid ops b \<Longrightarrow> abs_book (book_run ops b) = fold spec_op ops (abs_book b)"
  by (induction ops arbitrary: b) (simp_all add: book_apply_inv book_apply_refines_spec)

lemma abs_book_new: "abs_book book_new = Map.empty"
  by (simp add: abs_book_def book_new_def hm_simps fun_eq_iff)

section \<open>The interface the status pump uses\<close>

text \<open>
  What a consumer of order-status updates relies on: an update for an unknown id changes
  nothing and says so; a terminal update forgets the id; no update makes another id known
  or unknown.
\<close>

locale status_sink =
  fixes apply_st :: "order_id \<Rightarrow> order_status \<Rightarrow> 'b \<Rightarrow> 'b \<times> bool"
    and knows :: "'b \<Rightarrow> order_id \<Rightarrow> bool"
    and ok :: "'b \<Rightarrow> bool"
  assumes apply_st_ok: "ok b \<Longrightarrow> ok (fst (apply_st oid st b))"
    and apply_st_result: "ok b \<Longrightarrow> snd (apply_st oid st b) = knows b oid"
    and apply_st_unknown: "ok b \<Longrightarrow> \<not> knows b oid \<Longrightarrow> fst (apply_st oid st b) = b"
    and apply_st_knows: "ok b \<Longrightarrow> knows (fst (apply_st oid st b)) oid' \<longleftrightarrow>
          knows b oid' \<and> \<not> (oid' = oid \<and> status_removes st)"
begin

fun pump :: "(order_id \<times> order_status) list \<Rightarrow> 'b \<Rightarrow> 'b \<times> bool list" where
  "pump [] b = (b, [])"
| "pump ((oid, st) # us) b =
     (let (b1, res) = apply_st oid st b; (b2, ress) = pump us b1 in (b2, res # ress))"

lemma pump_ok: "ok b \<Longrightarrow> ok (fst (pump us b))"
proof (induction us arbitrary: b)
  case (Cons u us)
  then show ?case
    by (cases u) (simp add: case_prod_beta Let_def apply_st_ok)
qed simp

lemma pump_knows:
  "ok b \<Longrightarrow> knows (fst (pump us b)) oid \<longleftrightarrow>
   knows b oid \<and> (\<forall>st. (oid, st) \<in> set us \<longrightarrow> \<not> status_removes st)"
proof (induction us arbitrary: b)
  case (Cons u us)
  then show ?case
    by (cases u) (auto simp: case_prod_beta Let_def apply_st_ok apply_st_knows)
qed simp

lemma pump_after_terminal:
  "ok b \<Longrightarrow> (oid, st) \<in> set us \<Longrightarrow> status_removes st \<Longrightarrow>
   snd (apply_st oid st' (fst (pump us b))) = False"
  using apply_st_result [OF pump_ok] pump_knows by blast

end

definition book_knows :: "order_book \<Rightarrow> order_id \<Rightarrow> bool" where
  "book_knows b oid = hm_contains (by_order_id b) oid"

interpretation oms: status_sink apply_status book_knows book_inv
proof unfold_locales
  fix b oid st oid'
  assume inv: "book_inv b"
  show "book_inv (fst (apply_status oid st b))" by (rule apply_status_inv [OF inv])
  show "snd (apply_status oid st b) = book_knows b oid"
    by (auto simp: apply_status_def book_knows_def hm_contains_def Let_def split: option.splits)
  show "\<not> book_knows b oid \<Longrightarrow> fst (apply_status oid st b) = b"
    by (auto simp: apply_status_def book_knows_def hm_contains_def split: option.splits)
  show "book_knows (fst (apply_status oid st b)) oid' \<longleftrightarrow>
      book_knows b oid' \<and> \<not> (oid' = oid \<and> status_removes st)"
  proof (cases "hm_get (by_order_id b) oid")
    case None
    then show ?thesis by (auto simp: apply_status_unknown book_knows_def hm_contains_def)
  next
    case (Some k)
    then obtain r where "hm_get (by_key b) k = Some r"
      using book_inv_index [OF inv] by blast
    then show ?thesis
      by (auto simp: apply_status_known [OF Some] book_knows_def hm_contains_def hm_simps)
  qed
qed

section \<open>Properties\<close>

text \<open>A small book for the witnesses: one buy order, acknowledged as order 42.\<close>

definition demo_key :: our_key where
  "demo_key = \<lparr>k_strike_key = 60500, k_expiry = 20630, k_right = Call, k_side = Buy\<rparr>"

definition demo_placed :: order_book where
  "demo_placed = upsert_pending 0 demo_key (lit (1 / 40)) 1 0 book_new"

definition demo_book :: order_book where
  "demo_book = link_order_id demo_key 42 demo_placed"

definition demo_ops :: "book_op list" where
  "demo_ops = [PlaceOp 0 demo_key (lit (1 / 40)) 1 0, AckOp demo_key 42]"

lemma demo_placed_get:
  "book_get demo_placed k =
     (if k = demo_key
      then Some \<lparr>or_key = demo_key, or_order_id = None, or_price = lit (1 / 40), or_qty = 1,
                 or_state = Pending, or_placed_at = 0, or_last_send_ns = 0\<rparr>
      else None)"
  "hm_get (by_order_id demo_placed) oid = None"
  by (simp_all add: demo_placed_def upsert_pending_def book_new_def book_get_def hm_simps)

lemma demo_book_run: "demo_book = book_run demo_ops book_new"
  by (simp add: demo_book_def demo_placed_def demo_ops_def)

lemma demo_ops_ok: "acks_valid demo_ops book_new"
  using demo_placed_get(1) [of demo_key] demo_placed_get(2) [of 42]
  by (simp add: demo_ops_def ack_ok_def get_by_order_id_def flip: demo_placed_def)

lemma demo_book_inv: "book_inv demo_book"
  unfolding demo_book_run by (rule book_reached_inv [OF demo_ops_ok])

lemma demo_book_get:
  "book_get demo_book demo_key =
     Some \<lparr>or_key = demo_key, or_order_id = Some 42, or_price = lit (1 / 40), or_qty = 1,
           or_state = Pending, or_placed_at = 0, or_last_send_ns = 0\<rparr>"
  using demo_placed_get(1) [of demo_key]
  by (simp add: demo_book_def link_order_id_def book_get_def hm_simps)

lemma demo_book_lookup: "get_by_order_id demo_book 42 = Some (the (book_get demo_book demo_key))"
  using get_by_order_id_iff [OF demo_book_inv, of 42] demo_book_get
  by simp

text \<open>C7. The two indices of the book agree exactly as long as acknowledgements are
  well-formed. Take any sequence of placements, acknowledgements, status updates, cancels
  and clears on a fresh book. After every prefix of it, looking an order up by a broker id
  finds exactly the record that carries the id, stored under its own key, if and only if
  each acknowledgement names a key without a record, or repeats the id the record has, or
  gives a new id to a record without one. \<open>link_order_id\<close> does not check this condition, and
  an acknowledgement outside it breaks the agreement at once. In either case every record
  is stored under its own key and none is terminal.\<close>

theorem book_indices_agree:
  "((\<forall>n \<le> length ops. indices_agree (book_run (take n ops) book_new)) \<longleftrightarrow> acks_valid ops book_new) \<and>
   (\<forall>k r. book_get (book_run ops book_new) k = Some r \<longrightarrow> or_key r = k \<and> or_state r \<noteq> Terminal)"
  using agree_throughout_iff [OF book_new_inv, of ops] book_run_records [OF book_new_records, of ops]
  by (simp add: records_ok_def)

theorem book_indices_agree_witness:
  "indices_agree (book_run (take 1 demo_ops) book_new) \<and> indices_agree (book_run (take 2 demo_ops) book_new) \<and>
   (\<exists>r. get_by_order_id demo_book 42 = Some r \<and> book_get demo_book demo_key = Some r \<and>
        or_key r = demo_key \<and> or_state r \<noteq> Terminal) \<and>
   (\<exists>n \<le> 3. \<not> indices_agree (book_run (take n (demo_ops @ [AckOp demo_key 43])) book_new))"
proof -
  have bad: "\<not> acks_valid (demo_ops @ [AckOp demo_key 43]) book_new"
    using demo_book_get by (simp add: demo_ops_def ack_ok_def flip: demo_placed_def demo_book_def)
  have len: "length demo_ops = 2" "length (demo_ops @ [AckOp demo_key 43]) = 3"
    by (simp_all add: demo_ops_def)
  have good: "indices_agree (book_run (take n demo_ops) book_new)" if "n \<le> 2" for n
    using book_indices_agree [of demo_ops] demo_ops_ok that unfolding len by blast
  have "or_key (the (book_get demo_book demo_key)) = demo_key \<and> or_state (the (book_get demo_book demo_key)) \<noteq> Terminal"
    using book_indices_agree [of demo_ops] demo_book_get unfolding demo_book_run by simp
  moreover have "\<exists>n \<le> 3. \<not> indices_agree (book_run (take n (demo_ops @ [AckOp demo_key 43])) book_new)"
    using book_indices_agree [of "demo_ops @ [AckOp demo_key 43]"] bad unfolding len by blast
  ultimately show ?thesis
    using good [of 1] good [of 2] demo_book_lookup by (simp add: demo_book_get)
qed

text \<open>C5. The two-index book implements a table of per-key orders without a reverse index.
  After any sequence of calls whose acknowledgements are well-formed (each names a key
  without a record, repeats the record's id, or gives a new id to a record without one;
  the condition is a hypothesis, \<open>link_order_id\<close> does not check it), the book's content is
  that of the table, and a further status update changes the one key whose order carries
  the broker id (removing it for a terminal status), leaves every other key alone, and its
  result says whether some order carries the id.\<close>

theorem apply_status_refines_lifecycle:
  assumes "acks_valid ops book_new" and "b = book_run ops book_new"
  shows "abs_book b = spec_run ops \<and>
         abs_book (fst (apply_status oid st b)) = spec_status oid st (abs_book b) \<and>
         (snd (apply_status oid st b) \<longleftrightarrow> spec_knows oid (abs_book b))"
proof -
  have inv: "book_inv b" unfolding assms(2) by (rule book_reached_inv [OF assms(1)])
  have "abs_book b = spec_run ops"
    using book_run_refines_spec [OF book_new_inv assms(1)]
    by (simp add: assms(2) abs_book_new spec_run_def)
  with oms.apply_st_result [OF inv] spec_knows_index [OF inv] apply_status_refines_spec [OF inv]
  show ?thesis by (simp add: book_knows_def hm_contains_def)
qed

theorem apply_status_refines_lifecycle_witness:
  "spec_run demo_ops demo_key = Some (Some 42, Pending) \<and>
   abs_book demo_book demo_key = Some (Some 42, Pending) \<and>
   abs_book (fst (apply_status 42 Submitted demo_book)) demo_key = Some (Some 42, Live) \<and>
   abs_book (fst (apply_status 42 Filled demo_book)) demo_key = None \<and>
   snd (apply_status 42 Filled demo_book)"
proof -
  have "abs_book demo_book demo_key = Some (Some 42, Pending)"
    using demo_book_get by (simp add: abs_book_def book_get_def)
  then show ?thesis
    using apply_status_refines_lifecycle [OF demo_ops_ok demo_book_run, of 42 Submitted]
      apply_status_refines_lifecycle [OF demo_ops_ok demo_book_run, of 42 Filled]
    by (auto simp: spec_status_def spec_knows_def)
qed

text \<open>Placing over a resting order replaces it: the key holds a fresh pending record with
  the new price and size, the replaced order's broker id resolves to nothing, and every
  other broker id resolves as before.\<close>

theorem upsert_supersedes:
  assumes "book_inv b" "book_get b k = Some old" "or_order_id old = Some oid"
  shows "(\<exists>r. book_get (upsert_pending now k p q t b) k = Some r \<and> or_price r = p \<and> or_qty r = q \<and>
              or_state r = Pending \<and> or_order_id r = None) \<and>
         get_by_order_id (upsert_pending now k p q t b) oid = None \<and>
         (\<forall>oid'. oid' \<noteq> oid \<longrightarrow>
            get_by_order_id (upsert_pending now k p q t b) oid' = get_by_order_id b oid')"
proof -
  note inv = assms(1)
  have "hm_get (by_order_id b) oid' \<noteq> Some k" if "oid' \<noteq> oid" for oid'
    using book_inv_index [OF inv, of oid' k] assms(2,3) that by (auto simp: book_get_def)
  then show ?thesis
    using assms(2,3)
    by (auto simp: upsert_pending_def Let_def get_by_order_id_def book_get_def hm_simps
        split: option.splits)
qed

theorem upsert_supersedes_witness:
  "get_by_order_id (upsert_pending 9 demo_key (lit (3 / 100)) 1 7 demo_book) 42 = None"
  using upsert_supersedes [OF demo_book_inv demo_book_get, of 42] by simp

text \<open>The strike of a key survives the round trip through \<open>f64\<close>: rebuilding the key from
  the strike it reports gives the same key, for every strike below 2 ^ 45 ten-thousandths,
  whatever the rounding of the division and the multiplication.\<close>

theorem our_key_round_trip:
  assumes "\<bar>k_strike_key k\<bar> \<le> 2 ^ 45"
  shows "our_key_new (our_key_strike k) (k_expiry k) (k_right k) (k_side k) = k"
  using strike_key_grid [OF assms] by (simp add: our_key_new_def our_key_strike_def)

theorem our_key_round_trip_witness:
  "our_key_new (our_key_strike demo_key) 20630 Call Buy = demo_key"
  using our_key_round_trip [of demo_key] by (simp add: demo_key_def)

text \<open>Acknowledging the same key twice, with no new placement in between, leaves a stale
  broker id behind: a fill reported for the first id removes the record of the second
  order, and later updates for the second id still return true although the book holds no
  record for the key.\<close>

theorem relink_leaves_stale_id:
  assumes "book_get b k = Some r" "o1 \<noteq> o2"
  shows "let b2 = link_order_id k o2 (link_order_id k o1 b);
             b3 = fst (apply_status o1 Filled b2)
         in get_by_order_id b2 o2 \<noteq> None \<and> book_get b3 k = None \<and>
            snd (apply_status o2 Submitted b3) \<and> get_by_order_id b3 o2 = None"
  using assms
  by (simp add: link_order_id_def apply_status_def get_by_order_id_def book_get_def hm_simps)

theorem relink_leaves_stale_id_witness:
  "book_get (fst (apply_status 1 Filled (link_order_id demo_key 2 (link_order_id demo_key 1 demo_placed))))
     demo_key = None"
  using relink_leaves_stale_id [of demo_placed demo_key _ 1 2]
  by (simp add: demo_placed_get Let_def)

text \<open>A cancel in flight is counted as live again as soon as the broker reports
  \<open>PendingCancel\<close>: marking the key takes the order out of the live orders, and the broker's
  \<open>PendingCancel\<close> status puts it back as \<open>Pending\<close>.\<close>

theorem pending_cancel_status_revives:
  assumes "book_inv b" "get_by_order_id b oid = Some r"
  shows "let b1 = mark_pending_cancel (or_key r) b;
             b2 = fst (apply_status oid PendingCancelStatus b1)
         in (\<exists>r1. get_by_order_id b1 oid = Some r1 \<and> or_state r1 = PendingCancel \<and> r1 \<notin> set (live_orders b1)) \<and>
            (\<exists>r2. get_by_order_id b2 oid = Some r2 \<and> or_state r2 = Pending \<and> r2 \<in> set (live_orders b2))"
proof -
  note inv = assms(1)
  let ?b1 = "mark_pending_cancel (or_key r) b"
  let ?b2 = "fst (apply_status oid PendingCancelStatus ?b1)"
  have r: "hm_get (by_key b) (or_key r) = Some r" "or_order_id r = Some oid"
    using get_by_order_id_iff [OF inv] assms(2) by (auto simp: book_get_def)
  then have ix: "hm_get (by_order_id b) oid = Some (or_key r)"
    using book_inv_index [OF inv] by blast
  have inv2: "book_inv ?b2" by (intro apply_status_inv mark_pending_cancel_inv inv)
  have g1: "hm_get (by_key ?b1) (or_key r) = Some (r\<lparr>or_state := PendingCancel\<rparr>)"
    "hm_get (by_order_id ?b1) oid = Some (or_key r)"
    using r ix by (simp_all add: mark_pending_cancel_def hm_simps)
  have g2: "hm_get (by_key ?b2) (or_key r) = Some (r\<lparr>or_state := Pending\<rparr>)"
    "hm_get (by_order_id ?b2) oid = Some (or_key r)"
    using g1 by (simp_all add: apply_status_known [OF g1(2,1)] hm_simps)
  have "r\<lparr>or_state := Pending\<rparr> \<in> set (hm_values (by_key ?b2))"
    using hm.elems_get [OF book_inv_ok(1) [OF inv2]] g2(1) by blast
  with g1 g2 show ?thesis
    by (simp add: Let_def get_by_order_id_def live_orders_def is_live_def)
qed

theorem pending_cancel_status_revives_witness:
  "\<exists>r. get_by_order_id (fst (apply_status 42 PendingCancelStatus (mark_pending_cancel demo_key demo_book))) 42
        = Some r \<and> or_state r = Pending"
  using pending_cancel_status_revives [OF demo_book_inv demo_book_lookup]
  by (auto simp: Let_def demo_book_get)

end
