(* ===== verification/Pricing.thy ===== *)
theory Pricing
  imports Broker_Api
begin

text \<open>
  \<open>corsair_pricing\<close>: the Black-76 Greeks of \<open>greeks.rs\<close>. The platform's libm and the
  normal distribution function of the \<open>statrs\<close> crate are the fields of the record \<open>libm\<close>,
  a parameter of every definition that calls them; \<open>libm_ok\<close> states the documented
  behaviour the lemmas rely on.
\<close>

record libm =
  m_ln :: "f64 \<Rightarrow> f64"
  m_exp :: "f64 \<Rightarrow> f64"
  m_sqrt :: "f64 \<Rightarrow> f64"
  m_cdf :: "f64 \<Rightarrow> f64"

section \<open>greeks.rs\<close>

definition norm_cdf :: "libm \<Rightarrow> f64 \<Rightarrow> f64" where
  "norm_cdf M x = m_cdf M x"

definition norm_pdf :: "libm \<Rightarrow> f64 \<Rightarrow> f64" where
  "norm_pdf M x =
     fmul (lit (3989422804014327 / 10 ^ 16)) (m_exp M (fmul (fmul (fneg (lit (1 / 2))) x) x))"

record greeks_out =
  g_delta :: f64
  g_gamma :: f64
  g_theta :: f64
  g_vega :: f64
  g_iv :: f64

text \<open>The intrinsic fallback, which \<open>compute_greeks\<close> spells out twice.\<close>

definition intrinsic_greeks :: "f64 \<Rightarrow> f64 \<Rightarrow> f64 \<Rightarrow> bool \<Rightarrow> greeks_out" where
  "intrinsic_greeks f k sigma is_call =
     (let d = (if fgt f k then fone else if flt f k then fzero else lit (1 / 2))
      in \<lparr>g_delta = (if is_call then d else fsub d fone), g_gamma = fzero, g_theta = fzero,
          g_vega = fzero, g_iv = sigma\<rparr>)"

definition compute_greeks ::
  "libm \<Rightarrow> f64 \<Rightarrow> f64 \<Rightarrow> f64 \<Rightarrow> f64 \<Rightarrow> f64 \<Rightarrow> char \<Rightarrow> f64 \<Rightarrow> greeks_out" where
  "compute_greeks M f k t sigma r rt multiplier =
     (let is_call = (rt = CHR ''C'' \<or> rt = CHR ''c'') in
      if flt t (lit (1 / 10 ^ 10)) \<or> fle sigma fzero \<or> fle f fzero \<or> fle k fzero
      then intrinsic_greeks f k sigma is_call
      else
        let discount = m_exp M (fmul (fneg r) t);
            sqrt_t = m_sqrt M t;
            d1 = fdiv (fadd (m_ln M (fdiv f k)) (fmul (fmul (fmul (lit (1 / 2)) sigma) sigma) t))
                   (fmul sigma sqrt_t);
            d2 = fsub d1 (fmul sigma sqrt_t);
            n_d1 = norm_pdf M d1;
            big_n_d1 = norm_cdf M d1;
            big_n_d2 = norm_cdf M d2;
            delta = (if is_call then fmul discount big_n_d1
                     else fmul discount (fsub big_n_d1 fone));
            gamma = fmul (fdiv (fmul discount n_d1) (fmul (fmul f sigma) sqrt_t)) multiplier;
            common = fdiv (fmul (fmul (fmul (fneg discount) f) n_d1) sigma) (fmul (lit 2) sqrt_t);
            theta = (if is_call
                     then fdiv (fsub common (fmul (fmul (fmul r k) discount) big_n_d2)) (lit 365)
                     else fdiv (fadd common
                            (fmul (fmul (fmul r k) discount) (norm_cdf M (fneg d2)))) (lit 365));
            theta_dollar = fmul theta multiplier;
            vega = fdiv (fmul (fmul (fmul f discount) n_d1) sqrt_t) (lit 100);
            vega_dollar = fmul vega multiplier
        in if \<not> is_finite delta \<or> \<not> is_finite gamma \<or> \<not> is_finite theta_dollar
               \<or> \<not> is_finite vega_dollar
           then intrinsic_greeks f k sigma is_call
           else \<lparr>g_delta = delta, g_gamma = gamma, g_theta = theta_dollar,
                 g_vega = vega_dollar, g_iv = sigma\<rparr>)"

section \<open>Lemmas\<close>

text \<open>The documented behaviour of libm and statrs that the bounds on delta rest on: \<open>exp\<close> of
  a zero is one and of a NaN is a NaN, and a distribution function takes values in the unit interval (or NaN, for
  a NaN).\<close>

definition libm_ok :: "libm \<Rightarrow> bool" where
  "libm_ok M \<longleftrightarrow>
     m_exp M fzero = fone \<and> m_exp M NZero = fone \<and> m_exp M NaN = NaN \<and>
     (\<forall>x. m_cdf M x = NaN \<or> fle fzero (m_cdf M x) \<and> fle (m_cdf M x) fone)"

definition greeks_finite :: "greeks_out \<Rightarrow> bool" where
  "greeks_finite g \<longleftrightarrow>
     is_finite (g_delta g) \<and> is_finite (g_gamma g) \<and> is_finite (g_theta g) \<and> is_finite (g_vega g)"

lemma rep_half: "rep (1 / 2)"
  unfolding rep_def by (intro exI [of _ 1] exI [of _ "- 1"]) (simp add: p2_def)

lemma lit_half [simp]: "lit (1 / 2) = Fin (1 / 2)"
  by (simp add: lit_def rnd_exact rep_half)

lemma rnd_mhalf: "rnd (- (1 / 2)) = Fin (- (1 / 2))"
  by (simp add: rnd_exact rep_half)

lemma intrinsic_finite: "greeks_finite (intrinsic_greeks f k s c)"
  by (auto simp: intrinsic_greeks_def greeks_finite_def Let_def fsub_def rnd_mhalf)

lemma intrinsic_delta:
  "fle (if c then fzero else fneg fone) (g_delta (intrinsic_greeks f k s c)) \<and>
   fle (g_delta (intrinsic_greeks f k s c)) (if c then fone else fzero)"
  by (auto simp: intrinsic_greeks_def Let_def fsub_def rnd_mhalf)

lemma compute_greeks_finite: "greeks_finite (compute_greeks M f k t sigma r rt m)"
  unfolding compute_greeks_def Let_def
  using intrinsic_finite by (auto simp: greeks_finite_def)

text \<open>A product with one keeps a number of the unit interval in place.\<close>

lemma fmul_one_unit:
  assumes "fle lo x" "fle x hi" "is_finite lo" "is_finite hi" "rep (val lo)" "rep (val hi)"
  shows "fle lo (fmul fone x) \<and> fle (fmul fone x) hi"
proof -
  have fx: "is_finite x" using assms(1-4) by (rule fle_finite_sandwich)
  then have v: "val lo \<le> val x" "val x \<le> val hi" using assms by simp_all
  then show ?thesis
    using rnd_between [OF v assms(3-6)] assms(3,4) fx by (auto simp: fmul_finite)
qed

lemma fsub_one_unit:
  assumes "fle fzero x" "fle x fone"
  shows "fle (fneg fone) (fsub x fone) \<and> fle (fsub x fone) fzero"
proof -
  have fx: "is_finite x" using assms by (rule fle_finite_sandwich) simp_all
  with assms have v: "0 \<le> val x" "val x \<le> 1" by simp_all
  have e: "fsub x fone = rnd (val x - 1)" using fx by (cases x) (auto simp: fsub_def)
  show ?thesis unfolding e by (rule rnd_between) (use v rep_of_int [of 1] in auto)
qed

text \<open>With a zero rate the discount factor is one and delta is bounded.\<close>

lemma compute_greeks_delta:
  assumes M: "libm_ok M"
  shows "fle (if rt = CHR ''C'' \<or> rt = CHR ''c'' then fzero else fneg fone)
             (g_delta (compute_greeks M f k t sigma fzero rt m)) \<and>
         fle (g_delta (compute_greeks M f k t sigma fzero rt m))
             (if rt = CHR ''C'' \<or> rt = CHR ''c'' then fone else fzero)"
proof -
  let ?c = "rt = CHR ''C'' \<or> rt = CHR ''c''"
  let ?g = "compute_greeks M f k t sigma fzero rt m"
  show ?thesis
  proof (cases "?g = intrinsic_greeks f k sigma ?c")
    case True
    then show ?thesis using intrinsic_delta [of ?c f k sigma] by simp
  next
    case False
    define E where "E = m_exp M (fmul (fneg fzero) t)"
    have disc: "E = (if is_finite t then fone else NaN)"
      unfolding E_def
      using M by (auto simp: libm_ok_def fmul_finite signed_zero_def) (cases t; simp add: fmul_def)+
    obtain x where "g_delta ?g = fmul E
        (if ?c then m_cdf M x else fsub (m_cdf M x) fone)"
      using False unfolding compute_greeks_def Let_def norm_cdf_def E_def [symmetric] by (auto split: if_splits)
    moreover have "is_finite (g_delta ?g)"
      using compute_greeks_finite [of M f k t sigma fzero rt m] by (simp add: greeks_finite_def)
    ultimately have d: "g_delta ?g = fmul fone (if ?c then m_cdf M x else fsub (m_cdf M x) fone)"
      and nn: "m_cdf M x \<noteq> NaN"
      by (auto simp: disc split: if_splits)
    from M nn have "fle fzero (m_cdf M x)" "fle (m_cdf M x) fone" by (auto simp: libm_ok_def)
    with fsub_one_unit [OF this]
    have "fle (if ?c then fzero else fneg fone) (if ?c then m_cdf M x else fsub (m_cdf M x) fone) \<and>
        fle (if ?c then m_cdf M x else fsub (m_cdf M x) fone) (if ?c then fone else fzero)"
      by simp
    then show ?thesis unfolding d
      by (intro fmul_one_unit) (use rep_of_int [of 1] in \<open>auto split: if_splits\<close>)
  qed
qed

section \<open>Properties of the Greeks\<close>

text \<open>The Greeks written into a position are always finite numbers: whatever libm returns
  and whatever the inputs are (NaN and infinities included), neither a NaN nor an infinity
  leaves \<open>compute_greeks\<close>.\<close>

theorem greeks_always_finite:
  "is_finite (g_delta (compute_greeks M f k t sigma r rt m)) \<and>
   is_finite (g_gamma (compute_greeks M f k t sigma r rt m)) \<and>
   is_finite (g_theta (compute_greeks M f k t sigma r rt m)) \<and>
   is_finite (g_vega (compute_greeks M f k t sigma r rt m))"
  using compute_greeks_finite [of M f k t sigma r rt m] by (simp add: greeks_finite_def)

text \<open>Delta is bounded: with a zero rate (the only rate the position book passes), a call's
  delta lies in the unit interval and a put's between minus one and zero, for all other
  inputs, given a libm whose \<open>exp\<close> is one at zero and a distribution function with values in
  the unit interval.\<close>

theorem greeks_delta_bounds:
  assumes "libm_ok M"
  shows "fle fzero (g_delta (compute_greeks M f k t sigma fzero (CHR ''C'') m)) \<and>
         fle (g_delta (compute_greeks M f k t sigma fzero (CHR ''C'') m)) fone \<and>
         fle (fneg fone) (g_delta (compute_greeks M f k t sigma fzero (CHR ''P'') m)) \<and>
         fle (g_delta (compute_greeks M f k t sigma fzero (CHR ''P'') m)) fzero"
  using compute_greeks_delta [OF assms, where rt = "CHR ''C''"]
    compute_greeks_delta [OF assms, where rt = "CHR ''P''"]
  by simp

definition demo_libm :: libm where
  "demo_libm =
     \<lparr>m_ln = (\<lambda>x. if x = NaN then NaN else fzero), m_exp = (\<lambda>x. if x = NaN then NaN else fone),
      m_sqrt = (\<lambda>x. x), m_cdf = (\<lambda>x. if x = NaN then NaN else lit (1 / 2))\<rparr>"

lemma demo_libm_ok: "libm_ok demo_libm"
  by (simp add: libm_ok_def demo_libm_def)

theorem greeks_delta_bounds_witness:
  "fle fzero (g_delta (compute_greeks demo_libm (lit 6) (lit 6) fone (lit (3 / 10)) fzero (CHR ''C'') (lit 25000)))"
  using greeks_delta_bounds [OF demo_libm_ok] by blast

end
