(* ===== verification/Market_Data.thy ===== *)
theory Market_Data
  imports Broker_Api
begin

text \<open>
  Market data: the read interface \<open>MarketView\<close> that positions, constraints and the hedger
  query (\<open>corsair_position/src/market_view.rs\<close>), and the state that implements it in
  production (\<open>corsair_market_data\<close>: \<open>option_state.rs\<close>, \<open>state.rs\<close>, \<open>atm.rs\<close>,
  \<open>view.rs\<close>). A \<open>&dyn MarketView\<close> is the record of its three query functions.
\<close>

section \<open>market\_view.rs\<close>

record market_view =
  mv_underlying_price :: "string \<Rightarrow> f64 option"
  mv_iv_for :: "string \<Rightarrow> f64 \<Rightarrow> naive_date \<Rightarrow> right \<Rightarrow> f64 option"
  mv_current_price :: "string \<Rightarrow> f64 \<Rightarrow> naive_date \<Rightarrow> right \<Rightarrow> f64 option"

definition no_op_market_view :: market_view where
  "no_op_market_view =
     \<lparr>mv_underlying_price = (\<lambda>_. None), mv_iv_for = (\<lambda>_ _ _ _. None),
      mv_current_price = (\<lambda>_ _ _ _. None)\<rparr>"

type_synonym canned_key = "string \<times> int \<times> naive_date \<times> char"

record recording_market_view =
  rv_underlying :: "(string, f64) hmap"
  rv_iv :: "(canned_key, f64) hmap"
  rv_price :: "(canned_key, f64) hmap"

definition recording_new :: recording_market_view where
  "recording_new = \<lparr>rv_underlying = hm_new, rv_iv = hm_new, rv_price = hm_new\<rparr>"

definition rv_set_underlying :: "string \<Rightarrow> f64 \<Rightarrow> recording_market_view \<Rightarrow> recording_market_view" where
  "rv_set_underlying product price v = v\<lparr>rv_underlying := hm_insert product price (rv_underlying v)\<rparr>"

definition rv_set_iv ::
  "string \<Rightarrow> f64 \<Rightarrow> naive_date \<Rightarrow> right \<Rightarrow> f64 \<Rightarrow> recording_market_view \<Rightarrow> recording_market_view" where
  "rv_set_iv product strike expiry r iv v =
     v\<lparr>rv_iv := hm_insert (product, strike_key strike, expiry, right_as_char r) iv (rv_iv v)\<rparr>"

definition rv_set_current_price ::
  "string \<Rightarrow> f64 \<Rightarrow> naive_date \<Rightarrow> right \<Rightarrow> f64 \<Rightarrow> recording_market_view \<Rightarrow> recording_market_view" where
  "rv_set_current_price product strike expiry r price v =
     v\<lparr>rv_price := hm_insert (product, strike_key strike, expiry, right_as_char r) price (rv_price v)\<rparr>"

definition recording_view :: "recording_market_view \<Rightarrow> market_view" where
  "recording_view v =
     \<lparr>mv_underlying_price = hm_get (rv_underlying v),
      mv_iv_for = (\<lambda>product strike expiry r.
        hm_get (rv_iv v) (product, strike_key strike, expiry, right_as_char r)),
      mv_current_price = (\<lambda>product strike expiry r.
        hm_get (rv_price v) (product, strike_key strike, expiry, right_as_char r))\<rparr>"

section \<open>option\_state.rs\<close>

record option_tick =
  ot_instrument_id :: "instrument_id option"
  ot_strike :: f64
  ot_expiry :: naive_date
  ot_right :: right
  ot_bid :: f64
  ot_ask :: f64
  ot_bid_size :: int
  ot_ask_size :: int
  ot_last :: f64
  ot_iv :: f64
  ot_last_updated_ns :: int

definition option_tick_new :: "f64 \<Rightarrow> naive_date \<Rightarrow> right \<Rightarrow> option_tick" where
  "option_tick_new strike expiry r =
     \<lparr>ot_instrument_id = None, ot_strike = strike, ot_expiry = expiry, ot_right = r,
      ot_bid = fzero, ot_ask = fzero, ot_bid_size = 0, ot_ask_size = 0, ot_last = fzero,
      ot_iv = fzero, ot_last_updated_ns = 0\<rparr>"

definition mid :: "option_tick \<Rightarrow> f64 option" where
  "mid t =
     (if fgt (ot_bid t) fzero \<and> fgt (ot_ask t) fzero \<and> flt (ot_bid t) (ot_ask t)
      then Some (fdiv (fadd (ot_bid t) (ot_ask t)) (lit 2)) else None)"

definition tick_current_price :: "option_tick \<Rightarrow> f64" where
  "tick_current_price t =
     (case mid t of
        Some m \<Rightarrow> m
      | None \<Rightarrow> if fgt (ot_last t) fzero then ot_last t else fzero)"

section \<open>state.rs\<close>

record option_key =
  ok_product :: string
  ok_strike_key :: int
  ok_expiry :: naive_date
  ok_right :: right

record option_meta =
  om_product :: string
  om_strike :: f64
  om_expiry :: naive_date
  om_right :: right

record market_data_state =
  md_underlying :: "(string, f64) hmap"
  md_options :: "(option_key, option_tick) hmap"
  md_by_instrument :: "(instrument_id, option_key) hmap"
  md_underlying_instruments :: "(instrument_id, string) hmap"

definition md_new :: market_data_state where
  "md_new = \<lparr>md_underlying = hm_new, md_options = hm_new, md_by_instrument = hm_new,
             md_underlying_instruments = hm_new\<rparr>"

definition option_key_of :: "string \<Rightarrow> f64 \<Rightarrow> naive_date \<Rightarrow> right \<Rightarrow> option_key" where
  "option_key_of product strike expiry r =
     \<lparr>ok_product = product, ok_strike_key = strike_key strike, ok_expiry = expiry, ok_right = r\<rparr>"

definition register_option ::
  "string \<Rightarrow> f64 \<Rightarrow> naive_date \<Rightarrow> right \<Rightarrow> instrument_id \<Rightarrow> market_data_state \<Rightarrow> market_data_state" where
  "register_option product strike expiry r iid s =
     (let k = option_key_of product strike expiry r;
          opts = (case hm_get (md_options s) k of
                    Some _ \<Rightarrow> md_options s
                  | None \<Rightarrow> hm_insert k
                      ((option_tick_new strike expiry r)\<lparr>ot_instrument_id := Some iid\<rparr>)
                      (md_options s))
      in s\<lparr>md_options := opts, md_by_instrument := hm_insert iid k (md_by_instrument s)\<rparr>)"

definition register_underlying :: "string \<Rightarrow> instrument_id \<Rightarrow> market_data_state \<Rightarrow> market_data_state" where
  "register_underlying product iid s =
     s\<lparr>md_underlying_instruments := hm_insert iid product (md_underlying_instruments s)\<rparr>"

definition md_underlying_price :: "market_data_state \<Rightarrow> string \<Rightarrow> f64 option" where
  "md_underlying_price s product =
     (case hm_get (md_underlying s) product of
        None \<Rightarrow> None
      | Some p \<Rightarrow> if fgt p fzero then Some p else None)"

definition set_underlying :: "string \<Rightarrow> f64 \<Rightarrow> market_data_state \<Rightarrow> market_data_state" where
  "set_underlying product price s =
     (if fgt price fzero then s\<lparr>md_underlying := hm_insert product price (md_underlying s)\<rparr> else s)"

text \<open>Writing through \<open>get_mut\<close> at a key is \<open>hm_insert\<close> at the key, when it is present.\<close>

definition set_option :: "option_key \<Rightarrow> (option_tick \<Rightarrow> option_tick) \<Rightarrow> market_data_state \<Rightarrow> market_data_state" where
  "set_option k f s =
     (case hm_get (md_options s) k of
        None \<Rightarrow> s
      | Some t \<Rightarrow> s\<lparr>md_options := hm_insert k (f t) (md_options s)\<rparr>)"

definition update_bid :: "instrument_id \<Rightarrow> f64 \<Rightarrow> int \<Rightarrow> int \<Rightarrow> market_data_state \<Rightarrow> market_data_state" where
  "update_bid iid price sz ts s =
     (case hm_get (md_by_instrument s) iid of
        Some k \<Rightarrow>
          set_option k (\<lambda>t. t\<lparr>ot_bid := (if fgt price fzero then price else ot_bid t),
                              ot_bid_size := sz, ot_last_updated_ns := ts\<rparr>) s
      | None \<Rightarrow>
          (case hm_get (md_underlying_instruments s) iid of
             None \<Rightarrow> s
           | Some product \<Rightarrow>
               if fgt price fzero
               then s\<lparr>md_underlying := hm_insert product price (md_underlying s)\<rparr> else s))"

definition update_ask :: "instrument_id \<Rightarrow> f64 \<Rightarrow> int \<Rightarrow> int \<Rightarrow> market_data_state \<Rightarrow> market_data_state" where
  "update_ask iid price sz ts s =
     (case hm_get (md_by_instrument s) iid of
        Some k \<Rightarrow>
          set_option k (\<lambda>t. t\<lparr>ot_ask := (if fgt price fzero then price else ot_ask t),
                              ot_ask_size := sz, ot_last_updated_ns := ts\<rparr>) s
      | None \<Rightarrow> s)"

definition update_last :: "instrument_id \<Rightarrow> f64 \<Rightarrow> int \<Rightarrow> market_data_state \<Rightarrow> market_data_state" where
  "update_last iid price ts s =
     (case hm_get (md_by_instrument s) iid of
        Some k \<Rightarrow>
          set_option k (\<lambda>t. t\<lparr>ot_last := (if fgt price fzero then price else ot_last t),
                              ot_last_updated_ns := ts\<rparr>) s
      | None \<Rightarrow>
          (case hm_get (md_underlying_instruments s) iid of
             None \<Rightarrow> s
           | Some product \<Rightarrow>
               if fgt price fzero
               then s\<lparr>md_underlying := hm_insert product price (md_underlying s)\<rparr> else s))"

definition md_option :: "market_data_state \<Rightarrow> string \<Rightarrow> f64 \<Rightarrow> naive_date \<Rightarrow> right \<Rightarrow> option_tick option" where
  "md_option s product strike expiry r = hm_get (md_options s) (option_key_of product strike expiry r)"

definition options_for_product :: "market_data_state \<Rightarrow> string \<Rightarrow> option_tick list" where
  "options_for_product s product =
     map snd (filter (\<lambda>(k, _). ok_product k = product) (md_options s))"

definition option_count :: "market_data_state \<Rightarrow> nat" where
  "option_count s = hm_len (md_options s)"

definition md_option_meta :: "market_data_state \<Rightarrow> instrument_id \<Rightarrow> option_meta option" where
  "md_option_meta s iid =
     (case hm_get (md_by_instrument s) iid of
        None \<Rightarrow> None
      | Some k \<Rightarrow>
          (case hm_get (md_options s) k of
             None \<Rightarrow> None
           | Some t \<Rightarrow> Some \<lparr>om_product = ok_product k, om_strike = ot_strike t,
                            om_expiry = ot_expiry t, om_right = ot_right t\<rparr>))"

section \<open>view.rs\<close>

definition md_iv_for :: "market_data_state \<Rightarrow> string \<Rightarrow> f64 \<Rightarrow> naive_date \<Rightarrow> right \<Rightarrow> f64 option" where
  "md_iv_for s product strike expiry r =
     (case md_option s product strike expiry r of
        None \<Rightarrow> None
      | Some t \<Rightarrow> if fgt (ot_iv t) fzero then Some (ot_iv t) else None)"

definition md_current_price :: "market_data_state \<Rightarrow> string \<Rightarrow> f64 \<Rightarrow> naive_date \<Rightarrow> right \<Rightarrow> f64 option" where
  "md_current_price s product strike expiry r =
     (case md_option s product strike expiry r of
        None \<Rightarrow> None
      | Some t \<Rightarrow>
          let p = tick_current_price t in if fgt p fzero then Some p else None)"

definition md_view :: "market_data_state \<Rightarrow> market_view" where
  "md_view s =
     \<lparr>mv_underlying_price = md_underlying_price s, mv_iv_for = md_iv_for s,
      mv_current_price = md_current_price s\<rparr>"

section \<open>atm.rs\<close>

record strike_window =
  sw_low :: f64
  sw_high :: f64

record atm_tracker =
  atm_strike :: f64
  atm_window :: strike_window

definition atm_new :: atm_tracker where
  "atm_new = \<lparr>atm_strike = fzero, atm_window = \<lparr>sw_low = fzero, sw_high = fzero\<rparr>\<rparr>"

definition window_around :: "f64 \<Rightarrow> int \<Rightarrow> f64 \<Rightarrow> strike_window" where
  "window_around atm width inc =
     (let half = fmul (of_i width) inc in \<lparr>sw_low = fsub atm half, sw_high = fadd atm half\<rparr>)"

definition maybe_recenter ::
  "f64 \<Rightarrow> f64 \<Rightarrow> int \<Rightarrow> int \<Rightarrow> atm_tracker \<Rightarrow> atm_tracker \<times> strike_window option" where
  "maybe_recenter underlying inc width threshold a =
     (if fle underlying fzero \<or> fle inc fzero then (a, None)
      else
        let new_atm = fmul (fround (fdiv underlying inc)) inc;
            w = window_around new_atm width inc
        in if feq (atm_strike a) fzero then (\<lparr>atm_strike = new_atm, atm_window = w\<rparr>, Some w)
           else
             let drift = to_i32 (fabs (fdiv (fsub new_atm (atm_strike a)) inc))
             in if drift < threshold then (a, None)
                else (\<lparr>atm_strike = new_atm, atm_window = w\<rparr>, Some w))"

definition atm_contains :: "f64 \<Rightarrow> atm_tracker \<Rightarrow> bool" where
  "atm_contains strike a \<longleftrightarrow>
     fge strike (sw_low (atm_window a)) \<and> fle strike (sw_high (atm_window a))"

section \<open>Invariant\<close>

text \<open>A price field is zero (no observation) or a positive number, never a NaN; no vol has
  been computed; every registered instrument has its option record, stored under the key
  of the strike, expiry and right it carries.\<close>

definition price_ok :: "f64 \<Rightarrow> bool" where
  "price_ok x \<longleftrightarrow> x = fzero \<or> fgt x fzero"

definition option_ok :: "option_key \<Rightarrow> option_tick \<Rightarrow> bool" where
  "option_ok k t \<longleftrightarrow>
     strike_key (ot_strike t) = ok_strike_key k \<and> ot_expiry t = ok_expiry k \<and>
     ot_right t = ok_right k \<and> price_ok (ot_bid t) \<and> price_ok (ot_ask t) \<and>
     price_ok (ot_last t) \<and> ot_iv t = fzero"

definition md_inv :: "market_data_state \<Rightarrow> bool" where
  "md_inv s \<longleftrightarrow>
     hm_ok (md_options s) \<and>
     (\<forall>k t. hm_get (md_options s) k = Some t \<longrightarrow> option_ok k t) \<and>
     (\<forall>iid k. hm_get (md_by_instrument s) iid = Some k \<longrightarrow> hm_get (md_options s) k \<noteq> None) \<and>
     (\<forall>p x. hm_get (md_underlying s) p = Some x \<longrightarrow> fgt x fzero)"

lemma md_inv_option: "md_inv s \<Longrightarrow> hm_get (md_options s) k = Some t \<Longrightarrow> option_ok k t"
  unfolding md_inv_def by blast

lemma md_inv_instrument:
  "md_inv s \<Longrightarrow> hm_get (md_by_instrument s) iid = Some k \<Longrightarrow> \<exists>t. hm_get (md_options s) k = Some t"
  unfolding md_inv_def by blast

lemma md_inv_underlying: "md_inv s \<Longrightarrow> hm_get (md_underlying s) p = Some x \<Longrightarrow> fgt x fzero"
  unfolding md_inv_def by blast

lemma md_inv_ok: "md_inv s \<Longrightarrow> hm_ok (md_options s)"
  unfolding md_inv_def by blast

lemma md_invI:
  assumes "hm_ok (md_options s)"
    and "\<And>k t. hm_get (md_options s) k = Some t \<Longrightarrow> option_ok k t"
    and "\<And>iid k. hm_get (md_by_instrument s) iid = Some k \<Longrightarrow> hm_get (md_options s) k \<noteq> None"
    and "\<And>p x. hm_get (md_underlying s) p = Some x \<Longrightarrow> fgt x fzero"
  shows "md_inv s"
  unfolding md_inv_def using assms by blast

lemma md_new_inv [inv_intros]: "md_inv md_new"
  by (rule md_invI) (simp_all add: md_new_def hm_simps hm.ok_new)

lemma register_option_inv [inv_intros]:
  assumes inv: "md_inv s"
  shows "md_inv (register_option p x e r iid s)"
  using assms
  by (intro md_invI)
     (auto simp: register_option_def Let_def hm_simps hm.ok_insert md_inv_ok option_ok_def
        option_tick_new_def option_key_of_def price_ok_def
        dest: md_inv_option md_inv_instrument md_inv_underlying split: option.splits if_splits)

lemma register_underlying_inv [inv_intros]: "md_inv s \<Longrightarrow> md_inv (register_underlying p iid s)"
  by (rule md_invI)
     (auto simp: register_underlying_def md_inv_ok dest: md_inv_option md_inv_instrument md_inv_underlying)

lemma put_underlying_inv:
  "md_inv s \<Longrightarrow> fgt x fzero \<Longrightarrow> md_inv (s\<lparr>md_underlying := hm_insert p x (md_underlying s)\<rparr>)"
  by (rule md_invI)
     (auto simp: hm_simps md_inv_ok dest: md_inv_option md_inv_instrument md_inv_underlying split: if_splits)

lemma set_underlying_inv [inv_intros]: "md_inv s \<Longrightarrow> md_inv (set_underlying p x s)"
  by (simp add: set_underlying_def put_underlying_inv)

lemma set_option_inv:
  assumes inv: "md_inv s" and f: "\<And>t. option_ok k t \<Longrightarrow> option_ok k (f t)"
  shows "md_inv (set_option k f s)"
proof (cases "hm_get (md_options s) k")
  case None
  with inv show ?thesis by (simp add: set_option_def)
next
  case (Some t)
  with inv f have "option_ok k (f t)" by (blast dest: md_inv_option)
  with inv Some show ?thesis
    by (intro md_invI)
       (auto simp: set_option_def hm_simps hm.ok_insert md_inv_ok
          dest: md_inv_option md_inv_instrument md_inv_underlying split: if_splits)
qed

lemma update_bid_inv [inv_intros]: "md_inv s \<Longrightarrow> md_inv (update_bid iid p z t s)"
  by (auto simp: update_bid_def put_underlying_inv option_ok_def price_ok_def
      split: option.splits intro!: set_option_inv)

lemma update_ask_inv [inv_intros]: "md_inv s \<Longrightarrow> md_inv (update_ask iid p z t s)"
  by (auto simp: update_ask_def option_ok_def price_ok_def split: option.splits intro!: set_option_inv)

lemma update_last_inv [inv_intros]: "md_inv s \<Longrightarrow> md_inv (update_last iid p t s)"
  by (auto simp: update_last_def put_underlying_inv option_ok_def price_ok_def
      split: option.splits intro!: set_option_inv)

text \<open>The states the runtime can build: registrations and ticks in any order.\<close>

inductive md_reachable :: "market_data_state \<Rightarrow> bool" where
  fresh: "md_reachable md_new"
| option: "md_reachable s \<Longrightarrow> md_reachable (register_option p x e r iid s)"
| underlying: "md_reachable s \<Longrightarrow> md_reachable (register_underlying p iid s)"
| set_under: "md_reachable s \<Longrightarrow> md_reachable (set_underlying p v s)"
| bid: "md_reachable s \<Longrightarrow> md_reachable (update_bid iid v z ts s)"
| ask: "md_reachable s \<Longrightarrow> md_reachable (update_ask iid v z ts s)"
| last: "md_reachable s \<Longrightarrow> md_reachable (update_last iid v ts s)"

lemma md_reachable_inv: "md_reachable s \<Longrightarrow> md_inv s"
  by (induction rule: md_reachable.induct) (auto intro: inv_intros)

section \<open>The contract of a market view\<close>

text \<open>
  What a consumer of market data relies on: every price or vol that a query returns is a
  positive number (in particular not a NaN), and option queries see a strike only through
  its four-decimal key.
\<close>

locale market_feed =
  fixes view :: "'s \<Rightarrow> market_view"
  assumes underlying_pos: "mv_underlying_price (view s) p = Some x \<Longrightarrow> fgt x fzero"
    and iv_pos: "mv_iv_for (view s) p k e r = Some x \<Longrightarrow> fgt x fzero"
    and price_pos: "mv_current_price (view s) p k e r = Some x \<Longrightarrow> fgt x fzero"
    and iv_cong: "strike_key k = strike_key k' \<Longrightarrow>
      mv_iv_for (view s) p k e r = mv_iv_for (view s) p k' e r"
    and price_cong: "strike_key k = strike_key k' \<Longrightarrow>
      mv_current_price (view s) p k e r = mv_current_price (view s) p k' e r"

lemma option_key_cong: "strike_key k = strike_key k' \<Longrightarrow> option_key_of p k e r = option_key_of p k' e r"
  by (simp add: option_key_of_def)

interpretation md: market_feed md_view
proof unfold_locales
  fix s p k k' e r x
  show "mv_underlying_price (md_view s) p = Some x \<Longrightarrow> fgt x fzero"
    by (simp add: md_view_def md_underlying_price_def split: option.splits if_splits)
  show "mv_iv_for (md_view s) p k e r = Some x \<Longrightarrow> fgt x fzero"
    by (auto simp: md_view_def md_iv_for_def split: option.splits if_splits)
  show "mv_current_price (md_view s) p k e r = Some x \<Longrightarrow> fgt x fzero"
    by (auto simp: md_view_def md_current_price_def Let_def split: option.splits if_splits)
  assume eq: "strike_key k = strike_key k'"
  show "mv_iv_for (md_view s) p k e r = mv_iv_for (md_view s) p k' e r"
    "mv_current_price (md_view s) p k e r = mv_current_price (md_view s) p k' e r"
    by (simp_all add: md_view_def md_iv_for_def md_current_price_def md_option_def
        option_key_cong [OF eq])
qed

interpretation noop: market_feed "\<lambda>_ :: unit. no_op_market_view"
  by unfold_locales (simp_all add: no_op_market_view_def)

section \<open>Properties\<close>

lemma md_iv_none:
  assumes "md_reachable s"
  shows "mv_iv_for (md_view s) p k e r = None"
  using md_inv_option [OF md_reachable_inv [OF assms]]
  by (auto simp: md_view_def md_iv_for_def md_option_def option_ok_def split: option.splits)

text \<open>No operation of the market data state ever computes an implied vol: on every
  reachable state the view answers \<open>iv_for\<close> with \<open>None\<close>, for every option, so every consumer
  falls back to its default vol.\<close>

theorem live_vol_never_available:
  assumes "md_reachable s"
  shows "mv_iv_for (md_view s) product strike expiry r = None"
  using md_iv_none [OF assms] .

lemma demo_md_reachable:
  "md_reachable (update_ask 7 (lit (3 / 100)) 5 2 (update_bid 7 (lit (1 / 50)) 5 1
     (register_option ''HG'' (lit 6) 20630 Call 7 md_new)))"
  by (intro md_reachable.intros)

theorem live_vol_never_available_witness:
  "mv_iv_for (md_view (update_ask 7 (lit (3 / 100)) 5 2 (update_bid 7 (lit (1 / 50)) 5 1
     (register_option ''HG'' (lit 6) 20630 Call 7 md_new)))) ''HG'' (lit 6) 20630 Call = None"
  by (rule live_vol_never_available [OF demo_md_reachable])

text \<open>Quotes are routed to the option they were registered for: after a registration, a bid
  and an ask on the instrument, any strike with the same four-decimal key looks up a record
  with exactly these quotes, whose mid is their floating-point average; and the record of
  every other option is what it was.\<close>

theorem quotes_reach_registered_option:
  assumes "fgt b fzero" "flt b a" "strike_key strike' = strike_key strike"
  shows "let s1 = update_ask iid a za ta (update_bid iid b zb tb
                    (register_option p strike e r iid s))
         in (\<exists>t. md_option s1 p strike' e r = Some t \<and> ot_bid t = b \<and> ot_ask t = a \<and>
                 ot_bid_size t = zb \<and> ot_ask_size t = za \<and> ot_last_updated_ns t = ta \<and>
                 mid t = Some (fdiv (fadd b a) (lit 2))) \<and>
            (\<forall>p' k' e' r'. (p', strike_key k', e', r') \<noteq> (p, strike_key strike, e, r) \<longrightarrow>
               md_option s1 p' k' e' r' = md_option s p' k' e' r')"
proof -
  have "fgt a fzero" using flt_trans [OF assms(1,2)] .
  with assms show ?thesis
    by (auto simp: Let_def md_option_def register_option_def update_bid_def update_ask_def
        set_option_def hm_simps option_key_of_def mid_def split: option.splits)
qed

theorem quotes_reach_registered_option_witness:
  "\<exists>t. md_option (update_ask 7 (Fin 3) 5 2 (update_bid 7 (Fin 1) 5 1
         (register_option ''HG'' (lit 6) 20630 Call 7 md_new))) ''HG'' (lit 6) 20630 Call = Some t \<and>
       ot_bid t = Fin 1 \<and> ot_ask t = Fin 3"
  using quotes_reach_registered_option [of "Fin 1" "Fin 3" "lit 6" "lit 6" 7 5 2 5 1 "''HG''" 20630 Call md_new]
  by (auto simp: Let_def)

text \<open>The mark used for P\&L is sane: when both sides are quoted, the current price lies
  between the bid and the ask despite rounding, for quotes that are binary64 numbers of
  magnitude at most 2 ^ 1000.\<close>

theorem mid_between_quotes:
  assumes "mid t = Some m" "rep (val (ot_bid t))" "rep (val (ot_ask t))"
    "is_finite (ot_ask t)" "val (ot_ask t) \<le> p2 1000"
  shows "fle (ot_bid t) (tick_current_price t) \<and> fle (tick_current_price t) (ot_ask t)"
proof -
  from assms(1) have q: "fgt (ot_bid t) fzero" "flt (ot_bid t) (ot_ask t)"
    and m: "m = fdiv (fadd (ot_bid t) (ot_ask t)) (lit 2)"
    by (auto simp: mid_def split: if_splits)
  have fb: "is_finite (ot_bid t)"
    using fle_finite_sandwich [OF flt_imp_fle [OF q(1)] flt_imp_fle [OF q(2)]] assms(4) by simp
  have "tick_current_price t = m" using assms(1) by (simp add: tick_current_price_def)
  with m show ?thesis
    using fmid_between [OF fb assms(4,2,3) flt_imp_fle [OF q(2)]] q fb assms(4,5) by simp
qed

theorem mid_between_quotes_witness:
  "fle (Fin 1) (tick_current_price ((option_tick_new (lit 6) 20630 Call)\<lparr>ot_bid := Fin 1, ot_ask := Fin 3\<rparr>))"
proof -
  have "(3::rat) \<le> p2 1000" using p2_1000 by linarith
  with mid_between_quotes [of "(option_tick_new (lit 6) 20630 Call)\<lparr>ot_bid := Fin 1, ot_ask := Fin 3\<rparr>"]
    rep_of_int [of 1] rep_of_int [of 3]
  show ?thesis by (simp add: mid_def)
qed

end
