(* ===== verification/Portfolio.thy ===== *)
theory Portfolio
  imports Market_Data Pricing
begin

text \<open>
  The position book of \<open>corsair_position\<close> (\<open>position.rs\<close>, \<open>fill.rs\<close>, \<open>aggregation.rs\<close>,
  \<open>portfolio.rs\<close>): a vector of option positions with a hash index by product, strike key,
  expiry and right, the product registry, and the daily accounting. \<open>port_inv\<close> relates the
  index to the vector; the book is shown to be the running sum of its fills.
\<close>

section \<open>position.rs\<close>

record position_key =
  pk_product :: string
  pk_strike_key :: int
  pk_expiry :: naive_date
  pk_right :: right

record position =
  p_product :: string
  p_strike :: f64
  p_expiry :: naive_date
  p_right :: right
  p_quantity :: int
  p_avg_fill_price :: f64
  p_fill_time :: date_time
  p_multiplier :: f64
  p_delta :: f64
  p_gamma :: f64
  p_theta :: f64
  p_vega :: f64
  p_current_price :: f64

definition position_key_with :: "(f64 \<Rightarrow> int) \<Rightarrow> position \<Rightarrow> position_key" where
  "position_key_with strike_key_fn p =
     \<lparr>pk_product = p_product p, pk_strike_key = strike_key_fn (p_strike p),
      pk_expiry = p_expiry p, pk_right = p_right p\<rparr>"

record product_info =
  pi_product :: string
  pi_multiplier :: f64
  pi_default_iv :: f64

type_synonym product_registry = "(string, product_info) hmap"

definition registry_new :: product_registry where
  "registry_new = hm_new"

definition registry_register :: "product_info \<Rightarrow> product_registry \<Rightarrow> product_registry" where
  "registry_register info r = hm_insert (pi_product info) info r"

definition registry_get :: "product_registry \<Rightarrow> string \<Rightarrow> product_info option" where
  "registry_get r product = hm_get r product"

definition registry_products :: "product_registry \<Rightarrow> string list" where
  "registry_products r = map fst r"

definition multiplier_for :: "product_registry \<Rightarrow> string \<Rightarrow> f64 option" where
  "multiplier_for r product = map_option pi_multiplier (hm_get r product)"

definition registry_is_empty :: "product_registry \<Rightarrow> bool" where
  "registry_is_empty r \<longleftrightarrow> r = []"

definition registry_len :: "product_registry \<Rightarrow> nat" where
  "registry_len r = hm_len r"

section \<open>fill.rs\<close>

datatype fill_outcome =
    Opened | Increased | PartiallyClosed | ClosedOut | Flipped | FillRejected string

section \<open>aggregation.rs\<close>

record portfolio_greeks =
  pg_net_delta :: f64
  pg_net_theta :: f64
  pg_net_vega :: f64
  pg_net_gamma :: f64
  pg_long_count :: int
  pg_short_count :: int
  pg_gross_positions :: int

definition portfolio_greeks_default :: portfolio_greeks where
  "portfolio_greeks_default =
     \<lparr>pg_net_delta = fzero, pg_net_theta = fzero, pg_net_vega = fzero, pg_net_gamma = fzero,
      pg_long_count = 0, pg_short_count = 0, pg_gross_positions = 0\<rparr>"

definition greeks_add :: "int \<Rightarrow> f64 \<Rightarrow> f64 \<Rightarrow> f64 \<Rightarrow> f64 \<Rightarrow> portfolio_greeks \<Rightarrow> portfolio_greeks" where
  "greeks_add qty delta theta vega gamma g =
     (let q = of_i qty in
      \<lparr>pg_net_delta = fadd (pg_net_delta g) (fmul delta q),
       pg_net_theta = fadd (pg_net_theta g) (fmul theta q),
       pg_net_vega = fadd (pg_net_vega g) (fmul vega q),
       pg_net_gamma = fadd (pg_net_gamma g) (fmul gamma q),
       pg_long_count = (if 0 < qty then wrap_u32 (pg_long_count g + 1) else pg_long_count g),
       pg_short_count = (if 0 < qty then pg_short_count g
                         else if qty < 0 then wrap_u32 (pg_short_count g + 1) else pg_short_count g),
       pg_gross_positions = (if qty \<noteq> 0 then wrap_u32 (pg_gross_positions g + 1)
                             else pg_gross_positions g)\<rparr>)"

record aggregate_result =
  ag_total :: portfolio_greeks
  ag_per_product :: "(string, portfolio_greeks) hmap"

section \<open>portfolio.rs\<close>

record portfolio_state =
  positions :: "position list"
  pindex :: "(position_key, nat) hmap"
  registry :: product_registry
  fills_today :: int
  spread_capture_today :: f64
  spread_capture_mid_today :: f64
  daily_pnl :: f64
  realized_pnl_persisted :: f64
  session_open_nlv :: "f64 option"

definition portfolio_new :: "product_registry \<Rightarrow> portfolio_state" where
  "portfolio_new r =
     \<lparr>positions = [], pindex = hm_new, registry = r, fills_today = 0,
      spread_capture_today = fzero, spread_capture_mid_today = fzero, daily_pnl = fzero,
      realized_pnl_persisted = fzero, session_open_nlv = None\<rparr>"

definition portfolio_empty :: portfolio_state where
  "portfolio_empty = portfolio_new registry_new"

definition position_count :: "portfolio_state \<Rightarrow> nat" where
  "position_count s = length (positions s)"

definition portfolio_is_empty :: "portfolio_state \<Rightarrow> bool" where
  "portfolio_is_empty s \<longleftrightarrow> positions s = []"

definition make_key :: "string \<Rightarrow> f64 \<Rightarrow> naive_date \<Rightarrow> right \<Rightarrow> position_key" where
  "make_key product strike expiry r =
     \<lparr>pk_product = product, pk_strike_key = strike_key strike, pk_expiry = expiry, pk_right = r\<rparr>"

definition index_of :: "position list \<Rightarrow> (position_key, nat) hmap" where
  "index_of ps =
     foldl (\<lambda>m (i, p). hm_insert (make_key (p_product p) (p_strike p) (p_expiry p) (p_right p)) i m)
       hm_new (enumerate 0 ps)"

definition rebuild_index :: "portfolio_state \<Rightarrow> portfolio_state" where
  "rebuild_index s = s\<lparr>pindex := index_of (positions s)\<rparr>"

definition replace_positions :: "position list \<Rightarrow> portfolio_state \<Rightarrow> portfolio_state" where
  "replace_positions ps s = rebuild_index (s\<lparr>positions := ps\<rparr>)"

definition record_fill_accounting :: "int \<Rightarrow> f64 \<Rightarrow> f64 \<Rightarrow> portfolio_state \<Rightarrow> portfolio_state" where
  "record_fill_accounting quantity sc scm s =
     s\<lparr>fills_today := wrap_u32 (fills_today s + unsigned_abs_i32 quantity),
       spread_capture_today := fadd (spread_capture_today s) sc,
       spread_capture_mid_today := fadd (spread_capture_mid_today s) scm\<rparr>"

definition add_fill ::
  "date_time \<Rightarrow> string \<Rightarrow> f64 \<Rightarrow> naive_date \<Rightarrow> right \<Rightarrow> int \<Rightarrow> f64 \<Rightarrow> f64 \<Rightarrow> f64 \<Rightarrow>
   portfolio_state \<Rightarrow> portfolio_state \<times> fill_outcome" where
  "add_fill now product strike expiry r quantity fill_price sc scm s =
     (if quantity = 0 then (s, FillRejected ''zero quantity'')
      else
        let multiplier = (case multiplier_for (registry s) product of
                            Some m \<Rightarrow> m | None \<Rightarrow> lit 100);
            key = make_key product strike expiry r
        in (case hm_get (pindex s) key of
              Some idx \<Rightarrow>
                let prev_qty = p_quantity (positions s ! idx);
                    new_qty = wrap_i32 (prev_qty + quantity)
                in if new_qty = 0 then
                     (record_fill_accounting quantity sc scm
                        (rebuild_index
                          (s\<lparr>positions := take idx (positions s) @ drop (Suc idx) (positions s)\<rparr>)),
                      ClosedOut)
                   else
                     (record_fill_accounting quantity sc scm
                        (s\<lparr>positions := (positions s)[idx :=
                             (positions s ! idx)\<lparr>p_quantity := new_qty,
                                p_avg_fill_price := fill_price, p_fill_time := now\<rparr>]\<rparr>),
                      if prev_qty > 0 \<and> new_qty > 0 \<and> new_qty > prev_qty
                         \<or> prev_qty < 0 \<and> new_qty < 0 \<and> new_qty < prev_qty
                      then Increased
                      else if signum_i32 prev_qty \<noteq> signum_i32 new_qty \<and> signum_i32 prev_qty \<noteq> 0
                      then Flipped
                      else PartiallyClosed)
            | None \<Rightarrow>
                let pos = \<lparr>p_product = product, p_strike = strike, p_expiry = expiry, p_right = r,
                           p_quantity = quantity, p_avg_fill_price = fill_price,
                           p_fill_time = now, p_multiplier = multiplier, p_delta = fzero,
                           p_gamma = fzero, p_theta = fzero, p_vega = fzero,
                           p_current_price = fzero\<rparr>;
                    ps = positions s @ [pos]
                in (record_fill_accounting quantity sc scm
                      (s\<lparr>positions := ps, pindex := hm_insert key (length ps - 1) (pindex s)\<rparr>),
                    Opened)))"

text \<open>\<open>num_seconds\<close> truncates towards zero; a date expires at 20:00 UTC.\<close>

definition time_to_expiry_years :: "date_time \<Rightarrow> naive_date \<Rightarrow> f64" where
  "time_to_expiry_years now expiry =
     (let expiry_dt = (expiry * 86400 + 20 * 3600) * 10 ^ 9;
          secs = of_i (trunc (of_int (expiry_dt - now) / 10 ^ 9))
      in if fle secs fzero then fzero
         else fdiv secs (fmul (fmul (lit (36525 / 100)) (lit 24)) (lit 3600)))"

definition refresh_position ::
  "libm \<Rightarrow> date_time \<Rightarrow> market_view \<Rightarrow> product_registry \<Rightarrow> position \<Rightarrow> position" where
  "refresh_position M now market reg pos =
     (case mv_underlying_price market (p_product pos) of
        None \<Rightarrow> pos
      | Some f \<Rightarrow>
          if \<not> fgt f fzero then pos
          else
            let iv = (case mv_iv_for market (p_product pos) (p_strike pos) (p_expiry pos) (p_right pos) of
                        Some v \<Rightarrow> v
                      | None \<Rightarrow> (case registry_get reg (p_product pos) of
                                  Some info \<Rightarrow> pi_default_iv info
                                | None \<Rightarrow> lit (3 / 10)));
                tte = time_to_expiry_years now (p_expiry pos)
            in if fle tte fzero then pos
               else
                 let g = compute_greeks M f (p_strike pos) tte iv fzero
                           (right_as_char (p_right pos)) (p_multiplier pos);
                     pos1 = pos\<lparr>p_delta := g_delta g, p_gamma := g_gamma g, p_theta := g_theta g,
                                p_vega := g_vega g\<rparr>
                 in (case mv_current_price market (p_product pos) (p_strike pos) (p_expiry pos) (p_right pos) of
                       None \<Rightarrow> pos1
                     | Some p \<Rightarrow> if fgt p fzero then pos1\<lparr>p_current_price := p\<rparr> else pos1))"

definition refresh_greeks :: "libm \<Rightarrow> date_time \<Rightarrow> market_view \<Rightarrow> portfolio_state \<Rightarrow> portfolio_state" where
  "refresh_greeks M now market s =
     s\<lparr>positions := map (refresh_position M now market (registry s)) (positions s)\<rparr>"

definition aggregate_step :: "aggregate_result \<Rightarrow> position \<Rightarrow> aggregate_result" where
  "aggregate_step a p =
     (let add = greeks_add (p_quantity p) (p_delta p) (p_theta p) (p_vega p) (p_gamma p);
          old = (case hm_get (ag_per_product a) (p_product p) of
                   None \<Rightarrow> portfolio_greeks_default | Some g \<Rightarrow> g)
      in \<lparr>ag_total = add (ag_total a),
          ag_per_product = hm_insert (p_product p) (add old) (ag_per_product a)\<rparr>)"

definition aggregate :: "portfolio_state \<Rightarrow> aggregate_result" where
  "aggregate s =
     foldl aggregate_step \<lparr>ag_total = portfolio_greeks_default, ag_per_product = hm_new\<rparr> (positions s)"

definition net_of :: "(position \<Rightarrow> f64) \<Rightarrow> position list \<Rightarrow> f64" where
  "net_of g ps = fsum (map (\<lambda>p. fmul (g p) (of_i (p_quantity p))) ps)"

definition positions_for_product :: "portfolio_state \<Rightarrow> string \<Rightarrow> position list" where
  "positions_for_product s product = filter (\<lambda>p. p_product p = product) (positions s)"

definition net_delta :: "portfolio_state \<Rightarrow> f64" where
  "net_delta s = net_of p_delta (positions s)"

definition net_theta :: "portfolio_state \<Rightarrow> f64" where
  "net_theta s = net_of p_theta (positions s)"

definition net_vega :: "portfolio_state \<Rightarrow> f64" where
  "net_vega s = net_of p_vega (positions s)"

definition net_gamma :: "portfolio_state \<Rightarrow> f64" where
  "net_gamma s = net_of p_gamma (positions s)"

definition long_count :: "portfolio_state \<Rightarrow> int" where
  "long_count s = wrap_u32 (int (length (filter (\<lambda>p. 0 < p_quantity p) (positions s))))"

definition short_count :: "portfolio_state \<Rightarrow> int" where
  "short_count s = wrap_u32 (int (length (filter (\<lambda>p. p_quantity p < 0) (positions s))))"

definition gross_positions :: "portfolio_state \<Rightarrow> int" where
  "gross_positions s = wrap_u32 (int (length (filter (\<lambda>p. p_quantity p \<noteq> 0) (positions s))))"

definition delta_for_product :: "portfolio_state \<Rightarrow> string \<Rightarrow> f64" where
  "delta_for_product s product = net_of p_delta (positions_for_product s product)"

definition theta_for_product :: "portfolio_state \<Rightarrow> string \<Rightarrow> f64" where
  "theta_for_product s product = net_of p_theta (positions_for_product s product)"

definition vega_for_product :: "portfolio_state \<Rightarrow> string \<Rightarrow> f64" where
  "vega_for_product s product = net_of p_vega (positions_for_product s product)"

definition mtm_step :: "market_view \<Rightarrow> f64 \<Rightarrow> position \<Rightarrow> f64" where
  "mtm_step market acc p =
     (let live = (case mv_current_price market (p_product p) (p_strike p) (p_expiry p) (p_right p) of
                    Some v \<Rightarrow> v | None \<Rightarrow> p_current_price p)
      in if fle live fzero then acc
         else fadd acc
           (fmul (fmul (of_i (p_quantity p)) (fsub live (p_avg_fill_price p))) (p_multiplier p)))"

definition compute_mtm_pnl :: "market_view \<Rightarrow> portfolio_state \<Rightarrow> f64" where
  "compute_mtm_pnl market s = foldl (mtm_step market) fzero (positions s)"

definition portfolio_reset_daily :: "portfolio_state \<Rightarrow> portfolio_state" where
  "portfolio_reset_daily s =
     s\<lparr>fills_today := 0, spread_capture_today := fzero, spread_capture_mid_today := fzero,
       daily_pnl := fzero\<rparr>"

definition get_position :: "portfolio_state \<Rightarrow> string \<Rightarrow> f64 \<Rightarrow> naive_date \<Rightarrow> right \<Rightarrow> position option" where
  "get_position s product strike expiry r =
     map_option (\<lambda>i. positions s ! i) (hm_get (pindex s) (make_key product strike expiry r))"

section \<open>Invariant\<close>

definition pos_key :: "position \<Rightarrow> position_key" where
  "pos_key p = make_key (p_product p) (p_strike p) (p_expiry p) (p_right p)"

text \<open>The index maps exactly the keys of the positions to their places in the vector (so no
  two positions share a key), and no stored position is flat.\<close>

definition port_inv :: "portfolio_state \<Rightarrow> bool" where
  "port_inv s \<longleftrightarrow>
     (\<forall>k i. hm_get (pindex s) k = Some i \<longleftrightarrow>
        i < length (positions s) \<and> pos_key (positions s ! i) = k) \<and>
     (\<forall>p \<in> set (positions s). p_quantity p \<noteq> 0 \<and> in_i32 (p_quantity p))"

lemma port_inv_index:
  "port_inv s \<Longrightarrow> hm_get (pindex s) k = Some i \<longleftrightarrow>
     i < length (positions s) \<and> pos_key (positions s ! i) = k"
  unfolding port_inv_def by blast

lemma port_inv_qty: "port_inv s \<Longrightarrow> p \<in> set (positions s) \<Longrightarrow> p_quantity p \<noteq> 0 \<and> in_i32 (p_quantity p)"
  unfolding port_inv_def by blast

lemma port_inv_at:
  assumes "port_inv s" "hm_get (pindex s) k = Some i"
  shows "i < length (positions s)" "pos_key (positions s ! i) = k"
    "positions s ! i \<in> set (positions s)" "p_quantity (positions s ! i) \<noteq> 0"
    "in_i32 (p_quantity (positions s ! i))"
proof -
  show i: "i < length (positions s)" "pos_key (positions s ! i) = k"
    using port_inv_index [OF assms(1)] assms(2) by blast+
  show m: "positions s ! i \<in> set (positions s)" using i by simp
  show "p_quantity (positions s ! i) \<noteq> 0" "in_i32 (p_quantity (positions s ! i))"
    using port_inv_qty [OF assms(1) m] by blast+
qed

lemma port_inv_distinct:
  assumes "port_inv s"
  shows "distinct (map pos_key (positions s))"
proof -
  have "i = j" if "i < length (positions s)" "j < length (positions s)"
    "pos_key (positions s ! i) = pos_key (positions s ! j)" for i j
  proof -
    from that have "hm_get (pindex s) (pos_key (positions s ! i)) = Some i"
      "hm_get (pindex s) (pos_key (positions s ! i)) = Some j"
      using port_inv_index [OF assms] by simp_all
    then show ?thesis by simp
  qed
  then show ?thesis by (auto simp: distinct_conv_nth)
qed

lemma index_of_snoc: "index_of (ps @ [p]) = hm_insert (pos_key p) (length ps) (index_of ps)"
  by (simp add: index_of_def enumerate_append_eq pos_key_def)

lemma index_of_get:
  "hm_get (index_of ps) k = Some i \<Longrightarrow> i < length ps \<and> pos_key (ps ! i) = k"
  "i < length ps \<Longrightarrow> pos_key (ps ! i) = k \<Longrightarrow> hm_get (index_of ps) k \<noteq> None"
proof (induction ps arbitrary: i rule: rev_induct)
  case Nil
  {
    case 1
    then show ?case by (simp add: index_of_def hm_simps)
  next
    case 2
    then show ?case by simp
  }
next
  case (snoc p ps)
  {
    case 1
    then show ?case
      using snoc(1) [of i] by (auto simp: index_of_snoc hm_simps nth_append split: if_splits)
  next
    case 2
    then show ?case
      using snoc(2) [of i] by (auto simp: index_of_snoc hm_simps nth_append split: if_splits)
  }
qed

lemma index_of_iff:
  assumes "distinct (map pos_key ps)"
  shows "hm_get (index_of ps) k = Some i \<longleftrightarrow> i < length ps \<and> pos_key (ps ! i) = k"
proof
  assume i: "i < length ps \<and> pos_key (ps ! i) = k"
  then obtain j where j: "hm_get (index_of ps) k = Some j" using index_of_get(2) by blast
  then have "j < length ps" "pos_key (ps ! j) = k" using index_of_get(1) by blast+
  with i assms have "i = j" using nth_eq_iff_index_eq [OF assms, of i j] by simp
  with j show "hm_get (index_of ps) k = Some i" by simp
qed (rule index_of_get(1))

lemma port_invI:
  assumes "distinct (map pos_key (positions s))" "pindex s = index_of (positions s)"
    and "\<And>p. p \<in> set (positions s) \<Longrightarrow> p_quantity p \<noteq> 0 \<and> in_i32 (p_quantity p)"
  shows "port_inv s"
  unfolding port_inv_def using assms index_of_iff by auto

lemma portfolio_new_inv [inv_intros]: "port_inv (portfolio_new r)"
  by (rule port_invI) (simp_all add: portfolio_new_def index_of_def)

lemma replace_positions_inv [inv_intros]:
  "distinct (map pos_key ps) \<Longrightarrow> (\<And>p. p \<in> set ps \<Longrightarrow> p_quantity p \<noteq> 0 \<and> in_i32 (p_quantity p)) \<Longrightarrow>
   port_inv (replace_positions ps s)"
  by (rule port_invI) (simp_all add: replace_positions_def rebuild_index_def)

lemma accounting_select [simp]:
  "positions (record_fill_accounting q a b s) = positions s"
  "pindex (record_fill_accounting q a b s) = pindex s"
  "registry (record_fill_accounting q a b s) = registry s"
  by (simp_all add: record_fill_accounting_def)

lemma port_inv_cong:
  "positions s = positions s' \<Longrightarrow> pindex s = pindex s' \<Longrightarrow> port_inv s = port_inv s'"
  by (simp add: port_inv_def)

lemma accounting_inv [simp]: "port_inv (record_fill_accounting q a b s) = port_inv s"
  by (rule port_inv_cong) simp_all

text \<open>A map over the positions that keeps keys and quantities keeps the invariant.\<close>

lemma map_positions_inv:
  assumes "port_inv s" and f: "\<And>p. pos_key (f p) = pos_key p" "\<And>p. p_quantity (f p) = p_quantity p"
  shows "port_inv (s\<lparr>positions := map f (positions s)\<rparr>)"
  unfolding port_inv_def using assms port_inv_index [OF assms(1)] port_inv_qty [OF assms(1)]
  by (auto simp: f)

lemma refresh_position_frame:
  "pos_key (refresh_position M now mk reg p) = pos_key p"
  "p_quantity (refresh_position M now mk reg p) = p_quantity p"
  by (auto simp: refresh_position_def pos_key_def Let_def split: option.splits)

lemma refresh_greeks_inv [inv_intros]: "port_inv s \<Longrightarrow> port_inv (refresh_greeks M now mk s)"
  unfolding refresh_greeks_def by (rule map_positions_inv) (simp_all add: refresh_position_frame)

section \<open>Fills\<close>

text \<open>The three shapes of \<open>add_fill\<close> on the positions.\<close>

lemma add_fill_zero: "add_fill now p k e r 0 px a b s = (s, FillRejected ''zero quantity'')"
  by (simp add: add_fill_def)

lemma add_fill_new:
  "q \<noteq> 0 \<Longrightarrow> hm_get (pindex s) (make_key p k e r) = None \<Longrightarrow>
   \<exists>pos. pos_key pos = make_key p k e r \<and> p_quantity pos = q \<and> p_avg_fill_price pos = px \<and>
     p_delta pos = fzero \<and>
     positions (fst (add_fill now p k e r q px a b s)) = positions s @ [pos] \<and>
     pindex (fst (add_fill now p k e r q px a b s)) =
       hm_insert (make_key p k e r) (length (positions s)) (pindex s) \<and>
     snd (add_fill now p k e r q px a b s) = Opened"
  by (auto simp: add_fill_def Let_def pos_key_def)

lemma add_fill_close:
  "q \<noteq> 0 \<Longrightarrow> hm_get (pindex s) (make_key p k e r) = Some i \<Longrightarrow>
   wrap_i32 (p_quantity (positions s ! i) + q) = 0 \<Longrightarrow>
   positions (fst (add_fill now p k e r q px a b s)) = take i (positions s) @ drop (Suc i) (positions s) \<and>
   pindex (fst (add_fill now p k e r q px a b s)) =
     index_of (take i (positions s) @ drop (Suc i) (positions s)) \<and>
   snd (add_fill now p k e r q px a b s) = ClosedOut"
  by (simp add: add_fill_def Let_def rebuild_index_def)

lemma add_fill_merge:
  "q \<noteq> 0 \<Longrightarrow> hm_get (pindex s) (make_key p k e r) = Some i \<Longrightarrow>
   wrap_i32 (p_quantity (positions s ! i) + q) \<noteq> 0 \<Longrightarrow>
   positions (fst (add_fill now p k e r q px a b s)) =
     (positions s)[i := (positions s ! i)\<lparr>p_quantity := wrap_i32 (p_quantity (positions s ! i) + q),
                          p_avg_fill_price := px, p_fill_time := now\<rparr>] \<and>
   pindex (fst (add_fill now p k e r q px a b s)) = pindex s"
  by (simp add: add_fill_def Let_def)

lemma add_fill_registry [simp]: "registry (fst (add_fill now p k e r q px a b s)) = registry s"
  by (auto simp: add_fill_def Let_def rebuild_index_def split: option.splits)

lemma pos_key_fill_update [simp]:
  "pos_key (x\<lparr>p_quantity := n, p_avg_fill_price := px, p_fill_time := t\<rparr>) = pos_key x"
  by (simp add: pos_key_def)

lemma add_fill_inv [inv_intros]:
  assumes inv: "port_inv s" and q: "in_i32 q"
  shows "port_inv (fst (add_fill now p k e r q px a b s))"
proof (cases "q = 0")
  case True
  with inv show ?thesis by (simp add: add_fill_zero)
next
  case False
  let ?s = "fst (add_fill now p k e r q px a b s)" and ?k = "make_key p k e r"
  show ?thesis
  proof (cases "hm_get (pindex s) ?k")
    case None
    from add_fill_new [OF False None, of px now a b] obtain pos where
      pos: "pos_key pos = ?k" "p_quantity pos = q" "positions ?s = positions s @ [pos]"
      "pindex ?s = hm_insert ?k (length (positions s)) (pindex s)" by blast
    have no: "pos_key (positions s ! i) \<noteq> ?k" if "i < length (positions s)" for i
      using port_inv_index [OF inv, of ?k i] None that by simp
    show ?thesis
      unfolding port_inv_def pos
      using pos(1,2) no False q port_inv_index [OF inv] port_inv_qty [OF inv]
      by (auto simp: hm_simps nth_append less_Suc_eq)
  next
    case (Some i)
    then have i: "i < length (positions s)" "pos_key (positions s ! i) = ?k"
      using port_inv_index [OF inv] by auto
    show ?thesis
    proof (cases "wrap_i32 (p_quantity (positions s ! i) + q) = 0")
      case True
      note c = add_fill_close [OF False Some True, of now px a b]
      have sub: "set (take i (positions s) @ drop (Suc i) (positions s)) \<subseteq> set (positions s)"
        by (auto dest: in_set_takeD in_set_dropD)
      have "distinct (map pos_key (positions s))" using port_inv_distinct [OF inv] .
      then have "distinct (map pos_key (take i (positions s) @ drop (Suc i) (positions s)))"
        by (subst (asm) id_take_nth_drop [OF i(1)]) auto
      then show ?thesis
        using c sub port_inv_qty [OF inv] by (intro port_invI) (auto simp del: map_append)
    next
      case nz: False
      note c = add_fill_merge [OF False Some nz, of now px a b]
      then show ?thesis
        unfolding port_inv_def using i nz port_inv_index [OF inv] port_inv_qty [OF inv]
        by (auto simp: nth_list_update dest!: set_update_subset_insert [THEN subsetD])
    qed
  qed
qed

section \<open>The book as a ledger\<close>

text \<open>The abstract book: the signed quantity of every key, zero where there is no position. On a
  book with the invariant a key has at most one entry, and this is its quantity
  (\<open>abs_qty_index\<close>); the properties that use it are about such books.\<close>

definition abs_qty :: "portfolio_state \<Rightarrow> position_key \<Rightarrow> int" where
  "abs_qty s k = sum_list (map p_quantity (filter (\<lambda>p. pos_key p = k) (positions s)))"

lemma abs_qty_new [simp]: "abs_qty (portfolio_new r) k = 0"
  by (simp add: abs_qty_def portfolio_new_def)

lemma filter_at_index:
  assumes "port_inv s" "hm_get (pindex s) k = Some i"
  shows "i < length (positions s)"
    and "filter (\<lambda>p. pos_key p = k) (take i (positions s)) = []"
    and "filter (\<lambda>p. pos_key p = k) (drop (Suc i) (positions s)) = []"
    and "pos_key (positions s ! i) = k"
proof -
  show i: "i < length (positions s)" and k: "pos_key (positions s ! i) = k"
    using port_inv_index [OF assms(1)] assms(2) by auto
  have d: "distinct (map pos_key (take i (positions s)) @ pos_key (positions s ! i) #
      map pos_key (drop (Suc i) (positions s)))"
    using port_inv_distinct [OF assms(1)] id_take_nth_drop [OF i]
    by (metis list.simps(9) map_append)
  then have "k \<notin> set (map pos_key (take i (positions s)))"
    "k \<notin> set (map pos_key (drop (Suc i) (positions s)))"
    using k by auto
  then show "filter (\<lambda>p. pos_key p = k) (take i (positions s)) = []"
    "filter (\<lambda>p. pos_key p = k) (drop (Suc i) (positions s)) = []"
    by (auto simp: filter_empty_conv)
qed

lemma filter_no_index:
  assumes "port_inv s" "hm_get (pindex s) k = None"
  shows "filter (\<lambda>p. pos_key p = k) (positions s) = []"
proof -
  have "pos_key (positions s ! i) \<noteq> k" if "i < length (positions s)" for i
    using port_inv_index [OF assms(1), of k i] assms(2) that by simp
  then have "\<forall>p \<in> set (positions s). pos_key p \<noteq> k" by (metis in_set_conv_nth)
  then show ?thesis by (simp add: filter_empty_conv)
qed

lemma abs_qty_index:
  assumes "port_inv s"
  shows "abs_qty s k = (case hm_get (pindex s) k of None \<Rightarrow> 0 | Some i \<Rightarrow> p_quantity (positions s ! i))"
proof (cases "hm_get (pindex s) k")
  case None
  then show ?thesis using filter_no_index [OF assms None] by (simp add: abs_qty_def)
next
  case (Some i)
  note f = filter_at_index [OF assms Some]
  have "filter (\<lambda>p. pos_key p = k) (positions s) = [positions s ! i]"
    by (subst id_take_nth_drop [OF f(1)]) (simp add: f)
  with Some show ?thesis by (simp add: abs_qty_def)
qed

lemma abs_qty_range: "port_inv s \<Longrightarrow> in_i32 (abs_qty s k)"
  by (cases "hm_get (pindex s) k") (simp_all add: abs_qty_index port_inv_at)

lemma abs_qty_get_position:
  assumes "port_inv s"
  shows "abs_qty s (make_key p k e r) =
           (case get_position s p k e r of None \<Rightarrow> 0 | Some pos \<Rightarrow> p_quantity pos)"
    and "get_position s p k e r = Some pos \<Longrightarrow> pos \<in> set (positions s) \<and> pos_key pos = make_key p k e r"
  by (cases "hm_get (pindex s) (make_key p k e r)",
      auto simp: abs_qty_index [OF assms] get_position_def port_inv_at [OF assms])

lemma add_fill_abs:
  assumes inv: "port_inv s" and q: "in_i32 q"
  shows "abs_qty (fst (add_fill now p k e r q px a b s)) =
    (abs_qty s)(make_key p k e r := wrap_i32 (abs_qty s (make_key p k e r) + q))"
proof (cases "q = 0")
  case True
  with inv show ?thesis by (simp add: add_fill_zero wrap_i32_id abs_qty_range)
next
  case False
  let ?k = "make_key p k e r"
  show ?thesis
  proof (cases "hm_get (pindex s) ?k")
    case None
    from add_fill_new [OF False None, of px now a b] obtain pos where
      "pos_key pos = ?k" "p_quantity pos = q"
      "positions (fst (add_fill now p k e r q px a b s)) = positions s @ [pos]" by blast
    with filter_no_index [OF inv None] q show ?thesis
      by (auto simp: fun_eq_iff abs_qty_def wrap_i32_id)
  next
    case (Some i)
    note f = filter_at_index [OF inv Some]
    have old: "abs_qty s ?k = p_quantity (positions s ! i)"
      by (simp add: abs_qty_index [OF inv] Some)
    have sp: "positions s = take i (positions s) @ positions s ! i # drop (Suc i) (positions s)"
      by (rule id_take_nth_drop [OF f(1)])
    show ?thesis
    proof (cases "wrap_i32 (p_quantity (positions s ! i) + q) = 0")
      case True
      note c = add_fill_close [OF False Some True, of now px a b]
      have "abs_qty s k' = sum_list (map p_quantity (filter (\<lambda>p. pos_key p = k')
          (take i (positions s) @ drop (Suc i) (positions s))))" if "k' \<noteq> ?k" for k'
        unfolding abs_qty_def by (subst sp) (use that f in simp)
      with c f True old show ?thesis by (auto simp: fun_eq_iff abs_qty_def [of "fst _"])
    next
      case nz: False
      note c = add_fill_merge [OF False Some nz, of now px a b]
      have u: "positions (fst (add_fill now p k e r q px a b s)) =
          take i (positions s) @ (positions s ! i)\<lparr>p_quantity := wrap_i32 (p_quantity (positions s ! i) + q),
             p_avg_fill_price := px, p_fill_time := now\<rparr> # drop (Suc i) (positions s)"
        using c f(1) by (simp add: upd_conv_take_nth_drop)
      have "abs_qty (fst (add_fill now p k e r q px a b s)) k' = abs_qty s k'" if "k' \<noteq> ?k" for k'
        unfolding abs_qty_def u by (subst (3) sp) (use that f in simp)
      moreover have "abs_qty (fst (add_fill now p k e r q px a b s)) ?k =
          wrap_i32 (p_quantity (positions s ! i) + q)"
        unfolding abs_qty_def u using f by simp
      ultimately show ?thesis using old by (auto simp: fun_eq_iff)
    qed
  qed
qed

text \<open>A history of fills, each with the time it was booked.\<close>

record booked_fill =
  bf_now :: date_time
  bf_product :: string
  bf_strike :: f64
  bf_expiry :: naive_date
  bf_right :: right
  bf_quantity :: int
  bf_price :: f64
  bf_spread :: f64
  bf_spread_mid :: f64

definition book_fill :: "portfolio_state \<Rightarrow> booked_fill \<Rightarrow> portfolio_state" where
  "book_fill s f =
     fst (add_fill (bf_now f) (bf_product f) (bf_strike f) (bf_expiry f) (bf_right f)
            (bf_quantity f) (bf_price f) (bf_spread f) (bf_spread_mid f) s)"

definition bf_key :: "booked_fill \<Rightarrow> position_key" where
  "bf_key f = make_key (bf_product f) (bf_strike f) (bf_expiry f) (bf_right f)"

lemma book_fills_ledger:
  assumes "port_inv s" "\<forall>f \<in> set fs. in_i32 (bf_quantity f)"
  shows "port_inv (foldl book_fill s fs) \<and>
         abs_qty (foldl book_fill s fs) k =
           wrap_i32 (abs_qty s k + sum_list (map bf_quantity (filter (\<lambda>f. bf_key f = k) fs)))"
  using assms
proof (induction fs arbitrary: s)
  case Nil
  then show ?case by (simp add: abs_qty_range wrap_i32_id)
next
  case (Cons f fs)
  have inv: "port_inv (book_fill s f)"
    unfolding book_fill_def using Cons.prems by (intro add_fill_inv) auto
  have ab: "abs_qty (book_fill s f) = (abs_qty s)(bf_key f := wrap_i32 (abs_qty s (bf_key f) + bf_quantity f))"
    unfolding book_fill_def bf_key_def using Cons.prems by (intro add_fill_abs) auto
  from Cons.IH [OF inv] Cons.prems show ?case by (simp add: ab algebra_simps)
qed

lemma fills_today_add:
  "fills_today (book_fill s f) =
     (if bf_quantity f = 0 then fills_today s else wrap_u32 (fills_today s + \<bar>bf_quantity f\<bar>))"
  by (auto simp: book_fill_def add_fill_def Let_def record_fill_accounting_def rebuild_index_def
      unsigned_abs_i32_def split: option.splits)

lemma fills_today_sum:
  "in_u32 (fills_today s) \<Longrightarrow>
   fills_today (foldl book_fill s fs) = wrap_u32 (fills_today s + sum_list (map (\<lambda>f. \<bar>bf_quantity f\<bar>) fs))"
proof (induction fs arbitrary: s)
  case Nil
  then show ?case by (simp add: wrap_u32_id)
next
  case (Cons f fs)
  have "in_u32 (fills_today (book_fill s f))"
    using Cons.prems by (simp add: fills_today_add)
  from Cons.IH [OF this] show ?case by (auto simp: fills_today_add algebra_simps)
qed

section \<open>Aggregation\<close>

definition weighted :: "(position \<Rightarrow> f64) \<Rightarrow> position \<Rightarrow> f64" where
  "weighted g p = fmul (g p) (of_i (p_quantity p))"

lemma net_of_fsum: "net_of g ps = fsum (map (weighted g) ps)"
  by (simp add: net_of_def weighted_def [abs_def])

text \<open>
  The pass over the book starts every total at \<open>+0.0\<close>, \<open>Iterator::sum\<close> in the accessors starts
  at \<open>-0.0\<close>. A total of the pass matches an accessor over the same contributions when the two
  are the same float, or when every contribution is \<open>-0.0\<close> (or there is none), the pass gives
  \<open>+0.0\<close> and the accessor \<open>-0.0\<close>.
\<close>

definition total_matches :: "f64 \<Rightarrow> f64 \<Rightarrow> f64 list \<Rightarrow> bool" where
  "total_matches pass accessor contributions \<longleftrightarrow>
     (if set contributions \<subseteq> {NZero} then pass = fzero \<and> accessor = NZero
      else pass = accessor)"

lemma fold_total_matches:
  "total_matches (foldl fadd fzero (map (weighted g) ps)) (net_of g ps) (map (weighted g) ps)"
  by (simp add: total_matches_def net_of_fsum foldl_fadd_is_fsum fsum_negative_zeros)

lemma aggregate_total_fold:
  "pg_net_delta (ag_total (foldl aggregate_step a ps)) =
     foldl fadd (pg_net_delta (ag_total a)) (map (weighted p_delta) ps)"
  "pg_net_theta (ag_total (foldl aggregate_step a ps)) =
     foldl fadd (pg_net_theta (ag_total a)) (map (weighted p_theta) ps)"
  "pg_net_vega (ag_total (foldl aggregate_step a ps)) =
     foldl fadd (pg_net_vega (ag_total a)) (map (weighted p_vega) ps)"
  "pg_net_gamma (ag_total (foldl aggregate_step a ps)) =
     foldl fadd (pg_net_gamma (ag_total a)) (map (weighted p_gamma) ps)"
  by (induction ps arbitrary: a) (simp_all add: aggregate_step_def greeks_add_def Let_def weighted_def)

text \<open>The entry of a product, or the default it starts from.\<close>

definition entry :: "aggregate_result \<Rightarrow> string \<Rightarrow> portfolio_greeks" where
  "entry a product =
     (case hm_get (ag_per_product a) product of None \<Rightarrow> portfolio_greeks_default | Some g \<Rightarrow> g)"

lemma entry_step:
  "entry (aggregate_step a p) product =
     (if product = p_product p
      then greeks_add (p_quantity p) (p_delta p) (p_theta p) (p_vega p) (p_gamma p) (entry a product)
      else entry a product)"
  by (simp add: entry_def aggregate_step_def Let_def hm_simps)

lemma aggregate_product_fold:
  "pg_net_delta (entry (foldl aggregate_step a ps) product) =
     foldl fadd (pg_net_delta (entry a product)) (map (weighted p_delta) (filter (\<lambda>p. p_product p = product) ps))"
  "pg_net_theta (entry (foldl aggregate_step a ps) product) =
     foldl fadd (pg_net_theta (entry a product)) (map (weighted p_theta) (filter (\<lambda>p. p_product p = product) ps))"
  "pg_net_vega (entry (foldl aggregate_step a ps) product) =
     foldl fadd (pg_net_vega (entry a product)) (map (weighted p_vega) (filter (\<lambda>p. p_product p = product) ps))"
  by (induction ps arbitrary: a) (auto simp: entry_step greeks_add_def Let_def weighted_def)

lemma aggregate_product_dom:
  "hm_get (ag_per_product (foldl aggregate_step a ps)) product \<noteq> None \<longleftrightarrow>
   hm_get (ag_per_product a) product \<noteq> None \<or> product \<in> p_product ` set ps"
  by (induction ps arbitrary: a) (auto simp: aggregate_step_def Let_def hm_simps)

section \<open>Reachable books\<close>

text \<open>Every book of a session: new, seeded from the broker (distinct keys, open positions, zero
  Greeks), then any sequence of fills, Greek refreshes and daily resets.\<close>

inductive port_reachable :: "libm \<Rightarrow> portfolio_state \<Rightarrow> bool" for M where
  fresh: "port_reachable M (portfolio_new r)"
| seed: "port_reachable M s \<Longrightarrow> distinct (map pos_key ps) \<Longrightarrow>
    (\<And>p. p \<in> set ps \<Longrightarrow> p_quantity p \<noteq> 0 \<and> in_i32 (p_quantity p) \<and> p_delta p = fzero) \<Longrightarrow>
    port_reachable M (replace_positions ps s)"
| filled: "port_reachable M s \<Longrightarrow> in_i32 q \<Longrightarrow>
    port_reachable M (fst (add_fill now p k e r q px a b s))"
| refreshed: "port_reachable M s \<Longrightarrow> port_reachable M (refresh_greeks M now mk s)"
| reset: "port_reachable M s \<Longrightarrow> port_reachable M (portfolio_reset_daily s)"

lemma port_reachable_inv: "port_reachable M s \<Longrightarrow> port_inv s"
proof (induction rule: port_reachable.induct)
  case (seed s ps)
  then show ?case by (intro replace_positions_inv) auto
next
  case (reset s)
  then show ?case using port_inv_cong [of "portfolio_reset_daily s" s]
    by (simp add: portfolio_reset_daily_def)
qed (auto intro: inv_intros)

definition delta_ok :: "position \<Rightarrow> bool" where
  "delta_ok p \<longleftrightarrow> fle (fneg fone) (p_delta p) \<and> fle (p_delta p) fone"

lemma delta_ok_zero [simp]: "p_delta p = fzero \<Longrightarrow> delta_ok p"
  by (simp add: delta_ok_def)

lemma refresh_position_delta:
  assumes "libm_ok M" "delta_ok p"
  shows "delta_ok (refresh_position M now mk reg p)"
proof -
  have z: "fle (fneg fone) fzero" "fle fzero fone" by simp_all
  have "fle (fneg fone) (g_delta (compute_greeks M f k t sg fzero rt m)) \<and>
        fle (g_delta (compute_greeks M f k t sg fzero rt m)) fone" for f k t sg rt m
    using compute_greeks_delta [OF assms(1), of rt f k t sg m] fle_trans [OF z(1)] fle_trans [OF _ z(2)]
    by (auto split: if_splits)
  with assms(2) show ?thesis
    by (auto simp: refresh_position_def delta_ok_def Let_def split: option.splits)
qed

lemma add_fill_positions:
  assumes "x \<in> set (positions (fst (add_fill now p k e r q px a b s)))"
    and "\<And>i. hm_get (pindex s) (make_key p k e r) = Some i \<Longrightarrow> i < length (positions s)"
  shows "p_delta x = fzero \<or> (\<exists>y \<in> set (positions s). p_delta x = p_delta y)"
  using assms
  by (auto simp: add_fill_def Let_def rebuild_index_def split: option.splits if_splits
      dest: in_set_takeD in_set_dropD dest!: set_update_subset_insert [THEN subsetD])

lemma port_reachable_delta:
  "port_reachable M s \<Longrightarrow> libm_ok M \<Longrightarrow> x \<in> set (positions s) \<Longrightarrow> delta_ok x"
proof (induction arbitrary: x rule: port_reachable.induct)
  case (fresh r)
  then show ?case by (simp add: portfolio_new_def)
next
  case (seed s ps)
  then show ?case by (simp add: replace_positions_def rebuild_index_def)
next
  case (filled s q now p k e r px a b)
  have "i < length (positions s)" if "hm_get (pindex s) (make_key p k e r) = Some i" for i
    using port_inv_at(1) [OF port_reachable_inv [OF filled(1)] that] .
  from add_fill_positions [OF filled.prems(2) this] filled.IH [OF filled.prems(1)]
  show ?case by (auto simp: delta_ok_def)
next
  case (refreshed s now mk)
  then show ?case by (auto simp: refresh_greeks_def refresh_position_delta)
next
  case (reset s)
  then show ?case by (simp add: portfolio_reset_daily_def)
qed

section \<open>Properties\<close>

definition demo_fill :: "int \<Rightarrow> booked_fill" where
  "demo_fill q =
     \<lparr>bf_now = 0, bf_product = ''HG'', bf_strike = lit 6, bf_expiry = 20630, bf_right = Call,
      bf_quantity = q, bf_price = lit (1 / 40), bf_spread = fzero, bf_spread_mid = fzero\<rparr>"

text \<open>C4. The position book is the running sum of its fills: after any history of fills from an
  empty book, the position found under a product, strike, expiry and right is the sum of the
  quantities filled there, in 32-bit arithmetic; there is no position exactly when that sum
  is zero; and the daily fill counter is the sum of the absolute quantities.\<close>

theorem book_is_sum_of_fills:
  assumes "\<forall>f \<in> set fs. in_i32 (bf_quantity f)"
  shows "let s = foldl book_fill (portfolio_new r) fs;
             total = wrap_i32 (sum_list (map bf_quantity (filter (\<lambda>f. bf_key f = make_key p k e rt) fs)))
         in (case get_position s p k e rt of
               None \<Rightarrow> total = 0
             | Some pos \<Rightarrow> p_quantity pos = total \<and> total \<noteq> 0) \<and>
            fills_today s = wrap_u32 (sum_list (map (\<lambda>f. \<bar>bf_quantity f\<bar>) fs))"
proof -
  let ?s = "foldl book_fill (portfolio_new r) fs" and ?k = "make_key p k e rt"
  have inv0: "port_inv (portfolio_new r)" by (rule portfolio_new_inv)
  note l = book_fills_ledger [OF inv0 assms, of ?k]
  note inv = conjunct1 [OF l]
  have q: "abs_qty ?s ?k = wrap_i32 (sum_list (map bf_quantity (filter (\<lambda>f. bf_key f = ?k) fs)))"
    using l by simp
  have ft: "fills_today ?s = wrap_u32 (sum_list (map (\<lambda>f. \<bar>bf_quantity f\<bar>) fs))"
    using fills_today_sum [of "portfolio_new r" fs] by (simp add: portfolio_new_def in_u32_def)
  show ?thesis
    unfolding Let_def q [symmetric]
    using abs_qty_get_position(1) [OF inv, of p k e rt]
      abs_qty_get_position(2) [OF inv, of p k e rt] port_inv_qty [OF inv] ft
    by (auto split: option.splits)
qed

theorem book_is_sum_of_fills_witness:
  "case get_position (foldl book_fill (portfolio_new registry_new)
       [demo_fill 3, demo_fill (- 5), demo_fill 1]) ''HG'' (lit 6) 20630 Call of
     None \<Rightarrow> False | Some pos \<Rightarrow> p_quantity pos = - 1"
  using book_is_sum_of_fills [of "[demo_fill 3, demo_fill (- 5), demo_fill 1]" registry_new
      "''HG''" "lit 6" 20630 Call]
  by (auto simp: Let_def demo_fill_def bf_key_def in_i32_def wrap_i32_def split: option.splits)

text \<open>What a fill does to a position, from the old quantity and the filled one.\<close>

definition spec_outcome :: "int \<Rightarrow> int \<Rightarrow> fill_outcome" where
  "spec_outcome old q =
     (if q = 0 then FillRejected ''zero quantity''
      else if old = 0 then Opened
      else if old + q = 0 then ClosedOut
      else if sgn old \<noteq> sgn (old + q) then Flipped
      else if \<bar>old\<bar> < \<bar>old + q\<bar> then Increased
      else PartiallyClosed)"

text \<open>The reported outcome of a fill describes what happened to the position, on every
  reachable book and for every quantity that does not overflow: a zero fill is rejected, and
  otherwise the position was opened, closed, flipped, increased or reduced according to the
  signs and sizes before and after.\<close>

theorem fill_outcome_classifies:
  assumes "port_reachable M s" "in_i32 q" "in_i32 (abs_qty s (make_key p k e r) + q)"
  shows "snd (add_fill now p k e r q px a b s) = spec_outcome (abs_qty s (make_key p k e r)) q"
proof (cases "hm_get (pindex s) (make_key p k e r)")
  case None
  then show ?thesis
    using add_fill_new [of q s p k e r px now a b] abs_qty_index [OF port_reachable_inv [OF assms(1)]]
    by (cases "q = 0") (auto simp: add_fill_zero spec_outcome_def)
next
  case (Some i)
  note inv = port_reachable_inv [OF assms(1)]
  have old: "abs_qty s (make_key p k e r) = p_quantity (positions s ! i)"
    by (simp add: abs_qty_index [OF inv] Some)
  have nz: "p_quantity (positions s ! i) \<noteq> 0" using port_inv_at(4) [OF inv Some] .
  have w: "wrap_i32 (p_quantity (positions s ! i) + q) = p_quantity (positions s ! i) + q"
    using assms(3) old by (simp add: wrap_i32_id)
  show ?thesis
    unfolding old using nz w Some
    by (auto simp: add_fill_def spec_outcome_def Let_def signum_i32_def sgn_if)
qed

theorem fill_outcome_classifies_witness:
  "snd (add_fill 0 ''HG'' (lit 6) 20630 Call (- 3) fone fzero fzero
     (fst (add_fill 0 ''HG'' (lit 6) 20630 Call 2 fone fzero fzero (portfolio_new registry_new)))) = Flipped"
proof -
  let ?s = "fst (add_fill 0 ''HG'' (lit 6) 20630 Call 2 fone fzero fzero (portfolio_new registry_new))"
  have r: "port_reachable demo_libm ?s"
    by (intro port_reachable.intros) (simp add: in_i32_def)
  have a: "abs_qty ?s (make_key ''HG'' (lit 6) 20630 Call) = 2"
    using add_fill_abs [OF portfolio_new_inv, of 2]
    by (simp add: in_i32_def abs_qty_new wrap_i32_def)
  show ?thesis
    using fill_outcome_classifies [OF r, of "- 3" "''HG''" "lit 6" 20630 Call 0 fone fzero fzero]
    by (simp add: a in_i32_def spec_outcome_def)
qed

lemma aggregate_entry_dom:
  "hm_get (ag_per_product (aggregate s)) product = None \<longleftrightarrow> positions_for_product s product = []"
  using aggregate_product_dom [of "\<lparr>ag_total = portfolio_greeks_default, ag_per_product = hm_new\<rparr>" "positions s" product]
  by (auto simp: aggregate_def hm_simps positions_for_product_def filter_empty_conv)

lemma aggregate_entry_matches:
  assumes "hm_get (ag_per_product (aggregate s)) product = Some g"
  shows "total_matches (pg_net_delta g) (delta_for_product s product)
       (map (weighted p_delta) (positions_for_product s product))"
    "total_matches (pg_net_theta g) (theta_for_product s product)
       (map (weighted p_theta) (positions_for_product s product))"
    "total_matches (pg_net_vega g) (vega_for_product s product)
       (map (weighted p_vega) (positions_for_product s product))"
proof -
  have g: "g = entry (aggregate s) product" using assms by (simp add: entry_def)
  have e: "entry \<lparr>ag_total = portfolio_greeks_default, ag_per_product = hm_new\<rparr> product = portfolio_greeks_default"
    by (simp add: entry_def hm_simps)
  have d: "pg_net_delta portfolio_greeks_default = fzero" "pg_net_theta portfolio_greeks_default = fzero"
    "pg_net_vega portfolio_greeks_default = fzero"
    by (simp_all add: portfolio_greeks_default_def)
  show "total_matches (pg_net_delta g) (delta_for_product s product)
       (map (weighted p_delta) (positions_for_product s product))"
    "total_matches (pg_net_theta g) (theta_for_product s product)
       (map (weighted p_theta) (positions_for_product s product))"
    "total_matches (pg_net_vega g) (vega_for_product s product)
       (map (weighted p_vega) (positions_for_product s product))"
    unfolding g aggregate_def aggregate_product_fold e d delta_for_product_def theta_for_product_def
      vega_for_product_def positions_for_product_def
    by (rule fold_total_matches)+
qed

lemma aggregate_total_matches:
  "total_matches (pg_net_delta (ag_total (aggregate s))) (net_delta s) (map (weighted p_delta) (positions s))"
  "total_matches (pg_net_theta (ag_total (aggregate s))) (net_theta s) (map (weighted p_theta) (positions s))"
  "total_matches (pg_net_vega (ag_total (aggregate s))) (net_vega s) (map (weighted p_vega) (positions s))"
  "total_matches (pg_net_gamma (ag_total (aggregate s))) (net_gamma s) (map (weighted p_gamma) (positions s))"
  unfolding aggregate_def aggregate_total_fold net_delta_def net_theta_def net_vega_def net_gamma_def
  using fold_total_matches [of p_delta "positions s"] fold_total_matches [of p_theta "positions s"]
    fold_total_matches [of p_vega "positions s"] fold_total_matches [of p_gamma "positions s"]
  by (simp_all add: portfolio_greeks_default_def)

text \<open>The sign of a zero is lost in every comparison with a limit.\<close>

lemma total_matches_add: "total_matches a b cs \<Longrightarrow> fadd a (of_i n) = fadd b (of_i n)"
  using fadd_zeros [OF of_i_not_NZero] by (auto simp: total_matches_def split: if_splits)

lemma total_matches_abs: "total_matches a b cs \<Longrightarrow> fabs a = fabs b"
  by (auto simp: total_matches_def split: if_splits)

lemma total_matches_flt: "total_matches a b cs \<Longrightarrow> flt a l = flt b l"
  by (cases l) (auto simp: total_matches_def split: if_splits)

lemma total_matches_nan: "total_matches a b cs \<Longrightarrow> a = NaN \<longleftrightarrow> b = NaN"
  by (auto simp: total_matches_def split: if_splits)

text \<open>C9. The one-pass aggregation computes the same totals as the separate accessors:
  \<open>net_delta\<close>, \<open>net_theta\<close>, \<open>net_vega\<close> and \<open>net_gamma\<close>, and for every product that has a
  position its per-product delta, theta and vega; no other product has an entry. The floats
  are equal bit for bit, with one exception: when every position contributes \<open>-0.0\<close>, or there
  is no position, the pass gives \<open>+0.0\<close> and the accessor \<open>-0.0\<close>.\<close>

theorem aggregate_agrees_with_accessors:
  "total_matches (pg_net_delta (ag_total (aggregate s))) (net_delta s)
     (map (weighted p_delta) (positions s)) \<and>
   total_matches (pg_net_theta (ag_total (aggregate s))) (net_theta s)
     (map (weighted p_theta) (positions s)) \<and>
   total_matches (pg_net_vega (ag_total (aggregate s))) (net_vega s)
     (map (weighted p_vega) (positions s)) \<and>
   total_matches (pg_net_gamma (ag_total (aggregate s))) (net_gamma s)
     (map (weighted p_gamma) (positions s)) \<and>
   (case hm_get (ag_per_product (aggregate s)) product of
      None \<Rightarrow> positions_for_product s product = []
    | Some g \<Rightarrow> positions_for_product s product \<noteq> [] \<and>
        total_matches (pg_net_delta g) (delta_for_product s product)
          (map (weighted p_delta) (positions_for_product s product)) \<and>
        total_matches (pg_net_theta g) (theta_for_product s product)
          (map (weighted p_theta) (positions_for_product s product)) \<and>
        total_matches (pg_net_vega g) (vega_for_product s product)
          (map (weighted p_vega) (positions_for_product s product)))"
  using aggregate_total_matches [of s] aggregate_entry_dom [of s product]
    aggregate_entry_matches [of s product]
  by (cases "hm_get (ag_per_product (aggregate s)) product") simp_all

text \<open>The portfolio's net delta, overall and per product, is never a NaN on any reachable
  book, whatever the market data and the clock were, given a libm whose distribution
  function takes values in the unit interval: so the delta gates always compare numbers.\<close>

theorem net_delta_never_nan:
  assumes "port_reachable M s" "libm_ok M"
  shows "net_delta s \<noteq> NaN \<and> delta_for_product s product \<noteq> NaN"
proof -
  have "is_finite (fmul (p_delta x) (of_i (p_quantity x)))" if "x \<in> set (positions s)" for x
    using port_reachable_delta [OF assms that] port_inv_qty [OF port_reachable_inv [OF assms(1)] that]
    unfolding delta_ok_def by (blast intro: unit_times_i32_finite)
  then show ?thesis
    unfolding net_delta_def delta_for_product_def net_of_def positions_for_product_def
    by (intro conjI fsum_not_nan) auto
qed

theorem net_delta_never_nan_witness:
  "net_delta (refresh_greeks demo_libm 0 (md_view md_new)
     (fst (add_fill 0 ''HG'' (lit 6) 20630 Call 2 fone fzero fzero (portfolio_new registry_new)))) \<noteq> NaN"
proof -
  have r: "port_reachable demo_libm (refresh_greeks demo_libm 0 (md_view md_new)
     (fst (add_fill 0 ''HG'' (lit 6) 20630 Call 2 fone fzero fzero (portfolio_new registry_new))))"
    by (intro port_reachable.intros) (simp add: in_i32_def)
  show ?thesis using net_delta_never_nan [OF r demo_libm_ok] by simp
qed

end
