(* ===== verification/Risk.thy ===== *)
theory Risk
  imports Portfolio
begin

text \<open>
  The kill switch of \<open>corsair_risk\<close> (\<open>kill.rs\<close>, \<open>sentinel.rs\<close>, \<open>monitor.rs\<close>): the monitor
  holds at most one kill event, fired by the periodic check, the per-fill check or an
  operator's sentinel file, and cleared only by the rules of its source. The directory of
  sentinel files is part of the state; the text of a reason is represented by the values
  it prints.
\<close>

section \<open>kill.rs\<close>

datatype kill_type = Halt | Flatten | HedgeFlat

datatype kill_source =
    RiskSource | Disconnect | DailyHalt | Reconciliation | ExceptionStorm | Operational
  | Induced kill_source

definition is_daily_clearable :: "kill_source \<Rightarrow> bool" where
  "is_daily_clearable s \<longleftrightarrow> s = DailyHalt \<or> s = Induced DailyHalt"

definition is_disconnect :: "kill_source \<Rightarrow> bool" where
  "is_disconnect s \<longleftrightarrow> s = Disconnect"

fun source_label :: "kill_source \<Rightarrow> string" where
  "source_label RiskSource = ''risk''"
| "source_label Disconnect = ''disconnect''"
| "source_label DailyHalt = ''daily_halt''"
| "source_label Reconciliation = ''reconciliation''"
| "source_label ExceptionStorm = ''exception_storm''"
| "source_label Operational = ''operational''"
| "source_label (Induced inner) = ''induced_'' @ source_label inner"

datatype kill_reason =
    MarginKill f64 f64
  | DeltaKill f64 f64
  | VegaHalt f64 f64
  | ThetaHalt f64 f64
  | DailyPnlHalt f64 f64 f64
  | DailyPnlHaltFillPath f64 f64 f64
  | InducedTest string string kill_type string

record kill_event =
  ke_reason :: kill_reason
  ke_source :: kill_source
  ke_kill_type :: kill_type
  ke_timestamp_ns :: int

section \<open>sentinel.rs\<close>

record induced_sentinel =
  is_key :: string
  is_filename :: string
  is_kill_type :: kill_type
  is_inner_source :: kill_source

definition induced_sentinels :: "induced_sentinel list" where
  "induced_sentinels =
     [\<lparr>is_key = ''daily_pnl'', is_filename = ''corsair_induce_daily_pnl'',
       is_kill_type = Halt, is_inner_source = DailyHalt\<rparr>,
      \<lparr>is_key = ''margin'', is_filename = ''corsair_induce_margin'',
       is_kill_type = Halt, is_inner_source = RiskSource\<rparr>,
      \<lparr>is_key = ''delta'', is_filename = ''corsair_induce_delta'',
       is_kill_type = HedgeFlat, is_inner_source = RiskSource\<rparr>,
      \<lparr>is_key = ''theta'', is_filename = ''corsair_induce_theta'',
       is_kill_type = Halt, is_inner_source = RiskSource\<rparr>,
      \<lparr>is_key = ''vega'', is_filename = ''corsair_induce_vega'',
       is_kill_type = Halt, is_inner_source = RiskSource\<rparr>]"

text \<open>The sentinel directory: its path, the files present in it, and whether the process may
  remove a file.\<close>

record sentinel_files =
  sd_dir :: string
  sd_present :: "string list"
  sd_removable :: "string \<Rightarrow> bool"

definition sentinel_dir :: "string option \<Rightarrow> string" where
  "sentinel_dir env = (case env of Some d \<Rightarrow> d | None \<Rightarrow> ''/tmp'')"

section \<open>monitor.rs\<close>

record risk_config =
  rc_capital :: f64
  rc_margin_kill_pct :: f64
  rc_daily_halt_threshold :: "f64 option"
  rc_delta_kill :: f64
  rc_vega_kill :: f64
  rc_theta_kill :: f64
  rc_margin_ceiling_pct :: f64
  rc_effective_delta_gating :: bool

definition resolve_daily_halt_threshold :: "f64 option \<Rightarrow> f64 option \<Rightarrow> f64 \<Rightarrow> f64 option" where
  "resolve_daily_halt_threshold pct max_loss capital =
     (case pct of
        Some p \<Rightarrow>
          if fgt p fzero \<and> fgt capital fzero then Some (fneg (fmul p capital))
          else (case max_loss of
                  Some a \<Rightarrow> if flt a fzero then Some a else None
                | None \<Rightarrow> None)
      | None \<Rightarrow>
          (case max_loss of
             Some a \<Rightarrow> if flt a fzero then Some a else None
           | None \<Rightarrow> None))"

datatype risk_check_outcome = Healthy | Killed kill_event | AlreadyKilled kill_event

record risk_monitor =
  rm_cfg :: risk_config
  rm_killed :: "kill_event option"

definition monitor_new :: "risk_config \<Rightarrow> risk_monitor" where
  "monitor_new cfg = \<lparr>rm_cfg = cfg, rm_killed = None\<rparr>"

definition is_killed :: "risk_monitor \<Rightarrow> bool" where
  "is_killed m \<longleftrightarrow> rm_killed m \<noteq> None"

definition fire :: "kill_event \<Rightarrow> risk_monitor \<Rightarrow> risk_monitor \<times> risk_check_outcome" where
  "fire ev m = (m\<lparr>rm_killed := Some ev\<rparr>, Killed ev)"

fun induced_from ::
  "induced_sentinel list \<Rightarrow> int \<Rightarrow> sentinel_files \<Rightarrow> sentinel_files \<times> kill_event option" where
  "induced_from [] now d = (d, None)"
| "induced_from (s # ss) now d =
     (if is_filename s \<notin> set (sd_present d) then induced_from ss now d
      else if \<not> sd_removable d (is_filename s) then (d, None)
      else (d\<lparr>sd_present := filter (\<lambda>f. f \<noteq> is_filename s) (sd_present d)\<rparr>,
            Some \<lparr>ke_reason = InducedTest (map to_ascii_uppercase (is_key s))
                               (sd_dir d @ ''/'' @ is_filename s) (is_kill_type s)
                               (source_label (is_inner_source s)),
                  ke_source = Induced (is_inner_source s),
                  ke_kill_type = is_kill_type s,
                  ke_timestamp_ns = now\<rparr>))"

definition check_induced_sentinels :: "int \<Rightarrow> sentinel_files \<Rightarrow> sentinel_files \<times> kill_event option" where
  "check_induced_sentinels now d = induced_from induced_sentinels now d"

definition daily_pnl_of :: "portfolio_state \<Rightarrow> market_view \<Rightarrow> f64" where
  "daily_pnl_of p market = fadd (realized_pnl_persisted p) (compute_mtm_pnl market p)"

definition risk_event :: "kill_reason \<Rightarrow> kill_source \<Rightarrow> kill_type \<Rightarrow> int \<Rightarrow> kill_event" where
  "risk_event reason src kt now =
     \<lparr>ke_reason = reason, ke_source = src, ke_kill_type = kt, ke_timestamp_ns = now\<rparr>"

definition check ::
  "int \<Rightarrow> portfolio_state \<Rightarrow> f64 \<Rightarrow> f64 \<Rightarrow> f64 \<Rightarrow> f64 \<Rightarrow> market_view \<Rightarrow> sentinel_files \<Rightarrow> risk_monitor \<Rightarrow>
   risk_monitor \<times> sentinel_files \<times> risk_check_outcome" where
  "check now p margin_used worst_delta worst_theta worst_vega market d m =
     (case rm_killed m of
        Some e \<Rightarrow> (m, d, AlreadyKilled e)
      | None \<Rightarrow>
          (case check_induced_sentinels now d of
             (d1, Some ev) \<Rightarrow> (let (m1, out) = fire ev m in (m1, d1, out))
           | (d1, None) \<Rightarrow>
               (let cfg = rm_cfg m;
                    cap = rc_capital cfg;
                    margin_kill = fmul cap (rc_margin_kill_pct cfg);
                    kill = (\<lambda>ev. let (m1, out) = fire ev m in (m1, d1, out))
                in if fgt margin_used margin_kill
                   then kill (risk_event (MarginKill margin_used margin_kill) RiskSource Halt now)
                   else if fgt (fabs worst_delta) (rc_delta_kill cfg)
                   then kill (risk_event (DeltaKill worst_delta (rc_delta_kill cfg)) RiskSource HedgeFlat now)
                   else if fgt (rc_vega_kill cfg) fzero \<and> fgt (fabs worst_vega) (rc_vega_kill cfg)
                   then kill (risk_event (VegaHalt worst_vega (rc_vega_kill cfg)) RiskSource Halt now)
                   else if flt (rc_theta_kill cfg) fzero \<and> flt worst_theta (rc_theta_kill cfg)
                   then kill (risk_event (ThetaHalt worst_theta (rc_theta_kill cfg)) RiskSource Halt now)
                   else
                     (case rc_daily_halt_threshold cfg of
                        None \<Rightarrow> (m, d1, Healthy)
                      | Some threshold \<Rightarrow>
                          if flt (daily_pnl_of p market) threshold
                          then kill (risk_event
                                 (DailyPnlHalt (daily_pnl_of p market) threshold
                                    (fmul (fdiv (fabs threshold) cap) (lit 100))) DailyHalt Halt now)
                          else (m, d1, Healthy)))))"

definition check_daily_pnl_only ::
  "int \<Rightarrow> portfolio_state \<Rightarrow> market_view \<Rightarrow> risk_monitor \<Rightarrow> risk_monitor \<times> risk_check_outcome" where
  "check_daily_pnl_only now p market m =
     (case rm_killed m of
        Some e \<Rightarrow> (m, AlreadyKilled e)
      | None \<Rightarrow>
          (case rc_daily_halt_threshold (rm_cfg m) of
             None \<Rightarrow> (m, Healthy)
           | Some threshold \<Rightarrow>
               if flt (daily_pnl_of p market) threshold
               then fire (risk_event
                      (DailyPnlHaltFillPath (daily_pnl_of p market) threshold
                         (fmul (fdiv (fabs threshold) (rc_capital (rm_cfg m))) (lit 100)))
                      DailyHalt Halt now) m
               else (m, Healthy)))"

definition clear_disconnect_kill :: "risk_monitor \<Rightarrow> risk_monitor \<times> bool" where
  "clear_disconnect_kill m =
     (case rm_killed m of
        None \<Rightarrow> (m, False)
      | Some ev \<Rightarrow> if is_disconnect (ke_source ev) then (m\<lparr>rm_killed := None\<rparr>, True) else (m, False))"

definition clear_daily_halt :: "risk_monitor \<Rightarrow> risk_monitor \<times> bool" where
  "clear_daily_halt m =
     (case rm_killed m of
        None \<Rightarrow> (m, False)
      | Some ev \<Rightarrow> if is_daily_clearable (ke_source ev) then (m\<lparr>rm_killed := None\<rparr>, True) else (m, False))"

definition kill_reason_of :: "risk_monitor \<Rightarrow> kill_reason option" where
  "kill_reason_of m = map_option ke_reason (rm_killed m)"

section \<open>The kill switch as a state machine\<close>

inductive risk_step :: "risk_monitor \<Rightarrow> risk_monitor \<Rightarrow> bool" where
  periodic: "risk_step m (fst (check now p mg wd wt wv mk d m))"
| fill: "risk_step m (fst (check_daily_pnl_only now p mk m))"
| reconnect: "risk_step m (fst (clear_disconnect_kill m))"
| rollover: "risk_step m (fst (clear_daily_halt m))"

inductive risk_run :: "risk_monitor \<Rightarrow> risk_monitor \<Rightarrow> bool" where
  here: "risk_run m m"
| more: "risk_run m m' \<Longrightarrow> risk_step m' m'' \<Longrightarrow> risk_run m m''"

inductive_cases risk_stepE: "risk_step m m'"

lemma check_killed: "rm_killed m = Some e \<Longrightarrow> check now p mg wd wt wv mk d m = (m, d, AlreadyKilled e)"
  by (simp add: check_def)

lemma check_daily_killed: "rm_killed m = Some e \<Longrightarrow> check_daily_pnl_only now p mk m = (m, AlreadyKilled e)"
  by (simp add: check_daily_pnl_only_def)

lemma risk_step_sticky:
  assumes "risk_step m m'" "rm_killed m = Some e"
    "\<not> is_daily_clearable (ke_source e)" "\<not> is_disconnect (ke_source e)"
  shows "m' = m"
  using assms
  by (auto elim!: risk_stepE simp: check_killed check_daily_killed clear_disconnect_kill_def
      clear_daily_halt_def)

lemma induced_source:
  "snd (induced_from ss now d) = Some ev \<Longrightarrow>
   \<exists>s \<in> set ss. ke_source ev = Induced (is_inner_source s) \<and> ke_kill_type ev = is_kill_type s"
  by (induction ss) (auto split: if_splits)

definition fired_sources :: "kill_source set" where
  "fired_sources = {RiskSource, DailyHalt, Induced RiskSource, Induced DailyHalt}"

lemma check_induced_source:
  "check_induced_sentinels now d = (d1, Some ev) \<Longrightarrow> ke_source ev \<in> fired_sources"
  using induced_source [of induced_sentinels now d ev]
  by (auto simp: check_induced_sentinels_def induced_sentinels_def fired_sources_def)

text \<open>The limits in the order they are tested, as a specification: the first one breached.\<close>

definition breaches ::
  "risk_config \<Rightarrow> f64 \<Rightarrow> f64 \<Rightarrow> f64 \<Rightarrow> f64 \<Rightarrow> f64 \<Rightarrow> (bool \<times> kill_reason \<times> kill_source \<times> kill_type) list" where
  "breaches cfg mg wd wt wv pnl =
     [(fgt mg (fmul (rc_capital cfg) (rc_margin_kill_pct cfg)),
        MarginKill mg (fmul (rc_capital cfg) (rc_margin_kill_pct cfg)), RiskSource, Halt),
      (fgt (fabs wd) (rc_delta_kill cfg), DeltaKill wd (rc_delta_kill cfg), RiskSource, HedgeFlat),
      (fgt (rc_vega_kill cfg) fzero \<and> fgt (fabs wv) (rc_vega_kill cfg),
        VegaHalt wv (rc_vega_kill cfg), RiskSource, Halt),
      (flt (rc_theta_kill cfg) fzero \<and> flt wt (rc_theta_kill cfg),
        ThetaHalt wt (rc_theta_kill cfg), RiskSource, Halt),
      (case rc_daily_halt_threshold cfg of None \<Rightarrow> False | Some t \<Rightarrow> flt pnl t,
        DailyPnlHalt pnl (the (rc_daily_halt_threshold cfg))
          (fmul (fdiv (fabs (the (rc_daily_halt_threshold cfg))) (rc_capital cfg)) (lit 100)),
        DailyHalt, Halt)]"

definition first_breach ::
  "risk_config \<Rightarrow> f64 \<Rightarrow> f64 \<Rightarrow> f64 \<Rightarrow> f64 \<Rightarrow> f64 \<Rightarrow> int \<Rightarrow> kill_event option" where
  "first_breach cfg mg wd wt wv pnl now =
     map_option (\<lambda>(_, reason, src, kt). risk_event reason src kt now)
       (find fst (breaches cfg mg wd wt wv pnl))"

lemma first_breach_None_iff:
  "first_breach cfg mg wd wt wv pnl now = None \<longleftrightarrow>
   (\<forall>b \<in> set (breaches cfg mg wd wt wv pnl). \<not> fst b)"
proof -
  have "find fst bs = None \<longleftrightarrow> (\<forall>b \<in> set bs. \<not> fst b)" for bs :: "(bool \<times> 'b) list"
    by (induction bs) auto
  then show ?thesis by (simp add: first_breach_def)
qed

lemma check_no_sentinel:
  assumes "rm_killed m = None" "check_induced_sentinels now d = (d1, None)"
  shows "check now p mg wd wt wv mk d m =
    (case first_breach (rm_cfg m) mg wd wt wv (daily_pnl_of p mk) now of
       None \<Rightarrow> (m, d1, Healthy)
     | Some ev \<Rightarrow> (m\<lparr>rm_killed := Some ev\<rparr>, d1, Killed ev))"
  using assms
  by (simp add: check_def first_breach_def breaches_def fire_def Let_def split: option.splits)

lemma first_breach_source: "first_breach cfg mg wd wt wv pnl now = Some ev \<Longrightarrow> ke_source ev \<in> fired_sources"
  by (auto simp: first_breach_def breaches_def risk_event_def fired_sources_def split: if_splits)

lemma check_source:
  assumes "rm_killed m = None" "rm_killed (fst (check now p mg wd wt wv mk d m)) = Some e"
  shows "ke_source e \<in> fired_sources"
proof -
  obtain d1 evo where i: "check_induced_sentinels now d = (d1, evo)" by fastforce
  show ?thesis
  proof (cases evo)
    case (Some ev)
    with i assms check_induced_source [of now d d1 ev] show ?thesis
      by (simp add: check_def fire_def)
  next
    case None
    with i have i': "check_induced_sentinels now d = (d1, None)" by simp
    from assms show ?thesis
      unfolding check_no_sentinel [OF assms(1) i']
      by (auto split: option.splits dest: first_breach_source)
  qed
qed

lemma check_daily_source:
  "rm_killed m = None \<Longrightarrow> rm_killed (fst (check_daily_pnl_only now p mk m)) = Some e \<Longrightarrow>
   ke_source e \<in> fired_sources"
  by (auto simp: check_daily_pnl_only_def fire_def risk_event_def fired_sources_def
      split: option.splits if_splits)

lemma risk_step_source:
  assumes "risk_step m m'" "\<And>e. rm_killed m = Some e \<Longrightarrow> ke_source e \<in> fired_sources"
    "rm_killed m' = Some e'"
  shows "ke_source e' \<in> fired_sources"
proof (cases "rm_killed m")
  case (Some e)
  then show ?thesis
    using assms by (auto elim!: risk_stepE simp: check_killed check_daily_killed
        clear_disconnect_kill_def clear_daily_halt_def split: if_splits)
next
  case None
  then show ?thesis
    using assms(1,3) by (auto elim!: risk_stepE simp: clear_disconnect_kill_def
        clear_daily_halt_def dest: check_source check_daily_source)
qed

lemma risk_run_source:
  "risk_run m m' \<Longrightarrow> rm_killed m = None \<Longrightarrow> rm_killed m' = Some e \<Longrightarrow> ke_source e \<in> fired_sources"
proof (induction arbitrary: e rule: risk_run.induct)
  case (more m m' m'')
  then show ?case using risk_step_source [OF more(2)] by blast
qed simp

lemma risk_run_sticky:
  assumes "risk_run m m'" "rm_killed m = Some e"
    "\<not> is_daily_clearable (ke_source e)" "\<not> is_disconnect (ke_source e)"
  shows "m' = m"
  using assms
proof (induction rule: risk_run.induct)
  case (more m m' m'')
  then show ?case using risk_step_sticky [OF more(2)] by blast
qed simp

section \<open>Properties\<close>

definition demo_risk_config :: risk_config where
  "demo_risk_config =
     \<lparr>rc_capital = lit 500000, rc_margin_kill_pct = fone, rc_daily_halt_threshold = Some (Fin (- 25000)),
      rc_delta_kill = Fin 5, rc_vega_kill = fzero, rc_theta_kill = Fin (- 500),
      rc_margin_ceiling_pct = fone, rc_effective_delta_gating = True\<rparr>"

definition no_sentinels :: sentinel_files where
  "no_sentinels = \<lparr>sd_dir = ''/tmp'', sd_present = [], sd_removable = (\<lambda>_. True)\<rparr>"

lemma no_sentinels_check [simp]: "check_induced_sentinels now no_sentinels = (no_sentinels, None)"
  by (simp add: check_induced_sentinels_def induced_sentinels_def no_sentinels_def)

lemma demo_capital: "fmul (lit 500000) fone = Fin 500000"
  using lit_int [of 500000] rnd_exact [OF rep_of_int, of 500000]
  by (simp add: fmul_finite)

lemma demo_delta_kill:
  "rm_killed m = None \<Longrightarrow> rm_cfg m = demo_risk_config \<Longrightarrow>
   fst (check 1 p fzero (Fin 7) fzero fzero mk no_sentinels m) =
     m\<lparr>rm_killed := Some (risk_event (DeltaKill (Fin 7) (Fin 5)) RiskSource HedgeFlat 1)\<rparr>"
  by (simp add: check_no_sentinel first_breach_def breaches_def demo_risk_config_def demo_capital)

text \<open>C2. A risk kill is sticky: once a monitor that started unkilled holds a kill that is not
  a daily halt (real or induced), no sequence of periodic checks, fill checks, broker
  reconnects and session rollovers changes it; in particular the reconnect
  path leaves such a kill in force, since no check fires one with the disconnect source.\<close>

theorem non_daily_kill_is_sticky:
  assumes "risk_run (monitor_new cfg) m" "rm_killed m = Some e"
    and "\<not> is_daily_clearable (ke_source e)" "risk_run m m'"
  shows "rm_killed m' = Some e \<and> snd (clear_disconnect_kill m') = False"
proof -
  have "ke_source e \<in> fired_sources"
    using risk_run_source [OF assms(1) _ assms(2)] by (simp add: monitor_new_def)
  then have nd: "\<not> is_disconnect (ke_source e)" by (auto simp: fired_sources_def is_disconnect_def)
  have "m' = m" by (rule risk_run_sticky [OF assms(4,2,3) nd])
  then show ?thesis using assms(2) nd by (simp add: clear_disconnect_kill_def)
qed

theorem non_daily_kill_is_sticky_witness:
  "let m1 = fst (check 1 portfolio_empty fzero (Fin 7) fzero fzero no_op_market_view no_sentinels
                   (monitor_new demo_risk_config));
       m2 = fst (clear_daily_halt m1)
   in rm_killed m2 = Some (risk_event (DeltaKill (Fin 7) (Fin 5)) RiskSource HedgeFlat 1)"
proof -
  let ?m1 = "fst (check 1 portfolio_empty fzero (Fin 7) fzero fzero no_op_market_view no_sentinels
                   (monitor_new demo_risk_config))"
  have r: "risk_run (monitor_new demo_risk_config) ?m1" "risk_run ?m1 (fst (clear_daily_halt ?m1))"
    by (rule risk_run.more [OF risk_run.here], rule risk_step.periodic)
      (rule risk_run.more [OF risk_run.here], rule risk_step.rollover)
  have k: "rm_killed ?m1 = Some (risk_event (DeltaKill (Fin 7) (Fin 5)) RiskSource HedgeFlat 1)"
    by (subst demo_delta_kill) (simp_all add: monitor_new_def)
  show ?thesis
    using non_daily_kill_is_sticky [OF r(1) k _ r(2)]
    by (simp add: Let_def risk_event_def is_daily_clearable_def)
qed

text \<open>C3. The periodic check enforces exactly the configured limits: on an unkilled monitor
  with no sentinel file, and for inputs and limits that are not NaN, it reports healthy if
  and only if the margin is within the margin kill, the worst delta within the delta kill,
  the enabled vega and theta limits hold, and the day's P\&L has not fallen below the halt
  threshold.\<close>

theorem healthy_iff_within_limits:
  assumes "rm_killed m = None" "\<forall>s \<in> set induced_sentinels. is_filename s \<notin> set (sd_present d)"
    and "mg \<noteq> NaN" "wd \<noteq> NaN" "wt \<noteq> NaN" "wv \<noteq> NaN" "daily_pnl_of p mk \<noteq> NaN"
    and "fmul (rc_capital (rm_cfg m)) (rc_margin_kill_pct (rm_cfg m)) \<noteq> NaN"
    and "rc_delta_kill (rm_cfg m) \<noteq> NaN" "rc_vega_kill (rm_cfg m) \<noteq> NaN" "rc_theta_kill (rm_cfg m) \<noteq> NaN"
    and "rc_daily_halt_threshold (rm_cfg m) \<noteq> Some NaN"
  shows "snd (snd (check now p mg wd wt wv mk d m)) = Healthy \<longleftrightarrow>
     fle mg (fmul (rc_capital (rm_cfg m)) (rc_margin_kill_pct (rm_cfg m))) \<and>
     fle (fabs wd) (rc_delta_kill (rm_cfg m)) \<and>
     (fle (rc_vega_kill (rm_cfg m)) fzero \<or> fle (fabs wv) (rc_vega_kill (rm_cfg m))) \<and>
     (fge (rc_theta_kill (rm_cfg m)) fzero \<or> fge wt (rc_theta_kill (rm_cfg m))) \<and>
     (case rc_daily_halt_threshold (rm_cfg m) of None \<Rightarrow> True
      | Some t \<Rightarrow> fge (daily_pnl_of p mk) t)"
proof -
  have ind: "induced_from ss now d = (d, None)" if "\<forall>s \<in> set ss. is_filename s \<notin> set (sd_present d)" for ss
    using that by (induction ss) auto
  have c: "check_induced_sentinels now d = (d, None)"
    unfolding check_induced_sentinels_def by (rule ind [OF assms(2)])
  have "snd (snd (check now p mg wd wt wv mk d m)) = Healthy \<longleftrightarrow>
      (\<forall>b \<in> set (breaches (rm_cfg m) mg wd wt wv (daily_pnl_of p mk)). \<not> fst b)"
    unfolding check_no_sentinel [OF assms(1) c] first_breach_None_iff [symmetric, of _ _ _ _ _ _ now]
    by (simp split: option.splits)
  then show ?thesis
    using assms(3-12) by (auto simp: breaches_def not_flt_iff split: option.splits)
qed

theorem healthy_iff_within_limits_witness:
  "snd (snd (check 1 portfolio_empty fzero (Fin 7) fzero fzero no_op_market_view no_sentinels
      (monitor_new demo_risk_config))) \<noteq> Healthy"
  using healthy_iff_within_limits [of "monitor_new demo_risk_config" no_sentinels fzero "Fin 7" fzero fzero
      portfolio_empty no_op_market_view 1]
  by (simp add: monitor_new_def no_sentinels_def demo_risk_config_def demo_capital daily_pnl_of_def
      compute_mtm_pnl_def portfolio_empty_def portfolio_new_def)

text \<open>The per-fill halt never disagrees with the periodic check: whenever the fill path kills,
  a periodic check in the same state, with any margin, Greeks and sentinel files, also
  leaves the monitor killed; and the fill path only ever fires a daily halt.\<close>

theorem fill_path_kill_implies_periodic_kill:
  assumes "snd (check_daily_pnl_only now p mk m) = Killed ev"
  shows "ke_source ev = DailyHalt \<and> ke_kill_type ev = Halt \<and>
         is_killed (fst (check now' p mg wd wt wv mk d m))"
proof -
  from assms obtain t where nk: "rm_killed m = None" and t: "rc_daily_halt_threshold (rm_cfg m) = Some t"
    and lt: "flt (daily_pnl_of p mk) t" and src: "ke_source ev = DailyHalt" "ke_kill_type ev = Halt"
    by (auto simp: check_daily_pnl_only_def fire_def risk_event_def split: option.splits if_splits)
  obtain d1 evo where i: "check_induced_sentinels now' d = (d1, evo)" by fastforce
  have "is_killed (fst (check now' p mg wd wt wv mk d m))"
  proof (cases evo)
    case (Some e)
    then show ?thesis using nk i by (simp add: check_def fire_def is_killed_def)
  next
    case None
    with i have i': "check_induced_sentinels now' d = (d1, None)" by simp
    have "first_breach (rm_cfg m) mg wd wt wv (daily_pnl_of p mk) now' \<noteq> None"
      using t lt by (simp add: first_breach_None_iff breaches_def)
    then show ?thesis
      unfolding check_no_sentinel [OF nk i'] is_killed_def by auto
  qed
  with src show ?thesis by simp
qed

definition demo_loss :: portfolio_state where
  "demo_loss = (portfolio_new registry_new)\<lparr>realized_pnl_persisted := Fin (- 30000)\<rparr>"

theorem fill_path_kill_implies_periodic_kill_witness:
  "is_killed (fst (check 2 demo_loss fzero fzero fzero fzero no_op_market_view no_sentinels
     (monitor_new demo_risk_config)))"
proof -
  have r: "rnd (- 30000) = Fin (- 30000)" using rnd_exact [OF rep_of_int, of "- 30000"] by simp
  obtain ev where "snd (check_daily_pnl_only 1 demo_loss no_op_market_view (monitor_new demo_risk_config)) = Killed ev"
    by (simp add: check_daily_pnl_only_def monitor_new_def demo_risk_config_def daily_pnl_of_def
        demo_loss_def compute_mtm_pnl_def portfolio_new_def fire_def r)
  then show ?thesis using fill_path_kill_implies_periodic_kill by blast
qed

text \<open>An operator's sentinel fires its kill at most once: whenever the sentinel check
  returns a kill, the sentinel's file was present and has been removed (and no other file
  was touched), the kill carries the sentinel's type and its source wrapped as induced; and
  when it returns none, the directory is unchanged, even if a present file could not be
  removed.\<close>

theorem sentinel_fires_once:
  assumes "check_induced_sentinels now d = (d1, evo)"
  shows "case evo of
      None \<Rightarrow> d1 = d
    | Some ev \<Rightarrow> \<exists>s \<in> set induced_sentinels.
         is_filename s \<in> set (sd_present d) \<and> is_filename s \<notin> set (sd_present d1) \<and>
         set (sd_present d1) = set (sd_present d) - {is_filename s} \<and>
         ke_kill_type ev = is_kill_type s \<and> ke_source ev = Induced (is_inner_source s)"
proof -
  have "case evo of None \<Rightarrow> d1 = d
    | Some ev \<Rightarrow> \<exists>s \<in> set ss. is_filename s \<in> set (sd_present d) \<and> is_filename s \<notin> set (sd_present d1) \<and>
        set (sd_present d1) = set (sd_present d) - {is_filename s} \<and>
        ke_kill_type ev = is_kill_type s \<and> ke_source ev = Induced (is_inner_source s)"
    if "induced_from ss now d = (d1, evo)" for ss
    using that
  proof (induction ss)
    case (Cons s ss)
    show ?case
    proof (cases "is_filename s \<in> set (sd_present d)")
      case True
      with Cons.prems show ?thesis by (auto split: if_splits)
    next
      case False
      with Cons show ?thesis by (auto split: option.splits)
    qed
  qed auto
  with assms show ?thesis by (simp add: check_induced_sentinels_def)
qed

theorem sentinel_fires_once_witness:
  "fst (check_induced_sentinels 5 (no_sentinels\<lparr>sd_present := [''other'']\<rparr>)) =
     no_sentinels\<lparr>sd_present := [''other'']\<rparr>"
  using sentinel_fires_once [of 5 "no_sentinels\<lparr>sd_present := [''other'']\<rparr>"
      "no_sentinels\<lparr>sd_present := [''other'']\<rparr>" None]
  by (simp add: check_induced_sentinels_def induced_sentinels_def no_sentinels_def)

lemma port_reachable_realized: "port_reachable M s \<Longrightarrow> realized_pnl_persisted s = fzero"
proof (induction rule: port_reachable.induct)
  case (filled s q now p k e r px a b)
  then show ?case
    by (auto simp: add_fill_def Let_def record_fill_accounting_def rebuild_index_def split: option.splits)
qed (simp_all add: portfolio_new_def replace_positions_def rebuild_index_def refresh_greeks_def
    portfolio_reset_daily_def)

text \<open>C8. Losses that have been closed out escape the daily P\&L halt: nothing ever adds to the
  realized P\&L, so on any reachable book with no open position, whatever was lost on the way
  there, neither the fill path nor (with no other limit breached and no sentinel) the
  periodic check halts, for every negative threshold.\<close>

theorem closed_losses_escape_daily_halt:
  assumes "port_reachable M s" "positions s = []" "rm_killed m = None"
    and "rc_daily_halt_threshold (rm_cfg m) = Some t" "flt t fzero"
  shows "check_daily_pnl_only now s mk m = (m, Healthy) \<and>
         (check_induced_sentinels now d = (d, None) \<and>
            (\<forall>b \<in> set (take 4 (breaches (rm_cfg m) mg wd wt wv fzero)). \<not> fst b) \<longrightarrow>
          check now s mg wd wt wv mk d m = (m, d, Healthy))"
proof -
  have pnl: "daily_pnl_of s mk = fzero"
    using port_reachable_realized [OF assms(1)] assms(2) by (simp add: daily_pnl_of_def compute_mtm_pnl_def)
  have nt: "\<not> flt fzero t" using assms(5) flt_asym by blast
  show ?thesis
    using assms(3,4) pnl nt
    by (auto simp: check_daily_pnl_only_def check_no_sentinel first_breach_def breaches_def)
qed

theorem closed_losses_escape_daily_halt_witness:
  "snd (check_daily_pnl_only 9
      (foldl book_fill (portfolio_new registry_new) [demo_fill 1000, (demo_fill (- 1000))\<lparr>bf_price := fzero\<rparr>])
      no_op_market_view (monitor_new demo_risk_config)) = Healthy"
proof -
  let ?s = "foldl book_fill (portfolio_new registry_new) [demo_fill 1000, (demo_fill (- 1000))\<lparr>bf_price := fzero\<rparr>]"
  have r: "port_reachable demo_libm ?s"
    by (auto simp: book_fill_def demo_fill_def in_i32_def intro!: port_reachable.intros)
  have e: "positions ?s = []"
    by (simp add: book_fill_def demo_fill_def add_fill_def portfolio_new_def Let_def hm_simps
        record_fill_accounting_def rebuild_index_def wrap_i32_def)
  show ?thesis
    using closed_losses_escape_daily_halt [OF r e, of "monitor_new demo_risk_config" "Fin (- 25000)"]
    by (simp add: monitor_new_def demo_risk_config_def)
qed

end
