(* ===== verification/Hedge.thy ===== *)
theory Hedge
  imports Portfolio
begin

text \<open>
  The futures hedge of \<open>corsair_hedge\<close> (\<open>state.rs\<close>, \<open>manager.rs\<close>, \<open>fanout.rs\<close>): the
  signed hedge quantity with its average entry and realized P\&L, the rebalance decisions
  driven by the options' delta, the deduplicated application of broker executions, and the
  dispatch over products. The deduplication is shown to refine a bounded first-in
  first-out memory of execution ids.
\<close>

section \<open>state.rs\<close>

record hedge_state =
  hedge_qty :: int
  avg_entry_f :: f64
  realized_pnl_usd :: f64

definition hedge_state_new :: hedge_state where
  "hedge_state_new = \<lparr>hedge_qty = 0, avg_entry_f = fzero, realized_pnl_usd = fzero\<rparr>"

text \<open>\<open>sign * (price - avg) * n * multiplier\<close>, the realized P\&L of closing \<open>n\<close> contracts.\<close>

definition close_pnl :: "hedge_state \<Rightarrow> f64 \<Rightarrow> int \<Rightarrow> f64 \<Rightarrow> f64" where
  "close_pnl h price n multiplier =
     (let sign = (if 0 < hedge_qty h then fone else fneg fone)
      in fmul (fmul (fmul sign (fsub price (avg_entry_f h))) (of_i n)) multiplier)"

definition hedge_apply_fill :: "bool \<Rightarrow> int \<Rightarrow> f64 \<Rightarrow> f64 \<Rightarrow> hedge_state \<Rightarrow> hedge_state" where
  "hedge_apply_fill is_buy qty price multiplier h =
     (let effect = (if is_buy then wrap_i32 qty else wrap_i32 (- wrap_i32 qty));
          new_qty = wrap_i32 (hedge_qty h + effect)
      in if new_qty = 0 then
           \<lparr>hedge_qty = 0, avg_entry_f = fzero,
            realized_pnl_usd = fadd (realized_pnl_usd h)
              (close_pnl h price (unsigned_abs_i32 (hedge_qty h)) multiplier)\<rparr>
         else if 0 \<le> hedge_qty h \<and> 0 \<le> effect \<or> hedge_qty h \<le> 0 \<and> effect \<le> 0 then
           h\<lparr>hedge_qty := new_qty,
             avg_entry_f := fdiv (fadd (fmul (avg_entry_f h) (of_i (hedge_qty h)))
                                       (fmul price (of_i effect))) (of_i new_qty)\<rparr>
         else if unsigned_abs_i32 effect < unsigned_abs_i32 (hedge_qty h) then
           h\<lparr>hedge_qty := new_qty,
             realized_pnl_usd := fadd (realized_pnl_usd h)
               (close_pnl h price (unsigned_abs_i32 effect) multiplier)\<rparr>
         else
           \<lparr>hedge_qty = new_qty, avg_entry_f = price,
            realized_pnl_usd = fadd (realized_pnl_usd h)
              (close_pnl h price (unsigned_abs_i32 (hedge_qty h)) multiplier)\<rparr>)"

definition hedge_mtm_usd :: "f64 \<Rightarrow> f64 \<Rightarrow> hedge_state \<Rightarrow> f64" where
  "hedge_mtm_usd current_f multiplier h =
     (if hedge_qty h = 0 \<or> fle current_f fzero then fzero
      else fmul (fmul (fsub current_f (avg_entry_f h)) (of_i (hedge_qty h))) multiplier)"

definition hedge_replace :: "int \<Rightarrow> f64 \<Rightarrow> hedge_state \<Rightarrow> hedge_state" where
  "hedge_replace qty avg_f h = h\<lparr>hedge_qty := qty, avg_entry_f := avg_f\<rparr>"

section \<open>manager.rs\<close>

datatype hedge_mode = Observe | Execute

record hedge_config =
  hc_product :: string
  hc_multiplier :: f64
  hc_mode :: hedge_mode
  hc_tolerance_deltas :: f64
  hc_rebalance_on_fill :: bool
  hc_rebalance_cadence_sec :: f64
  hc_include_in_daily_pnl :: bool
  hc_flatten_on_halt_enabled :: bool
  hc_ioc_tick_offset :: int
  hc_hedge_tick_size :: f64
  hc_lockout_days :: int

text \<open>\<open>Place is_buy qty reason effective_delta_pre target_qty\<close> and
  \<open>LogOnly is_buy qty reason forward\<close>.\<close>

datatype hedge_action =
    Idle
  | Place bool int string f64 int
  | LogOnly bool int string f64

text \<open>The hash set of processed ids is a set; the deque is a list, its front first.\<close>

record hedge_manager =
  mg_cfg :: hedge_config
  mg_state :: hedge_state
  mg_contract :: "contract option"
  mg_last_periodic_ns :: int
  mg_priority_drain_until_ns :: int
  mg_processed :: "string set"
  mg_processed_order :: "string list"

definition processed_exec_ids_max :: nat where
  "processed_exec_ids_max = 10000"

definition hedge_manager_new :: "hedge_config \<Rightarrow> hedge_manager" where
  "hedge_manager_new cfg =
     \<lparr>mg_cfg = cfg, mg_state = hedge_state_new, mg_contract = None, mg_last_periodic_ns = 0,
      mg_priority_drain_until_ns = 0, mg_processed = {}, mg_processed_order = []\<rparr>"

definition mgr_hedge_qty :: "hedge_manager \<Rightarrow> int" where
  "mgr_hedge_qty m = hedge_qty (mg_state m)"

definition mgr_mtm_usd :: "f64 \<Rightarrow> hedge_manager \<Rightarrow> f64" where
  "mgr_mtm_usd current_f m = hedge_mtm_usd current_f (hc_multiplier (mg_cfg m)) (mg_state m)"

definition set_hedge_contract :: "contract \<Rightarrow> hedge_manager \<Rightarrow> hedge_manager" where
  "set_hedge_contract c m = m\<lparr>mg_contract := Some c\<rparr>"

definition effective_delta :: "portfolio_state \<Rightarrow> hedge_manager \<Rightarrow> f64" where
  "effective_delta p m =
     fadd (delta_for_product p (hc_product (mg_cfg m))) (of_i (hedge_qty (mg_state m)))"

text \<open>\<open>tolerance_override\<close> only switches off the first of the two tests for an empty trade.\<close>

definition rebalance ::
  "portfolio_state \<Rightarrow> f64 option \<Rightarrow> string \<Rightarrow> f64 \<Rightarrow> hedge_manager \<Rightarrow> hedge_manager \<times> hedge_action" where
  "rebalance p tolerance_override reason forward m =
     (let h = hedge_qty (mg_state m);
          effective = effective_delta p m;
          target_qty = to_i32 (fneg (fround (fsub effective (of_i h))));
          desired_change = wrap_i32 (target_qty - h)
      in if tolerance_override = None \<and> abs_i32 desired_change < 1 then (m, Idle)
         else if desired_change = 0 then (m, Idle)
         else
           let is_buy = 0 < desired_change; qty = unsigned_abs_i32 desired_change
           in (case hc_mode (mg_cfg m) of
                 Observe \<Rightarrow>
                   (m\<lparr>mg_state := hedge_apply_fill is_buy qty forward (hc_multiplier (mg_cfg m)) (mg_state m)\<rparr>,
                    LogOnly is_buy qty reason forward)
               | Execute \<Rightarrow> (m, Place is_buy qty reason effective target_qty)))"

definition maybe_rebalance ::
  "portfolio_state \<Rightarrow> string \<Rightarrow> f64 \<Rightarrow> hedge_manager \<Rightarrow> hedge_manager \<times> hedge_action" where
  "maybe_rebalance p reason forward m =
     (if fle (fabs (effective_delta p m)) (hc_tolerance_deltas (mg_cfg m)) then (m, Idle)
      else rebalance p None reason forward m)"

definition rebalance_on_fill :: "portfolio_state \<Rightarrow> hedge_manager \<Rightarrow> hedge_manager \<times> hedge_action" where
  "rebalance_on_fill p m =
     (if \<not> hc_rebalance_on_fill (mg_cfg m) then (m, Idle)
      else maybe_rebalance p ''fill'' (lit 6) m)"

definition rebalance_periodic ::
  "portfolio_state \<Rightarrow> f64 \<Rightarrow> int \<Rightarrow> hedge_manager \<Rightarrow> hedge_manager \<times> hedge_action" where
  "rebalance_periodic p forward now_ns m =
     (let until = mg_priority_drain_until_ns m in
      if 0 < until \<and> now_ns < until then
        maybe_rebalance p ''priority_drain_periodic'' forward (m\<lparr>mg_last_periodic_ns := now_ns\<rparr>)
      else if 0 < until \<and> until \<le> now_ns then
        maybe_rebalance p ''priority_drain_clear'' forward
          (m\<lparr>mg_priority_drain_until_ns := 0, mg_last_periodic_ns := now_ns\<rparr>)
      else
        let elapsed = fdiv (of_i (saturating_sub now_ns (mg_last_periodic_ns m))) (lit 1000000000)
        in if flt elapsed (hc_rebalance_cadence_sec (mg_cfg m)) then (m, Idle)
           else maybe_rebalance p ''periodic'' forward (m\<lparr>mg_last_periodic_ns := now_ns\<rparr>))"

definition force_flat :: "portfolio_state \<Rightarrow> f64 \<Rightarrow> hedge_manager \<Rightarrow> hedge_manager \<times> hedge_action" where
  "force_flat p forward m = rebalance p (Some fzero) ''delta_kill_force_flat'' forward m"

definition request_priority_drain :: "int \<Rightarrow> hedge_manager \<Rightarrow> hedge_manager" where
  "request_priority_drain until m =
     m\<lparr>mg_priority_drain_until_ns := max (mg_priority_drain_until_ns m) until\<rparr>"

definition flatten_on_halt :: "f64 \<Rightarrow> hedge_manager \<Rightarrow> hedge_action" where
  "flatten_on_halt forward m =
     (let h = hedge_qty (mg_state m) in
      if \<not> hc_flatten_on_halt_enabled (mg_cfg m) then Idle
      else if h = 0 then Idle
      else (case hc_mode (mg_cfg m) of
              Observe \<Rightarrow> LogOnly (h < 0) (unsigned_abs_i32 h) ''halt_flatten'' forward
            | Execute \<Rightarrow> Place (h < 0) (unsigned_abs_i32 h) ''halt_flatten'' (of_i h) 0))"

definition remember_exec :: "string \<Rightarrow> hedge_manager \<Rightarrow> hedge_manager" where
  "remember_exec eid m =
     (let m1 = (if processed_exec_ids_max \<le> length (mg_processed_order m) then
                  (case mg_processed_order m of
                     [] \<Rightarrow> m
                   | old # rest \<Rightarrow> m\<lparr>mg_processed_order := rest,
                                     mg_processed := mg_processed m - {old}\<rparr>)
                else m)
      in m1\<lparr>mg_processed := insert eid (mg_processed m1),
            mg_processed_order := mg_processed_order m1 @ [eid]\<rparr>)"

definition apply_broker_fill :: "fill \<Rightarrow> hedge_manager \<Rightarrow> hedge_manager \<times> bool" where
  "apply_broker_fill f m =
     (if hc_mode (mg_cfg m) \<noteq> Execute then (m, False)
      else (case mg_contract m of
              None \<Rightarrow> (m, False)
            | Some c \<Rightarrow>
                if f_instrument_id f \<noteq> c_instrument_id c then (m, False)
                else if f_exec_id f = [] \<or> f_exec_id f \<in> mg_processed m then (m, False)
                else
                  let m1 = remember_exec (f_exec_id f) m
                  in (m1\<lparr>mg_state := hedge_apply_fill (f_side f = Buy) (f_qty f) (f_price f)
                            (hc_multiplier (mg_cfg m1)) (mg_state m1)\<rparr>, True)))"

definition reconcile_with_position :: "int \<Rightarrow> f64 \<Rightarrow> hedge_manager \<Rightarrow> hedge_manager \<times> bool" where
  "reconcile_with_position broker_qty broker_avg_cost m =
     (if broker_qty = hedge_qty (mg_state m) then (m, False)
      else (m\<lparr>mg_state := hedge_replace broker_qty broker_avg_cost (mg_state m)\<rparr>, True))"

section \<open>fanout.rs\<close>

type_synonym hedge_fanout = "hedge_manager list"

definition for_product :: "hedge_fanout \<Rightarrow> string \<Rightarrow> hedge_manager option" where
  "for_product fo product = find (\<lambda>m. hc_product (mg_cfg m) = product) fo"

text \<open>Updating through \<open>for_product_mut\<close>: the first manager of the product.\<close>

fun update_product :: "string \<Rightarrow> (hedge_manager \<Rightarrow> hedge_manager) \<Rightarrow> hedge_fanout \<Rightarrow> hedge_fanout" where
  "update_product product f [] = []"
| "update_product product f (m # ms) =
     (if hc_product (mg_cfg m) = product then f m # ms else m # update_product product f ms)"

definition hedge_qty_for_product :: "hedge_fanout \<Rightarrow> string \<Rightarrow> int" where
  "hedge_qty_for_product fo product =
     (case for_product fo product of None \<Rightarrow> 0 | Some m \<Rightarrow> mgr_hedge_qty m)"

definition forward_or_zero :: "(string \<Rightarrow> f64 option) \<Rightarrow> hedge_manager \<Rightarrow> f64" where
  "forward_or_zero forward_for m =
     (case forward_for (hc_product (mg_cfg m)) of None \<Rightarrow> fzero | Some f \<Rightarrow> f)"

definition mtm_usd_total :: "(string \<Rightarrow> f64 option) \<Rightarrow> hedge_fanout \<Rightarrow> f64" where
  "mtm_usd_total forwards fo = fsum (map (\<lambda>m. mgr_mtm_usd (forward_or_zero forwards m) m) fo)"

definition force_flat_all ::
  "portfolio_state \<Rightarrow> (string \<Rightarrow> f64 option) \<Rightarrow> hedge_fanout \<Rightarrow>
   hedge_fanout \<times> (string \<times> hedge_action) list" where
  "force_flat_all p forward_for fo =
     (let rs = map (\<lambda>m. force_flat p (forward_or_zero forward_for m) m) fo
      in (map fst rs, zip (map (\<lambda>m. hc_product (mg_cfg m)) fo) (map snd rs)))"

definition flatten_on_halt_all ::
  "(string \<Rightarrow> f64 option) \<Rightarrow> hedge_fanout \<Rightarrow> (string \<times> hedge_action) list" where
  "flatten_on_halt_all forward_for fo =
     map (\<lambda>m. (hc_product (mg_cfg m), flatten_on_halt (forward_or_zero forward_for m) m)) fo"

section \<open>Quantities\<close>

definition signed_qty :: "bool \<Rightarrow> int \<Rightarrow> int" where
  "signed_qty is_buy qty = (if is_buy then qty else - qty)"

lemma wrap_i32_minus: "wrap_i32 (- wrap_i32 x) = wrap_i32 (- x)"
proof -
  have "wrap_i32 x = x + 2 ^ 32 * (- ((x + 2 ^ 31) div 2 ^ 32))"
    unfolding wrap_i32_def by (simp add: minus_div_mult_eq_mod [symmetric] algebra_simps)
  then obtain c where c: "wrap_i32 x = x + 2 ^ 32 * c" by blast
  have "wrap_i32 (- x + 2 ^ 32 * (- c)) = wrap_i32 (- x)"
  proof -
    have e: "- x + 2 ^ 32 * (- c) + 2 ^ 31 = (- x + 2 ^ 31) + (- c) * 2 ^ 32" by simp
    show ?thesis unfolding wrap_i32_def e by (simp only: mod_mult_self1)
  qed
  with c show ?thesis by simp
qed

text \<open>Every branch of \<open>apply_fill\<close> moves the quantity by the signed fill, and a flat hedge has
  no average entry.\<close>

lemma hedge_apply_fill_qty:
  "hedge_qty (hedge_apply_fill b q px mult h) = wrap_i32 (hedge_qty h + signed_qty b q)"
proof -
  have w: "wrap_i32 (hedge_qty h + wrap_i32 e) = wrap_i32 (hedge_qty h + e)" for e
    using wrap_i32_add_left [of e "hedge_qty h"] by (simp add: add.commute)
  have *: "(if b then wrap_i32 q else wrap_i32 (- wrap_i32 q)) = wrap_i32 (signed_qty b q)"
    by (simp add: signed_qty_def wrap_i32_minus)
  show ?thesis
    unfolding hedge_apply_fill_def Let_def * w by simp
qed

lemma hedge_apply_fill_flat:
  "wrap_i32 (hedge_qty h + signed_qty b q) = 0 \<Longrightarrow> avg_entry_f (hedge_apply_fill b q px mult h) = fzero"
proof -
  assume a: "wrap_i32 (hedge_qty h + signed_qty b q) = 0"
  have w: "wrap_i32 (hedge_qty h + wrap_i32 e) = wrap_i32 (hedge_qty h + e)" for e
    using wrap_i32_add_left [of e "hedge_qty h"] by (simp add: add.commute)
  have *: "(if b then wrap_i32 q else wrap_i32 (- wrap_i32 q)) = wrap_i32 (signed_qty b q)"
    by (simp add: signed_qty_def wrap_i32_minus)
  show ?thesis unfolding hedge_apply_fill_def Let_def * w using a by simp
qed

section \<open>The memory of execution ids\<close>

definition exec_inv :: "hedge_manager \<Rightarrow> bool" where
  "exec_inv m \<longleftrightarrow>
     mg_processed m = set (mg_processed_order m) \<and> distinct (mg_processed_order m) \<and>
     length (mg_processed_order m) \<le> processed_exec_ids_max"

lemma exec_inv_new: "exec_inv (hedge_manager_new cfg)"
  by (simp add: exec_inv_def hedge_manager_new_def)

text \<open>Remembering an id drops the oldest one when the memory is full.\<close>

definition evicted :: "string list \<Rightarrow> string list" where
  "evicted ids = (if processed_exec_ids_max \<le> length ids then tl ids else ids)"

lemma remember_exec_order:
  "mg_processed_order (remember_exec e m) = evicted (mg_processed_order m) @ [e]"
  by (auto simp: remember_exec_def evicted_def Let_def split: list.splits)

lemma remember_exec_frame [simp]:
  "mg_cfg (remember_exec e m) = mg_cfg m" "mg_state (remember_exec e m) = mg_state m"
  "mg_contract (remember_exec e m) = mg_contract m"
  by (auto simp: remember_exec_def Let_def split: list.splits)

lemma remember_exec_inv:
  assumes "exec_inv m" "e \<notin> mg_processed m"
  shows "exec_inv (remember_exec e m)"
  using assms
  by (cases "mg_processed_order m")
     (auto simp: exec_inv_def remember_exec_def Let_def processed_exec_ids_max_def)

definition matches :: "hedge_manager \<Rightarrow> fill \<Rightarrow> bool" where
  "matches m f \<longleftrightarrow>
     hc_mode (mg_cfg m) = Execute \<and> f_exec_id f \<noteq> [] \<and>
     (case mg_contract m of None \<Rightarrow> False | Some c \<Rightarrow> f_instrument_id f = c_instrument_id c)"

lemma apply_broker_fill_accept:
  "matches m f \<Longrightarrow> f_exec_id f \<notin> mg_processed m \<Longrightarrow>
   apply_broker_fill f m =
     ((remember_exec (f_exec_id f) m)\<lparr>mg_state := hedge_apply_fill (f_side f = Buy) (f_qty f) (f_price f)
         (hc_multiplier (mg_cfg m)) (mg_state m)\<rparr>, True)"
  by (auto simp: matches_def apply_broker_fill_def Let_def split: option.splits)

lemma apply_broker_fill_reject:
  "\<not> matches m f \<or> f_exec_id f \<in> mg_processed m \<Longrightarrow> apply_broker_fill f m = (m, False)"
  by (auto simp: matches_def apply_broker_fill_def Let_def split: option.splits)

lemma apply_broker_fill_frame [simp]:
  "mg_cfg (fst (apply_broker_fill f m)) = mg_cfg m"
  "mg_contract (fst (apply_broker_fill f m)) = mg_contract m"
  by (cases "matches m f \<and> f_exec_id f \<notin> mg_processed m";
      auto simp: apply_broker_fill_accept apply_broker_fill_reject)+

lemma apply_broker_fill_inv [inv_intros]:
  assumes "exec_inv m"
  shows "exec_inv (fst (apply_broker_fill f m))"
proof (cases "matches m f \<and> f_exec_id f \<notin> mg_processed m")
  case True
  with remember_exec_inv [OF assms, of "f_exec_id f"] show ?thesis
    by (simp add: apply_broker_fill_accept exec_inv_def)
next
  case False
  with assms show ?thesis by (auto simp: apply_broker_fill_reject)
qed

lemma matches_frame: "mg_cfg m = mg_cfg m' \<Longrightarrow> mg_contract m = mg_contract m' \<Longrightarrow> matches m f = matches m' f"
  by (simp add: matches_def)

definition apply_fills :: "fill list \<Rightarrow> hedge_manager \<Rightarrow> hedge_manager" where
  "apply_fills fs m = foldl (\<lambda>m f. fst (apply_broker_fill f m)) m fs"

lemma apply_fills_simps [simp]:
  "apply_fills [] m = m" "apply_fills (f # fs) m = apply_fills fs (fst (apply_broker_fill f m))"
  by (simp_all add: apply_fills_def)

text \<open>An id stays remembered while fewer than the capacity follow it.\<close>

lemma remembered_window:
  assumes "exec_inv m" "mg_processed_order m = pre @ e # post"
    and "length post + length fs < processed_exec_ids_max"
  shows "e \<in> mg_processed (apply_fills fs m) \<and> exec_inv (apply_fills fs m) \<and>
         mg_cfg (apply_fills fs m) = mg_cfg m \<and> mg_contract (apply_fills fs m) = mg_contract m"
  using assms
proof (induction fs arbitrary: m pre post)
  case Nil
  then show ?case by (auto simp: exec_inv_def)
next
  case (Cons f fs)
  let ?m = "fst (apply_broker_fill f m)"
  have inv: "exec_inv ?m" by (rule apply_broker_fill_inv [OF Cons.prems(1)])
  show ?case
  proof (cases "matches m f \<and> f_exec_id f \<notin> mg_processed m")
    case False
    then have "?m = m" by (auto simp: apply_broker_fill_reject)
    with Cons.IH [of m pre post] Cons.prems show ?thesis by simp
  next
    case True
    then have ord: "mg_processed_order ?m = evicted (mg_processed_order m) @ [f_exec_id f]"
      by (simp add: apply_broker_fill_accept remember_exec_order)
    have "\<exists>pre'. mg_processed_order ?m = pre' @ e # (post @ [f_exec_id f])"
    proof (cases "processed_exec_ids_max \<le> length (mg_processed_order m)")
      case True
      with Cons.prems obtain x pre' where "pre = x # pre'" by (cases pre) auto
      with ord True Cons.prems(2) show ?thesis by (simp add: evicted_def)
    next
      case False
      with ord Cons.prems(2) show ?thesis by (simp add: evicted_def)
    qed
    then obtain pre' where "mg_processed_order ?m = pre' @ e # (post @ [f_exec_id f])" by blast
    from Cons.IH [OF inv this] Cons.prems(3) show ?thesis by simp
  qed
qed

text \<open>The executions a perfect, unbounded deduplication would count: the matching ones, each id
  at its first occurrence.\<close>

fun first_occurrences :: "hedge_manager \<Rightarrow> string set \<Rightarrow> fill list \<Rightarrow> fill list" where
  "first_occurrences m seen [] = []"
| "first_occurrences m seen (f # fs) =
     (if matches m f \<and> f_exec_id f \<notin> seen
      then f # first_occurrences m (insert (f_exec_id f) seen) fs
      else first_occurrences m seen fs)"

definition fill_signed :: "fill \<Rightarrow> int" where
  "fill_signed f = signed_qty (f_side f = Buy) (f_qty f)"

lemma first_occurrences_frame:
  "mg_cfg m = mg_cfg m' \<Longrightarrow> mg_contract m = mg_contract m' \<Longrightarrow>
   first_occurrences m seen fs = first_occurrences m' seen fs"
  by (induction fs arbitrary: seen) (simp_all add: matches_frame [of m m'])

lemma apply_fills_qty:
  assumes "exec_inv m" "length (mg_processed_order m) + length fs \<le> processed_exec_ids_max"
    "in_i32 (hedge_qty (mg_state m))"
  shows "hedge_qty (mg_state (apply_fills fs m)) =
    wrap_i32 (hedge_qty (mg_state m) +
      sum_list (map fill_signed (first_occurrences m (mg_processed m) fs)))"
  using assms
proof (induction fs arbitrary: m)
  case Nil
  then show ?case by (simp add: wrap_i32_id)
next
  case (Cons f fs)
  let ?m = "fst (apply_broker_fill f m)"
  have inv: "exec_inv ?m" by (rule apply_broker_fill_inv [OF Cons.prems(1)])
  show ?case
  proof (cases "matches m f \<and> f_exec_id f \<notin> mg_processed m")
    case False
    then have "?m = m" by (auto simp: apply_broker_fill_reject)
    with Cons.IH [of m] Cons.prems False show ?thesis by auto
  next
    case True
    have small: "\<not> processed_exec_ids_max \<le> length (mg_processed_order m)" using Cons.prems(2) by simp
    have m: "?m = (remember_exec (f_exec_id f) m)\<lparr>mg_state :=
        hedge_apply_fill (f_side f = Buy) (f_qty f) (f_price f) (hc_multiplier (mg_cfg m)) (mg_state m)\<rparr>"
      using True by (simp add: apply_broker_fill_accept)
    have proc: "mg_processed ?m = insert (f_exec_id f) (mg_processed m)"
      using small by (simp add: m remember_exec_def Let_def)
    have len: "length (mg_processed_order ?m) + length fs \<le> processed_exec_ids_max"
      using Cons.prems(2) small by (simp add: m remember_exec_order evicted_def)
    have q: "hedge_qty (mg_state ?m) = wrap_i32 (hedge_qty (mg_state m) + fill_signed f)"
      by (simp add: m hedge_apply_fill_qty fill_signed_def)
    have fo: "first_occurrences ?m seen fs = first_occurrences m seen fs" for seen
      by (rule first_occurrences_frame) simp_all
    from Cons.IH [OF inv len] True show ?thesis
      by (simp add: q proc fo algebra_simps)
  qed
qed

section \<open>Reachable managers\<close>

inductive mgr_reachable :: "hedge_manager \<Rightarrow> bool" where
  fresh: "mgr_reachable (hedge_manager_new cfg)"
| contract: "mgr_reachable m \<Longrightarrow> mgr_reachable (set_hedge_contract c m)"
| filled: "mgr_reachable m \<Longrightarrow> mgr_reachable (fst (apply_broker_fill f m))"
| on_fill: "mgr_reachable m \<Longrightarrow> mgr_reachable (fst (rebalance_on_fill p m))"
| periodic: "mgr_reachable m \<Longrightarrow> mgr_reachable (fst (rebalance_periodic p fwd now m))"
| forced: "mgr_reachable m \<Longrightarrow> mgr_reachable (fst (force_flat p fwd m))"
| drain: "mgr_reachable m \<Longrightarrow> mgr_reachable (request_priority_drain u m)"
| reconcile: "mgr_reachable m \<Longrightarrow> in_i32 q \<Longrightarrow> mgr_reachable (fst (reconcile_with_position q a m))"

text \<open>What the operations other than \<open>apply_broker_fill\<close> leave alone.\<close>

lemma rebalance_frame:
  "mg_processed (fst (rebalance p o1 r f m)) = mg_processed m"
  "mg_processed_order (fst (rebalance p o1 r f m)) = mg_processed_order m"
  "in_i32 (hedge_qty (mg_state m)) \<Longrightarrow> in_i32 (hedge_qty (mg_state (fst (rebalance p o1 r f m))))"
  by (auto simp: rebalance_def Let_def hedge_apply_fill_qty split: hedge_mode.splits)

lemma maybe_rebalance_frame:
  "mg_processed (fst (maybe_rebalance p r f m)) = mg_processed m"
  "mg_processed_order (fst (maybe_rebalance p r f m)) = mg_processed_order m"
  "in_i32 (hedge_qty (mg_state m)) \<Longrightarrow> in_i32 (hedge_qty (mg_state (fst (maybe_rebalance p r f m))))"
  by (auto simp: maybe_rebalance_def rebalance_frame)

lemma mgr_reachable_inv: "mgr_reachable m \<Longrightarrow> exec_inv m \<and> in_i32 (hedge_qty (mg_state m))"
proof (induction rule: mgr_reachable.induct)
  case (fresh cfg)
  then show ?case using exec_inv_new [of cfg] by (simp add: hedge_manager_new_def hedge_state_new_def)
next
  case (filled m f)
  then show ?case
    using apply_broker_fill_inv [of m f]
    by (cases "matches m f \<and> f_exec_id f \<notin> mg_processed m")
      (auto simp: apply_broker_fill_accept apply_broker_fill_reject hedge_apply_fill_qty)
qed (auto simp: exec_inv_def set_hedge_contract_def rebalance_on_fill_def rebalance_periodic_def Let_def
    force_flat_def rebalance_frame maybe_rebalance_frame request_priority_drain_def
    reconcile_with_position_def hedge_replace_def)

section \<open>The target\<close>

definition hedge_target :: "portfolio_state \<Rightarrow> hedge_manager \<Rightarrow> int" where
  "hedge_target p m =
     to_i32 (fneg (fround (fsub (effective_delta p m) (of_i (hedge_qty (mg_state m))))))"

lemma hedge_target_near:
  assumes nd: "is_finite (delta_for_product p (hc_product (mg_cfg m)))"
      "\<bar>val (delta_for_product p (hc_product (mg_cfg m)))\<bar> \<le> 2 ^ 20"
    and h: "\<bar>hedge_qty (mg_state m)\<bar> \<le> 2 ^ 20"
  shows "\<bar>val (delta_for_product p (hc_product (mg_cfg m))) + of_int (hedge_target p m)\<bar> \<le> 1 / 2 + 1 / 2 ^ 31"
    and "\<bar>hedge_target p m\<bar> \<le> 2 ^ 20 + 1"
proof -
  define n where "n = delta_for_product p (hc_product (mg_cfg m))"
  define q where "q = hedge_qty (mg_state m)"
  have n: "is_finite n" "\<bar>val n\<bar> \<le> 1048576" using nd by (simp_all add: n_def)
  have "\<bar>q\<bar> \<le> 1048576" using h by (simp add: q_def)
  then have q: "of_i q = Fin (of_int q)" "\<bar>of_int q :: rat\<bar> \<le> 1048576"
    by (simp_all flip: of_int_abs)
  define E where "E = fadd n (of_i q)"
  have E: "is_finite E" "\<bar>val E - (val n + of_int q)\<bar> \<le> 1 / 2 ^ 32"
    using fadd_abs_error [of n "of_i q"] n q by (auto simp: E_def)
  define D where "D = fsub E (of_i q)"
  have "\<bar>val E - of_int q\<bar> \<le> 2097152" using E(2) n(2) unfolding abs_le_iff by auto
  then have D: "is_finite D" "\<bar>val D - (val E - of_int q)\<bar> \<le> 1 / 2 ^ 32"
    using fsub_abs_error [of E "of_i q"] E(1) q by (auto simp: D_def)
  obtain k where k: "is_finite (fround D)" "val (fround D) = of_int k" "\<bar>of_int k - val D\<bar> \<le> 1 / 2"
    using fround_int [OF D(1)] by blast
  have near: "\<bar>val n - of_int k\<bar> \<le> 1 / 2 + 1 / 2 ^ 31" using k(3) D(2) E(2) unfolding abs_le_iff by auto
  then have "\<bar>of_int k :: rat\<bar> < of_int (2 ^ 20 + 2)"
    using n(2) unfolding abs_le_iff abs_less_iff by auto
  then have "\<bar>k\<bar> < 2 ^ 20 + 2" by (simp only: flip: of_int_abs)
  then have kb: "\<bar>k\<bar> \<le> 2 ^ 20 + 1" by simp
  have t: "hedge_target p m = - k"
    unfolding hedge_target_def effective_delta_def
    unfolding n_def [symmetric] q_def [symmetric] E_def [symmetric] D_def [symmetric]
    by (rule to_i32_of_int) (use k kb in \<open>auto simp: in_i32_def\<close>)
  show "\<bar>val (delta_for_product p (hc_product (mg_cfg m))) + of_int (hedge_target p m)\<bar> \<le> 1 / 2 + 1 / 2 ^ 31"
    using near by (simp add: t flip: n_def)
  show "\<bar>hedge_target p m\<bar> \<le> 2 ^ 20 + 1" using kb by (simp add: t)
qed

lemma rebalance_execute:
  assumes "hc_mode (mg_cfg m) = Execute" "\<bar>hedge_target p m - hedge_qty (mg_state m)\<bar> < 2 ^ 31"
  shows "rebalance p o1 r f m =
   (m, let d = hedge_target p m - hedge_qty (mg_state m) in
       if d = 0 then Idle
       else Place (0 < d) (unsigned_abs_i32 d) r (effective_delta p m) (hedge_target p m))"
proof -
  let ?d = "hedge_target p m - hedge_qty (mg_state m)"
  have r: "in_i32 ?d" "in_i32 \<bar>?d\<bar>" using assms(2) by (auto simp: in_i32_def)
  then have w: "wrap_i32 ?d = ?d" "abs_i32 ?d = \<bar>?d\<bar>" by (simp_all add: wrap_i32_id abs_i32_def)
  show ?thesis
    unfolding rebalance_def Let_def hedge_target_def [symmetric] w using assms(1) by auto
qed

lemma signed_unsigned_abs: "signed_qty (0 < d) (unsigned_abs_i32 d) = d"
  by (simp add: signed_qty_def unsigned_abs_i32_def)

lemma unsigned_abs_pos: "0 < unsigned_abs_i32 d \<longleftrightarrow> d \<noteq> 0"
  by (simp add: unsigned_abs_i32_def)

section \<open>Properties\<close>

definition demo_hedge_config :: "hedge_mode \<Rightarrow> hedge_config" where
  "demo_hedge_config mode =
     \<lparr>hc_product = ''HG'', hc_multiplier = Fin 25000, hc_mode = mode, hc_tolerance_deltas = lit (1 / 2),
      hc_rebalance_on_fill = True, hc_rebalance_cadence_sec = Fin 30, hc_include_in_daily_pnl = True,
      hc_flatten_on_halt_enabled = True, hc_ioc_tick_offset = 2, hc_hedge_tick_size = lit (1 / 2000),
      hc_lockout_days = 30\<rparr>"

definition demo_future :: contract where
  "demo_future =
     \<lparr>c_instrument_id = 11, c_kind = Future, c_symbol = ''HG'', c_local_symbol = ''HGK6'', c_expiry = 20600,
      c_strike = None, c_right = None, c_multiplier = Fin 25000, c_exchange = Comex, c_currency = Usd\<rparr>"

definition demo_manager :: hedge_manager where
  "demo_manager = set_hedge_contract demo_future (hedge_manager_new (demo_hedge_config Execute))"

definition demo_exec :: "string \<Rightarrow> side \<Rightarrow> int \<Rightarrow> fill" where
  "demo_exec e sd q =
     \<lparr>f_exec_id = e, f_order_id = 1, f_instrument_id = 11, f_side = sd, f_qty = q, f_price = Fin 6,
      f_timestamp_ns = 0, f_commission = None\<rparr>"

lemma demo_manager_reachable: "mgr_reachable demo_manager"
  unfolding demo_manager_def by (intro mgr_reachable.intros)

text \<open>C1. The hedge counts every execution once: over any stream of at most ten thousand broker
  fills from a fresh memory, with duplicates, foreign instruments and empty ids mixed in,
  the hedge quantity moves by the signed sizes of the matching executions, each execution id
  counted at its first occurrence only, in 32-bit arithmetic.\<close>

theorem executions_counted_once:
  assumes "mgr_reachable m" "mg_processed_order m = []" "length fs \<le> 10000"
  shows "hedge_qty (mg_state (apply_fills fs m)) =
         wrap_i32 (hedge_qty (mg_state m) + sum_list (map fill_signed (first_occurrences m {} fs)))"
proof -
  note inv = mgr_reachable_inv [OF assms(1)]
  then have "mg_processed m = {}" using assms(2) by (simp add: exec_inv_def)
  then show ?thesis
    using apply_fills_qty [of m fs] inv assms(2,3) by (simp add: processed_exec_ids_max_def)
qed

theorem executions_counted_once_witness:
  "hedge_qty (mg_state (apply_fills [demo_exec ''a'' Buy 3, demo_exec ''a'' Buy 3, demo_exec ''b'' Sell 1]
     demo_manager)) = 2"
  using executions_counted_once [OF demo_manager_reachable,
      of "[demo_exec ''a'' Buy 3, demo_exec ''a'' Buy 3, demo_exec ''b'' Sell 1]"]
  by (simp add: demo_manager_def set_hedge_contract_def hedge_manager_new_def hedge_state_new_def
      demo_exec_def matches_def demo_hedge_config_def demo_future_def fill_signed_def signed_qty_def
      wrap_i32_def)

text \<open>The bounded memory is long enough: on every reachable manager, an execution that was
  accepted is rejected when it is delivered again after fewer than ten thousand further
  fills, whatever they are, and the rejection changes nothing.\<close>

theorem duplicate_execution_rejected:
  assumes "mgr_reachable m" "snd (apply_broker_fill f m)" "length fs < 10000"
  shows "let m1 = apply_fills fs (fst (apply_broker_fill f m)) in apply_broker_fill f m1 = (m1, False)"
proof -
  note inv = conjunct1 [OF mgr_reachable_inv [OF assms(1)]]
  have ok: "matches m f \<and> f_exec_id f \<notin> mg_processed m"
    using assms(2) apply_broker_fill_reject [of m f] by (cases "matches m f") auto
  let ?m = "fst (apply_broker_fill f m)"
  have ord: "mg_processed_order ?m = evicted (mg_processed_order m) @ f_exec_id f # []"
    using ok by (simp add: apply_broker_fill_accept remember_exec_order)
  from remembered_window [OF apply_broker_fill_inv [OF inv] ord, of fs] assms(3)
  have "f_exec_id f \<in> mg_processed (apply_fills fs ?m)" by (simp add: processed_exec_ids_max_def)
  then show ?thesis by (simp add: Let_def apply_broker_fill_reject)
qed

theorem duplicate_execution_rejected_witness:
  "apply_broker_fill (demo_exec ''a'' Buy 3)
     (apply_fills [demo_exec ''b'' Buy 1] (fst (apply_broker_fill (demo_exec ''a'' Buy 3) demo_manager)))
   = (apply_fills [demo_exec ''b'' Buy 1] (fst (apply_broker_fill (demo_exec ''a'' Buy 3) demo_manager)), False)"
proof -
  have "snd (apply_broker_fill (demo_exec ''a'' Buy 3) demo_manager)"
    by (simp add: apply_broker_fill_def demo_manager_def set_hedge_contract_def hedge_manager_new_def
        demo_exec_def demo_hedge_config_def demo_future_def Let_def)
  from duplicate_execution_rejected [OF demo_manager_reachable this, of "[demo_exec ''b'' Buy 1]"]
  show ?thesis by (simp only: Let_def) simp
qed

text \<open>C6. A rebalance neutralises the options' delta: in execute mode, for a finite option delta
  and a hedge of magnitude at most 2 ^ 20, the manager either places a trade whose complete
  fill at any price brings the hedge to the announced target, leaving a combined delta of at
  most one half up to rounding, or it is idle because the effective delta is within the
  tolerance or the hedge is already that close.\<close>

theorem rebalance_neutralises_delta:
  assumes "hc_mode (mg_cfg m) = Execute"
    and "nd = delta_for_product p (hc_product (mg_cfg m))" "is_finite nd" "\<bar>val nd\<bar> \<le> 2 ^ 20"
    and "\<bar>hedge_qty (mg_state m)\<bar> \<le> 2 ^ 20"
  shows "case snd (maybe_rebalance p reason fwd m) of
      Place is_buy qty _ _ target \<Rightarrow>
        0 < qty \<and> hedge_qty (hedge_apply_fill is_buy qty px mult (mg_state m)) = target \<and>
        \<bar>val nd + of_int target\<bar> \<le> 1 / 2 + 1 / 2 ^ 31
    | Idle \<Rightarrow>
        fle (fabs (effective_delta p m)) (hc_tolerance_deltas (mg_cfg m)) \<or>
        \<bar>val nd + of_int (hedge_qty (mg_state m))\<bar> \<le> 1 / 2 + 1 / 2 ^ 31
    | LogOnly _ _ _ _ \<Rightarrow> False"
proof -
  have fin: "is_finite (delta_for_product p (hc_product (mg_cfg m)))"
    and bd: "\<bar>val (delta_for_product p (hc_product (mg_cfg m)))\<bar> \<le> 2 ^ 20"
    using assms(2-4) by simp_all
  note near = hedge_target_near(1) [OF fin bd assms(5)]
  note tb = hedge_target_near(2) [OF fin bd assms(5)]
  have d: "\<bar>hedge_target p m - hedge_qty (mg_state m)\<bar> < 2 ^ 31" using tb assms(5) by simp
  have w: "wrap_i32 (hedge_target p m) = hedge_target p m"
    by (rule wrap_i32_id) (use tb in \<open>auto simp: in_i32_def\<close>)
  show ?thesis
    unfolding maybe_rebalance_def rebalance_execute [OF assms(1) d]
    using near w
    by (auto simp: Let_def hedge_apply_fill_qty signed_unsigned_abs unsigned_abs_pos
        signed_unsigned_abs [of "_ - _", simplified] assms(2))
qed

theorem rebalance_neutralises_delta_witness:
  "snd (maybe_rebalance portfolio_empty ''periodic'' (Fin 6)
     (demo_manager\<lparr>mg_state := \<lparr>hedge_qty = 3, avg_entry_f = Fin 6, realized_pnl_usd = fzero\<rparr>\<rparr>)) \<noteq> Idle"
proof -
  let ?m = "demo_manager\<lparr>mg_state := \<lparr>hedge_qty = 3, avg_entry_f = Fin 6, realized_pnl_usd = fzero\<rparr>\<rparr>"
  have e: "hc_mode (mg_cfg ?m) = Execute" "delta_for_product portfolio_empty (hc_product (mg_cfg ?m)) = NZero"
    by (simp_all add: demo_manager_def set_hedge_contract_def hedge_manager_new_def demo_hedge_config_def
        delta_for_product_def net_of_def positions_for_product_def portfolio_empty_def portfolio_new_def fsum_def)
  have r: "rnd 3 = Fin 3" using rnd_exact [OF rep_of_int, of 3] by simp
  have t: "hc_tolerance_deltas (mg_cfg ?m) = Fin (1 / 2)"
    by (simp add: demo_manager_def set_hedge_contract_def hedge_manager_new_def demo_hedge_config_def)
  show ?thesis
    using rebalance_neutralises_delta [OF e(1) e(2) [symmetric],
        where reason = "''periodic''" and fwd = "Fin 6" and px = fone and mult = fone]
    by (auto simp: effective_delta_def e(2) [simplified] r t [simplified] in_i32_def)
qed

text \<open>Flattening on a halt closes the hedge: the action is idle only when the flatten is
  disabled or there is nothing to close, and otherwise the trade it announces, filled
  completely, leaves no quantity and no average entry. In observe mode, unlike every
  other trade, the announced flatten is not booked: the manager keeps its quantity.\<close>

theorem halt_flatten_closes_hedge:
  assumes "mgr_reachable m"
  shows "case flatten_on_halt fwd m of
      Idle \<Rightarrow> \<not> hc_flatten_on_halt_enabled (mg_cfg m) \<or> hedge_qty (mg_state m) = 0
    | Place is_buy qty _ _ target \<Rightarrow>
        hc_mode (mg_cfg m) = Execute \<and> target = 0 \<and>
        hedge_qty (hedge_apply_fill is_buy qty px mult (mg_state m)) = 0 \<and>
        avg_entry_f (hedge_apply_fill is_buy qty px mult (mg_state m)) = fzero
    | LogOnly is_buy qty _ _ \<Rightarrow>
        hc_mode (mg_cfg m) = Observe \<and> hedge_qty (mg_state m) \<noteq> 0 \<and>
        hedge_qty (hedge_apply_fill is_buy qty px mult (mg_state m)) = 0"
proof -
  let ?h = "hedge_qty (mg_state m)"
  have "?h + signed_qty (?h < 0) (unsigned_abs_i32 ?h) = 0"
    by (simp add: signed_qty_def unsigned_abs_i32_def)
  then have "wrap_i32 (?h + signed_qty (?h < 0) (unsigned_abs_i32 ?h)) = 0"
    by (simp add: wrap_i32_def)
  then show ?thesis
    using hedge_apply_fill_flat [of "mg_state m" "?h < 0" "unsigned_abs_i32 ?h" px mult]
    by (auto simp: flatten_on_halt_def Let_def hedge_apply_fill_qty split: hedge_mode.splits)
qed

theorem halt_flatten_closes_hedge_witness:
  "flatten_on_halt (Fin 6) (fst (apply_broker_fill (demo_exec ''a'' Buy 3) demo_manager)) \<noteq> Idle"
proof -
  have r: "mgr_reachable (fst (apply_broker_fill (demo_exec ''a'' Buy 3) demo_manager))"
    by (intro mgr_reachable.filled demo_manager_reachable)
  have "hedge_qty (mg_state (fst (apply_broker_fill (demo_exec ''a'' Buy 3) demo_manager))) = 3"
    by (simp add: apply_broker_fill_def demo_manager_def set_hedge_contract_def hedge_manager_new_def
        demo_exec_def demo_hedge_config_def demo_future_def Let_def hedge_apply_fill_qty hedge_state_new_def
        signed_qty_def wrap_i32_def)
  moreover have "hc_flatten_on_halt_enabled (mg_cfg (fst (apply_broker_fill (demo_exec ''a'' Buy 3) demo_manager)))"
    by (simp add: demo_manager_def set_hedge_contract_def hedge_manager_new_def demo_hedge_config_def)
  ultimately show ?thesis
    using halt_flatten_closes_hedge [OF r, where fwd = "Fin 6" and px = fone and mult = fone] by auto
qed

text \<open>In observe mode a hedge opened by the rebalance on an option fill is booked at the
  constant price six, whatever the market is: the trade is computed from the option delta, and
  the average entry of a hedge that was flat becomes exactly 6.0.\<close>

theorem observe_fill_rebalance_books_at_six:
  assumes "hc_mode (mg_cfg m) = Observe" "mg_state m = hedge_state_new"
    and "snd (rebalance_on_fill p m) \<noteq> Idle"
  shows "avg_entry_f (mg_state (fst (rebalance_on_fill p m))) = Fin 6 \<and>
         (\<exists>is_buy qty. snd (rebalance_on_fill p m) = LogOnly is_buy qty ''fill'' (Fin 6))"
proof -
  have six: "lit 6 = Fin 6" using lit_int [of 6] by simp
  have avg: "avg_entry_f (hedge_apply_fill b q (Fin 6) mult hedge_state_new) = Fin 6"
    if "wrap_i32 (signed_qty b q) \<noteq> 0" for b q mult
  proof -
    let ?e = "wrap_i32 (signed_qty b q)"
    have e: "(if b then wrap_i32 q else wrap_i32 (- wrap_i32 q)) = ?e"
      by (simp add: signed_qty_def wrap_i32_minus)
    have ei: "in_i32 ?e" by simp
    have rp: "rep (of_int (6 * ?e))"
      by (rule rep_of_int) (use ei in \<open>simp add: in_i32_def abs_le_iff\<close>)
    then have r6: "rnd (6 * of_int ?e) = Fin (6 * of_int ?e)" using rnd_exact [OF rp] by simp
    have r66: "rnd 6 = Fin 6" using rnd_exact [OF rep_of_int, of 6] by simp
    have ww: "wrap_i32 ?e = ?e" using ei by (rule wrap_i32_id)
    show ?thesis
      unfolding hedge_apply_fill_def e Let_def
      using that ei ww r6 r66
      by (auto simp: hedge_state_new_def fmul_finite signed_zero_def fadd_finite fdiv_def)
  qed
  have dz: "wrap_i32 (signed_qty (0 < d) (unsigned_abs_i32 d)) \<noteq> 0" if "d \<noteq> 0" "in_i32 d" for d
    using that by (simp add: signed_unsigned_abs wrap_i32_id)
  show ?thesis
    using assms
    by (auto simp: rebalance_on_fill_def maybe_rebalance_def rebalance_def Let_def six avg dz
        split: if_splits)
qed

definition demo_long :: portfolio_state where
  "demo_long = portfolio_empty\<lparr>positions :=
     [\<lparr>p_product = ''HG'', p_strike = Fin 6, p_expiry = 20630, p_right = Call, p_quantity = 3,
       p_avg_fill_price = fone, p_fill_time = 0, p_multiplier = Fin 25000, p_delta = fone,
       p_gamma = fzero, p_theta = fzero, p_vega = fzero, p_current_price = fzero\<rparr>]\<rparr>"

lemma demo_long_trades:
  "snd (rebalance_on_fill demo_long (hedge_manager_new (demo_hedge_config Observe))) \<noteq> Idle"
  by code_simp

theorem observe_fill_rebalance_books_at_six_witness:
  "avg_entry_f (mg_state (fst (rebalance_on_fill demo_long
      (hedge_manager_new (demo_hedge_config Observe))))) = Fin 6"
  using observe_fill_rebalance_books_at_six [OF _ _ demo_long_trades]
  by (simp add: hedge_manager_new_def demo_hedge_config_def)

end
