(* ===== verification/Constraint_Gates.thy ===== *)
theory Constraint_Gates
  imports Portfolio
begin

text \<open>
  The pre-fill gates of \<open>corsair_constraint\<close> (\<open>gates.rs\<close>, \<open>checker.rs\<close>): hard kill limits,
  the margin escape, and the strict mode in which a limit may stay breached only by a fill
  that improves it; and the calibration of the synthetic margin against the broker's. The
  text of a rejection is represented by the numbers it prints.
\<close>

section \<open>gates.rs\<close>

datatype gate_outcome =
    Accepted
  | Rejected string "f64 list"
  | AcceptedMarginEscape "f64 list"

fun is_accepted :: "gate_outcome \<Rightarrow> bool" where
  "is_accepted Accepted = True"
| "is_accepted (AcceptedMarginEscape _) = True"
| "is_accepted (Rejected _ _) = False"

fun rejection_reason :: "gate_outcome \<Rightarrow> string option" where
  "rejection_reason (Rejected reason _) = Some reason"
| "rejection_reason _ = None"

section \<open>checker.rs\<close>

record constraint_config =
  cc_product :: string
  cc_capital :: f64
  cc_margin_ceiling_pct :: f64
  cc_delta_ceiling :: f64
  cc_theta_floor :: f64
  cc_margin_kill_pct :: f64
  cc_delta_kill :: f64
  cc_theta_kill :: f64
  cc_effective_delta_gating :: bool
  cc_margin_escape_enabled :: bool

definition margin_ceiling :: "constraint_config \<Rightarrow> f64" where
  "margin_ceiling cfg = fmul (cc_capital cfg) (cc_margin_ceiling_pct cfg)"

definition margin_kill :: "constraint_config \<Rightarrow> f64" where
  "margin_kill cfg = fmul (cc_capital cfg) (cc_margin_kill_pct cfg)"

record constraint_check =
  ck_option_strike :: f64
  ck_option_right :: right
  ck_option_expiry :: naive_date
  ck_option_delta_per_contract :: f64
  ck_option_theta_per_contract :: f64
  ck_fill_qty_signed :: int
  ck_multiplier :: f64
  ck_cur_margin :: f64
  ck_post_margin :: f64
  ck_cur_long_premium :: f64
  ck_post_long_premium :: f64
  ck_hedge_qty :: int

definition ibkr_scale_lower :: f64 where
  "ibkr_scale_lower = lit (1 / 2)"

definition ibkr_scale_upper :: f64 where
  "ibkr_scale_upper = lit (5 / 4)"

record margin_calibration =
  mc_raw_synthetic :: f64
  mc_ibkr_actual :: f64
  mc_scale :: f64
  mc_timestamp_ns :: int

record constraint_checker =
  cx_cfg :: constraint_config
  cx_ibkr_scale :: f64
  cx_last_calibration :: "margin_calibration option"

definition checker_new :: "constraint_config \<Rightarrow> constraint_checker" where
  "checker_new cfg = \<lparr>cx_cfg = cfg, cx_ibkr_scale = fone, cx_last_calibration = None\<rparr>"

definition checker_scale :: "f64 \<Rightarrow> constraint_checker \<Rightarrow> f64" where
  "checker_scale raw_synthetic x = fmul raw_synthetic (cx_ibkr_scale x)"

definition update_cached_margin ::
  "f64 \<Rightarrow> f64 \<Rightarrow> int \<Rightarrow> constraint_checker \<Rightarrow> constraint_checker \<times> f64" where
  "update_cached_margin ibkr_actual raw_synthetic ts x =
     (if fle ibkr_actual fzero \<or> fle raw_synthetic fzero then (x, cx_ibkr_scale x)
      else
        let proposed = fdiv ibkr_actual raw_synthetic;
            bounded = (if flt proposed ibkr_scale_lower \<or> fgt proposed ibkr_scale_upper
                       then fone else proposed)
        in (x\<lparr>cx_ibkr_scale := bounded,
              cx_last_calibration := Some \<lparr>mc_raw_synthetic = raw_synthetic,
                 mc_ibkr_actual = ibkr_actual, mc_scale = bounded, mc_timestamp_ns = ts\<rparr>\<rparr>,
            bounded))"

definition gate_cur_delta :: "constraint_config \<Rightarrow> portfolio_state \<Rightarrow> constraint_check \<Rightarrow> f64" where
  "gate_cur_delta cfg p c =
     fadd (delta_for_product p (cc_product cfg))
       (of_i (if cc_effective_delta_gating cfg then ck_hedge_qty c else 0))"

definition gate_post_delta :: "constraint_config \<Rightarrow> portfolio_state \<Rightarrow> constraint_check \<Rightarrow> f64" where
  "gate_post_delta cfg p c =
     fadd (gate_cur_delta cfg p c)
       (fmul (ck_option_delta_per_contract c) (of_i (ck_fill_qty_signed c)))"

definition gate_cur_theta :: "constraint_config \<Rightarrow> portfolio_state \<Rightarrow> f64" where
  "gate_cur_theta cfg p = theta_for_product p (cc_product cfg)"

definition gate_post_theta :: "constraint_config \<Rightarrow> portfolio_state \<Rightarrow> constraint_check \<Rightarrow> f64" where
  "gate_post_theta cfg p c =
     fadd (gate_cur_theta cfg p)
       (fmul (fmul (ck_option_theta_per_contract c) (ck_multiplier c)) (of_i (ck_fill_qty_signed c)))"

definition gate_check :: "portfolio_state \<Rightarrow> constraint_check \<Rightarrow> constraint_checker \<Rightarrow> gate_outcome" where
  "gate_check p c x =
     (let cfg = cx_cfg x;
          cap = cc_capital cfg;
          ceiling = margin_ceiling cfg;
          kill = margin_kill cfg;
          cur_delta = gate_cur_delta cfg p c;
          post_delta = gate_post_delta cfg p c;
          cur_theta = gate_cur_theta cfg p;
          post_theta = gate_post_theta cfg p c;
          cur = ck_cur_margin c;
          post = ck_post_margin c
      in if fgt post kill then Rejected ''margin_kill'' [post, kill]
         else if fgt (fabs post_delta) (cc_delta_kill cfg)
         then Rejected ''delta_kill'' [post_delta, cc_delta_kill cfg]
         else if flt (cc_theta_kill cfg) fzero \<and> flt post_theta (cc_theta_kill cfg)
         then Rejected ''theta_kill'' [post_theta, cc_theta_kill cfg]
         else if cc_margin_escape_enabled cfg \<and> fgt cur ceiling \<and> flt post cur
         then
           (if fgt (ck_post_long_premium c) cap
               \<and> fgt (ck_post_long_premium c) (ck_cur_long_premium c)
            then Rejected ''long_premium'' [ck_post_long_premium c, cap]
            else AcceptedMarginEscape [cur, ceiling, post])
         else if fgt post ceiling \<and> fgt cur ceiling \<and> fge post cur
         then Rejected ''margin'' [post, ceiling]
         else if fgt post ceiling \<and> fle cur ceiling
         then Rejected ''margin'' [post, ceiling]
         else if fgt (fabs post_delta) (cc_delta_ceiling cfg) \<and> fge (fabs post_delta) (fabs cur_delta)
         then Rejected ''delta'' [post_delta, cc_delta_ceiling cfg, cur_delta]
         else if flt post_theta (cc_theta_floor cfg) \<and> fle post_theta cur_theta
         then Rejected ''theta'' [post_theta, cc_theta_floor cfg, cur_theta]
         else if fgt (ck_post_long_premium c) cap
              \<and> fgt (ck_post_long_premium c) (ck_cur_long_premium c)
         then Rejected ''long_premium'' [ck_post_long_premium c, cap]
         else Accepted)"

section \<open>What acceptance promises\<close>

text \<open>The limits as a specification, over the numbers before and after the fill. A soft limit is
  respected, or was breached before and is strictly improved.\<close>

definition hard_limits :: "constraint_config \<Rightarrow> f64 \<Rightarrow> f64 \<Rightarrow> f64 \<Rightarrow> bool" where
  "hard_limits cfg post_margin post_delta post_theta \<longleftrightarrow>
     fle post_margin (margin_kill cfg) \<and> fle (fabs post_delta) (cc_delta_kill cfg) \<and>
     (fge (cc_theta_kill cfg) fzero \<or> fge post_theta (cc_theta_kill cfg))"

definition solvent :: "constraint_config \<Rightarrow> constraint_check \<Rightarrow> bool" where
  "solvent cfg c \<longleftrightarrow>
     fle (ck_post_long_premium c) (cc_capital cfg) \<or>
     fle (ck_post_long_premium c) (ck_cur_long_premium c)"

definition escape :: "constraint_config \<Rightarrow> constraint_check \<Rightarrow> bool" where
  "escape cfg c \<longleftrightarrow>
     cc_margin_escape_enabled cfg \<and> fgt (ck_cur_margin c) (margin_ceiling cfg) \<and>
     flt (ck_post_margin c) (ck_cur_margin c)"

definition soft_limits :: "constraint_config \<Rightarrow> portfolio_state \<Rightarrow> constraint_check \<Rightarrow> bool" where
  "soft_limits cfg p c \<longleftrightarrow>
     (fle (ck_post_margin c) (margin_ceiling cfg) \<or> flt (ck_post_margin c) (ck_cur_margin c)) \<and>
     (fle (fabs (gate_post_delta cfg p c)) (cc_delta_ceiling cfg) \<or>
      flt (fabs (gate_post_delta cfg p c)) (fabs (gate_cur_delta cfg p c))) \<and>
     (fge (gate_post_theta cfg p c) (cc_theta_floor cfg) \<or>
      fgt (gate_post_theta cfg p c) (gate_cur_theta cfg p))"

definition numeric_check :: "constraint_config \<Rightarrow> portfolio_state \<Rightarrow> constraint_check \<Rightarrow> bool" where
  "numeric_check cfg p c \<longleftrightarrow>
     NaN \<notin> {ck_cur_margin c, ck_post_margin c, ck_cur_long_premium c, ck_post_long_premium c,
            gate_cur_delta cfg p c, gate_post_delta cfg p c, gate_cur_theta cfg p,
            gate_post_theta cfg p c, margin_ceiling cfg, margin_kill cfg, cc_capital cfg,
            cc_delta_ceiling cfg, cc_delta_kill cfg, cc_theta_floor cfg, cc_theta_kill cfg}"

lemma not_fle_iff: "a \<noteq> NaN \<Longrightarrow> b \<noteq> NaN \<Longrightarrow> \<not> fle a b \<longleftrightarrow> flt b a"
  by (simp add: fle_def)

text \<open>The propositional skeleton of the gate cascade.\<close>

lemma gate_skeleton:
  "is_accepted
     (if b1 then Rejected r1 d1 else if b2 then Rejected r2 d2 else if b3 then Rejected r3 d3
      else if e then (if l then Rejected r4 d4 else AcceptedMarginEscape d)
      else if m1 then Rejected r5 d5 else if m2 then Rejected r6 d6
      else if b4 then Rejected r7 d7 else if b5 then Rejected r8 d8
      else if l then Rejected r9 d9 else Accepted) \<longleftrightarrow>
   \<not> b1 \<and> \<not> b2 \<and> \<not> b3 \<and> \<not> l \<and> (e \<or> \<not> m1 \<and> \<not> m2 \<and> \<not> b4 \<and> \<not> b5)"
  by simp

lemma gate_skeleton_margin:
  "rejection_reason
     (if b1 then Rejected ''margin_kill'' d1 else if b2 then Rejected ''delta_kill'' d2
      else if b3 then Rejected ''theta_kill'' d3
      else if e then (if l then Rejected ''long_premium'' d4 else AcceptedMarginEscape d)
      else if m1 then Rejected ''margin'' d5 else if m2 then Rejected ''margin'' d6
      else if b4 then Rejected ''delta'' d7 else if b5 then Rejected ''theta'' d8
      else if l then Rejected ''long_premium'' d9 else Accepted)
   \<in> {Some ''margin'', Some ''margin_kill''} \<Longrightarrow> b1 \<or> m1 \<or> m2"
  by (simp split: if_splits)

lemma gate_check_margin_reason:
  "rejection_reason (gate_check p c x) \<in> {Some ''margin'', Some ''margin_kill''} \<Longrightarrow>
   fgt (ck_post_margin c) (margin_kill (cx_cfg x)) \<or> fgt (ck_post_margin c) (margin_ceiling (cx_cfg x))"
  unfolding gate_check_def Let_def by (drule gate_skeleton_margin) blast

lemma gate_check_accepts:
  assumes "numeric_check (cx_cfg x) p c"
  shows "is_accepted (gate_check p c x) \<longleftrightarrow>
     hard_limits (cx_cfg x) (ck_post_margin c) (gate_post_delta (cx_cfg x) p c)
        (gate_post_theta (cx_cfg x) p c) \<and>
     solvent (cx_cfg x) c \<and>
     (escape (cx_cfg x) c \<or> soft_limits (cx_cfg x) p c)"
proof -
  define cfg where "cfg = cx_cfg x"
  define pd where "pd = fabs (gate_post_delta cfg p c)"
  define cd where "cd = fabs (gate_cur_delta cfg p c)"
  have n: "ck_cur_margin c \<noteq> NaN" "ck_post_margin c \<noteq> NaN" "ck_cur_long_premium c \<noteq> NaN"
    "ck_post_long_premium c \<noteq> NaN" "pd \<noteq> NaN" "cd \<noteq> NaN"
    "gate_cur_theta cfg p \<noteq> NaN" "gate_post_theta cfg p c \<noteq> NaN"
    "margin_ceiling cfg \<noteq> NaN" "margin_kill cfg \<noteq> NaN" "cc_capital cfg \<noteq> NaN"
    "cc_delta_ceiling cfg \<noteq> NaN" "cc_delta_kill cfg \<noteq> NaN" "cc_theta_floor cfg \<noteq> NaN"
    "cc_theta_kill cfg \<noteq> NaN"
    using assms by (auto simp: numeric_check_def cfg_def pd_def cd_def)
  have tr: "fgt (ck_post_margin c) (margin_ceiling cfg) \<longrightarrow> \<not> fgt (ck_cur_margin c) (margin_ceiling cfg) \<longrightarrow>
      \<not> flt (ck_post_margin c) (ck_cur_margin c)"
    using n fle_flt_trans [of "ck_cur_margin c" "margin_ceiling cfg" "ck_post_margin c"]
    by (auto simp: not_flt_iff intro: flt_imp_fle)
  have z: "fzero \<noteq> NaN" by simp
  have fle_n: "a \<noteq> NaN \<Longrightarrow> b \<noteq> NaN \<Longrightarrow> fle a b = (\<not> flt b a)" for a b by (simp add: fle_def)
  show ?thesis
    unfolding gate_check_def Let_def hard_limits_def solvent_def escape_def soft_limits_def
      cfg_def [symmetric] pd_def [symmetric] cd_def [symmetric]
    unfolding gate_skeleton fle_n [OF n(2,10)] fle_n [OF n(5,13)] fle_n [OF z n(15)]
      fle_n [OF n(15,8)] fle_n [OF n(4,11)] fle_n [OF n(4,3)] fle_n [OF n(2,9)] fle_n [OF n(1,9)]
      fle_n [OF n(5,12)] fle_n [OF n(14,8)] fle_n [OF n(1,2)] fle_n [OF n(6,5)] fle_n [OF n(8,7)]
    using tr by satx
qed

lemma fge_two_fifths: "fle ibkr_scale_lower fone" "fle fone ibkr_scale_upper"
proof -
  have "rep (5 / 4)" unfolding rep_def by (intro exI [of _ 5] exI [of _ "- 2"]) (simp add: p2_def)
  then have "lit (5 / 4) = Fin (5 / 4)" by (simp add: lit_def rnd_exact)
  then show "fle ibkr_scale_lower fone" "fle fone ibkr_scale_upper"
    by (simp_all add: ibkr_scale_lower_def ibkr_scale_upper_def)
qed

section \<open>Reachable checkers\<close>

inductive checker_reachable :: "constraint_checker \<Rightarrow> bool" where
  fresh: "checker_reachable (checker_new cfg)"
| poll: "checker_reachable x \<Longrightarrow> is_finite actual \<Longrightarrow> is_finite raw \<Longrightarrow>
    checker_reachable (fst (update_cached_margin actual raw ts x))"

lemma fdiv_pos_finite:
  assumes "is_finite a" "is_finite b" "\<not> fle a fzero" "\<not> fle b fzero"
  shows "fdiv a b \<noteq> NaN"
  using assms by (auto simp: fdiv_def Let_def)

lemma update_cached_margin_band:
  assumes "is_finite actual" "is_finite raw"
    and "fle ibkr_scale_lower (cx_ibkr_scale x) \<and> fle (cx_ibkr_scale x) ibkr_scale_upper"
  shows "fle ibkr_scale_lower (cx_ibkr_scale (fst (update_cached_margin actual raw ts x))) \<and>
         fle (cx_ibkr_scale (fst (update_cached_margin actual raw ts x))) ibkr_scale_upper"
proof (cases "fle actual fzero \<or> fle raw fzero")
  case True
  with assms show ?thesis by (simp add: update_cached_margin_def)
next
  case False
  then have nn: "fdiv actual raw \<noteq> NaN" using fdiv_pos_finite [OF assms(1,2)] by blast
  have "ibkr_scale_lower \<noteq> NaN" "ibkr_scale_upper \<noteq> NaN"
    by (simp_all add: ibkr_scale_lower_def ibkr_scale_upper_def)
  with False nn fge_two_fifths show ?thesis
    by (auto simp: update_cached_margin_def Let_def not_flt_iff)
qed

lemma checker_reachable_band:
  "checker_reachable x \<Longrightarrow> fle ibkr_scale_lower (cx_ibkr_scale x) \<and> fle (cx_ibkr_scale x) ibkr_scale_upper"
proof (induction rule: checker_reachable.induct)
  case (fresh cfg)
  then show ?case using fge_two_fifths by (simp add: checker_new_def)
next
  case (poll x actual raw ts)
  then show ?case by (intro update_cached_margin_band)
qed

section \<open>Properties\<close>

definition demo_constraint_config :: constraint_config where
  "demo_constraint_config =
     \<lparr>cc_product = ''HG'', cc_capital = Fin 1000, cc_margin_ceiling_pct = fone, cc_delta_ceiling = Fin 3,
      cc_theta_floor = Fin (- 200), cc_margin_kill_pct = fone, cc_delta_kill = Fin 5,
      cc_theta_kill = Fin (- 500), cc_effective_delta_gating = True, cc_margin_escape_enabled = True\<rparr>"

definition demo_check :: "f64 \<Rightarrow> f64 \<Rightarrow> int \<Rightarrow> constraint_check" where
  "demo_check cur post hedge =
     \<lparr>ck_option_strike = Fin 6, ck_option_right = Call, ck_option_expiry = 20630,
      ck_option_delta_per_contract = fzero, ck_option_theta_per_contract = fzero, ck_fill_qty_signed = 1,
      ck_multiplier = Fin 25000, ck_cur_margin = cur, ck_post_margin = post,
      ck_cur_long_premium = fzero, ck_post_long_premium = fzero, ck_hedge_qty = hedge\<rparr>"

text \<open>C12. The gates accept exactly the fills they promise to: for a check without NaN, a fill
  passes if and only if the margin, delta and theta after it are within the hard kill
  limits, the long premium stays within capital or does not grow, and either the margin
  escape applies or every soft limit holds after the fill or is strictly improved by it.\<close>

theorem gates_accept_exactly:
  assumes "numeric_check (cx_cfg x) p c"
  shows "is_accepted (gate_check p c x) \<longleftrightarrow>
     hard_limits (cx_cfg x) (ck_post_margin c) (gate_post_delta (cx_cfg x) p c)
        (gate_post_theta (cx_cfg x) p c) \<and>
     solvent (cx_cfg x) c \<and>
     (escape (cx_cfg x) c \<or> soft_limits (cx_cfg x) p c)"
  by (rule gate_check_accepts [OF assms])

lemma demo_gate_values:
  "gate_cur_delta demo_constraint_config portfolio_empty (demo_check a b 4) = Fin 4"
  "gate_post_delta demo_constraint_config portfolio_empty (demo_check a b 4) = Fin 4"
  "gate_cur_theta demo_constraint_config portfolio_empty = NZero"
  "gate_post_theta demo_constraint_config portfolio_empty (demo_check a b 4) = fzero"
  "margin_ceiling demo_constraint_config = Fin 1000" "margin_kill demo_constraint_config = Fin 1000"
  using rnd_exact [OF rep_of_int, of 4] rnd_exact [OF rep_of_int, of 1000]
  by (simp_all add: gate_cur_delta_def gate_post_delta_def gate_cur_theta_def gate_post_theta_def
      delta_for_product_def theta_for_product_def positions_for_product_def net_of_def fsum_def
      portfolio_empty_def portfolio_new_def demo_check_def demo_constraint_config_def in_i32_def
      fmul_finite signed_zero_def margin_ceiling_def margin_kill_def)

theorem gates_accept_exactly_witness:
  "\<not> is_accepted (gate_check portfolio_empty (demo_check fzero (Fin 500) 4) (checker_new demo_constraint_config))"
proof -
  have n: "numeric_check (cx_cfg (checker_new demo_constraint_config)) portfolio_empty (demo_check fzero (Fin 500) 4)"
    by (simp add: numeric_check_def checker_new_def demo_gate_values)
       (simp add: demo_check_def demo_constraint_config_def)
  show ?thesis
    using gates_accept_exactly [OF n]
    by (simp add: checker_new_def soft_limits_def escape_def demo_gate_values)
       (simp add: demo_check_def demo_constraint_config_def)
qed

text \<open>The margin scale stays in its safety band: after any sequence of calibrations from
  finite account values and finite model margins, the scale lies between 0.5 and 1.25.\<close>

theorem ibkr_scale_in_band:
  assumes "checker_reachable x"
  shows "fle ibkr_scale_lower (cx_ibkr_scale x) \<and> fle (cx_ibkr_scale x) ibkr_scale_upper"
  by (rule checker_reachable_band [OF assms])

theorem ibkr_scale_in_band_witness:
  "fle (cx_ibkr_scale (fst (update_cached_margin (Fin 9) (Fin 1) 0 (checker_new demo_constraint_config))))
     ibkr_scale_upper"
proof -
  have "checker_reachable (fst (update_cached_margin (Fin 9) (Fin 1) 0 (checker_new demo_constraint_config)))"
    by (intro checker_reachable.intros) simp_all
  from ibkr_scale_in_band [OF this] show ?thesis by simp
qed

text \<open>A calibration from a NaN account value escapes the band: it is neither skipped nor
  replaced by 1.0, the scale becomes a NaN, every margin scaled afterwards is a NaN, and a
  fill whose margin is a NaN is never rejected by a margin gate, whatever the margin was.\<close>

theorem nan_calibration_disables_margin_gates:
  assumes "\<not> fle raw fzero"
  shows "let x1 = fst (update_cached_margin NaN raw ts x)
         in cx_ibkr_scale x1 = NaN \<and> checker_scale m x1 = NaN \<and>
            (ck_post_margin c = checker_scale m x1 \<longrightarrow>
             rejection_reason (gate_check p c x1) \<notin> {Some ''margin'', Some ''margin_kill''})"
proof -
  have "fdiv NaN raw = NaN" by (simp add: fdiv_def)
  moreover have "\<not> flt NaN y" "\<not> flt y NaN" for y by (cases y; simp)+
  ultimately show ?thesis
    using assms gate_check_margin_reason [of p c "fst (update_cached_margin NaN raw ts x)"]
    by (auto simp: update_cached_margin_def Let_def checker_scale_def fle_def)
qed

theorem nan_calibration_disables_margin_gates_witness:
  "checker_scale (Fin 1000000) (fst (update_cached_margin NaN (Fin 1) 0 (checker_new demo_constraint_config))) = NaN"
  using nan_calibration_disables_margin_gates [of "Fin 1" 0 "checker_new demo_constraint_config" "Fin 1000000"]
  by (simp add: Let_def)

end
