(* ===== verification/Bytes.thy ===== *)
theory Bytes
  imports Prelude
begin

text \<open>
  Bytes and text, shared by the shared-memory protocol and the gateway's wire codec: fixed
  width integers as little- and big-endian bytes, and Rust strings. A \<open>String\<close> is the list
  of its UTF-8 bytes, each as a character; \<open>from_utf8_lossy\<close> replaces every maximal invalid
  prefix by the three bytes of U+FFFD, as the standard library documents.
\<close>

type_synonym byte = "8 word"

section \<open>Integers as bytes\<close>

text \<open>\<open>to_le_bytes\<close> and \<open>from_le_bytes\<close>; \<open>to_be_bytes\<close> and \<open>from_be_bytes\<close> reverse them.\<close>

primrec le_bytes :: "nat \<Rightarrow> nat \<Rightarrow> byte list" where
  "le_bytes 0 n = []"
| "le_bytes (Suc k) n = of_nat n # le_bytes k (n div 256)"

primrec from_le_bytes :: "byte list \<Rightarrow> nat" where
  "from_le_bytes [] = 0"
| "from_le_bytes (b # bs) = unat b + 256 * from_le_bytes bs"

definition be_bytes :: "nat \<Rightarrow> nat \<Rightarrow> byte list" where
  "be_bytes k n = rev (le_bytes k n)"

definition from_be_bytes :: "byte list \<Rightarrow> nat" where
  "from_be_bytes bs = from_le_bytes (rev bs)"

lemma length_le_bytes [simp]: "length (le_bytes k n) = k"
  by (induction k arbitrary: n) simp_all

lemma length_be_bytes [simp]: "length (be_bytes k n) = k"
  by (simp add: be_bytes_def)

lemma unat_byte [simp]: "unat (of_nat n :: byte) = n mod 256"
  by (simp add: unat_of_nat)

lemma from_le_le_bytes: "from_le_bytes (le_bytes k n) = n mod 256 ^ k"
proof (induction k arbitrary: n)
  case (Suc k)
  have "n mod 256 + 256 * (n div 256 mod 256 ^ k) = n mod (256 * 256 ^ k)"
    by (simp add: mod_mult2_eq)
  with Suc show ?case by simp
qed simp

lemma from_be_be_bytes: "from_be_bytes (be_bytes k n) = n mod 256 ^ k"
  by (simp add: from_be_bytes_def be_bytes_def from_le_le_bytes)

lemma from_le_bytes_bound: "from_le_bytes bs < 256 ^ length bs"
proof (induction bs)
  case (Cons b bs)
  have "unat b < 256" using unsigned_less [of b, where ?'a = nat] by simp
  with Cons show ?case by simp
qed simp

section \<open>Strings\<close>

definition byte_char :: "byte \<Rightarrow> char" where
  "byte_char b = char_of (unat b)"

definition char_byte :: "char \<Rightarrow> byte" where
  "char_byte c = of_nat (of_char c)"

definition str_bytes :: "string \<Rightarrow> byte list" where
  "str_bytes s = map char_byte s"

definition bytes_str :: "byte list \<Rightarrow> string" where
  "bytes_str bs = map byte_char bs"

lemma byte_char_char_byte [simp]: "byte_char (char_byte c) = c"
proof -
  have "(of_char c :: nat) < 256" by simp
  then show ?thesis by (simp add: byte_char_def char_byte_def)
qed

lemma bytes_str_str_bytes [simp]: "bytes_str (str_bytes s) = s"
  by (induction s) (simp_all add: bytes_str_def str_bytes_def)

lemma char_byte_zero: "char_byte c = 0 \<longleftrightarrow> c = CHR 0x00"
proof
  assume "char_byte c = 0"
  then have "c = byte_char 0" by (metis byte_char_char_byte)
  then show "c = CHR 0x00" by (simp add: byte_char_def char_of_def)
qed (simp add: char_byte_def)

text \<open>The first UTF-8 sequence of a byte list: \<open>Inr n\<close> when the first \<open>n\<close> bytes are a valid
  sequence, \<open>Inl n\<close> when the first \<open>n\<close> bytes are a maximal prefix of no valid one.\<close>

definition cont :: "byte \<Rightarrow> bool" where
  "cont b \<longleftrightarrow> 0x80 \<le> b \<and> b \<le> 0xBF"

text \<open>The admissible second bytes after a lead byte of a three- or four-byte sequence.\<close>

definition second_ok :: "byte \<Rightarrow> byte \<Rightarrow> bool" where
  "second_ok lead b \<longleftrightarrow>
     (if lead = 0xE0 then 0xA0 \<le> b \<and> b \<le> 0xBF
      else if lead = 0xED then 0x80 \<le> b \<and> b \<le> 0x9F
      else if lead = 0xF0 then 0x90 \<le> b \<and> b \<le> 0xBF
      else if lead = 0xF4 then 0x80 \<le> b \<and> b \<le> 0x8F
      else cont b)"

definition utf8_first :: "byte \<Rightarrow> byte list \<Rightarrow> nat + nat" where
  "utf8_first b bs =
     (if b < 0x80 then Inr 1
      else if 0xC2 \<le> b \<and> b \<le> 0xDF then
        (if bs \<noteq> [] \<and> cont (bs ! 0) then Inr 2 else Inl 1)
      else if 0xE0 \<le> b \<and> b \<le> 0xEF then
        (if bs = [] \<or> \<not> second_ok b (bs ! 0) then Inl 1
         else if length bs < 2 \<or> \<not> cont (bs ! 1) then Inl 2 else Inr 3)
      else if 0xF0 \<le> b \<and> b \<le> 0xF4 then
        (if bs = [] \<or> \<not> second_ok b (bs ! 0) then Inl 1
         else if length bs < 2 \<or> \<not> cont (bs ! 1) then Inl 2
         else if length bs < 3 \<or> \<not> cont (bs ! 2) then Inl 3 else Inr 4)
      else Inl 1)"

function utf8_lossy :: "byte list \<Rightarrow> byte list" where
  "utf8_lossy [] = []"
| "utf8_lossy (b # bs) =
     (case utf8_first b bs of
        Inr n \<Rightarrow> take n (b # bs) @ utf8_lossy (drop (n - 1) bs)
      | Inl n \<Rightarrow> [0xEF, 0xBF, 0xBD] @ utf8_lossy (drop (n - 1) bs))"
  by pat_completeness auto
termination
  by (relation "measure length") auto

definition from_utf8_lossy :: "byte list \<Rightarrow> string" where
  "from_utf8_lossy bs = bytes_str (utf8_lossy bs)"

definition ascii :: "string \<Rightarrow> bool" where
  "ascii s \<longleftrightarrow> (\<forall>c \<in> set s. (of_char c :: nat) < 128)"

lemma utf8_lossy_ascii: "(\<And>b. b \<in> set bs \<Longrightarrow> b < 0x80) \<Longrightarrow> utf8_lossy bs = bs"
  by (induction bs) (simp_all add: utf8_first_def)

lemma char_byte_ascii: "(of_char c :: nat) < 128 \<Longrightarrow> char_byte c < 0x80"
  by (simp add: char_byte_def word_less_nat_alt)

lemma from_utf8_lossy_ascii: "ascii s \<Longrightarrow> from_utf8_lossy (str_bytes s) = s"
proof -
  assume "ascii s"
  then have "utf8_lossy (str_bytes s) = str_bytes s"
    by (intro utf8_lossy_ascii) (auto simp: str_bytes_def ascii_def char_byte_ascii)
  then show ?thesis by (simp add: from_utf8_lossy_def)
qed

section \<open>Splitting at a terminator\<close>

text \<open>\<open>slice::split\<close>: one piece more than there are separators.\<close>

fun split_at :: "'a \<Rightarrow> 'a list \<Rightarrow> 'a list list" where
  "split_at x [] = [[]]"
| "split_at x (y # ys) =
     (if y = x then [] # split_at x ys
      else (case split_at x ys of p # ps \<Rightarrow> (y # p) # ps | [] \<Rightarrow> [[y]]))"

lemma split_at_prefix: "x \<notin> set p \<Longrightarrow> split_at x (p @ x # ys) = p # split_at x ys"
  by (induction p) auto

lemma split_at_concat:
  "\<forall>p \<in> set ps. x \<notin> set p \<Longrightarrow> split_at x (concat (map (\<lambda>p. p @ [x]) ps)) = ps @ [[]]"
  by (induction ps) (simp_all add: split_at_prefix)

end
