(* ===== verification/Framing.thy ===== *)
theory Framing
  imports Bytes
begin

text \<open>
  Length-prefixed frames. The locale \<open>framing\<close> states what a decoder of such frames promises;
  inside it a whole buffer is shown to decode to exactly the framed payloads, whatever the
  chunks it arrives in. The decoder of the shared-memory protocol
  (\<open>corsair_ipc/src/protocol.rs\<close>) is interpreted here, the one of the gateway socket in the
  codec's theory; both have the shape of \<open>frame_step\<close>.
\<close>

section \<open>The contract\<close>

text \<open>A decoding step returns an error, no frame yet, or a frame with the rest of the buffer; in
  the first two cases the buffer is unchanged.\<close>

type_synonym ('e, 'a) step_result = "('e + 'a option) \<times> byte list"

locale framing =
  fixes frame :: "byte list \<Rightarrow> byte list"
    and decoded :: "byte list \<Rightarrow> 'a"
    and limit :: nat
    and try1 :: "byte list \<Rightarrow> ('e, 'a) step_result"
    and decode_all :: "byte list \<Rightarrow> ('e + 'a list) \<times> byte list"
  assumes try1_frame: "length body \<le> limit \<Longrightarrow> try1 (frame body @ rest) = (Inr (Some (decoded body)), rest)"
    and try1_nil: "try1 [] = (Inr None, [])"
    and try1_more: "try1 buf = (Inr (Some x), rest) \<Longrightarrow> try1 (buf @ more) = (Inr (Some x), rest @ more)"
    and try1_error: "try1 buf = (Inl e, rest) \<Longrightarrow> try1 (buf @ more) = (Inl e, rest @ more)"
    and try1_stays: "try1 buf = (Inr None, buf') \<Longrightarrow> buf' = buf"
    and try1_shrinks: "try1 buf = (Inr (Some x), rest) \<Longrightarrow> length rest < length buf"
    and decode_all_eq: "decode_all buf =
      (case try1 buf of
         (Inl e, b) \<Rightarrow> (Inl e, b)
       | (Inr None, b) \<Rightarrow> (Inr [], b)
       | (Inr (Some x), b) \<Rightarrow>
           (case decode_all b of
              (Inl e, b') \<Rightarrow> (Inl e, b')
            | (Inr xs, b') \<Rightarrow> (Inr (x # xs), b')))"
begin

lemma decode_all_incomplete: "try1 buf = (Inr None, buf) \<Longrightarrow> decode_all buf = (Inr [], buf)"
  by (subst decode_all_eq) simp

lemma decode_all_cons:
  "try1 buf = (Inr (Some x), b) \<Longrightarrow>
   decode_all buf = (case decode_all b of (Inl e, b') \<Rightarrow> (Inl e, b') | (Inr xs, b') \<Rightarrow> (Inr (x # xs), b'))"
  by (subst decode_all_eq) simp

lemma decode_all_frames:
  assumes "\<forall>b \<in> set bodies. length b \<le> limit" "try1 tail = (Inr None, tail)"
  shows "decode_all (concat (map frame bodies) @ tail) = (Inr (map decoded bodies), tail)"
  using assms(1)
proof (induction bodies)
  case Nil
  then show ?case using decode_all_incomplete [OF assms(2)] by simp
next
  case (Cons b bs)
  then have "try1 (frame b @ concat (map frame bs) @ tail) = (Inr (Some (decoded b)), concat (map frame bs) @ tail)"
    by (intro try1_frame) simp
  with Cons show ?case by (simp add: decode_all_cons)
qed

text \<open>Decoding does not depend on how the stream is cut into chunks.\<close>

lemma decode_all_append:
  assumes "decode_all a = (Inr xs, t)"
  shows "decode_all (a @ b) =
    (case decode_all (t @ b) of (Inl e, u) \<Rightarrow> (Inl e, u) | (Inr ys, u) \<Rightarrow> (Inr (xs @ ys), u))"
  using assms
proof (induction "length a" arbitrary: a xs rule: less_induct)
  case less
  obtain r b1 where t1: "try1 a = (r, b1)" by fastforce
  show ?case
  proof (cases r)
    case (Inl e)
    with t1 less.prems show ?thesis by (subst (asm) decode_all_eq) simp
  next
    case (Inr o1)
    show ?thesis
    proof (cases o1)
      case None
      with t1 Inr have "try1 a = (Inr None, a)" using try1_stays by blast
      with less.prems have "xs = [] \<and> t = a" by (simp add: decode_all_incomplete)
      then show ?thesis by (auto split: prod.splits sum.splits)
    next
      case (Some x)
      with t1 Inr have s: "try1 a = (Inr (Some x), b1)" by simp
      then obtain xs1 where d: "decode_all b1 = (Inr xs1, t)" and xs: "xs = x # xs1"
        using less.prems by (auto simp: decode_all_cons split: prod.splits sum.splits)
      from less.hyps [OF try1_shrinks [OF s] d]
      show ?thesis
        unfolding decode_all_cons [OF try1_more [OF s]] xs
        by (auto split: prod.splits sum.splits)
    qed
  qed
qed

lemma decode_all_rest: "decode_all a = (Inr xs, t) \<Longrightarrow> decode_all t = (Inr [], t)"
proof (induction "length a" arbitrary: a xs rule: less_induct)
  case less
  obtain r b1 where t1: "try1 a = (r, b1)" by fastforce
  consider (err) e where "r = Inl e" | (none) "r = Inr None" | (some) x where "r = Inr (Some x)"
    by (cases r) (metis option.exhaust)+
  then show ?case
  proof cases
    case err
    with t1 less.prems show ?thesis by (subst (asm) decode_all_eq) simp
  next
    case none
    with t1 try1_stays have "try1 a = (Inr None, a)" by blast
    with less.prems show ?thesis by (simp add: decode_all_incomplete)
  next
    case some
    with t1 have s: "try1 a = (Inr (Some x), b1)" by simp
    with less.prems obtain ys where "decode_all b1 = (Inr ys, t)"
      by (auto simp: decode_all_cons split: prod.splits sum.splits)
    from less.hyps [OF try1_shrinks [OF s] this] show ?thesis .
  qed
qed

lemma decode_all_error: "decode_all a = (Inl e, t) \<Longrightarrow> decode_all (a @ b) = (Inl e, t @ b)"
proof (induction "length a" arbitrary: a rule: less_induct)
  case less
  obtain r b1 where t1: "try1 a = (r, b1)" by fastforce
  consider (err) e' where "r = Inl e'" | (none) "r = Inr None" | (some) x where "r = Inr (Some x)"
    by (cases r) (metis option.exhaust)+
  then show ?case
  proof cases
    case err
    with t1 have s: "try1 a = (Inl e', b1)" by simp
    with less.prems have "e' = e \<and> b1 = t" by (subst (asm) decode_all_eq) simp
    then show ?thesis by (subst decode_all_eq) (simp add: try1_error [OF s])
  next
    case none
    with t1 try1_stays have "try1 a = (Inr None, a)" by blast
    with less.prems show ?thesis by (simp add: decode_all_incomplete)
  next
    case some
    with t1 have s: "try1 a = (Inr (Some x), b1)" by simp
    with less.prems have "decode_all b1 = (Inl e, t)"
      by (auto simp: decode_all_cons split: prod.splits sum.splits)
    from less.hyps [OF try1_shrinks [OF s] this] show ?thesis
      by (simp add: decode_all_cons [OF try1_more [OF s]])
  qed
qed

text \<open>A receiver that decodes after every chunk and keeps the undecoded rest.\<close>

fun feed :: "byte list \<Rightarrow> byte list list \<Rightarrow> ('e + 'a list) \<times> byte list" where
  "feed buf [] = (Inr [], buf)"
| "feed buf (c # cs) =
     (case decode_all (buf @ c) of
        (Inl e, b) \<Rightarrow> (Inl e, b)
      | (Inr xs, b) \<Rightarrow>
          (case feed b cs of (Inl e, b') \<Rightarrow> (Inl e, b') | (Inr ys, b') \<Rightarrow> (Inr (xs @ ys), b')))"

lemma feed_chunks:
  "decode_all buf = (Inr [], buf) \<Longrightarrow> decode_all (buf @ concat cs) = (Inr xs, t) \<Longrightarrow>
   feed buf cs = (Inr xs, t)"
proof (induction cs arbitrary: buf xs)
  case Nil
  then show ?case by simp
next
  case (Cons c cs)
  obtain r u where d: "decode_all (buf @ c) = (r, u)" by fastforce
  show ?case
  proof (cases r)
    case (Inl e)
    with d decode_all_error [of "buf @ c" e u "concat cs"] Cons.prems show ?thesis by simp
  next
    case (Inr ys)
    with d have d': "decode_all (buf @ c) = (Inr ys, u)" by simp
    from decode_all_append [OF this, of "concat cs"] Cons.prems obtain zs where
      "decode_all (u @ concat cs) = (Inr zs, t)" "xs = ys @ zs"
      by (auto split: prod.splits sum.splits)
    with Cons.IH [OF decode_all_rest [OF d']] d' show ?thesis by simp
  qed
qed

end

section \<open>The common shape\<close>

definition frame_step ::
  "nat \<Rightarrow> (nat \<Rightarrow> 'e) \<Rightarrow> (byte list \<Rightarrow> 'a) \<Rightarrow> byte list \<Rightarrow> ('e, 'a) step_result" where
  "frame_step limit oversize decoded buf =
     (if length buf < 4 then (Inr None, buf)
      else
        let size = from_be_bytes (take 4 buf)
        in if limit < size then (Inl (oversize size), buf)
           else if length buf < 4 + size then (Inr None, buf)
           else (Inr (Some (decoded (take size (drop 4 buf)))), drop (4 + size) buf))"

lemma frame_step_frame:
  assumes "length body \<le> limit" "limit < 2 ^ 32"
  shows "frame_step limit ov dec ((be_bytes 4 (length body) @ body) @ rest) = (Inr (Some (dec body)), rest)"
proof -
  have "from_be_bytes (be_bytes 4 (length body)) = length body"
    using assms by (simp add: from_be_be_bytes)
  then show ?thesis using assms by (simp add: frame_step_def)
qed

lemma frame_step_more:
  "frame_step limit ov dec buf = (Inr (Some x), rest) \<Longrightarrow>
   frame_step limit ov dec (buf @ more) = (Inr (Some x), rest @ more)"
  by (auto simp: frame_step_def Let_def split: if_splits)

lemma frame_step_error:
  "frame_step limit ov dec buf = (Inl e, rest) \<Longrightarrow>
   frame_step limit ov dec (buf @ more) = (Inl e, rest @ more)"
  by (auto simp: frame_step_def Let_def split: if_splits)

lemma frame_step_stays: "frame_step limit ov dec buf = (Inr None, buf') \<Longrightarrow> buf' = buf"
  by (auto simp: frame_step_def Let_def split: if_splits)

lemma frame_step_shrinks: "frame_step limit ov dec buf = (Inr (Some x), rest) \<Longrightarrow> length rest < length buf"
  by (auto simp: frame_step_def Let_def split: if_splits)

lemma frame_step_short: "length buf < 4 \<Longrightarrow> frame_step limit ov dec buf = (Inr None, buf)"
  by (simp add: frame_step_def)

section \<open>protocol.rs\<close>

datatype frame_error = OversizeFrame nat nat

definition max_frame_bytes :: nat where
  "max_frame_bytes = 4 * 1024 * 1024"

definition pack_frame :: "byte list \<Rightarrow> byte list" where
  "pack_frame body = be_bytes 4 (length body mod 2 ^ 32) @ body"

definition try_unpack_frame :: "byte list \<Rightarrow> (frame_error, byte list) step_result" where
  "try_unpack_frame buf =
     (if length buf < 4 then (Inr None, buf)
      else
        let size = from_be_bytes (take 4 buf)
        in if max_frame_bytes < size then (Inl (OversizeFrame size max_frame_bytes), buf)
           else if length buf < 4 + size then (Inr None, buf)
           else (Inr (Some (take size (drop 4 buf))), drop (4 + size) buf))"

lemma try_unpack_step:
  "try_unpack_frame = frame_step max_frame_bytes (\<lambda>n. OversizeFrame n max_frame_bytes) (\<lambda>b. b)"
  by (rule ext) (simp add: try_unpack_frame_def frame_step_def)

function unpack_all_frames :: "byte list \<Rightarrow> (frame_error + byte list list) \<times> byte list" where
  "unpack_all_frames buf =
     (case try_unpack_frame buf of
        (Inl e, b) \<Rightarrow> (Inl e, b)
      | (Inr None, b) \<Rightarrow> (Inr [], b)
      | (Inr (Some x), b) \<Rightarrow>
          (case unpack_all_frames b of
             (Inl e, b') \<Rightarrow> (Inl e, b')
           | (Inr xs, b') \<Rightarrow> (Inr (x # xs), b')))"
  by pat_completeness auto
termination
  by (relation "measure length") (auto simp: try_unpack_step dest!: frame_step_shrinks [OF sym])

declare unpack_all_frames.simps [simp del]

interpretation ipc: framing pack_frame "\<lambda>b. b" max_frame_bytes try_unpack_frame unpack_all_frames
proof unfold_locales
  fix body rest buf more buf' :: "byte list" and x e
  show "length body \<le> max_frame_bytes \<Longrightarrow> try_unpack_frame (pack_frame body @ rest) = (Inr (Some body), rest)"
    using frame_step_frame [of body max_frame_bytes "\<lambda>n. OversizeFrame n max_frame_bytes" "\<lambda>b. b" rest]
    by (simp add: try_unpack_step pack_frame_def max_frame_bytes_def)
  show "try_unpack_frame [] = (Inr None, [])" by (simp add: try_unpack_frame_def)
  show "try_unpack_frame buf = (Inr (Some x), rest) \<Longrightarrow> try_unpack_frame (buf @ more) = (Inr (Some x), rest @ more)"
    "try_unpack_frame buf = (Inl e, rest) \<Longrightarrow> try_unpack_frame (buf @ more) = (Inl e, rest @ more)"
    "try_unpack_frame buf = (Inr None, buf') \<Longrightarrow> buf' = buf"
    "try_unpack_frame buf = (Inr (Some x), rest) \<Longrightarrow> length rest < length buf"
    unfolding try_unpack_step
    by (fact frame_step_more frame_step_error frame_step_stays frame_step_shrinks)+
qed (rule unpack_all_frames.simps)

end
