(* ===== verification/Shm_Ring.thy ===== *)
theory Shm_Ring
  imports Framing
begin

text \<open>
  The shared-memory ring of \<open>corsair_ipc\<close> (\<open>ring.rs\<close>, \<open>server.rs\<close>): a memory-mapped file of
  a sixteen-byte header (write and read offset, little-endian) and a data area, written by
  one process and read by the other. Offsets only grow; a position is the offset modulo the
  capacity. The ring is shown to refine a bounded byte queue, and frames published through
  it to arrive complete and in order. The notification FIFO only wakes the reader and is not
  modelled, nor are file creation and descriptors.
\<close>

section \<open>ring.rs\<close>

definition hdr_size :: nat where
  "hdr_size = 16"

definition default_ring_capacity :: nat where
  "default_ring_capacity = 2 ^ 20"

record ring =
  rg_mmap :: "byte list"
  rg_capacity :: nat
  rg_frames_dropped :: nat

definition copy_into :: "nat \<Rightarrow> byte list \<Rightarrow> byte list \<Rightarrow> byte list" where
  "copy_into off bs m = take off m @ bs @ drop (off + length bs) m"

definition slice :: "nat \<Rightarrow> nat \<Rightarrow> byte list \<Rightarrow> byte list" where
  "slice a b m = take (b - a) (drop a m)"

definition u64_at :: "nat \<Rightarrow> ring \<Rightarrow> 64 word" where
  "u64_at off g = of_nat (from_le_bytes (slice off (off + 8) (rg_mmap g)))"

definition read_offsets :: "ring \<Rightarrow> 64 word \<times> 64 word" where
  "read_offsets g = (u64_at 0 g, u64_at 8 g)"

definition set_write :: "64 word \<Rightarrow> ring \<Rightarrow> ring" where
  "set_write w g = g\<lparr>rg_mmap := copy_into 0 (le_bytes 8 (unat w)) (rg_mmap g)\<rparr>"

definition set_read :: "64 word \<Rightarrow> ring \<Rightarrow> ring" where
  "set_read r g = g\<lparr>rg_mmap := copy_into 8 (le_bytes 8 (unat r)) (rg_mmap g)\<rparr>"

text \<open>\<open>create_owner\<close>: the file has \<open>HDR_SIZE + capacity\<close> bytes; the header is zeroed.\<close>

definition create_owner :: "nat \<Rightarrow> ring" where
  "create_owner capacity =
     set_read 0 (set_write 0
       \<lparr>rg_mmap = replicate (hdr_size + capacity) 0, rg_capacity = capacity, rg_frames_dropped = 0\<rparr>)"

definition write_data :: "nat \<Rightarrow> byte list \<Rightarrow> ring \<Rightarrow> ring" where
  "write_data pos frame g =
     (let n = length frame; cap = rg_capacity g in
      if pos + n \<le> cap then g\<lparr>rg_mmap := copy_into (hdr_size + pos) frame (rg_mmap g)\<rparr>
      else
        let tail = cap - pos
        in g\<lparr>rg_mmap := copy_into hdr_size (drop tail frame)
                          (copy_into (hdr_size + pos) (take tail frame) (rg_mmap g))\<rparr>)"

definition write_frame :: "byte list \<Rightarrow> ring \<Rightarrow> ring \<times> bool" where
  "write_frame frame g =
     (let n = length frame; dropped = g\<lparr>rg_frames_dropped := rg_frames_dropped g + 1\<rparr> in
      if rg_capacity g div 2 < n then (dropped, False)
      else
        let (w, r) = read_offsets g;
            free = of_nat (rg_capacity g) - (w - r) :: 64 word
        in if unat free < n then (dropped, False)
           else
             let g1 = write_data (unat w mod rg_capacity g) frame g
             in (set_write (w + of_nat n) g1, True))"

definition read_data :: "nat \<Rightarrow> nat \<Rightarrow> ring \<Rightarrow> byte list" where
  "read_data pos avail g =
     (let cap = rg_capacity g in
      if pos + avail \<le> cap then slice (hdr_size + pos) (hdr_size + (pos + avail)) (rg_mmap g)
      else
        let tail = cap - pos
        in slice (hdr_size + pos) (hdr_size + cap) (rg_mmap g) @
           slice hdr_size (hdr_size + (avail - tail)) (rg_mmap g))"

definition read_available :: "ring \<Rightarrow> ring \<times> byte list" where
  "read_available g =
     (let (w, r) = read_offsets g;
          avail = (if r \<le> w then unat (w - r) else 0)
      in if avail = 0 then (g, [])
         else (set_read (r + of_nat avail) g, read_data (unat r mod rg_capacity g) avail g))"

section \<open>Memory lemmas\<close>

lemma length_copy_into [simp]: "off + length bs \<le> length m \<Longrightarrow> length (copy_into off bs m) = length m"
  by (simp add: copy_into_def)

lemma nth_copy_into:
  "off + length bs \<le> length m \<Longrightarrow> i < length m \<Longrightarrow>
   copy_into off bs m ! i = (if off \<le> i \<and> i < off + length bs then bs ! (i - off) else m ! i)"
  by (auto simp: copy_into_def nth_append min_def)

lemma slice_copy_same: "off + length bs \<le> length m \<Longrightarrow> slice off (off + length bs) (copy_into off bs m) = bs"
  by (simp add: slice_def copy_into_def)

lemma slice_copy_other:
  assumes "off + length bs \<le> length m" "b \<le> off \<or> off + length bs \<le> a" "b \<le> length m"
  shows "slice a b (copy_into off bs m) = slice a b m"
proof (rule nth_equalityI)
  show "length (slice a b (copy_into off bs m)) = length (slice a b m)"
    using assms by (simp add: slice_def)
  fix i assume "i < length (slice a b (copy_into off bs m))"
  then have i: "i < b - a" by (simp add: slice_def)
  then show "slice a b (copy_into off bs m) ! i = slice a b m ! i"
    using assms by (auto simp: slice_def nth_copy_into)
qed

lemma unat_u64 [simp]: "of_nat (unat x mod 18446744073709551616) = (x :: 64 word)"
  using unsigned_less [of x, where ?'a = nat] by simp

section \<open>The ring as a queue\<close>

text \<open>The bytes between the read and the write offset, where the offsets have not wrapped.\<close>

definition data_at :: "ring \<Rightarrow> nat \<Rightarrow> byte" where
  "data_at g off = rg_mmap g ! (hdr_size + off mod rg_capacity g)"

definition ring_ok :: "ring \<Rightarrow> bool" where
  "ring_ok g \<longleftrightarrow>
     0 < rg_capacity g \<and> length (rg_mmap g) = hdr_size + rg_capacity g \<and> rg_capacity g < 2 ^ 64 \<and>
     (let (w, r) = read_offsets g in r \<le> w \<and> unat w - unat r \<le> rg_capacity g)"

definition queued :: "ring \<Rightarrow> byte list" where
  "queued g = (let (w, r) = read_offsets g in map (data_at g) [unat r ..< unat w])"

definition written :: "ring \<Rightarrow> nat" where
  "written g = unat (fst (read_offsets g))"

lemma offsets_set_write:
  assumes "length (rg_mmap g) = hdr_size + rg_capacity g"
  shows "read_offsets (set_write w g) = (w, snd (read_offsets g))"
  using assms slice_copy_same [of 0 "le_bytes 8 (unat w)" "rg_mmap g"]
    slice_copy_other [of 0 "le_bytes 8 (unat w)" "rg_mmap g" 16 8]
  by (simp add: read_offsets_def u64_at_def set_write_def hdr_size_def from_le_le_bytes)

lemma offsets_set_read:
  assumes "length (rg_mmap g) = hdr_size + rg_capacity g"
  shows "read_offsets (set_read r g) = (fst (read_offsets g), r)"
  using assms slice_copy_same [of 8 "le_bytes 8 (unat r)" "rg_mmap g"]
    slice_copy_other [of 8 "le_bytes 8 (unat r)" "rg_mmap g" 8 0]
  by (simp add: read_offsets_def u64_at_def set_read_def hdr_size_def from_le_le_bytes)

lemma ring_frame [simp]:
  "rg_capacity (set_write w g) = rg_capacity g" "rg_capacity (set_read r g) = rg_capacity g"
  "rg_capacity (write_data p f g) = rg_capacity g"
  "rg_frames_dropped (set_write w g) = rg_frames_dropped g"
  "rg_frames_dropped (set_read r g) = rg_frames_dropped g"
  "rg_frames_dropped (write_data p f g) = rg_frames_dropped g"
  by (auto simp: set_write_def set_read_def write_data_def Let_def)

lemma mod_add_cases: "k < (c::nat) \<Longrightarrow> (w + k) mod c = (if w mod c + k < c then w mod c + k else w mod c + k - c)"
proof -
  assume k: "k < c"
  then have "w mod c < c" by simp
  have "(w + k) mod c = (w mod c + k) mod c" by (simp add: mod_add_left_eq)
  also have "\<dots> = (if w mod c + k < c then w mod c + k else w mod c + k - c)"
  proof (cases "w mod c + k < c")
    case False
    then have "(w mod c + k) mod c = (w mod c + k - c) mod c" by (intro le_mod_geq) simp
    also have "\<dots> = w mod c + k - c" using k \<open>w mod c < c\<close> by (intro mod_less) linarith
    finally show ?thesis using False by simp
  qed simp
  finally show ?thesis .
qed

lemma ring_distance: "k < (c::nat) \<Longrightarrow> ((w + k) mod c + c - w mod c) mod c = k"
  by (auto simp: mod_add_cases)

lemma length_write_data:
  assumes "length (rg_mmap g) = hdr_size + rg_capacity g" "pos < rg_capacity g" "length f \<le> rg_capacity g"
  shows "length (rg_mmap (write_data pos f g)) = hdr_size + rg_capacity g"
  using assms by (auto simp: write_data_def Let_def)

lemma nth_write_data:
  assumes "length (rg_mmap g) = hdr_size + rg_capacity g" "pos < rg_capacity g" "length f \<le> rg_capacity g"
    and "j < rg_capacity g"
  shows "rg_mmap (write_data pos f g) ! (hdr_size + j) =
    (let d = (j + rg_capacity g - pos) mod rg_capacity g in
     if d < length f then f ! d else rg_mmap g ! (hdr_size + j))"
proof (cases "pos \<le> j")
  case True
  then have d: "(j + rg_capacity g - pos) mod rg_capacity g = j - pos"
    using assms(2,4) by (simp add: mod_if)
  show ?thesis
    unfolding Let_def d using True assms by (auto simp: write_data_def Let_def nth_copy_into)
next
  case False
  then have d: "(j + rg_capacity g - pos) mod rg_capacity g = j + rg_capacity g - pos"
    using assms(2) by (intro mod_less) auto
  show ?thesis
    unfolding Let_def d using False assms by (auto simp: write_data_def Let_def nth_copy_into add.commute [of "rg_capacity g" j])
qed

lemma read_offsets_write_data:
  assumes "length (rg_mmap g) = hdr_size + rg_capacity g" "pos < rg_capacity g" "length f \<le> rg_capacity g"
  shows "read_offsets (write_data pos f g) = read_offsets g"
  using assms
  by (auto simp: read_offsets_def u64_at_def write_data_def Let_def slice_copy_other hdr_size_def)

lemma data_at_new:
  assumes "length (rg_mmap g) = hdr_size + rg_capacity g" "length f \<le> rg_capacity g" "k < length f"
  shows "data_at (write_data (w mod rg_capacity g) f g) (w + k) = f ! k"
proof -
  have c: "0 < rg_capacity g" and k: "k < rg_capacity g" using assms(2,3) by auto
  show ?thesis
    using nth_write_data [OF assms(1) mod_less_divisor [OF c] assms(2) mod_less_divisor [OF c], of w "w + k"]
      assms(3) ring_distance [OF k, of w]
    by (simp add: data_at_def Let_def)
qed

lemma data_at_old:
  assumes "length (rg_mmap g) = hdr_size + rg_capacity g" "off < w" "w - off + length f \<le> rg_capacity g"
  shows "data_at (write_data (w mod rg_capacity g) f g) off = data_at g off"
proof -
  have c: "0 < rg_capacity g" and n: "length f \<le> rg_capacity g" using assms(2,3) by auto
  let ?k = "rg_capacity g - (w - off)"
  have k: "?k < rg_capacity g" "\<not> ?k < length f" using assms(2,3) c by auto
  have "w + ?k = off + rg_capacity g" using assms(2,3) by simp
  then have "(w + ?k) mod rg_capacity g = off mod rg_capacity g" by simp
  then have "(off mod rg_capacity g + rg_capacity g - w mod rg_capacity g) mod rg_capacity g = ?k"
    using ring_distance [OF k(1), of w] by simp
  then show ?thesis
    using nth_write_data [OF assms(1) mod_less_divisor [OF c] n mod_less_divisor [OF c], of w off] k(2)
    by (simp add: data_at_def Let_def)
qed

lemma data_at_header [simp]:
  "length (rg_mmap g) = hdr_size + rg_capacity g \<Longrightarrow> 0 < rg_capacity g \<Longrightarrow> data_at (set_write w g) off = data_at g off"
  "length (rg_mmap g) = hdr_size + rg_capacity g \<Longrightarrow> 0 < rg_capacity g \<Longrightarrow> data_at (set_read w g) off = data_at g off"
  by (simp_all add: data_at_def set_write_def set_read_def nth_copy_into hdr_size_def)

lemma length_set_offsets [simp]:
  "length (rg_mmap g) = hdr_size + rg_capacity g \<Longrightarrow> length (rg_mmap (set_write w g)) = hdr_size + rg_capacity g"
  "length (rg_mmap g) = hdr_size + rg_capacity g \<Longrightarrow> length (rg_mmap (set_read w g)) = hdr_size + rg_capacity g"
  by (simp_all add: set_write_def set_read_def hdr_size_def)

lemma create_owner_ok:
  assumes "0 < cap" "cap < 2 ^ 64"
  shows "ring_ok (create_owner cap)" "queued (create_owner cap) = []" "written (create_owner cap) = 0"
    "rg_capacity (create_owner cap) = cap"
proof -
  let ?g0 = "\<lparr>rg_mmap = replicate (hdr_size + cap) 0, rg_capacity = cap, rg_frames_dropped = 0\<rparr>"
  have o: "read_offsets (create_owner cap) = (0, 0)"
    unfolding create_owner_def by (simp add: offsets_set_read offsets_set_write)
  show "ring_ok (create_owner cap)" "queued (create_owner cap) = []" "written (create_owner cap) = 0"
    unfolding ring_ok_def queued_def written_def o
    using assms by (simp_all add: create_owner_def)
  show "rg_capacity (create_owner cap) = cap" by (simp add: create_owner_def)
qed

lemma write_frame_queue:
  assumes ok: "ring_ok g" and nw: "written g + length f < 2 ^ 64"
  shows "let fits = (length f \<le> rg_capacity g div 2 \<and> length (queued g) + length f \<le> rg_capacity g)
         in snd (write_frame f g) = fits \<and> ring_ok (fst (write_frame f g)) \<and>
            queued (fst (write_frame f g)) = (if fits then queued g @ f else queued g) \<and>
            written (fst (write_frame f g)) = (if fits then written g + length f else written g) \<and>
            rg_frames_dropped (fst (write_frame f g)) = rg_frames_dropped g + (if fits then 0 else 1)"
proof -
  obtain w r where wr: "read_offsets g = (w, r)" by fastforce
  have c: "0 < rg_capacity g" "length (rg_mmap g) = hdr_size + rg_capacity g" "rg_capacity g < 2 ^ 64"
    and le: "r \<le> w" "unat w - unat r \<le> rg_capacity g"
    using ok wr by (auto simp: ring_ok_def)
  have rw: "unat r \<le> unat w" using le(1) by (simp add: word_le_nat_alt)
  have lq: "length (queued g) = unat w - unat r" by (simp add: queued_def wr)
  have sub: "unat (w - r) = unat w - unat r" using le(1) by (simp add: unat_sub)
  have "unat (of_nat (rg_capacity g) :: 64 word) = rg_capacity g"
    using c(3) by (simp add: unat_of_nat)
  then have free: "unat (of_nat (rg_capacity g) - (w - r)) = rg_capacity g - (unat w - unat r)"
    using le(2) sub by (subst unat_sub) (simp_all add: word_le_nat_alt)
  define d where "d = g\<lparr>rg_frames_dropped := rg_frames_dropped g + 1\<rparr>"
  have dropped: "ring_ok d" "queued d = queued g" "written d = written g"
    "rg_frames_dropped d = rg_frames_dropped g + 1"
    using ok by (simp_all add: d_def ring_ok_def queued_def written_def read_offsets_def u64_at_def data_at_def)
  show ?thesis
  proof (cases "length f \<le> rg_capacity g div 2 \<and> length (queued g) + length f \<le> rg_capacity g")
    case False
    then have "write_frame f g = (d, False)"
      using lq free le(2) by (auto simp: write_frame_def wr Let_def d_def)
    then show ?thesis using False dropped by auto
  next
    case True
    let ?g1 = "write_data (unat w mod rg_capacity g) f g"
    let ?g2 = "set_write (w + of_nat (length f)) ?g1"
    have n: "length f \<le> rg_capacity g" using True by linarith
    have e: "write_frame f g = (?g2, True)"
      using True lq free by (auto simp: write_frame_def wr Let_def)
    have len1: "length (rg_mmap ?g1) = hdr_size + rg_capacity g"
      using length_write_data [OF c(2) _ n] c(1) by simp
    have len1': "length (rg_mmap ?g1) = hdr_size + rg_capacity ?g1" using len1 by simp
    have o2: "read_offsets ?g2 = (w + of_nat (length f), r)"
      using offsets_set_write [OF len1'] read_offsets_write_data [OF c(2) _ n] c(1) wr by simp
    have "unat w + length f < 2 ^ 64" using nw wr by (simp add: written_def)
    then have uw: "unat (w + of_nat (length f)) = unat w + length f"
      by (simp add: unat_word_ariths unat_of_nat)
    have da: "data_at ?g2 off = data_at ?g1 off" for off using len1' c(1) by simp
    have old: "map (data_at ?g2) [unat r ..< unat w] = map (data_at g) [unat r ..< unat w]"
      using data_at_old [OF c(2), of _ "unat w" f] True lq by (auto simp: da)
    have new: "map (data_at ?g2) [unat w ..< unat w + length f] = f"
      by (rule nth_equalityI) (simp_all add: da data_at_new [OF c(2) n])
    have q: "queued ?g2 = queued g @ f"
      using old new rw by (simp add: queued_def o2 wr uw upt_add_eq_append [of "unat r"])
    have "ring_ok ?g2"
      unfolding ring_ok_def o2 using c(1,3) len1 rw True lq uw
      by (simp add: word_le_nat_alt)
    then show ?thesis
      using True q o2 uw wr by (simp add: e Let_def written_def)
  qed
qed

lemma read_available_queue:
  assumes ok: "ring_ok g"
  shows "snd (read_available g) = queued g \<and> ring_ok (fst (read_available g)) \<and>
         queued (fst (read_available g)) = [] \<and> written (fst (read_available g)) = written g \<and>
         rg_capacity (fst (read_available g)) = rg_capacity g"
proof -
  obtain w r where wr: "read_offsets g = (w, r)" by fastforce
  have c: "0 < rg_capacity g" "length (rg_mmap g) = hdr_size + rg_capacity g" "rg_capacity g < 2 ^ 64"
    and le: "r \<le> w" "unat w - unat r \<le> rg_capacity g"
    using ok wr by (auto simp: ring_ok_def)
  have rw: "unat r \<le> unat w" using le(1) by (simp add: word_le_nat_alt)
  have av: "unat (w - r) = unat w - unat r" using le(1) by (simp add: unat_sub)
  define n where "n = unat w - unat r"
  define pos where "pos = unat r mod rg_capacity g"
  have n: "n \<le> rg_capacity g" using le(2) by (simp add: n_def)
  have pos: "pos < rg_capacity g" using c(1) by (simp add: pos_def)
  show ?thesis
  proof (cases "n = 0")
    case True
    then show ?thesis
      using ok wr av rw by (auto simp: read_available_def queued_def Let_def n_def)
  next
    case False
    let ?g2 = "set_read (r + of_nat n) g"
    have e: "read_available g = (?g2, read_data pos n g)"
      using False le(1) by (simp add: read_available_def wr av n_def pos_def)
    have "of_nat n = w - r" by (simp add: n_def flip: av)
    then have o2: "read_offsets ?g2 = (w, w)"
      using offsets_set_read [OF c(2)] wr by simp
    have lu: "[unat r ..< unat w] = map (\<lambda>k. unat r + k) [0 ..< n]"
      using rw by (simp add: n_def map_add_upt add.commute)
    have da: "data_at g (unat r + k) = rg_mmap g ! (hdr_size + (if pos + k < rg_capacity g then pos + k
        else pos + k - rg_capacity g))" if "k < n" for k
      using mod_add_cases [of k "rg_capacity g" "unat r"] that n by (simp add: data_at_def pos_def)
    have rd: "read_data pos n g = map (\<lambda>k. data_at g (unat r + k)) [0 ..< n]"
    proof (rule nth_equalityI)
      show "length (read_data pos n g) = length (map (\<lambda>k. data_at g (unat r + k)) [0 ..< n])"
        using n pos c(2) by (auto simp: read_data_def Let_def slice_def)
      fix i assume "i < length (read_data pos n g)"
      then have i: "i < n" using n pos c(2) by (auto simp: read_data_def Let_def slice_def split: if_splits)
      show "read_data pos n g ! i = map (\<lambda>k. data_at g (unat r + k)) [0 ..< n] ! i"
        using i n pos c(2) da [OF i]
        by (auto simp: read_data_def Let_def slice_def nth_append add.assoc add.commute [of i])
    qed
    have q: "queued g = read_data pos n g" by (simp add: queued_def wr lu rd comp_def)
    have ok2: "ring_ok ?g2" unfolding ring_ok_def o2 using c by simp
    show ?thesis
      using q ok2 o2 wr by (simp add: e queued_def [of ?g2] written_def)
  qed
qed

section \<open>The channel contract\<close>

text \<open>
  What a user of the ring relies on: an accepted write appends its bytes, a refused one
  changes nothing the reader can see, and a read takes everything that is queued.
\<close>

locale byte_channel =
  fixes send :: "byte list \<Rightarrow> 'c \<Rightarrow> 'c \<times> bool"
    and recv :: "'c \<Rightarrow> 'c \<times> byte list"
    and queue :: "'c \<Rightarrow> byte list"
    and sent :: "'c \<Rightarrow> nat"
    and ok :: "'c \<Rightarrow> bool"
    and bound :: nat
  assumes send_ok: "ok c \<Longrightarrow> sent c + length f < bound \<Longrightarrow> ok (fst (send f c))"
    and send_queue: "ok c \<Longrightarrow> sent c + length f < bound \<Longrightarrow>
      queue (fst (send f c)) = (if snd (send f c) then queue c @ f else queue c)"
    and send_sent: "ok c \<Longrightarrow> sent c + length f < bound \<Longrightarrow> sent (fst (send f c)) \<le> sent c + length f"
    and recv_ok: "ok c \<Longrightarrow> ok (fst (recv c))"
    and recv_queue: "ok c \<Longrightarrow> snd (recv c) = queue c \<and> queue (fst (recv c)) = []"
    and recv_sent: "ok c \<Longrightarrow> sent (fst (recv c)) = sent c"

locale framed_channel =
  byte_channel send recv queue sent ok bound + framing frame decoded limit try1 decode_all
  for send :: "byte list \<Rightarrow> 'c \<Rightarrow> 'c \<times> bool" and recv queue sent ok bound
    and frame and decoded :: "byte list \<Rightarrow> 'a" and limit
    and try1 :: "byte list \<Rightarrow> ('e, 'a) step_result" and decode_all
begin

text \<open>The channel holds exactly the frames of the payloads not yet read.\<close>

definition pending :: "'c \<Rightarrow> byte list list \<Rightarrow> bool" where
  "pending c bs \<longleftrightarrow> ok c \<and> queue c = concat (map frame bs) \<and> (\<forall>b \<in> set bs. length b \<le> limit)"

lemma publish_pending:
  "pending c bs \<Longrightarrow> sent c + length (frame b) < bound \<Longrightarrow>
   (snd (send (frame b) c) \<Longrightarrow> length b \<le> limit) \<Longrightarrow>
   pending (fst (send (frame b) c)) (if snd (send (frame b) c) then bs @ [b] else bs)"
  by (auto simp: pending_def send_ok send_queue)

lemma poll_pending:
  assumes "pending c bs"
  shows "decode_all (snd (recv c)) = (Inr (map decoded bs), []) \<and> pending (fst (recv c)) []"
proof -
  have "snd (recv c) = concat (map frame bs) @ []" "queue (fst (recv c)) = []" "ok (fst (recv c))"
    using assms recv_queue recv_ok by (simp_all add: pending_def)
  then show ?thesis
    using decode_all_frames [of bs "[]"] try1_nil assms by (simp add: pending_def)
qed

end

text \<open>Two interpretations of the ring: as a channel of bytes, and as a channel of the frames of
  \<open>protocol.rs\<close>.\<close>

definition ring_live :: "ring \<Rightarrow> bool" where
  "ring_live g \<longleftrightarrow> ring_ok g"

interpretation shm: byte_channel write_frame read_available queued written ring_live "2 ^ 64"
proof unfold_locales
  fix g :: ring and f :: "byte list"
  assume ok: "ring_live g"
  then have ok': "ring_ok g" by (simp add: ring_live_def)
  {
    assume nw: "written g + length f < 2 ^ 64"
    note q = write_frame_queue [OF ok' nw, unfolded Let_def]
    show "ring_live (fst (write_frame f g))" using q by (simp add: ring_live_def)
    show "queued (fst (write_frame f g)) = (if snd (write_frame f g) then queued g @ f else queued g)"
      using q by simp
    show "written (fst (write_frame f g)) \<le> written g + length f" using q by simp
  }
  note r = read_available_queue [OF ok']
  show "ring_live (fst (read_available g))"
    "snd (read_available g) = queued g \<and> queued (fst (read_available g)) = []"
    "written (fst (read_available g)) = written g"
    using r by (simp_all add: ring_live_def)
qed

interpretation shm_frames: framed_channel write_frame read_available queued written ring_live "2 ^ 64"
  pack_frame "\<lambda>b. b" max_frame_bytes try_unpack_frame unpack_all_frames
  by unfold_locales

section \<open>server.rs\<close>

record server_command =
  sc_kind :: string
  sc_body :: "byte list"

definition shm_publish :: "byte list \<Rightarrow> ring \<Rightarrow> ring \<times> bool" where
  "shm_publish body g = write_frame (pack_frame body) g"

text \<open>One turn of \<open>command_pump\<close>; \<open>extract_type\<close> parses the body with a third-party msgpack
  decoder and is a parameter.\<close>

definition command_pump_poll ::
  "(byte list \<Rightarrow> string option) \<Rightarrow> ring \<Rightarrow> ring \<times> server_command list" where
  "command_pump_poll extract_type g =
     (let (g1, bytes) = read_available g in
      if bytes = [] then (g1, [])
      else (case unpack_all_frames bytes of
              (Inl e, _) \<Rightarrow> (g1, [])
            | (Inr frames, _) \<Rightarrow>
                (g1, map (\<lambda>body. \<lparr>sc_kind = (case extract_type body of Some k \<Rightarrow> k | None \<Rightarrow> ''unknown''),
                                  sc_body = body\<rparr>) frames)))"

section \<open>Properties\<close>

text \<open>Any interleaving of the two processes at the granularity of whole operations: the trader
  publishing bodies and the server polling. The run returns the accepted bodies and the
  delivered ones.\<close>

datatype ipc_event = Publish "byte list" | Poll

fun ipc_run ::
  "(byte list \<Rightarrow> string option) \<Rightarrow> ipc_event list \<Rightarrow> ring \<Rightarrow> ring \<times> byte list list \<times> byte list list" where
  "ipc_run ext [] g = (g, [], [])"
| "ipc_run ext (Publish b # es) g =
     (let (g1, acc) = shm_publish b g; (g2, accepted, delivered) = ipc_run ext es g1
      in (g2, (if acc then b # accepted else accepted), delivered))"
| "ipc_run ext (Poll # es) g =
     (let (g1, cmds) = command_pump_poll ext g; (g2, accepted, delivered) = ipc_run ext es g1
      in (g2, accepted, map sc_body cmds @ delivered))"

definition traffic :: "ipc_event list \<Rightarrow> nat" where
  "traffic es = sum_list (map (\<lambda>e. case e of Publish b \<Rightarrow> 4 + length b | Poll \<Rightarrow> 0) es)"

lemma poll_delivers:
  assumes "shm_frames.pending g bs"
  shows "map sc_body (snd (command_pump_poll ext g)) = bs \<and>
         shm_frames.pending (fst (command_pump_poll ext g)) [] \<and>
         rg_capacity (fst (command_pump_poll ext g)) = rg_capacity g \<and>
         written (fst (command_pump_poll ext g)) = written g"
proof -
  obtain g1 bytes where r: "read_available g = (g1, bytes)" by fastforce
  have p: "unpack_all_frames bytes = (Inr bs, [])" "shm_frames.pending g1 []"
    using shm_frames.poll_pending [OF assms] by (simp_all add: r)
  have c: "rg_capacity g1 = rg_capacity g" "written g1 = written g"
    using read_available_queue [of g] assms by (simp_all add: r shm_frames.pending_def ring_live_def)
  have e: "bytes = [] \<Longrightarrow> bs = []"
    using p(1) ipc.decode_all_incomplete [OF ipc.try1_nil] by simp
  show ?thesis
    using p c e by (cases "bytes = []") (simp_all add: command_pump_poll_def r comp_def)
qed

lemma publish_accepts:
  assumes "shm_frames.pending g bs" "written g + (4 + length b) < 2 ^ 64"
    "rg_capacity g div 2 \<le> max_frame_bytes"
  shows "shm_frames.pending (fst (shm_publish b g)) (if snd (shm_publish b g) then bs @ [b] else bs) \<and>
         rg_capacity (fst (shm_publish b g)) = rg_capacity g \<and>
         written (fst (shm_publish b g)) \<le> written g + (4 + length b)"
proof -
  have lf: "length (pack_frame b) = 4 + length b" by (simp add: pack_frame_def)
  have ok: "ring_ok g" using assms(1) by (simp add: shm_frames.pending_def ring_live_def)
  have nw: "written g + length (pack_frame b) < 2 ^ 64" using assms(2) by (simp add: lf)
  note q = write_frame_queue [OF ok nw, unfolded Let_def]
  have "snd (write_frame (pack_frame b) g) \<Longrightarrow> length b \<le> max_frame_bytes"
    using q assms(3) by (simp add: lf)
  from shm_frames.publish_pending [OF assms(1) nw this]
  have "shm_frames.pending (fst (shm_publish b g)) (if snd (shm_publish b g) then bs @ [b] else bs)"
    by (simp add: shm_publish_def)
  moreover have "rg_capacity (fst (write_frame (pack_frame b) g)) = rg_capacity g"
    by (auto simp: write_frame_def Let_def split: prod.splits)
  ultimately show ?thesis using q by (simp add: shm_publish_def lf)
qed

lemma ipc_run_order:
  "shm_frames.pending g bs \<Longrightarrow> written g + traffic es < 2 ^ 64 \<Longrightarrow>
   rg_capacity g div 2 \<le> max_frame_bytes \<Longrightarrow> ipc_run ext es g = (g', accepted, delivered) \<Longrightarrow>
   \<exists>rest. delivered @ rest = bs @ accepted \<and> shm_frames.pending g' rest"
proof (induction es arbitrary: g bs accepted delivered)
  case Nil
  then show ?case by auto
next
  case (Cons e es)
  show ?case
  proof (cases e)
    case (Publish b)
    obtain g1 acc where p: "shm_publish b g = (g1, acc)" by fastforce
    obtain a1 d1 where r: "ipc_run ext es g1 = (g', a1, d1)" and ad: "delivered = d1"
      "accepted = (if acc then b # a1 else a1)"
      using Cons.prems(4) by (auto simp: Publish p split: prod.splits)
    have t: "traffic (e # es) = 4 + length b + traffic es" by (simp add: traffic_def Publish)
    have nw: "written g + (4 + length b) < 2 ^ 64" using Cons.prems(2) t by linarith
    note a = publish_accepts [OF Cons.prems(1) nw Cons.prems(3)]
    have "written g1 + traffic es < 2 ^ 64" using a p t Cons.prems(2) by simp
    from Cons.IH [OF _ this _ r] a p Cons.prems(3) obtain rest where
      "d1 @ rest = (if acc then bs @ [b] else bs) @ a1" "shm_frames.pending g' rest" by fastforce
    with ad show ?thesis by (auto split: if_splits)
  next
    case Poll
    obtain g1 cmds where p: "command_pump_poll ext g = (g1, cmds)" by fastforce
    obtain a1 d1 where r: "ipc_run ext es g1 = (g', a1, d1)" and ad: "delivered = map sc_body cmds @ d1"
      "accepted = a1"
      using Cons.prems(4) by (auto simp: Poll p split: prod.splits)
    note a = poll_delivers [OF Cons.prems(1), of ext]
    have "written g1 + traffic es < 2 ^ 64" using a p Cons.prems(2) by (simp add: traffic_def Poll)
    from Cons.IH [OF _ this _ r, of "[]"] a p Cons.prems(3) obtain rest where
      "d1 @ rest = a1" "shm_frames.pending g' rest" by fastforce
    with ad a p show ?thesis by auto
  qed
qed

lemma create_owner_pending: "0 < cap \<Longrightarrow> cap < 2 ^ 64 \<Longrightarrow> shm_frames.pending (create_owner cap) []"
  by (simp add: shm_frames.pending_def ring_live_def create_owner_ok)

text \<open>C11. The ring is a bounded byte queue: on every well-formed ring a write is accepted exactly
  when the frame is at most half the capacity and fits beside the unread bytes, an accepted
  write appends its bytes even across the end of the buffer, a refused one only counts a
  drop, and a read returns everything unread, in order, once.\<close>

theorem ring_refines_queue:
  assumes "ring_ok g" "written g + length f < 2 ^ 64"
  shows "(snd (write_frame f g) \<longleftrightarrow>
            length f \<le> rg_capacity g div 2 \<and> length (queued g) + length f \<le> rg_capacity g) \<and>
         ring_ok (fst (write_frame f g)) \<and>
         queued (fst (write_frame f g)) = (if snd (write_frame f g) then queued g @ f else queued g) \<and>
         rg_frames_dropped (fst (write_frame f g)) =
           rg_frames_dropped g + (if snd (write_frame f g) then 0 else 1) \<and>
         snd (read_available g) = queued g \<and> ring_ok (fst (read_available g)) \<and>
         queued (fst (read_available g)) = []"
  using write_frame_queue [OF assms] read_available_queue [OF assms(1)] by (simp add: Let_def)

theorem ring_refines_queue_witness:
  "snd (read_available (fst (write_frame [1, 2, 3] (create_owner 8)))) = [1, 2, 3]"
proof -
  have a: "ring_ok (create_owner 8)" "written (create_owner 8) = 0" "queued (create_owner 8) = []"
    "rg_capacity (create_owner 8) = 8"
    using create_owner_ok [of 8] by simp_all
  have w: "written (create_owner 8) + length [1, 2, 3 :: byte] < 2 ^ 64" using a by simp
  note r1 = ring_refines_queue [OF a(1) w]
  have "written (fst (write_frame [1, 2, 3] (create_owner 8))) + length ([] :: byte list) < 2 ^ 64"
    using write_frame_queue [OF a(1) w] a by (simp add: Let_def)
  from ring_refines_queue [OF _ this] r1 a show ?thesis by simp
qed

text \<open>C10. No command is lost, duplicated, torn or reordered between the processes: over any
  interleaving of publishes and polls on a fresh ring of at most 8 MiB, with fewer than
  2 ^ 64 bytes in all, the bodies delivered to the server are a prefix of the bodies the
  ring accepted, and after one more poll they are all of them.\<close>

theorem commands_arrive_in_order:
  assumes "0 < cap" "cap \<le> 8 * 1024 * 1024" "traffic es < 2 ^ 64"
    and "ipc_run ext es (create_owner cap) = (g, accepted, delivered)"
  shows "delivered @ map sc_body (snd (command_pump_poll ext g)) = accepted"
proof -
  have c: "cap < 2 ^ 64" "rg_capacity (create_owner cap) div 2 \<le> max_frame_bytes"
    using assms(1,2) by (simp_all add: create_owner_ok max_frame_bytes_def)
  have "written (create_owner cap) + traffic es < 2 ^ 64"
    using assms(3) create_owner_ok(3) [OF assms(1) c(1)] by simp
  from ipc_run_order [OF create_owner_pending [OF assms(1) c(1)] this c(2) assms(4)]
  obtain rest where "delivered @ rest = accepted" "shm_frames.pending g rest" by auto
  with poll_delivers [of g rest ext] show ?thesis by simp
qed

theorem commands_arrive_in_order_witness:
  "\<exists>g accepted delivered.
     ipc_run (\<lambda>_. None) [Publish [1, 2], Poll, Publish [3]] (create_owner 16) = (g, accepted, delivered) \<and>
     delivered @ map sc_body (snd (command_pump_poll (\<lambda>_. None) g)) = accepted"
proof -
  obtain g a d where r: "ipc_run (\<lambda>_. None) [Publish [1, 2], Poll, Publish [3]] (create_owner 16) = (g, a, d)"
    by (metis prod.collapse)
  have "d @ map sc_body (snd (command_pump_poll (\<lambda>_. None) g)) = a"
    by (rule commands_arrive_in_order [OF _ _ _ r]) (simp_all add: traffic_def)
  with r show ?thesis by blast
qed

text \<open>One oversized frame discards its neighbours: when the bytes of a poll hold complete
  frames followed by a length prefix above 4 MiB, the poll delivers none of the frames
  before it, although they are complete, and they are gone from the ring.\<close>

theorem oversize_frame_drops_batch:
  assumes "ring_ok g" "queued g = concat (map pack_frame bodies) @ be_bytes 4 n @ junk"
    and "\<forall>b \<in> set bodies. length b \<le> max_frame_bytes" "max_frame_bytes < n" "n < 2 ^ 32"
  shows "snd (command_pump_poll ext g) = [] \<and> queued (fst (command_pump_poll ext g)) = []"
proof -
  have "from_be_bytes (be_bytes 4 n) = n" using assms(5) by (simp add: from_be_be_bytes)
  then have over: "try_unpack_frame (be_bytes 4 n @ junk) = (Inl (OversizeFrame n max_frame_bytes), be_bytes 4 n @ junk)"
    using assms(4) by (simp add: try_unpack_frame_def)
  have err: "\<exists>e b. unpack_all_frames (concat (map pack_frame bs) @ be_bytes 4 n @ junk) = (Inl e, b)"
    if "\<forall>b \<in> set bs. length b \<le> max_frame_bytes" for bs
    using that
  proof (induction bs)
    case Nil
    then show ?case using over by (subst unpack_all_frames.simps) simp
  next
    case (Cons b bs)
    then have "try_unpack_frame (pack_frame b @ concat (map pack_frame bs) @ be_bytes 4 n @ junk) =
        (Inr (Some b), concat (map pack_frame bs) @ be_bytes 4 n @ junk)"
      by (intro ipc.try1_frame) simp
    with Cons show ?case by (auto simp: ipc.decode_all_cons)
  qed
  obtain g1 bytes where r: "read_available g = (g1, bytes)" by fastforce
  have b: "bytes = queued g" "queued g1 = []" using read_available_queue [OF assms(1)] by (simp_all add: r)
  from err [OF assms(3)] obtain e b' where "unpack_all_frames bytes = (Inl e, b')" using b(1) assms(2) by auto
  then show ?thesis using b by (simp add: command_pump_poll_def r)
qed

theorem oversize_frame_drops_batch_witness:
  "snd (command_pump_poll (\<lambda>_. None)
     (fst (write_frame (pack_frame [7] @ be_bytes 4 5000000) (create_owner 64)))) = []"
proof -
  have a: "ring_ok (create_owner 64)" "written (create_owner 64) = 0" "queued (create_owner 64) = []"
    "rg_capacity (create_owner 64) = 64"
    using create_owner_ok [of 64] by simp_all
  let ?f = "pack_frame [7] @ be_bytes 4 5000000"
  have w: "written (create_owner 64) + length ?f < 2 ^ 64" using a by (simp add: pack_frame_def)
  have "ring_ok (fst (write_frame ?f (create_owner 64)))"
    "queued (fst (write_frame ?f (create_owner 64))) = concat (map pack_frame [[7]]) @ be_bytes 4 5000000 @ []"
    using write_frame_queue [OF a(1) w] a by (simp_all add: Let_def pack_frame_def)
  from oversize_frame_drops_batch [OF this] show ?thesis by (simp add: max_frame_bytes_def)
qed

text \<open>The trader's event loop (\<open>corsair_trader/src/main.rs\<close>) over the chunks its reads return:
  it appends a chunk to its buffer, decodes all complete frames and keeps the rest; an error
  ends the process. The bodies are those handed to \<open>process_event\<close>.\<close>

fun hot_loop :: "byte list \<Rightarrow> byte list list \<Rightarrow> (frame_error + byte list list) \<times> byte list" where
  "hot_loop buf [] = (Inr [], buf)"
| "hot_loop buf (chunk # chunks) =
     (if chunk = [] then hot_loop buf chunks
      else (case unpack_all_frames (buf @ chunk) of
              (Inl e, b) \<Rightarrow> (Inl e, b)
            | (Inr frames, b) \<Rightarrow>
                (case hot_loop b chunks of
                   (Inl e, b') \<Rightarrow> (Inl e, b')
                 | (Inr later, b') \<Rightarrow> (Inr (frames @ later), b'))))"

lemma hot_loop_feed: "unpack_all_frames buf = (Inr [], buf) \<Longrightarrow> hot_loop buf chunks = ipc.feed buf chunks"
proof (induction chunks arbitrary: buf)
  case Nil
  then show ?case by simp
next
  case (Cons c cs)
  show ?case
  proof (cases "c = []")
    case True
    then show ?thesis using Cons by (simp split: prod.splits sum.splits)
  next
    case False
    have "hot_loop b cs = ipc.feed b cs" if "unpack_all_frames (buf @ c) = (Inr xs, b)" for xs b
      using Cons.IH [OF ipc.decode_all_rest [OF that]] .
    with False show ?thesis by (auto split: prod.splits sum.splits)
  qed
qed

text \<open>Decoding is independent of chunking: the trader's event loop, which decodes after every
  read and keeps the undecoded rest, obtains from the frames of any payloads of at most
  4 MiB, cut into chunks anywhere, exactly the payloads in order, with nothing left over.\<close>

theorem frames_survive_any_chunking:
  assumes "\<forall>b \<in> set bodies. length b \<le> max_frame_bytes" "concat chunks = concat (map pack_frame bodies)"
  shows "hot_loop [] chunks = (Inr bodies, [])"
proof -
  have "unpack_all_frames ([] @ concat chunks) = (Inr bodies, [])"
    using ipc.decode_all_frames [OF assms(1) ipc.try1_nil] assms(2) by simp
  then have "ipc.feed [] chunks = (Inr bodies, [])"
    by (rule ipc.feed_chunks [OF ipc.decode_all_incomplete [OF ipc.try1_nil]])
  then show ?thesis by (simp add: hot_loop_feed ipc.decode_all_incomplete [OF ipc.try1_nil])
qed

theorem frames_survive_any_chunking_witness:
  "hot_loop [] [take 3 (pack_frame [1, 2]), [], drop 3 (pack_frame [1, 2]) @ pack_frame []] = (Inr [[1, 2], []], [])"
  using frames_survive_any_chunking [of "[[1, 2], []]"
      "[take 3 (pack_frame [1, 2]), [], drop 3 (pack_frame [1, 2]) @ pack_frame []]"]
  by (simp add: max_frame_bytes_def)

end
