(* ===== verification/Trader_Pricing.thy ===== *)
theory Trader_Pricing
  imports Pricing Bytes
begin

text \<open>
  The pricing of the trader (\<open>corsair_trader/src/pricing.rs\<close>) and its expiry clock
  (\<open>tte_cache.rs\<close>). The powers of the platform's libm join its other functions as
  parameters, and the calendar of the \<open>chrono\<close> crate (the day of a year, month and day) is a
  parameter of the expiry parser.
\<close>

record trader_libm = libm +
  m_powf :: "f64 \<Rightarrow> f64 \<Rightarrow> f64"
  m_powi :: "f64 \<Rightarrow> int \<Rightarrow> f64"

section \<open>pricing.rs\<close>

definition black76_price :: "'a libm_scheme \<Rightarrow> f64 \<Rightarrow> f64 \<Rightarrow> f64 \<Rightarrow> f64 \<Rightarrow> f64 \<Rightarrow> string \<Rightarrow> f64" where
  "black76_price M f k t sigma r rt =
     (let is_call = (rt = ''C'' \<or> rt = ''c'') in
      if fle t fzero \<or> fle sigma fzero \<or> fle f fzero \<or> fle k fzero
      then (if is_call then fmax (fsub f k) fzero else fmax (fsub k f) fzero)
      else
        let sqrt_t = m_sqrt M t;
            d1 = fdiv (fadd (m_ln M (fdiv f k)) (fmul (fmul (fmul (lit (1 / 2)) sigma) sigma) t))
                   (fmul sigma sqrt_t);
            d2 = fsub d1 (fmul sigma sqrt_t);
            disc = m_exp M (fmul (fneg r) t)
        in if is_call
           then fmul disc (fsub (fmul f (m_cdf M d1)) (fmul k (m_cdf M d2)))
           else fmul disc (fsub (fmul k (m_cdf M (fneg d2))) (fmul f (m_cdf M (fneg d1)))))"

definition sabr_eps :: f64 where
  "sabr_eps = lit (1 / 10 ^ 7)"

text \<open>The correction \<open>1 + (p1 + p2 + p3) * t\<close> common to the two branches, over the powers each
  branch computes.\<close>

definition sabr_correction ::
  "trader_libm \<Rightarrow> f64 \<Rightarrow> f64 \<Rightarrow> f64 \<Rightarrow> f64 \<Rightarrow> f64 \<Rightarrow> f64 \<Rightarrow> f64 \<Rightarrow> f64" where
  "sabr_correction M t alpha beta rho nu pow_beta pow_two =
     (let p1 = fdiv (fmul (fmul (fdiv (m_powi M (fsub fone beta) 2) (lit 24)) alpha) alpha) pow_two;
          p2 = fdiv (fmul (fmul (fmul (fmul (lit (1 / 4)) rho) beta) nu) alpha) pow_beta;
          p3 = fdiv (fmul (fmul (fsub (lit 2) (fmul (fmul (lit 3) rho) rho)) nu) nu) (lit 24)
      in fadd fone (fmul (fadd (fadd p1 p2) p3) t))"

definition sabr_implied_vol ::
  "trader_libm \<Rightarrow> f64 \<Rightarrow> f64 \<Rightarrow> f64 \<Rightarrow> f64 \<Rightarrow> f64 \<Rightarrow> f64 \<Rightarrow> f64 \<Rightarrow> f64" where
  "sabr_implied_vol M f k t alpha beta rho nu =
     (if fle t fzero \<or> fle alpha fzero \<or> fle f fzero \<or> fle k fzero
      then (if fgt alpha fzero then alpha else lit (1 / 100))
      else if flt (fabs (fsub f k)) (fmul sabr_eps f) then
        let fmid_beta = m_powf M f (fsub fone beta)
        in fmul (fdiv alpha fmid_beta)
             (sabr_correction M t alpha beta rho nu fmid_beta
                (m_powf M f (fsub (lit 2) (fmul (lit 2) beta))))
      else
        let fk = fmul f k;
            fk_beta = m_powf M fk (fdiv (fsub fone beta) (lit 2));
            log_fk = m_ln M (fdiv f k);
            z = fmul (fmul (fdiv nu alpha) fk_beta) log_fk;
            xz = (if flt (fabs z) sabr_eps then fone
                  else
                    let sqrt_term = m_sqrt M (fadd (fsub fone (fmul (fmul (lit 2) rho) z)) (fmul z z))
                    in fdiv z (m_ln M (fdiv (fsub (fadd sqrt_term z) rho) (fsub fone rho))));
            one_minus_beta = fsub fone beta;
            denom1 = fmul fk_beta
              (fadd (fadd fone (fmul (fdiv (m_powi M one_minus_beta 2) (lit 24)) (m_powi M log_fk 2)))
                 (fmul (fdiv (m_powi M one_minus_beta 4) (lit 1920)) (m_powi M log_fk 4)))
        in fmul (fmul (fdiv alpha denom1) xz)
             (sabr_correction M t alpha beta rho nu fk_beta (m_powf M fk one_minus_beta)))"

definition svi_total_variance :: "'a libm_scheme \<Rightarrow> f64 \<Rightarrow> f64 \<Rightarrow> f64 \<Rightarrow> f64 \<Rightarrow> f64 \<Rightarrow> f64 \<Rightarrow> f64" where
  "svi_total_variance M k a b rho m sigma =
     (let dk = fsub k m
      in fadd a (fmul b (fadd (fmul rho dk) (m_sqrt M (fadd (fmul dk dk) (fmul sigma sigma))))))"

definition svi_implied_vol ::
  "'a libm_scheme \<Rightarrow> f64 \<Rightarrow> f64 \<Rightarrow> f64 \<Rightarrow> f64 \<Rightarrow> f64 \<Rightarrow> f64 \<Rightarrow> f64 \<Rightarrow> f64 \<Rightarrow> f64" where
  "svi_implied_vol M f k_strike t a b rho m sigma =
     (if fle t fzero \<or> fle k_strike fzero \<or> fle f fzero then fzero
      else
        let k = m_ln M (fdiv k_strike f);
            w = svi_total_variance M k a b rho m sigma
        in if fle w fzero then lit (1 / 1000) else m_sqrt M (fdiv w t))"

section \<open>tte_cache.rs\<close>

text \<open>\<open>str::parse\<close> for integers: an optional sign (a minus only for signed types), then digits;
  the value must be in range.\<close>

fun digits_value :: "int \<Rightarrow> string \<Rightarrow> int option" where
  "digits_value acc [] = Some acc"
| "digits_value acc (c # cs) =
     (if 48 \<le> (of_char c :: nat) \<and> (of_char c :: nat) \<le> 57
      then digits_value (10 * acc + (of_char c - 48)) cs else None)"

definition parse_integer :: "int \<Rightarrow> int \<Rightarrow> string \<Rightarrow> int option" where
  "parse_integer lo hi s =
     (case s of
        [] \<Rightarrow> None
      | c # cs \<Rightarrow>
          (let (neg, body) =
             (if c = CHR ''+'' then (False, cs)
              else if c = CHR ''-'' \<and> lo < 0 then (True, cs) else (False, s))
           in if body = [] then None
              else (case digits_value 0 body of
                      None \<Rightarrow> None
                    | Some v \<Rightarrow>
                        (let n = (if neg then - v else v)
                         in if lo \<le> n \<and> n \<le> hi then Some n else None))))"

definition parse_i32 :: "string \<Rightarrow> int option" where
  "parse_i32 = parse_integer (- (2 ^ 31)) (2 ^ 31 - 1)"

definition parse_u32 :: "string \<Rightarrow> int option" where
  "parse_u32 = parse_integer 0 (2 ^ 32 - 1)"

text \<open>Slicing a string off a character boundary panics, which ends the task.\<close>

datatype panic = Panic

definition char_boundary :: "string \<Rightarrow> nat \<Rightarrow> bool" where
  "char_boundary s i \<longleftrightarrow> i = 0 \<or> length s \<le> i \<or> \<not> cont (char_byte (s ! i))"

type_synonym calendar = "int \<Rightarrow> int \<Rightarrow> int \<Rightarrow> naive_date option"

definition parse_expiry :: "calendar \<Rightarrow> string \<Rightarrow> panic + date_time option" where
  "parse_expiry ymd expiry =
     (if length expiry \<noteq> 8 then Inr None
      else if \<not> char_boundary expiry 4 then Inl Panic
      else case parse_i32 (take 4 expiry) of
        None \<Rightarrow> Inr None
      | Some year \<Rightarrow>
          (if \<not> char_boundary expiry 6 then Inl Panic
           else case parse_u32 (take 2 (drop 4 expiry)) of
             None \<Rightarrow> Inr None
           | Some month \<Rightarrow>
               (case parse_u32 (drop 6 expiry) of
                  None \<Rightarrow> Inr None
                | Some day \<Rightarrow>
                    Inr (map_option (\<lambda>d. (d * 86400 + 21 * 3600) * 10 ^ 9) (ymd year month day)))))"

definition max_cache_entries :: nat where
  "max_cache_entries = 32"

definition secs_per_year :: f64 where
  "secs_per_year = fmul (fmul (lit 365) (lit 24)) (lit 3600)"

definition years_until :: "date_time \<Rightarrow> date_time \<Rightarrow> f64" where
  "years_until now exp_dt = fdiv (of_i (trunc (of_int (exp_dt - now) / 10 ^ 9))) secs_per_year"

definition tte_cached ::
  "calendar \<Rightarrow> date_time \<Rightarrow> string \<Rightarrow> (string, date_time) hmap \<Rightarrow>
   (string, date_time) hmap \<times> (panic + f64 option)" where
  "tte_cached ymd now expiry c =
     (case hm_get c expiry of
        Some dt \<Rightarrow> (c, Inr (Some (years_until now dt)))
      | None \<Rightarrow>
          (let c1 = (if max_cache_entries \<le> hm_len c then hm_new else c)
           in case parse_expiry ymd expiry of
                Inl p \<Rightarrow> (c1, Inl p)
              | Inr None \<Rightarrow> (c1, Inr None)
              | Inr (Some dt) \<Rightarrow> (hm_insert expiry dt c1, Inr (Some (years_until now dt)))))"

text \<open>The same without the cache, which is what the callers see (\<open>tte_cache_transparent\<close>).\<close>

definition expiry_years :: "calendar \<Rightarrow> date_time \<Rightarrow> string \<Rightarrow> panic + f64 option" where
  "expiry_years ymd now expiry = map_sum id (map_option (years_until now)) (parse_expiry ymd expiry)"

definition tte_cache_ok :: "calendar \<Rightarrow> (string, date_time) hmap \<Rightarrow> bool" where
  "tte_cache_ok ymd c \<longleftrightarrow>
     hm_ok c \<and> hm_len c \<le> max_cache_entries \<and>
     (\<forall>e dt. hm_get c e = Some dt \<longrightarrow> parse_expiry ymd e = Inr (Some dt))"

section \<open>Lemmas\<close>

lemma hm_len_insert: "hm_get m k = None \<Longrightarrow> hm_len (hm_insert k v m) = Suc (hm_len m)"
  by (induction m) (auto simp: hm_get_def hm_insert_def hm_len_def split: if_splits)

lemma tte_cache_ok_new [simp]: "tte_cache_ok ymd hm_new"
  by (simp add: tte_cache_ok_def hm.ok_new hm.get_new) (simp add: hm_new_def hm_len_def)

lemma tte_cached_ok:
  assumes "tte_cache_ok ymd c"
  shows "tte_cache_ok ymd (fst (tte_cached ymd now e c)) \<and>
         snd (tte_cached ymd now e c) = expiry_years ymd now e"
proof (cases "hm_get c e")
  case None
  define c1 where "c1 = (if max_cache_entries \<le> hm_len c then hm_new else c)"
  have c1: "tte_cache_ok ymd c1" "hm_get c1 e = None" "Suc (hm_len c1) \<le> max_cache_entries"
    using assms None unfolding c1_def
    by (simp_all add: hm.get_new) (simp add: hm_new_def hm_len_def max_cache_entries_def)
  have r: "tte_cached ymd now e c =
      (case parse_expiry ymd e of Inl p \<Rightarrow> (c1, Inl p) | Inr None \<Rightarrow> (c1, Inr None)
       | Inr (Some dt) \<Rightarrow> (hm_insert e dt c1, Inr (Some (years_until now dt))))"
    unfolding tte_cached_def None c1_def Let_def by simp
  show ?thesis
  proof (cases "parse_expiry ymd e")
    case (Inl p)
    then show ?thesis using c1(1) by (simp add: r expiry_years_def)
  next
    case (Inr x)
    then show ?thesis
      using c1 by (cases x) (auto simp: r expiry_years_def tte_cache_ok_def hm.ok_insert hm_len_insert hm.get_insert)
  qed
next
  case (Some dt)
  then show ?thesis using assms
    by (auto simp: tte_cached_def tte_cache_ok_def expiry_years_def)
qed

text \<open>ASCII text never panics.\<close>

lemma ascii_boundary: "ascii s \<Longrightarrow> char_boundary s i"
proof (cases "i < length s")
  case True
  assume "ascii s"
  with True have "char_byte (s ! i) < 0x80" by (intro char_byte_ascii) (simp add: ascii_def)
  then show ?thesis by (simp add: char_boundary_def cont_def not_le)
qed (simp add: char_boundary_def)

lemma parse_expiry_ascii: "ascii e \<Longrightarrow> \<exists>r. parse_expiry ymd e = Inr r"
  by (simp add: parse_expiry_def ascii_boundary split: option.splits)

section \<open>Properties\<close>

text \<open>The expiry cache cannot be observed: starting empty, after any sequence of lookups at
  any times, a lookup answers exactly what parsing afresh would, and the cache never holds
  more than 32 entries.\<close>

theorem tte_cache_transparent:
  "let c = fold (\<lambda>(now, e) c. fst (tte_cached ymd now e c)) lookups hm_new
   in snd (tte_cached ymd now e c) = expiry_years ymd now e \<and> hm_len c \<le> max_cache_entries"
proof -
  have "tte_cache_ok ymd (fold (\<lambda>(now, e) c. fst (tte_cached ymd now e c)) lookups c)" if "tte_cache_ok ymd c" for c
    using that by (induction lookups arbitrary: c) (auto simp: tte_cached_ok)
  from this [OF tte_cache_ok_new] have ok: "tte_cache_ok ymd (fold (\<lambda>(now, e) c. fst (tte_cached ymd now e c)) lookups hm_new)" .
  from tte_cached_ok [OF ok] ok show ?thesis unfolding Let_def by (simp add: tte_cache_ok_def)
qed

end
