(* ===== verification/Trader_State.thy ===== *)
theory Trader_State
  imports Trader_Pricing
begin

text \<open>
  The messages and the state of the trader (\<open>corsair_trader/src/messages.rs\<close>, \<open>state.rs\<close>).
  The tables are keyed by the bits of a strike, here the \<open>f64\<close> value itself. The msgpack and
  JSON codecs are third-party, so a message appears as the event it decodes to.
\<close>

section \<open>messages.rs\<close>

record tick_msg =
  tm_strike :: f64
  tm_expiry :: string
  tm_right :: string
  tm_bid :: "f64 option"
  tm_ask :: "f64 option"
  tm_bid_size :: "int option"
  tm_ask_size :: "int option"
  tm_ts_ns :: "int option"

record vol_params =
  vp_model :: string
  vp_a :: "f64 option"
  vp_b :: "f64 option"
  vp_rho :: "f64 option"
  vp_m :: "f64 option"
  vp_sigma :: "f64 option"
  vp_alpha :: "f64 option"
  vp_beta :: "f64 option"
  vp_nu :: "f64 option"

record vol_surface_msg =
  vm_expiry :: string
  vm_side :: string
  vm_forward :: f64
  vm_params :: vol_params

record risk_state_msg =
  rk_margin_usd :: f64
  rk_margin_pct :: f64
  rk_options_delta :: f64
  rk_hedge_delta :: int
  rk_effective_delta :: f64
  rk_theta :: f64
  rk_vega :: f64
  rk_gamma :: f64
  rk_total_contracts :: int
  rk_n_positions :: int

record order_ack_msg =
  oa_order_id :: "int option"
  oa_status :: "string option"
  oa_side :: "string option"
  oa_lmt_price :: "f64 option"
  oa_order_ref :: "string option"

record place_ack_msg =
  pa_order_id :: int
  pa_strike :: f64
  pa_expiry :: string
  pa_right :: string
  pa_side :: string
  pa_price :: f64

text \<open>The \<open>config\<close> object of a hello message, each entry read as the type the handler asks for.\<close>

record hello_config =
  he_min_edge_ticks :: "int option"
  he_tick_size :: "f64 option"
  he_delta_ceiling :: "f64 option"
  he_delta_kill :: "f64 option"
  he_margin_ceiling_pct :: "f64 option"

text \<open>An inbound message after the dispatch on its type; \<open>EvBadPayload\<close> is a known type whose
  fields do not decode, \<open>EvOther\<close> an unknown type.\<close>

datatype trader_event =
    EvTick tick_msg
  | EvUnderlying f64
  | EvVolSurface vol_surface_msg
  | EvRiskState risk_state_msg
  | EvPlaceAck place_ack_msg
  | EvOrderAck order_ack_msg
  | EvKill "string option" "string option"
  | EvResume "string option"
  | EvWeekendPause "bool option"
  | EvHello "hello_config option"
  | EvBadPayload
  | EvOther

record place_order =
  pl_ts_ns :: int
  pl_strike :: f64
  pl_expiry :: string
  pl_right :: string
  pl_side :: string
  pl_qty :: int
  pl_price :: f64
  pl_order_ref :: string

record cancel_order =
  cn_ts_ns :: int
  cn_order_id :: int

datatype trader_command = PlaceOrder place_order | CancelOrder cancel_order

section \<open>state.rs\<close>

record option_state =
  os_strike :: f64
  os_bid :: "f64 option"
  os_ask :: "f64 option"
  os_bid_size :: "int option"
  os_ask_size :: "int option"
  os_ts_ns :: "int option"

record vol_surface_entry =
  ve_forward :: f64
  ve_params :: vol_params

record our_order =
  ro_price :: f64
  ro_send_ns :: int
  ro_place_monotonic_ns :: int
  ro_order_id :: "int option"

text \<open>A character is the string of its UTF-8 bytes.\<close>

type_synonym quote_key = "f64 \<times> string \<times> string \<times> string"

record trader_state =
  ts_options :: "(f64 \<times> string \<times> string, option_state) hmap"
  ts_vol_surfaces :: "(string \<times> string, vol_surface_entry) hmap"
  ts_underlying_price :: f64
  ts_our_orders :: "(quote_key, our_order) hmap"
  ts_orderid_to_key :: "(int, quote_key) hmap"
  ts_risk_effective_delta :: "f64 option"
  ts_risk_margin_pct :: "f64 option"
  ts_risk_state_age_monotonic_ns :: int
  ts_min_edge_ticks :: int
  ts_tick_size :: f64
  ts_delta_ceiling :: f64
  ts_delta_kill :: f64
  ts_margin_ceiling_pct :: f64
  ts_ipc_us :: "int list"
  ts_ttt_us :: "int list"
  ts_kills :: "(string, string) hmap"
  ts_weekend_paused :: bool

definition trader_new :: trader_state where
  "trader_new =
     \<lparr>ts_options = hm_new, ts_vol_surfaces = hm_new, ts_underlying_price = fzero,
      ts_our_orders = hm_new, ts_orderid_to_key = hm_new, ts_risk_effective_delta = None,
      ts_risk_margin_pct = None, ts_risk_state_age_monotonic_ns = 0, ts_min_edge_ticks = 2,
      ts_tick_size = lit (5 / 10000), ts_delta_ceiling = lit 3, ts_delta_kill = lit 5,
      ts_margin_ceiling_pct = lit (1 / 2), ts_ipc_us = [], ts_ttt_us = [], ts_kills = hm_new,
      ts_weekend_paused = False\<rparr>"

record decision_counters =
  dc_place :: int
  dc_skip_no_vol_surface :: int
  dc_skip_off_atm :: int
  dc_skip_itm :: int
  dc_skip_thin_book :: int
  dc_skip_one_sided_or_dark :: int
  dc_skip_forward_drift :: int
  dc_skip_in_band :: int
  dc_skip_cooldown :: int
  dc_skip_dark_at_place :: int
  dc_skip_target_nonpositive :: int
  dc_skip_would_cross_ask :: int
  dc_skip_would_cross_bid :: int
  dc_skip_other :: int
  dc_risk_block :: int
  dc_risk_block_buy :: int
  dc_risk_block_sell :: int
  dc_staleness_cancel :: int
  dc_staleness_cancel_dark :: int
  dc_replace_cancel :: int
  dc_replace_skip_cancel_near_gtd :: int

definition counters_default :: decision_counters where
  "counters_default =
     \<lparr>dc_place = 0, dc_skip_no_vol_surface = 0, dc_skip_off_atm = 0, dc_skip_itm = 0,
      dc_skip_thin_book = 0, dc_skip_one_sided_or_dark = 0, dc_skip_forward_drift = 0,
      dc_skip_in_band = 0, dc_skip_cooldown = 0, dc_skip_dark_at_place = 0,
      dc_skip_target_nonpositive = 0, dc_skip_would_cross_ask = 0, dc_skip_would_cross_bid = 0,
      dc_skip_other = 0, dc_risk_block = 0, dc_risk_block_buy = 0, dc_risk_block_sell = 0,
      dc_staleness_cancel = 0, dc_staleness_cancel_dark = 0, dc_replace_cancel = 0,
      dc_replace_skip_cancel_near_gtd = 0\<rparr>"

text \<open>The counters a telemetry message carries: those that are not zero, by name.\<close>

definition counters_pairs :: "decision_counters \<Rightarrow> (string \<times> int) list" where
  "counters_pairs c =
     filter (\<lambda>(_, v). 0 < v)
       [(''place'', dc_place c), (''skip_no_vol_surface'', dc_skip_no_vol_surface c),
        (''skip_off_atm'', dc_skip_off_atm c), (''skip_itm'', dc_skip_itm c),
        (''skip_thin_book'', dc_skip_thin_book c),
        (''skip_one_sided_or_dark'', dc_skip_one_sided_or_dark c),
        (''skip_forward_drift'', dc_skip_forward_drift c), (''skip_in_band'', dc_skip_in_band c),
        (''skip_cooldown'', dc_skip_cooldown c), (''skip_dark_at_place'', dc_skip_dark_at_place c),
        (''skip_target_nonpositive'', dc_skip_target_nonpositive c),
        (''skip_would_cross_ask'', dc_skip_would_cross_ask c),
        (''skip_would_cross_bid'', dc_skip_would_cross_bid c), (''skip_other'', dc_skip_other c),
        (''risk_block'', dc_risk_block c), (''risk_block_buy'', dc_risk_block_buy c),
        (''risk_block_sell'', dc_risk_block_sell c),
        (''staleness_cancel'', dc_staleness_cancel c),
        (''staleness_cancel_dark'', dc_staleness_cancel_dark c),
        (''replace_cancel'', dc_replace_cancel c),
        (''replace_skip_cancel_near_gtd'', dc_replace_skip_cancel_near_gtd c)]"

end
