(* ===== verification/Trader_Decision.thy ===== *)
theory Trader_Decision
  imports Trader_State
begin

text \<open>
  The quoting decision of the trader (\<open>corsair_trader/src/decision.rs\<close>): the gates in front of
  a quote, the theoretical price, and per side the target price, its jump in front of the
  incumbent, the cross protection, the rounding to ticks, and the handling of an order
  already resting under the same key. The function only reads the trader's state; the
  counters are returned. The expiry clock is the uncached one, which
  \<open>tte_cache_transparent\<close> justifies.
\<close>

section \<open>Constants and types\<close>


definition max_strike_offset_usd :: f64 where "max_strike_offset_usd = lit (30 / 100)"
definition staleness_ticks :: int where "staleness_ticks = 1"
definition cooldown_ns :: int where "cooldown_ns = 250000000"
definition dead_band_ticks :: int where "dead_band_ticks = 1"
definition gtd_lifetime_s :: f64 where "gtd_lifetime_s = lit 5"
definition gtd_refresh_lead_s :: f64 where "gtd_refresh_lead_s = lit (3 / 2)"
definition risk_state_stale_s :: f64 where "risk_state_stale_s = lit 5"
definition min_bbo_size :: int where "min_bbo_size = 1"
definition max_forward_drift_ticks :: int where "max_forward_drift_ticks = 200"
definition atm_tol_usd :: f64 where "atm_tol_usd = lit (25 / 1000)"
definition cancel_threshold_s :: f64 where "cancel_threshold_s = lit 1"

datatype trader_side = TBuy | TSell

fun trader_side_str :: "trader_side \<Rightarrow> string" where
  "trader_side_str TBuy = ''BUY''"
| "trader_side_str TSell = ''SELL''"

fun trader_side_char :: "trader_side \<Rightarrow> string" where
  "trader_side_char TBuy = ''B''"
| "trader_side_char TSell = ''S''"

datatype decision = Skip | Place trader_side f64 "int option"

text \<open>What the trader takes from its host: libm, the calendar, the msgpack codec (a body as the
  emission time and event it decodes to, a command as its body), and the flag in the process
  environment that enables orders.\<close>

record trader_env =
  te_libm :: trader_libm
  te_ymd :: calendar
  te_decode :: "byte list \<Rightarrow> (int option \<times> trader_event) option"
  te_encode :: "trader_command \<Rightarrow> byte list option"
  te_places_orders :: bool

text \<open>\<open>chars().next().unwrap_or('C').to_ascii_uppercase()\<close>\<close>

definition ascii_upper :: "char \<Rightarrow> char" where
  "ascii_upper c =
     (if 97 \<le> (of_char c :: nat) \<and> (of_char c :: nat) \<le> 122 then char_of (of_char c - 32 :: nat) else c)"

definition first_upper :: "string \<Rightarrow> string" where
  "first_upper s =
     (case s of
        [] \<Rightarrow> ''C''
      | c # cs \<Rightarrow> (case takeWhile (\<lambda>d. cont (char_byte d)) cs of
                     [] \<Rightarrow> [ascii_upper c]
                   | rest \<Rightarrow> c # rest))"

text \<open>Seconds between two monotonic instants; the subtraction of \<open>u64\<close> wraps.\<close>

definition age_ns :: "int \<Rightarrow> int \<Rightarrow> int" where
  "age_ns now since = wrap_u64 (now - since)"

definition age_s :: "int \<Rightarrow> int \<Rightarrow> f64" where
  "age_s now since = fdiv (of_i (age_ns now since)) (lit (10 ^ 9))"

section \<open>Gates and theoretical price\<close>

definition compute_risk_gates :: "int \<Rightarrow> trader_state \<Rightarrow> bool \<times> bool \<times> bool" where
  "compute_risk_gates now s =
     (let age = (if 0 < ts_risk_state_age_monotonic_ns s
                 then age_s now (ts_risk_state_age_monotonic_ns s) else PInf)
      in case ts_risk_effective_delta s of
           None \<Rightarrow> (False, False, True)
         | Some eff \<Rightarrow>
             (if fgt age risk_state_stale_s then (False, False, True)
              else
                (fge (fadd eff fone) (ts_delta_ceiling s),
                 fle (fsub eff fone) (fneg (ts_delta_ceiling s)),
                 fge (fabs eff) (fsub (ts_delta_kill s) fone) \<or>
                 (case ts_risk_margin_pct s of
                    None \<Rightarrow> False
                  | Some margin_pct \<Rightarrow> fge margin_pct (ts_margin_ceiling_pct s)))))"

definition model_iv :: "trader_libm \<Rightarrow> f64 \<Rightarrow> f64 \<Rightarrow> f64 \<Rightarrow> vol_params \<Rightarrow> f64 option" where
  "model_iv M forward strike tte p =
     (if vp_model p = ''svi'' then
        (case (vp_a p, vp_b p, vp_rho p, vp_m p, vp_sigma p) of
           (Some a, Some b, Some rho, Some m, Some sigma) \<Rightarrow>
             Some (svi_implied_vol M forward strike tte a b rho m sigma)
         | _ \<Rightarrow> None)
      else if vp_model p = ''sabr'' then
        (case (vp_alpha p, vp_beta p, vp_rho p, vp_nu p) of
           (Some alpha, Some beta, Some rho, Some nu) \<Rightarrow>
             Some (sabr_implied_vol M forward strike tte alpha beta rho nu)
         | _ \<Rightarrow> None)
      else None)"

definition compute_theo ::
  "trader_libm \<Rightarrow> f64 \<Rightarrow> f64 \<Rightarrow> f64 \<Rightarrow> string \<Rightarrow> vol_params \<Rightarrow> (f64 \<times> f64) option" where
  "compute_theo M forward strike tte rt p =
     (if fle forward fzero \<or> fle strike fzero \<or> fle tte fzero then None
      else case model_iv M forward strike tte p of
        None \<Rightarrow> None
      | Some iv \<Rightarrow>
          (if fle iv fzero \<or> is_nan iv then None
           else
             let theo = black76_price M forward strike tte iv fzero rt
             in if fle theo fzero then None else Some (iv, theo)))"

definition lookup_surface :: "string \<Rightarrow> string \<Rightarrow> trader_state \<Rightarrow> vol_surface_entry option" where
  "lookup_surface expiry r_char s =
     (case hm_get (ts_vol_surfaces s) (expiry, r_char) of
        Some v \<Rightarrow> Some v
      | None \<Rightarrow> (case hm_get (ts_vol_surfaces s) (expiry, ''C'') of
                   Some v \<Rightarrow> Some v
                 | None \<Rightarrow> hm_get (ts_vol_surfaces s) (expiry, ''P'')))"

section \<open>One side of a quote\<close>

text \<open>The target price: the theoretical price less (or plus) the edge, or one tick in front of
  the incumbent when that still keeps the edge.\<close>

definition naive_target :: "f64 \<Rightarrow> f64 \<Rightarrow> trader_side \<Rightarrow> f64" where
  "naive_target theo edge side = (case side of TBuy \<Rightarrow> fsub theo edge | TSell \<Rightarrow> fadd theo edge)"

definition jump_target :: "f64 \<Rightarrow> f64 \<Rightarrow> f64 \<Rightarrow> f64 \<Rightarrow> f64 \<Rightarrow> trader_side \<Rightarrow> f64 \<Rightarrow> f64" where
  "jump_target theo edge tick_size bid ask side target =
     (case side of
        TBuy \<Rightarrow>
          (let jumped = fadd bid tick_size
           in if flt target jumped \<and> fge (fsub theo jumped) edge then jumped else target)
      | TSell \<Rightarrow>
          (let jumped = fsub ask tick_size
           in if fgt target jumped \<and> fge (fsub jumped theo) edge then jumped else target))"

definition crosses :: "f64 \<Rightarrow> f64 \<Rightarrow> trader_side \<Rightarrow> f64 \<Rightarrow> bool" where
  "crosses bid ask side target = (case side of TBuy \<Rightarrow> fge target ask | TSell \<Rightarrow> fle target bid)"

definition quantise :: "f64 \<Rightarrow> f64 \<Rightarrow> f64" where
  "quantise tick_size target =
     (let q = fmul (fround (fdiv target tick_size)) tick_size
      in fdiv (fround (fmul q (lit 10000))) (lit 10000))"

text \<open>What becomes of an order already resting under the key: nothing to do, or a replacement
  with or without a cancel of the old broker id.\<close>

definition in_band :: "trader_state \<Rightarrow> int \<Rightarrow> f64 \<Rightarrow> our_order \<Rightarrow> bool" where
  "in_band s now price ex \<longleftrightarrow>
     flt (fabs (fsub price (ro_price ex))) (fmul (of_i dead_band_ticks) (ts_tick_size s)) \<and>
     \<not> fgt (age_s now (ro_place_monotonic_ns ex)) (fsub gtd_lifetime_s gtd_refresh_lead_s)"

definition cooling_down :: "int \<Rightarrow> our_order \<Rightarrow> bool" where
  "cooling_down now ex \<longleftrightarrow> age_ns now (ro_place_monotonic_ns ex) < cooldown_ns"

definition cancel_before_replace ::
  "int \<Rightarrow> our_order \<Rightarrow> decision_counters \<Rightarrow> decision_counters \<times> int option" where
  "cancel_before_replace now ex c =
     (if fgt (fsub gtd_lifetime_s (age_s now (ro_place_monotonic_ns ex))) cancel_threshold_s
      then (case ro_order_id ex of
              Some oid \<Rightarrow> (c\<lparr>dc_replace_cancel := dc_replace_cancel c + 1\<rparr>, Some oid)
            | None \<Rightarrow> (c, None))
      else (if ro_order_id ex \<noteq> None
            then c\<lparr>dc_replace_skip_cancel_near_gtd := dc_replace_skip_cancel_near_gtd c + 1\<rparr> else c,
            None))"

record quote_context =
  qc_key :: "f64 \<times> string \<times> string"
  qc_theo :: f64
  qc_edge :: f64
  qc_bid :: f64
  qc_ask :: f64
  qc_risk_buy :: bool
  qc_risk_sell :: bool

definition side_blocked :: "quote_context \<Rightarrow> trader_side \<Rightarrow> bool" where
  "side_blocked q side = (case side of TBuy \<Rightarrow> qc_risk_buy q | TSell \<Rightarrow> qc_risk_sell q)"

definition quote_key_of :: "quote_context \<Rightarrow> trader_side \<Rightarrow> quote_key" where
  "quote_key_of q side =
     (case qc_key q of (strike, expiry, r_char) \<Rightarrow> (strike, expiry, r_char, trader_side_char side))"

definition decide_side ::
  "trader_state \<Rightarrow> int \<Rightarrow> quote_context \<Rightarrow> trader_side \<Rightarrow> decision_counters \<Rightarrow>
   decision_counters \<times> decision option" where
  "decide_side s now q side c =
     (let naive = naive_target (qc_theo q) (qc_edge q) side in
      if fle naive fzero
      then (c\<lparr>dc_skip_target_nonpositive := dc_skip_target_nonpositive c + 1\<rparr>, None)
      else
        let target = jump_target (qc_theo q) (qc_edge q) (ts_tick_size s) (qc_bid q) (qc_ask q) side naive
        in if crosses (qc_bid q) (qc_ask q) side target then
             ((case side of
                 TBuy \<Rightarrow> c\<lparr>dc_skip_would_cross_ask := dc_skip_would_cross_ask c + 1\<rparr>
               | TSell \<Rightarrow> c\<lparr>dc_skip_would_cross_bid := dc_skip_would_cross_bid c + 1\<rparr>), None)
           else
             let price = quantise (ts_tick_size s) target
             in if side_blocked q side then
                  ((case side of
                      TBuy \<Rightarrow> c\<lparr>dc_risk_block_buy := dc_risk_block_buy c + 1\<rparr>
                    | TSell \<Rightarrow> c\<lparr>dc_risk_block_sell := dc_risk_block_sell c + 1\<rparr>), None)
                else
                  (case hm_get (ts_our_orders s) (quote_key_of q side) of
                     None \<Rightarrow> (c\<lparr>dc_place := dc_place c + 1\<rparr>, Some (Place side price None))
                   | Some ex \<Rightarrow>
                       if in_band s now price ex then
                         (c\<lparr>dc_skip_in_band := dc_skip_in_band c + 1\<rparr>, None)
                       else if cooling_down now ex then
                         (c\<lparr>dc_skip_cooldown := dc_skip_cooldown c + 1\<rparr>, None)
                       else
                         let (c1, cancel) = cancel_before_replace now ex c
                         in (c1\<lparr>dc_place := dc_place c1 + 1\<rparr>, Some (Place side price cancel))))"

section \<open>The decision\<close>

definition otm_violation :: "f64 \<Rightarrow> f64 \<Rightarrow> string \<Rightarrow> bool" where
  "otm_violation forward strike r_upper \<longleftrightarrow>
     r_upper = ''C'' \<and> flt strike (fsub forward atm_tol_usd) \<or>
     r_upper = ''P'' \<and> fgt strike (fadd forward atm_tol_usd)"

definition quote_sides ::
  "int \<Rightarrow> tick_msg \<Rightarrow> trader_state \<Rightarrow> bool \<Rightarrow> bool \<Rightarrow> f64 \<Rightarrow> decision_counters \<Rightarrow>
   decision_counters \<times> decision list" where
  "quote_sides now t s risk_buy risk_sell theo c =
     (let bid = (case tm_bid t of Some b \<Rightarrow> b | None \<Rightarrow> fzero);
          ask = (case tm_ask t of Some a \<Rightarrow> a | None \<Rightarrow> fzero);
          bid_size = (case tm_bid_size t of Some n \<Rightarrow> n | None \<Rightarrow> 0);
          ask_size = (case tm_ask_size t of Some n \<Rightarrow> n | None \<Rightarrow> 0)
      in if fle bid fzero \<or> fle ask fzero
         then (c\<lparr>dc_skip_one_sided_or_dark := dc_skip_one_sided_or_dark c + 2\<rparr>, [])
         else if bid_size < min_bbo_size \<or> ask_size < min_bbo_size
         then (c\<lparr>dc_skip_thin_book := dc_skip_thin_book c + 2\<rparr>, [])
         else
           let q = \<lparr>qc_key = (tm_strike t, tm_expiry t, first_upper (tm_right t)), qc_theo = theo,
                    qc_edge = fmul (of_i (ts_min_edge_ticks s)) (ts_tick_size s),
                    qc_bid = bid, qc_ask = ask, qc_risk_buy = risk_buy,
                    qc_risk_sell = risk_sell\<rparr>;
               (c1, d1) = decide_side s now q TBuy c;
               (c2, d2) = decide_side s now q TSell c1
           in (c2, List.map_filter id [d1, d2]))"

definition price_and_quote ::
  "trader_env \<Rightarrow> date_time \<Rightarrow> int \<Rightarrow> tick_msg \<Rightarrow> trader_state \<Rightarrow> bool \<Rightarrow> bool \<Rightarrow> decision_counters \<Rightarrow>
   panic + decision_counters \<times> decision list" where
  "price_and_quote E now_utc now t s risk_buy risk_sell c =
     (case lookup_surface (tm_expiry t) (first_upper (tm_right t)) s of
        None \<Rightarrow> Inr (c\<lparr>dc_skip_no_vol_surface := dc_skip_no_vol_surface c + 1\<rparr>, [])
      | Some vp \<Rightarrow>
          and_then (expiry_years (te_ymd E) now_utc (tm_expiry t)) (\<lambda>tte_opt.
            case tte_opt of
              None \<Rightarrow> Inr (c, [])
            | Some tte \<Rightarrow>
                if \<not> fgt tte fzero then Inr (c, [])
                else if fgt (fabs (fsub (ts_underlying_price s) (ve_forward vp)))
                          (fmul (of_i max_forward_drift_ticks) (ts_tick_size s))
                then Inr (c\<lparr>dc_skip_forward_drift := dc_skip_forward_drift c + 1\<rparr>, [])
                else case compute_theo (te_libm E) (ve_forward vp) (tm_strike t) tte
                            (first_upper (tm_right t)) (ve_params vp) of
                  None \<Rightarrow> Inr (c\<lparr>dc_skip_other := dc_skip_other c + 1\<rparr>, [])
                | Some (_, theo) \<Rightarrow> Inr (quote_sides now t s risk_buy risk_sell theo c)))"

definition decide_on_tick ::
  "trader_env \<Rightarrow> date_time \<Rightarrow> int \<Rightarrow> tick_msg \<Rightarrow> trader_state \<Rightarrow> decision_counters \<Rightarrow>
   panic + decision_counters \<times> decision list" where
  "decide_on_tick E now_utc now t s c =
     (let forward = ts_underlying_price s; strike = tm_strike t;
          (risk_buy, risk_sell, risk_all) = compute_risk_gates now s
      in if fle forward fzero \<or> ts_kills s \<noteq> [] \<or> ts_weekend_paused s then Inr (c, [])
         else if fgt (fabs (fsub strike forward)) max_strike_offset_usd
         then Inr (c\<lparr>dc_skip_off_atm := dc_skip_off_atm c + 1\<rparr>, [])
         else if otm_violation forward strike (first_upper (tm_right t))
         then Inr (c\<lparr>dc_skip_itm := dc_skip_itm c + 1\<rparr>, [])
         else if risk_all then Inr (c\<lparr>dc_risk_block := dc_risk_block c + 2\<rparr>, [])
         else price_and_quote E now_utc now t s risk_buy risk_sell c)"

section \<open>When an order is placed\<close>

text \<open>The conditions under which the trader may quote a side, as a specification.\<close>

definition risk_allows :: "int \<Rightarrow> trader_state \<Rightarrow> trader_side \<Rightarrow> bool" where
  "risk_allows now s side \<longleftrightarrow>
     (\<exists>eff. ts_risk_effective_delta s = Some eff \<and>
        0 < ts_risk_state_age_monotonic_ns s \<and>
        \<not> fgt (age_s now (ts_risk_state_age_monotonic_ns s)) risk_state_stale_s \<and>
        \<not> fge (fabs eff) (fsub (ts_delta_kill s) fone) \<and>
        (\<forall>m. ts_risk_margin_pct s = Some m \<longrightarrow> \<not> fge m (ts_margin_ceiling_pct s)) \<and>
        (side = TBuy \<longrightarrow> \<not> fge (fadd eff fone) (ts_delta_ceiling s)) \<and>
        (side = TSell \<longrightarrow> \<not> fle (fsub eff fone) (fneg (ts_delta_ceiling s))))"

definition market_allows :: "tick_msg \<Rightarrow> trader_state \<Rightarrow> bool" where
  "market_allows t s \<longleftrightarrow>
     ts_kills s = [] \<and> \<not> ts_weekend_paused s \<and> \<not> fle (ts_underlying_price s) fzero \<and>
     \<not> fgt (fabs (fsub (tm_strike t) (ts_underlying_price s))) max_strike_offset_usd \<and>
     \<not> otm_violation (ts_underlying_price s) (tm_strike t) (first_upper (tm_right t)) \<and>
     (\<exists>bid. tm_bid t = Some bid \<and> \<not> fle bid fzero) \<and> (\<exists>ask. tm_ask t = Some ask \<and> \<not> fle ask fzero) \<and>
     (\<exists>n. tm_bid_size t = Some n \<and> min_bbo_size \<le> n) \<and> (\<exists>n. tm_ask_size t = Some n \<and> min_bbo_size \<le> n)"

lemma decide_side_Some:
  assumes "decide_side s now q side c = (c', Some d)"
  shows "\<exists>cancel. d = Place side (quantise (ts_tick_size s)
             (jump_target (qc_theo q) (qc_edge q) (ts_tick_size s) (qc_bid q) (qc_ask q) side
                (naive_target (qc_theo q) (qc_edge q) side))) cancel \<and>
     \<not> fle (naive_target (qc_theo q) (qc_edge q) side) fzero \<and>
     \<not> crosses (qc_bid q) (qc_ask q) side
         (jump_target (qc_theo q) (qc_edge q) (ts_tick_size s) (qc_bid q) (qc_ask q) side
            (naive_target (qc_theo q) (qc_edge q) side)) \<and>
     \<not> side_blocked q side \<and>
     (\<forall>oid. cancel = Some oid \<longrightarrow>
        (\<exists>ex. hm_get (ts_our_orders s) (quote_key_of q side) = Some ex \<and> ro_order_id ex = Some oid)) \<and>
     (\<forall>ex. hm_get (ts_our_orders s) (quote_key_of q side) = Some ex \<longrightarrow> \<not> cooling_down now ex)"
  using assms unfolding decide_side_def Let_def
  by (auto simp: cancel_before_replace_def split: if_splits option.splits prod.splits)

lemma risk_gates_open:
  assumes g: "compute_risk_gates now s = (b, a, False)"
    and o: "\<not> (case side of TBuy \<Rightarrow> b | TSell \<Rightarrow> a)"
  shows "risk_allows now s side"
proof -
  let ?age = "if 0 < ts_risk_state_age_monotonic_ns s
              then age_s now (ts_risk_state_age_monotonic_ns s) else PInf"
  have inf: "fgt PInf risk_state_stale_s" using lit_int [of 5] by (simp add: risk_state_stale_s_def)
  note d = g [unfolded compute_risk_gates_def Let_def]
  obtain eff where e: "ts_risk_effective_delta s = Some eff" using d by (cases "ts_risk_effective_delta s") auto
  have f: "\<not> fgt ?age risk_state_stale_s" using d e by (simp split: if_splits)
  have p: "0 < ts_risk_state_age_monotonic_ns s" using f inf by (metis (full_types))
  show ?thesis
    unfolding risk_allows_def using d e f p o
    by (cases side) (simp_all split: option.splits)
qed

text \<open>What a tick that yields decisions has passed, stage by stage.\<close>

lemma quote_sides_open:
  assumes "quote_sides now t s b a theo c = (c', ds)" "ds \<noteq> []"
  shows "\<exists>q c1 d1 d2.
     (\<exists>bid. tm_bid t = Some bid \<and> \<not> fle bid fzero) \<and> (\<exists>ask. tm_ask t = Some ask \<and> \<not> fle ask fzero) \<and>
     (\<exists>n. tm_bid_size t = Some n \<and> min_bbo_size \<le> n) \<and> (\<exists>n. tm_ask_size t = Some n \<and> min_bbo_size \<le> n) \<and>
     q = \<lparr>qc_key = (tm_strike t, tm_expiry t, first_upper (tm_right t)), qc_theo = theo,
          qc_edge = fmul (of_i (ts_min_edge_ticks s)) (ts_tick_size s),
          qc_bid = the (tm_bid t), qc_ask = the (tm_ask t), qc_risk_buy = b, qc_risk_sell = a\<rparr> \<and>
     decide_side s now q TBuy c = (c1, d1) \<and> decide_side s now q TSell c1 = (c', d2) \<and>
     ds = List.map_filter id [d1, d2]"
proof -
  have z: "fle fzero fzero" by simp
  define bid ask m n where "bid = (case tm_bid t of Some x \<Rightarrow> x | None \<Rightarrow> fzero)"
    and "ask = (case tm_ask t of Some x \<Rightarrow> x | None \<Rightarrow> fzero)"
    and "m = (case tm_bid_size t of Some x \<Rightarrow> x | None \<Rightarrow> 0)"
    and "n = (case tm_ask_size t of Some x \<Rightarrow> x | None \<Rightarrow> 0)"
  note e = assms(1) [unfolded quote_sides_def Let_def, folded bid_def ask_def m_def n_def]
  have g: "\<not> fle bid fzero" "\<not> fle ask fzero" "min_bbo_size \<le> m" "min_bbo_size \<le> n"
    using e assms(2) by (auto split: if_splits)
  have t: "tm_bid t = Some bid" "tm_ask t = Some ask" "tm_bid_size t = Some m" "tm_ask_size t = Some n"
    using g z by (auto simp: bid_def ask_def m_def n_def min_bbo_size_def split: option.splits)
  show ?thesis
    using e g t by (auto split: if_splits prod.splits)
qed

lemma price_and_quote_open:
  assumes "price_and_quote E utc now t s b a c = Inr (c', ds)" "ds \<noteq> []"
  shows "\<exists>vp tte iv theo.
     lookup_surface (tm_expiry t) (first_upper (tm_right t)) s = Some vp \<and>
     expiry_years (te_ymd E) utc (tm_expiry t) = Inr (Some tte) \<and> fgt tte fzero \<and>
     compute_theo (te_libm E) (ve_forward vp) (tm_strike t) tte (first_upper (tm_right t)) (ve_params vp)
       = Some (iv, theo) \<and>
     quote_sides now t s b a theo c = (c', ds)"
  using assms unfolding price_and_quote_def and_then_def
  by (auto split: if_splits option.splits sum.splits)

lemma decide_on_tick_open:
  assumes "decide_on_tick E utc now t s c = Inr (c', ds)" "ds \<noteq> []"
  shows "\<exists>b a. compute_risk_gates now s = (b, a, False) \<and>
     ts_kills s = [] \<and> \<not> ts_weekend_paused s \<and> \<not> fle (ts_underlying_price s) fzero \<and>
     \<not> fgt (fabs (fsub (tm_strike t) (ts_underlying_price s))) max_strike_offset_usd \<and>
     \<not> otm_violation (ts_underlying_price s) (tm_strike t) (first_upper (tm_right t)) \<and>
     price_and_quote E utc now t s b a c = Inr (c', ds)"
  using assms unfolding decide_on_tick_def Let_def
  by (auto split: if_splits prod.splits)

lemma decide_on_tick_Place:
  assumes "decide_on_tick E utc now t s c = Inr (c', ds)" "Place side price cancel \<in> set ds"
  shows "\<exists>vp tte iv theo q c1 c2.
     market_allows t s \<and> risk_allows now s side \<and>
     lookup_surface (tm_expiry t) (first_upper (tm_right t)) s = Some vp \<and>
     expiry_years (te_ymd E) utc (tm_expiry t) = Inr (Some tte) \<and> fgt tte fzero \<and>
     compute_theo (te_libm E) (ve_forward vp) (tm_strike t) tte (first_upper (tm_right t)) (ve_params vp)
       = Some (iv, theo) \<and>
     qc_key q = (tm_strike t, tm_expiry t, first_upper (tm_right t)) \<and> qc_theo q = theo \<and>
     qc_edge q = fmul (of_i (ts_min_edge_ticks s)) (ts_tick_size s) \<and>
     Some (qc_bid q) = tm_bid t \<and> Some (qc_ask q) = tm_ask t \<and>
     \<not> fle (qc_bid q) fzero \<and> \<not> fle (qc_ask q) fzero \<and>
     decide_side s now q side c1 = (c2, Some (Place side price cancel))"
proof -
  have ne: "ds \<noteq> []" using assms(2) by auto
  obtain b a where g: "compute_risk_gates now s = (b, a, False)"
    and m: "ts_kills s = []" "\<not> ts_weekend_paused s" "\<not> fle (ts_underlying_price s) fzero"
      "\<not> fgt (fabs (fsub (tm_strike t) (ts_underlying_price s))) max_strike_offset_usd"
      "\<not> otm_violation (ts_underlying_price s) (tm_strike t) (first_upper (tm_right t))"
    and p: "price_and_quote E utc now t s b a c = Inr (c', ds)"
    using decide_on_tick_open [OF assms(1) ne] by blast
  obtain vp tte iv theo where v: "lookup_surface (tm_expiry t) (first_upper (tm_right t)) s = Some vp"
    and yr: "expiry_years (te_ymd E) utc (tm_expiry t) = Inr (Some tte)" "fgt tte fzero"
    and th: "compute_theo (te_libm E) (ve_forward vp) (tm_strike t) tte (first_upper (tm_right t)) (ve_params vp)
       = Some (iv, theo)"
    and qs: "quote_sides now t s b a theo c = (c', ds)"
    using price_and_quote_open [OF p ne] by blast
  obtain q c1 d1 d2 where
    bid: "\<exists>bid. tm_bid t = Some bid \<and> \<not> fle bid fzero" and ask: "\<exists>ask. tm_ask t = Some ask \<and> \<not> fle ask fzero" and
    sz: "\<exists>n. tm_bid_size t = Some n \<and> min_bbo_size \<le> n" "\<exists>n. tm_ask_size t = Some n \<and> min_bbo_size \<le> n" and
    q: "q = \<lparr>qc_key = (tm_strike t, tm_expiry t, first_upper (tm_right t)), qc_theo = theo,
          qc_edge = fmul (of_i (ts_min_edge_ticks s)) (ts_tick_size s),
          qc_bid = the (tm_bid t), qc_ask = the (tm_ask t), qc_risk_buy = b, qc_risk_sell = a\<rparr>" and
    d: "decide_side s now q TBuy c = (c1, d1)" "decide_side s now q TSell c1 = (c', d2)"
    "ds = List.map_filter id [d1, d2]"
    using quote_sides_open [OF qs ne] by blast
  have "d1 = Some (Place side price cancel) \<or> d2 = Some (Place side price cancel)"
    using assms(2) d(3) by (auto simp: map_filter_def split: if_splits)
  then obtain ca cb where ds: "decide_side s now q side ca = (cb, Some (Place side price cancel))"
    using d decide_side_Some [of s now q TBuy c c1] decide_side_Some [of s now q TSell c1 c'] by fastforce
  have "risk_allows now s side"
  proof (rule risk_gates_open [OF g])
    have "\<not> side_blocked q side" using decide_side_Some [OF ds] by blast
    then show "\<not> (case side of TBuy \<Rightarrow> b | TSell \<Rightarrow> a)" by (cases side) (simp_all add: side_blocked_def q)
  qed
  with m v yr th bid ask sz ds q show ?thesis
    by (intro exI [of _ vp] exI [of _ tte] exI [of _ iv] exI [of _ theo] exI [of _ q] exI [of _ ca] exI [of _ cb])
       (auto simp: market_allows_def)
qed

section \<open>Rounding to ticks\<close>

abbreviation half_mil :: f64 where
  "half_mil \<equiv> lit (5 / 10000)"

lemma half_mil: "is_finite half_mil" "\<bar>val half_mil - 1 / 2000\<bar> \<le> 1 / 2 ^ 63" "0 < val half_mil"
proof -
  have a: "p2 (- 1000) \<le> \<bar>1 / 2000 :: rat\<bar>" using p2_m1000 by simp
  have b: "\<bar>1 / 2000 :: rat\<bar> < p2 1000" using p2_1000 by simp
  have r: "is_finite (rnd (1 / 2000))" "\<bar>val (rnd (1 / 2000)) - 1 / 2000\<bar> \<le> \<bar>1 / 2000\<bar> / 2 ^ 53"
    using rnd_rel_error [OF a b] by auto
  have e: "half_mil = rnd (1 / 2000)" by (simp add: lit_def)
  show "is_finite half_mil" using r unfolding e by simp
  show c: "\<bar>val half_mil - 1 / 2000\<bar> \<le> 1 / 2 ^ 63" 
  proof -
    have "\<bar>1 / 2000\<bar> / 2 ^ 53 \<le> (1 :: rat) / 2 ^ 63" by simp
    with r(2) show ?thesis unfolding e by (rule order_trans)
  qed
  have "(1::rat) / 2 ^ 63 < 1 / 2000" by simp
  with c show "0 < val half_mil" by linarith
qed

text \<open>Rounding to ticks of half a mil moves a price by at most half a tick and a rounding
  error, and yields a multiple of the tick.\<close>

lemma quantise_near:
  assumes "is_finite x" "0 < val x" "val x \<le> 100"
  shows "\<exists>k. is_finite (quantise half_mil x) \<and>
     \<bar>val (quantise half_mil x) - of_int k / 2000\<bar> \<le> 1 / 2 ^ 32 \<and>
     \<bar>of_int k - 2000 * val x\<bar> \<le> 1 / 2 + 1 / 2 ^ 30"
proof -
  define \<tau> where "\<tau> = val half_mil"
  define X where "X = val x"
  have t: "is_finite half_mil" "\<bar>\<tau> - 1 / 2000\<bar> \<le> 1 / 2 ^ 63" "0 < \<tau>"
    using half_mil by (simp_all add: \<tau>_def)
  have X: "0 < X" "X \<le> 100" using assms by (simp_all add: X_def)
  have d1: "\<bar>X / \<tau> - 2000 * X\<bar> \<le> 1 / 2 ^ 31"
  proof -
    have "X / \<tau> - 2000 * X = (1 - 2000 * \<tau>) * X / \<tau>" using t(3) by (simp add: field_simps)
    moreover have "\<bar>(1 - 2000 * \<tau>) * X / \<tau>\<bar> \<le> (2000 / 2 ^ 63) * 100 * 4000"
    proof -
      have a: "\<bar>1 - 2000 * \<tau>\<bar> \<le> 2000 / 2 ^ 63" using t(2) unfolding abs_le_iff by auto
      have "1 / 4000 \<le> \<tau>" using t(2) unfolding abs_le_iff by auto
      then have b: "1 / \<tau> \<le> 4000" using t(3) by (simp add: field_simps)
      have "\<bar>(1 - 2000 * \<tau>) * X / \<tau>\<bar> = \<bar>1 - 2000 * \<tau>\<bar> * X * (1 / \<tau>)" using X t(3) by (simp add: abs_mult)
      also have "\<dots> \<le> (2000 / 2 ^ 63) * 100 * 4000"
        using a b X t(3) by (intro mult_mono) auto
      finally show ?thesis .
    qed
    ultimately show ?thesis by simp
  qed
  have q0: "\<bar>X / \<tau>\<bar> \<le> 2 ^ 21"
  proof -
    have "\<bar>Y\<bar> \<le> 2 ^ 21" if "\<bar>Y - 2000 * X\<bar> \<le> 1 / 2 ^ 31" "0 \<le> Y" for Y
      using that X unfolding abs_le_iff by auto
    from this [OF d1] X t(3) show ?thesis by simp
  qed
  note y = fdiv_abs_error [OF assms(1) t(1), folded \<tau>_def X_def, OF _ q0]
  obtain k where k: "is_finite (fround (fdiv x half_mil))" "val (fround (fdiv x half_mil)) = of_int k"
    "\<bar>of_int k - val (fdiv x half_mil)\<bar> \<le> 1 / 2"
    using fround_int y t(3) by blast
  have kx: "\<bar>of_int k - 2000 * X\<bar> \<le> 1 / 2 + 1 / 2 ^ 30" using k(3) y d1 t(3) unfolding abs_le_iff by auto
  have kb: "\<bar>of_int k :: rat\<bar> \<le> 200001" using kx X unfolding abs_le_iff by auto
  have kt: "\<bar>of_int k * \<tau> - of_int k / 2000\<bar> \<le> 1 / 2 ^ 45"
  proof -
    have "of_int k * \<tau> - of_int k / 2000 = of_int k * (\<tau> - 1 / 2000)" by (simp add: algebra_simps)
    then have "\<bar>of_int k * \<tau> - of_int k / 2000\<bar> = \<bar>of_int k\<bar> * \<bar>\<tau> - 1 / 2000\<bar>" by (simp add: abs_mult)
    also have "\<dots> \<le> 200001 * (1 / 2 ^ 63)" using kb t(2) by (intro mult_mono) auto
    finally show ?thesis by simp
  qed
  define p where "p = fmul (fround (fdiv x half_mil)) half_mil"
  have m1: "\<bar>val (fround (fdiv x half_mil)) * val half_mil\<bar> \<le> 2 ^ 21"
  proof -
    have "\<bar>Y\<bar> \<le> 2 ^ 21" if "\<bar>Y - of_int k / 2000\<bar> \<le> 1 / 2 ^ 45" for Y :: rat
      using that kb unfolding abs_le_iff by auto
    from this [OF kt] show ?thesis unfolding k(2) \<tau>_def .
  qed
  have p: "is_finite p" "\<bar>val p - of_int k * \<tau>\<bar> \<le> 1 / 2 ^ 32"
    using fmul_abs_error [OF k(1) t(1) m1] unfolding p_def k(2) \<tau>_def by blast+
  have pb: "\<bar>val p * 10000 - of_int (5 * k)\<bar> \<le> 1 / 2 ^ 18"
  proof -
    have "\<bar>P * 10000 - of_int (5 * k)\<bar> \<le> 1 / 2 ^ 18"
      if "\<bar>P - Y\<bar> \<le> 1 / 2 ^ 32" "\<bar>Y - of_int k / 2000\<bar> \<le> 1 / 2 ^ 45" for P Y :: rat
      using that unfolding abs_le_iff by auto
    from this [OF p(2) kt] show ?thesis .
  qed
  have m2: "\<bar>val p * val (lit 10000)\<bar> \<le> 2 ^ 21" using pb kb unfolding abs_le_iff by auto
  have r: "is_finite (fmul p (lit 10000))" "\<bar>val (fmul p (lit 10000)) - val p * 10000\<bar> \<le> 1 / 2 ^ 32"
    using fmul_abs_error [OF p(1) _ m2] by simp_all
  obtain z where z: "fmul p (lit 10000) = Fin z \<or> fmul p (lit 10000) = NZero \<and> z = 0" "val (fmul p (lit 10000)) = z"
    using r(1) by (cases "fmul p (lit 10000)") auto
  have zk: "\<bar>z - of_int (5 * k)\<bar> < 1 / 2" using r(2) pb z(2) unfolding abs_le_iff abs_less_iff by auto
  have n: "is_finite (fround (fmul p (lit 10000)))" "val (fround (fmul p (lit 10000))) = of_int (5 * k)"
  proof -
    have "z = 0 \<Longrightarrow> k = 0" using zk unfolding abs_less_iff by auto
    then show "is_finite (fround (fmul p (lit 10000)))" "val (fround (fmul p (lit 10000))) = of_int (5 * k)"
      using z(1) fround_near [OF zk] by auto
  qed
  have e: "quantise half_mil x = fdiv (fround (fmul p (lit 10000))) (lit 10000)"
    by (simp add: quantise_def p_def)
  have "is_finite (quantise half_mil x) \<and> \<bar>val (quantise half_mil x) - of_int k / 2000\<bar> \<le> 1 / 2 ^ 32"
    using fdiv_abs_error [OF n(1), of "lit 10000"] n(2) kb unfolding e by simp
  with kx show ?thesis by (intro exI [of _ k]) (simp add: X_def)
qed

text \<open>The configured edge of \<open>n\<close> ticks, and a target that keeps it.\<close>

lemma edge_near:
  assumes "0 \<le> n" "n \<le> 1000"
  shows "is_finite (fmul (of_i n) half_mil) \<and> \<bar>val (fmul (of_i n) half_mil) - of_int n / 2000\<bar> \<le> 1 / 2 ^ 31"
proof -
  have i: "of_i n = Fin (of_int n)" using assms by simp
  have kt: "\<bar>of_int n * val half_mil - of_int n / 2000\<bar> \<le> 1000 * (1 / 2 ^ 63)"
  proof -
    have "of_int n * val half_mil - of_int n / 2000 = of_int n * (val half_mil - 1 / 2000)"
      by (simp add: algebra_simps)
    then have "\<bar>of_int n * val half_mil - of_int n / 2000\<bar> = \<bar>of_int n\<bar> * \<bar>val half_mil - 1 / 2000\<bar>"
      by (simp only: abs_mult)
    also have "\<dots> \<le> 1000 * (1 / 2 ^ 63)" using assms half_mil(2) by (intro mult_mono) auto
    finally show ?thesis .
  qed
  have m: "\<bar>val (of_i n) * val half_mil\<bar> \<le> 2 ^ 21"
  proof -
    have "\<bar>Y\<bar> \<le> 2 ^ 21" if "\<bar>Y - of_int n / 2000\<bar> \<le> 1000 * (1 / 2 ^ 63)" for Y :: rat
      using that assms unfolding abs_le_iff by auto
    from this [OF kt] show ?thesis unfolding i by simp
  qed
  have e: "is_finite (fmul (of_i n) half_mil)"
    "\<bar>val (fmul (of_i n) half_mil) - of_int n * val half_mil\<bar> \<le> 1 / 2 ^ 32"
    using fmul_abs_error [OF _ half_mil(1) m] unfolding i by simp_all
  have "\<bar>X - of_int n / 2000\<bar> \<le> 1 / 2 ^ 31"
    if "\<bar>X - Y\<bar> \<le> 1 / 2 ^ 32" "\<bar>Y - of_int n / 2000\<bar> \<le> 1000 * (1 / 2 ^ 63)" for X Y :: rat
    using that unfolding abs_le_iff by auto
  from this [OF e(2) kt] e(1) show ?thesis by blast
qed

text \<open>The target is the price at the edge, or in front of the incumbent with the edge kept.\<close>

lemma target_keeps_edge:
  assumes theo: "is_finite theo" "0 \<le> val theo" "val theo \<le> 50"
    and bid: "is_finite bid" "0 < val bid" "val bid \<le> 50"
    and ask: "is_finite ask" "0 < val ask" "val ask \<le> 50"
    and n: "1 \<le> n" "n \<le> 1000"
    and t: "x = jump_target theo e half_mil bid ask side (naive_target theo e side)"
    and e: "e = fmul (of_i n) half_mil" and pos: "\<not> fle (naive_target theo e side) fzero"
  shows "is_finite x \<and> 0 < val x \<and> val x \<le> 100 \<and>
    (case side of TBuy \<Rightarrow> val x \<le> val theo - of_int n / 2000 + 1 / 2 ^ 30
     | TSell \<Rightarrow> val theo + of_int n / 2000 - 1 / 2 ^ 30 \<le> val x)"
proof -
  have E: "is_finite e" "\<bar>val e - of_int n / 2000\<bar> \<le> 1 / 2 ^ 31" using edge_near [of n] n by (simp_all add: e)
  have N: "(1::rat) / 2000 \<le> of_int n / 2000" "of_int n / 2000 \<le> (1::rat) / 2" using n by auto
  have h: "is_finite half_mil" "\<bar>val half_mil - 1 / 2000\<bar> \<le> 1 / 2 ^ 63" using half_mil by auto
  show ?thesis
  proof (cases side)
    case TBuy
    have s: "is_finite (fsub theo e)" "\<bar>val (fsub theo e) - (val theo - val e)\<bar> \<le> 1 / 2 ^ 32"
      using fsub_abs_error [of theo e] theo E N unfolding abs_le_iff by auto
    have p: "0 < val (fsub theo e)" using pos s(1) unfolding TBuy naive_target_def by simp
    have j: "is_finite (fadd bid half_mil)" "\<bar>val (fadd bid half_mil) - (val bid + val half_mil)\<bar> \<le> 1 / 2 ^ 32"
      using fadd_abs_error [of bid half_mil] bid h unfolding abs_le_iff by auto
    have k: "is_finite (fsub theo (fadd bid half_mil))"
      "\<bar>val (fsub theo (fadd bid half_mil)) - (val theo - val (fadd bid half_mil))\<bar> \<le> 1 / 2 ^ 32"
      using fsub_abs_error [of theo "fadd bid half_mil"] theo bid j h unfolding abs_le_iff by auto
    consider "x = fsub theo e" | "x = fadd bid half_mil" "val e \<le> val (fsub theo (fadd bid half_mil))"
      using t k(1) E(1) unfolding TBuy jump_target_def naive_target_def Let_def by (auto split: if_splits)
    then show ?thesis
    proof cases
      case 1
      then show ?thesis using s p theo E(2) N unfolding TBuy abs_le_iff by auto
    next
      case 2
      then show ?thesis using j k bid h E(2) N unfolding TBuy abs_le_iff by auto
    qed
  next
    case TSell
    have s: "is_finite (fadd theo e)" "\<bar>val (fadd theo e) - (val theo + val e)\<bar> \<le> 1 / 2 ^ 32"
      using fadd_abs_error [of theo e] theo E N unfolding abs_le_iff by auto
    have j: "is_finite (fsub ask half_mil)" "\<bar>val (fsub ask half_mil) - (val ask - val half_mil)\<bar> \<le> 1 / 2 ^ 32"
      using fsub_abs_error [of ask half_mil] ask h unfolding abs_le_iff by auto
    have k: "is_finite (fsub (fsub ask half_mil) theo)"
      "\<bar>val (fsub (fsub ask half_mil) theo) - (val (fsub ask half_mil) - val theo)\<bar> \<le> 1 / 2 ^ 32"
      using fsub_abs_error [of "fsub ask half_mil" theo] theo ask j h unfolding abs_le_iff by auto
    consider "x = fadd theo e" | "x = fsub ask half_mil" "val e \<le> val (fsub (fsub ask half_mil) theo)"
      using t k(1) E(1) unfolding TSell jump_target_def naive_target_def Let_def by (auto split: if_splits)
    then show ?thesis
    proof cases
      case 1
      then show ?thesis using s theo E(2) N unfolding TSell abs_le_iff by auto
    next
      case 2
      then show ?thesis using j k ask theo h E(2) N unfolding TSell abs_le_iff by auto
    qed
  qed
qed

section \<open>Properties\<close>

text \<open>A platform and a state in which a tick at the money is quoted on both sides.\<close>

definition demo_trader_env :: trader_env where
  "demo_trader_env =
     \<lparr>te_libm = \<lparr>m_ln = \<lambda>_. Fin 0, m_exp = \<lambda>_. Fin 1, m_sqrt = \<lambda>_. Fin 1,
        m_cdf = \<lambda>d. if fgt d fzero then Fin 1 else Fin (7 / 8), m_powf = \<lambda>_ _. Fin 1, m_powi = \<lambda>_ _. Fin 1\<rparr>,
      te_ymd = \<lambda>_ _ _. Some 365, te_decode = \<lambda>_. None, te_encode = \<lambda>_. None, te_places_orders = True\<rparr>"

definition demo_params :: vol_params where
  "demo_params = \<lparr>vp_model = ''svi'', vp_a = Some (Fin 1), vp_b = Some fzero, vp_rho = Some fzero,
     vp_m = Some fzero, vp_sigma = Some fzero, vp_alpha = None, vp_beta = None, vp_nu = None\<rparr>"

definition demo_trader_state :: trader_state where
  "demo_trader_state = trader_new
     \<lparr>ts_underlying_price := Fin 6, ts_risk_effective_delta := Some fzero,
      ts_risk_state_age_monotonic_ns := 1,
      ts_vol_surfaces := [((''20260526'', ''C''), \<lparr>ve_forward = Fin 6, ve_params = demo_params\<rparr>)]\<rparr>"

definition demo_tick :: tick_msg where
  "demo_tick = \<lparr>tm_strike = Fin 6, tm_expiry = ''20260526'', tm_right = ''C'', tm_bid = Some (Fin (1 / 2)),
     tm_ask = Some (Fin 1), tm_bid_size = Some 10, tm_ask_size = Some 10, tm_ts_ns = None\<rparr>"

lemma first_upper_C: "first_upper ''C'' = ''C''"
  by (simp add: first_upper_def ascii_upper_def)

lemma demo_fits: "rnd 6 = Fin 6" "rnd (3 / 4) = Fin (3 / 4)" "rnd (21 / 4) = Fin (21 / 4)" "rnd (1 / 2) = Fin (1 / 2)"
  "rnd (- (1 / 2)) = Fin (- (1 / 2))" "rnd 4 = Fin 4" "rnd 365 = Fin 365" "rnd 24 = Fin 24" "rnd 3600 = Fin 3600"
  "rnd 8760 = Fin 8760" "rnd 31536000 = Fin 31536000" "rnd 3 = Fin 3" "rnd 5 = Fin 5"
  "rnd 1000000000 = Fin 1000000000"
proof -
  have r: "rep (of_int m / 2 ^ k)" if "\<bar>m\<bar> < 2 ^ 53" "k \<le> 52" for m :: int and k :: nat
    unfolding rep_def using that
    by (intro exI [of _ m] exI [of _ "- int k"]) (simp add: p2_def)
  note i = rnd_exact [OF rep_of_int]
  show "rnd 6 = Fin 6" "rnd 4 = Fin 4" "rnd 365 = Fin 365" "rnd 24 = Fin 24" "rnd 3600 = Fin 3600"
    "rnd 8760 = Fin 8760" "rnd 31536000 = Fin 31536000" "rnd 3 = Fin 3" "rnd 5 = Fin 5" "rnd 1000000000 = Fin 1000000000"
    using i [of 1000000000] i [of 6] i [of 4] i [of 365] i [of 24] i [of 3600] i [of 8760] i [of 31536000] i [of 3] i [of 5] by simp_all
  show "rnd (3 / 4) = Fin (3 / 4)" "rnd (21 / 4) = Fin (21 / 4)" "rnd (1 / 2) = Fin (1 / 2)"
    "rnd (- (1 / 2)) = Fin (- (1 / 2))"
    using rnd_exact [OF r, of 3 2] rnd_exact [OF r, of 21 2] rnd_exact [OF r, of 1 1] rnd_exact [OF r, of "-1" 1]
    by simp_all
qed

lemma demo_years: "expiry_years (\<lambda>_ _ _. Some 365) (75600 * 10 ^ 9) ''20260526'' = Inr (Some (Fin 1))"
  by (simp add: expiry_years_def parse_expiry_def ascii_boundary ascii_def parse_i32_def parse_u32_def
      parse_integer_def years_until_def secs_per_year_def lit_def demo_fits fmul_finite fdiv_finite of_i_def trunc_def)

lemma demo_theo: "compute_theo (te_libm demo_trader_env) (Fin 6) (Fin 6) (Fin 1) ''C'' demo_params = Some (Fin 1, Fin (3 / 4))"
  by (simp add: compute_theo_def model_iv_def demo_params_def demo_trader_env_def svi_implied_vol_def
      svi_total_variance_def black76_price_def fmul_finite fdiv_finite fsub_def signed_zero_def
      lit_def demo_fits)

lemma demo_side:
  assumes q: "qc_theo q = Fin (3 / 4)" "qc_edge q = fmul (of_i 2) half_mil" "qc_bid q = Fin (1 / 2)"
    "qc_ask q = Fin 1" "qc_risk_buy q = False" "qc_risk_sell q = False"
  shows "\<exists>c' price. decide_side demo_trader_state now q side c = (c', Some (Place side price None))"
proof -
  note e = edge_near [of 2] and h = half_mil
  let ?e = "fmul (of_i 2) half_mil"
  let ?n = "naive_target (Fin (3 / 4)) ?e side"
  have n: "is_finite ?n \<and> 7 / 10 \<le> val ?n \<and> val ?n \<le> 4 / 5"
    using fsub_abs_error [of "Fin (3 / 4)" ?e] fadd_abs_error [of "Fin (3 / 4)" ?e] e
    unfolding abs_le_iff by (cases side) (auto simp: naive_target_def)
  have j: "is_finite (fadd (Fin (1 / 2)) half_mil) \<and> val (fadd (Fin (1 / 2)) half_mil) \<le> 6 / 10"
    "is_finite (fsub (Fin 1) half_mil) \<and> 9 / 10 \<le> val (fsub (Fin 1) half_mil)"
    using fadd_abs_error [of "Fin (1 / 2)" half_mil] fsub_abs_error [of "Fin 1" half_mil] h
    unfolding abs_le_iff by auto
  have t: "jump_target (Fin (3 / 4)) ?e half_mil (Fin (1 / 2)) (Fin 1) side ?n = ?n"
    using n j by (cases side) (auto simp: jump_target_def Let_def)
  have c: "\<not> crosses (Fin (1 / 2)) (Fin 1) side ?n" "\<not> fle ?n fzero"
    using n by (cases side; auto simp: crosses_def)+
  have s: "ts_tick_size demo_trader_state = half_mil" "ts_our_orders demo_trader_state = hm_new"
    by (simp_all add: demo_trader_state_def trader_new_def)
  show ?thesis
    unfolding decide_side_def Let_def q s t using c q by (cases side) (simp_all add: side_blocked_def hm.get_new)
qed

lemma demo_decision:
  "\<exists>c p1 p2. decide_on_tick demo_trader_env (75600 * 10 ^ 9) 1 demo_tick demo_trader_state counters_default =
     Inr (c, [Place TBuy p1 None, Place TSell p2 None])"
proof -
  let ?s = demo_trader_state
  have g: "compute_risk_gates 1 ?s = (False, False, False)"
    by (simp add: compute_risk_gates_def demo_trader_state_def trader_new_def age_s_def age_ns_def
        lit_def demo_fits fsub_def risk_state_stale_s_def wrap_u64_def of_i_def fdiv_def signed_zero_def)
  have sf: "lookup_surface ''20260526'' ''C'' ?s = Some \<lparr>ve_forward = Fin 6, ve_params = demo_params\<rparr>"
    by (simp add: lookup_surface_def demo_trader_state_def hm_get_def)
  have mo: "is_finite max_strike_offset_usd" "0 \<le> val max_strike_offset_usd" "is_finite atm_tol_usd"
    "1 / 100 \<le> val atm_tol_usd" "val atm_tol_usd \<le> 1"
  proof -
    have "\<bar>3 / 10 :: rat\<bar> \<le> 2 ^ 21" "\<bar>1 / 40 :: rat\<bar> \<le> 2 ^ 21" by simp_all
    from this [THEN rnd_abs_error]
    show "is_finite max_strike_offset_usd" "0 \<le> val max_strike_offset_usd" "is_finite atm_tol_usd"
      "1 / 100 \<le> val atm_tol_usd" "val atm_tol_usd \<le> 1"
      unfolding max_strike_offset_usd_def atm_tol_usd_def lit_def abs_le_iff by simp_all
  qed
  have otm: "\<not> otm_violation (Fin 6) (Fin 6) ''C''"
    using fsub_abs_error [of "Fin 6" atm_tol_usd] mo unfolding abs_le_iff by (auto simp: otm_violation_def)
  have far: "\<not> fgt (fabs (fsub (Fin 6) (Fin 6))) max_strike_offset_usd" using mo by (simp add: fsub_def)
  have drift: "\<not> fgt (fabs (fsub (Fin 6) (Fin 6))) (fmul (of_i max_forward_drift_ticks) half_mil)"
    using edge_near [of 200] unfolding abs_le_iff by (simp add: fsub_def max_forward_drift_ticks_def)
  have f: "ts_underlying_price ?s = Fin 6" "ts_kills ?s = []" "ts_weekend_paused ?s = False"
    "ts_tick_size ?s = half_mil" "ts_min_edge_ticks ?s = 2"
    by (simp_all add: demo_trader_state_def trader_new_def hm_new_def)
  have t: "tm_strike demo_tick = Fin 6" "tm_expiry demo_tick = ''20260526''" "first_upper (tm_right demo_tick) = ''C''"
    "tm_bid demo_tick = Some (Fin (1 / 2))" "tm_ask demo_tick = Some (Fin 1)"
    "tm_bid_size demo_tick = Some 10" "tm_ask_size demo_tick = Some 10"
    by (simp_all add: demo_tick_def first_upper_C)
  let ?q = "\<lparr>qc_key = (Fin 6, ''20260526'', ''C''), qc_theo = Fin (3 / 4), qc_edge = fmul (of_i 2) half_mil,
    qc_bid = Fin (1 / 2), qc_ask = Fin 1, qc_risk_buy = False, qc_risk_sell = False\<rparr>"
  obtain c1 p1 where d1: "decide_side ?s 1 ?q TBuy counters_default = (c1, Some (Place TBuy p1 None))"
    using demo_side [where q = ?q and side = TBuy and now = 1 and c = counters_default] by auto
  obtain c2 p2 where d2: "decide_side ?s 1 ?q TSell c1 = (c2, Some (Place TSell p2 None))"
    using demo_side [where q = ?q and side = TSell and now = 1 and c = c1] by auto
  have y: "te_ymd demo_trader_env = (\<lambda>_ _ _. Some 365)" by (simp add: demo_trader_env_def)
  have qs: "quote_sides 1 demo_tick ?s False False (Fin (3 / 4)) counters_default =
      (c2, [Place TBuy p1 None, Place TSell p2 None])"
    unfolding quote_sides_def Let_def t f using d1 d2 by (simp add: map_filter_def min_bbo_size_def)
  have pq: "price_and_quote demo_trader_env (75600 * 10 ^ 9) 1 demo_tick ?s False False counters_default =
      Inr (c2, [Place TBuy p1 None, Place TSell p2 None])"
    unfolding price_and_quote_def t sf y demo_years option.case and_then_simps f
    using drift demo_theo qs by simp
  have "decide_on_tick demo_trader_env (75600 * 10 ^ 9) 1 demo_tick ?s counters_default =
      Inr (c2, [Place TBuy p1 None, Place TSell p2 None])"
    unfolding decide_on_tick_def Let_def g f t using far otm pq by simp
  then show ?thesis by blast
qed

text \<open>C13. The trader fails closed: whenever a tick leads to an order, no kill is in force and the
  market is not paused; the strike is within the window and out of the money; both sides of
  the market are quoted with size; the risk state is known, fresh, clear of the delta kill
  and the margin ceiling, and clear of the delta ceiling on the side of the order.\<close>

theorem quotes_only_when_allowed:
  assumes "decide_on_tick E utc now t s c = Inr (c', ds)" "Place side price cancel \<in> set ds"
  shows "market_allows t s \<and> risk_allows now s side"
  using decide_on_tick_Place [OF assms] by blast

theorem quotes_only_when_allowed_witness:
  "market_allows demo_tick demo_trader_state \<and> risk_allows 1 demo_trader_state TSell"
proof -
  obtain c p1 p2 where "decide_on_tick demo_trader_env (75600 * 10 ^ 9) 1 demo_tick demo_trader_state counters_default =
     Inr (c, [Place TBuy p1 None, Place TSell p2 None])"
    using demo_decision by blast
  from quotes_only_when_allowed [OF this, of TSell p2 None] show ?thesis by simp
qed

text \<open>The theoretical price of a tick: that of the surface in force for its expiry and right, at
  the time left to its expiry; none when there is no surface, no date, no time left or no
  price.\<close>

definition tick_theo :: "trader_env \<Rightarrow> int \<Rightarrow> tick_msg \<Rightarrow> trader_state \<Rightarrow> f64 option" where
  "tick_theo E utc t s =
     (case (lookup_surface (tm_expiry t) (first_upper (tm_right t)) s,
            expiry_years (te_ymd E) utc (tm_expiry t)) of
        (Some vp, Inr (Some tte)) \<Rightarrow>
          (if fgt tte fzero
           then map_option snd
             (compute_theo (te_libm E) (ve_forward vp) (tm_strike t) tte (first_upper (tm_right t)) (ve_params vp))
           else None)
      | _ \<Rightarrow> None)"

text \<open>C14. A quote keeps the configured edge to within half a tick of the theoretical price of its
  own tick: the price \<open>tick_theo\<close> gives from the surface in force for the option's expiry
  and right, its forward, the strike and the time left to the expiry at the clock of the
  tick. With the default tick of half a mil, an edge of 1 to 1000 ticks, and the bid, the ask
  and the theoretical price finite and at most 50 dollars, every order is priced at least the
  edge less half a tick (and a rounding error below 1e-8) away from that price, below it for
  a buy and above it for a sell. The theoretical price always exists when an order is
  placed.\<close>

theorem quotes_keep_edge_to_half_tick:
  assumes "decide_on_tick E utc now t s c = Inr (c', ds)" "Place side price cancel \<in> set ds"
    and "ts_tick_size s = lit (5 / 10000)" "1 \<le> ts_min_edge_ticks s" "ts_min_edge_ticks s \<le> 1000"
    and "tm_bid t = Some bid" "is_finite bid" "val bid \<le> 50"
    and "tm_ask t = Some ask" "is_finite ask" "val ask \<le> 50"
  shows "\<exists>theo. tick_theo E utc t s = Some theo \<and>
     (is_finite theo \<and> val theo \<le> 50 \<longrightarrow>
        is_finite price \<and>
        (case side of
           TBuy \<Rightarrow> val price \<le> val theo - (of_int (ts_min_edge_ticks s) - 1 / 2) / 2000 + 1 / 10 ^ 8
         | TSell \<Rightarrow> val theo + (of_int (ts_min_edge_ticks s) - 1 / 2) / 2000 - 1 / 10 ^ 8 \<le> val price))"
proof -
  obtain vp tte iv theo q c1 c2 where v: "lookup_surface (tm_expiry t) (first_upper (tm_right t)) s = Some vp"
    and yr: "expiry_years (te_ymd E) utc (tm_expiry t) = Inr (Some tte)" "fgt tte fzero"
    and th: "compute_theo (te_libm E) (ve_forward vp) (tm_strike t) tte (first_upper (tm_right t)) (ve_params vp)
       = Some (iv, theo)"
    and q: "qc_theo q = theo" "qc_edge q = fmul (of_i (ts_min_edge_ticks s)) (ts_tick_size s)"
      "qc_bid q = bid" "qc_ask q = ask" "\<not> fle bid fzero" "\<not> fle ask fzero"
    and d: "decide_side s now q side c1 = (c2, Some (Place side price cancel))"
    using decide_on_tick_Place [OF assms(1,2)] assms(6,9) by auto
  define x where "x = jump_target theo (qc_edge q) half_mil bid ask side (naive_target theo (qc_edge q) side)"
  have p: "price = quantise half_mil x" "\<not> fle (naive_target theo (qc_edge q) side) fzero"
    using decide_side_Some [OF d] assms(3) by (simp_all add: x_def q)
  have "is_finite price \<and>
        (case side of
           TBuy \<Rightarrow> val price \<le> val theo - (of_int (ts_min_edge_ticks s) - 1 / 2) / 2000 + 1 / 10 ^ 8
         | TSell \<Rightarrow> val theo + (of_int (ts_min_edge_ticks s) - 1 / 2) / 2000 - 1 / 10 ^ 8 \<le> val price)"
    if f: "is_finite theo" "val theo \<le> 50"
  proof -
    have "\<not> fle theo fzero" using th by (auto simp: compute_theo_def Let_def split: if_splits option.splits)
    then have t0: "0 \<le> val theo" using f by simp
    have b0: "0 < val bid" "0 < val ask" using q(5,6) assms(7,10) by simp_all
    have k: "is_finite x" "0 < val x" "val x \<le> 100"
      "case side of TBuy \<Rightarrow> val x \<le> val theo - of_int (ts_min_edge_ticks s) / 2000 + 1 / 2 ^ 30
       | TSell \<Rightarrow> val theo + of_int (ts_min_edge_ticks s) / 2000 - 1 / 2 ^ 30 \<le> val x"
      using target_keeps_edge [OF f(1) t0 f(2) assms(7) b0(1) assms(8) assms(10) b0(2) assms(11,4,5) x_def _ p(2)]
        q(2) assms(3) by simp_all
    obtain m where "is_finite price" "\<bar>val price - of_int m / 2000\<bar> \<le> 1 / 2 ^ 32"
      "\<bar>of_int m - 2000 * val x\<bar> \<le> 1 / 2 + 1 / 2 ^ 30"
      using quantise_near [OF k(1-3)] p(1) by blast
    moreover have "P - X \<le> 1 / 4000 + 1 / 10 ^ 9 \<and> X - P \<le> 1 / 4000 + 1 / 10 ^ 9"
      if "\<bar>P - K / 2000\<bar> \<le> 1 / 2 ^ 32" "\<bar>K - 2000 * X\<bar> \<le> 1 / 2 + 1 / 2 ^ 30" for P K X :: rat
      using that unfolding abs_le_iff by auto
    ultimately have "is_finite price" "val price - val x \<le> 1 / 4000 + 1 / 10 ^ 9" "val x - val price \<le> 1 / 4000 + 1 / 10 ^ 9"
      by blast+
    moreover have "(1 :: rat) / 2 ^ 30 + 1 / 10 ^ 9 \<le> 1 / 10 ^ 8" by simp
    ultimately show ?thesis using k(4) by (cases side) (simp_all add: diff_divide_distrib)
  qed
  moreover have "tick_theo E utc t s = Some theo" using yr(2) by (simp add: tick_theo_def v yr(1) th del: flt.simps)
  ultimately show ?thesis by blast
qed

theorem quotes_keep_edge_to_half_tick_witness:
  "\<exists>c p1 p2. decide_on_tick demo_trader_env (75600 * 10 ^ 9) 1 demo_tick demo_trader_state counters_default =
     Inr (c, [Place TBuy p1 None, Place TSell p2 None]) \<and>
     tick_theo demo_trader_env (75600 * 10 ^ 9) demo_tick demo_trader_state = Some (Fin (3 / 4)) \<and>
     is_finite p1 \<and> val p1 \<le> 3 / 4 - 3 / 4000 + 1 / 10 ^ 8 \<and>
     is_finite p2 \<and> 3 / 4 + 3 / 4000 - 1 / 10 ^ 8 \<le> val p2"
proof -
  obtain c p1 p2 where d: "decide_on_tick demo_trader_env (75600 * 10 ^ 9) 1 demo_tick demo_trader_state counters_default =
     Inr (c, [Place TBuy p1 None, Place TSell p2 None])"
    using demo_decision by blast
  have sf: "lookup_surface (tm_expiry demo_tick) (first_upper (tm_right demo_tick)) demo_trader_state =
      Some \<lparr>ve_forward = Fin 6, ve_params = demo_params\<rparr>"
    and dt: "tm_expiry demo_tick = ''20260526''" "tm_strike demo_tick = Fin 6" "first_upper (tm_right demo_tick) = ''C''"
    and y: "te_ymd demo_trader_env = (\<lambda>_ _ _. Some 365)"
    by (simp_all add: lookup_surface_def demo_trader_state_def hm_get_def demo_tick_def first_upper_C demo_trader_env_def)
  have theo: "tick_theo demo_trader_env (75600 * 10 ^ 9) demo_tick demo_trader_state = Some (Fin (3 / 4))"
    unfolding tick_theo_def sf [unfolded dt] dt y demo_years
    by (simp only: prod.case option.case sum.case vol_surface_entry.select_convs demo_theo) simp
  have s: "ts_tick_size demo_trader_state = lit (5 / 10000)" "ts_min_edge_ticks demo_trader_state = 2"
    "tm_bid demo_tick = Some (Fin (1 / 2))" "tm_ask demo_tick = Some (Fin 1)"
    by (simp_all add: demo_trader_state_def trader_new_def demo_tick_def)
  show ?thesis
    using d theo quotes_keep_edge_to_half_tick [OF d, of TBuy p1 None "Fin (1 / 2)" "Fin 1"]
      quotes_keep_edge_to_half_tick [OF d, of TSell p2 None "Fin (1 / 2)" "Fin 1"]
    by (simp add: s)
qed

text \<open>Rounding to the tick comes after the edge was checked and can break it, although the code
  promises never to quote with less than the configured edge: with a theoretical price of
  257/8192 and an edge of two ticks, the buy order is priced less than two ticks below.\<close>

theorem rounding_costs_edge:
  "\<exists>c price.
     decide_side trader_new now
       \<lparr>qc_key = key, qc_theo = Fin (257 / 8192), qc_edge = fmul (of_i 2) (ts_tick_size trader_new),
        qc_bid = Fin (1 / 64), qc_ask = Fin (1 / 16), qc_risk_buy = False, qc_risk_sell = False\<rparr>
       TBuy counters_default = (c, Some (Place TBuy price None)) \<and>
     flt (fsub (Fin (257 / 8192)) price) (fmul (of_i 2) (ts_tick_size trader_new))"
proof -
  let ?e = "fmul (of_i 2) half_mil" and ?theo = "Fin (257 / 8192)"
  let ?x = "fsub ?theo ?e"
  have e: "is_finite ?e" "\<bar>val ?e - 1 / 1000\<bar> \<le> 1 / 2 ^ 31" using edge_near [of 2] by simp_all
  have x: "is_finite ?x" "\<bar>val ?x - (257 / 8192 - 1 / 1000)\<bar> \<le> 1 / 2 ^ 30"
    using fsub_abs_error [of ?theo ?e] e unfolding abs_le_iff by auto
  have j: "is_finite (fadd (Fin (1 / 64)) half_mil)" "val (fadd (Fin (1 / 64)) half_mil) \<le> 1 / 50"
    using fadd_abs_error [of "Fin (1 / 64)" half_mil] half_mil unfolding abs_le_iff by auto
  have jt: "jump_target ?theo ?e half_mil (Fin (1 / 64)) (Fin (1 / 16)) TBuy ?x = ?x"
    using x j unfolding abs_le_iff by (auto simp: jump_target_def Let_def)
  obtain k where k: "is_finite (quantise half_mil ?x)" "\<bar>val (quantise half_mil ?x) - of_int k / 2000\<bar> \<le> 1 / 2 ^ 32"
    "\<bar>of_int k - 2000 * val ?x\<bar> \<le> 1 / 2 + 1 / 2 ^ 30"
    using quantise_near [OF x(1)] x(2) unfolding abs_le_iff by auto
  have "of_int k > (60 :: rat)" "of_int k < (62 :: rat)" using k(3) x(2) unfolding abs_le_iff by auto
  then have "k = 61" by simp
  then have p: "\<bar>val (quantise half_mil ?x) - 61 / 2000\<bar> \<le> 1 / 2 ^ 32" using k(2) by simp
  have l: "flt (fsub ?theo (quantise half_mil ?x)) ?e"
    using fsub_abs_error [of ?theo "quantise half_mil ?x"] p k(1) e unfolding abs_le_iff by auto
  have s: "ts_tick_size trader_new = half_mil" "ts_our_orders trader_new = hm_new" by (simp_all add: trader_new_def)
  have "\<not> fle ?x fzero" "\<not> crosses (Fin (1 / 64)) (Fin (1 / 16)) TBuy ?x"
    using x unfolding abs_le_iff by (auto simp: crosses_def)
  with l jt show ?thesis
    by (simp add: decide_side_def Let_def naive_target_def s side_blocked_def hm.get_new)
qed

end
