(* ===== verification/Trader.thy ===== *)
theory Trader
  imports Trader_Decision Shm_Ring
begin

text \<open>
  The handlers of the trader (\<open>corsair_trader/src/main.rs\<close>): inbound events, the tick handler,
  the staleness task and the telemetry. The event loop and the staleness task run
  concurrently and share the state under a lock; a handler is split where it releases the
  lock, and \<open>sys_step\<close> interleaves the parts. Counters are unbounded here. The JSONL logs and
  the log of the hello message are omitted.
\<close>

section \<open>The tick handler\<close>

record clocks =
  ck_recv :: int
  ck_mono :: int
  ck_wall :: int
  ck_utc :: date_time

record trader =
  tr_state :: trader_state
  tr_counters :: decision_counters
  tr_ring :: ring

definition push_sample :: "nat \<Rightarrow> int \<Rightarrow> int option \<Rightarrow> int list \<Rightarrow> int list" where
  "push_sample cap now emitted xs =
     (case emitted of
        None \<Rightarrow> xs
      | Some emit_ns \<Rightarrow>
          (let lat = max 0 (now - emit_ns) div 1000 in
           if lat < 5000000
           then (let ys = xs @ [lat] in if cap < length ys then tl ys else ys)
           else xs))"

definition store_option :: "tick_msg \<Rightarrow> trader_state \<Rightarrow> trader_state" where
  "store_option t s =
     s\<lparr>ts_options := hm_insert (tm_strike t, tm_expiry t, first_upper (tm_right t))
         \<lparr>os_strike = tm_strike t, os_bid = tm_bid t, os_ask = tm_ask t,
          os_bid_size = tm_bid_size t, os_ask_size = tm_ask_size t, os_ts_ns = tm_ts_ns t\<rparr>
         (ts_options s)\<rparr>"

definition tick_decide ::
  "trader_env \<Rightarrow> clocks \<Rightarrow> tick_msg \<Rightarrow> trader \<Rightarrow> panic + trader \<times> decision list" where
  "tick_decide E ck t tr =
     (let s = store_option t (tr_state tr)
      in and_then (decide_on_tick E (ck_utc ck) (ck_mono ck) t s (tr_counters tr)) (\<lambda>(c, ds).
           Inr (tr\<lparr>tr_state :=
                     (if ds \<noteq> [] \<and> te_places_orders E
                      then s\<lparr>ts_ttt_us := push_sample 500 (ck_wall ck) (tm_ts_ns t) (ts_ttt_us s)\<rparr>
                      else s),
                   tr_counters := c\<rparr>, ds)))"

definition encode_frames :: "trader_env \<Rightarrow> trader_command \<Rightarrow> byte list list" where
  "encode_frames E cmd = (case te_encode E cmd of Some body \<Rightarrow> [pack_frame body] | None \<Rightarrow> [])"

fun decision_frames :: "trader_env \<Rightarrow> clocks \<Rightarrow> tick_msg \<Rightarrow> decision \<Rightarrow> byte list list" where
  "decision_frames E ck t Skip = []"
| "decision_frames E ck t (Place side price cancel) =
     (case cancel of
        Some oid \<Rightarrow> encode_frames E (CancelOrder \<lparr>cn_ts_ns = ck_wall ck, cn_order_id = oid\<rparr>)
      | None \<Rightarrow> []) @
     encode_frames E (PlaceOrder
       \<lparr>pl_ts_ns = ck_wall ck, pl_strike = tm_strike t, pl_expiry = tm_expiry t,
        pl_right = tm_right t, pl_side = trader_side_str side, pl_qty = 1, pl_price = price,
        pl_order_ref = ''corsair_trader_rust''\<rparr>)"

definition write_frames :: "byte list list \<Rightarrow> ring \<Rightarrow> ring" where
  "write_frames frames g = fold (\<lambda>f g. fst (write_frame f g)) frames g"

definition tick_key :: "tick_msg \<Rightarrow> trader_side \<Rightarrow> quote_key" where
  "tick_key t side = (tm_strike t, tm_expiry t, first_upper (tm_right t), trader_side_char side)"

fun track_place :: "clocks \<Rightarrow> tick_msg \<Rightarrow> decision \<Rightarrow> trader_state \<Rightarrow> trader_state" where
  "track_place ck t Skip s = s"
| "track_place ck t (Place side price cancel) s =
     s\<lparr>ts_orderid_to_key := (case cancel of Some oid \<Rightarrow> hm_remove oid (ts_orderid_to_key s)
                              | None \<Rightarrow> ts_orderid_to_key s),
       ts_our_orders := hm_insert (tick_key t side)
         \<lparr>ro_price = price, ro_send_ns = ck_wall ck, ro_place_monotonic_ns = ck_mono ck,
          ro_order_id = None\<rparr> (ts_our_orders s)\<rparr>"

definition tick_send :: "trader_env \<Rightarrow> clocks \<Rightarrow> tick_msg \<Rightarrow> decision list \<Rightarrow> trader \<Rightarrow> trader" where
  "tick_send E ck t ds tr =
     tr\<lparr>tr_ring := write_frames (concat (map (decision_frames E ck t) ds)) (tr_ring tr)\<rparr>"

definition tick_track :: "clocks \<Rightarrow> tick_msg \<Rightarrow> decision list \<Rightarrow> trader \<Rightarrow> trader" where
  "tick_track ck t ds tr = tr\<lparr>tr_state := fold (track_place ck t) ds (tr_state tr)\<rparr>"

definition on_tick :: "trader_env \<Rightarrow> clocks \<Rightarrow> tick_msg \<Rightarrow> trader \<Rightarrow> panic + trader" where
  "on_tick E ck t tr =
     and_then (tick_decide E ck t tr) (\<lambda>(tr1, ds).
       if ds = [] \<or> \<not> te_places_orders E then Inr tr1
       else Inr (tick_track ck t ds (tick_send E ck t ds tr1)))"

section \<open>The other events\<close>

definition apply_vol_surface :: "vol_surface_msg \<Rightarrow> trader_state \<Rightarrow> trader_state" where
  "apply_vol_surface v s =
     s\<lparr>ts_vol_surfaces := hm_insert (vm_expiry v, first_upper (vm_side v))
         \<lparr>ve_forward = vm_forward v, ve_params = vm_params v\<rparr> (ts_vol_surfaces s)\<rparr>"

definition apply_risk_state :: "int \<Rightarrow> risk_state_msg \<Rightarrow> trader_state \<Rightarrow> trader_state" where
  "apply_risk_state now r s =
     s\<lparr>ts_risk_effective_delta := Some (rk_effective_delta r),
       ts_risk_margin_pct := Some (rk_margin_pct r), ts_risk_state_age_monotonic_ns := now\<rparr>"

definition ack_key :: "place_ack_msg \<Rightarrow> quote_key option" where
  "ack_key p =
     map_option (\<lambda>sc. (pa_strike p, pa_expiry p, first_upper (pa_right p), sc))
       (if pa_side p = ''BUY'' then Some ''B'' else if pa_side p = ''SELL'' then Some ''S'' else None)"

definition apply_place_ack :: "clocks \<Rightarrow> place_ack_msg \<Rightarrow> trader_state \<Rightarrow> trader_state" where
  "apply_place_ack ck p s =
     (case ack_key p of
        None \<Rightarrow> s
      | Some key \<Rightarrow>
          (let order = (case hm_get (ts_our_orders s) key of
                          Some o1 \<Rightarrow> o1\<lparr>ro_order_id := Some (pa_order_id p)\<rparr>
                        | None \<Rightarrow> \<lparr>ro_price = pa_price p, ro_send_ns = ck_wall ck,
                                   ro_place_monotonic_ns = ck_mono ck,
                                   ro_order_id = Some (pa_order_id p)\<rparr>)
           in s\<lparr>ts_our_orders := hm_insert key order (ts_our_orders s),
                ts_orderid_to_key := hm_insert (pa_order_id p) key (ts_orderid_to_key s)\<rparr>))"

definition terminal_status :: "string \<Rightarrow> bool" where
  "terminal_status status \<longleftrightarrow> status \<in> {''Filled'', ''Cancelled'', ''ApiCancelled'', ''Inactive''}"

definition apply_order_ack :: "order_ack_msg \<Rightarrow> trader_state \<Rightarrow> trader_state" where
  "apply_order_ack a s =
     (case oa_order_id a of
        None \<Rightarrow> s
      | Some oid \<Rightarrow>
          if terminal_status (case oa_status a of Some st \<Rightarrow> st | None \<Rightarrow> [])
          then (case hm_get (ts_orderid_to_key s) oid of
                  None \<Rightarrow> s
                | Some key \<Rightarrow> s\<lparr>ts_orderid_to_key := hm_remove oid (ts_orderid_to_key s),
                                ts_our_orders := hm_remove key (ts_our_orders s)\<rparr>)
          else s)"

definition or_question :: "string option \<Rightarrow> string" where
  "or_question x = (case x of Some v \<Rightarrow> v | None \<Rightarrow> ''?'')"

definition apply_hello :: "hello_config \<Rightarrow> trader_state \<Rightarrow> trader_state" where
  "apply_hello h s =
     s\<lparr>ts_min_edge_ticks := (case he_min_edge_ticks h of Some v \<Rightarrow> wrap_i32 v | None \<Rightarrow> ts_min_edge_ticks s),
       ts_tick_size := (case he_tick_size h of Some v \<Rightarrow> v | None \<Rightarrow> ts_tick_size s),
       ts_delta_ceiling := (case he_delta_ceiling h of Some v \<Rightarrow> v | None \<Rightarrow> ts_delta_ceiling s),
       ts_delta_kill := (case he_delta_kill h of Some v \<Rightarrow> v | None \<Rightarrow> ts_delta_kill s),
       ts_margin_ceiling_pct :=
         (case he_margin_ceiling_pct h of Some v \<Rightarrow> v | None \<Rightarrow> ts_margin_ceiling_pct s)\<rparr>"

text \<open>Every event but a tick only changes the state.\<close>

fun apply_event :: "clocks \<Rightarrow> trader_event \<Rightarrow> trader_state \<Rightarrow> trader_state" where
  "apply_event ck (EvTick t) s = s"
| "apply_event ck (EvUnderlying price) s = s\<lparr>ts_underlying_price := price\<rparr>"
| "apply_event ck (EvVolSurface v) s = apply_vol_surface v s"
| "apply_event ck (EvRiskState r) s = apply_risk_state (ck_mono ck) r s"
| "apply_event ck (EvPlaceAck p) s = apply_place_ack ck p s"
| "apply_event ck (EvOrderAck a) s = apply_order_ack a s"
| "apply_event ck (EvKill src reason) s =
     s\<lparr>ts_kills := hm_insert (or_question src) (or_question reason) (ts_kills s)\<rparr>"
| "apply_event ck (EvResume src) s = s\<lparr>ts_kills := hm_remove (or_question src) (ts_kills s)\<rparr>"
| "apply_event ck (EvWeekendPause paused) s =
     s\<lparr>ts_weekend_paused := (case paused of Some p \<Rightarrow> p | None \<Rightarrow> False)\<rparr>"
| "apply_event ck (EvHello cfg) s = (case cfg of Some h \<Rightarrow> apply_hello h s | None \<Rightarrow> s)"
| "apply_event ck EvBadPayload s = s"
| "apply_event ck EvOther s = s"

text \<open>The event a body decodes to, after the latency sample; a tick without a time of its own
  takes the message's.\<close>

definition receive :: "trader_env \<Rightarrow> clocks \<Rightarrow> byte list \<Rightarrow> trader \<Rightarrow> trader \<times> trader_event" where
  "receive E ck body tr =
     (case te_decode E body of
        None \<Rightarrow> (tr, EvOther)
      | Some (emitted, ev) \<Rightarrow>
          (tr\<lparr>tr_state := (tr_state tr)\<lparr>ts_ipc_us :=
                push_sample 2000 (ck_recv ck) emitted (ts_ipc_us (tr_state tr))\<rparr>\<rparr>,
           case ev of
             EvTick t \<Rightarrow> EvTick (if tm_ts_ns t = None then t\<lparr>tm_ts_ns := emitted\<rparr> else t)
           | _ \<Rightarrow> ev))"

definition process_event :: "trader_env \<Rightarrow> clocks \<Rightarrow> byte list \<Rightarrow> trader \<Rightarrow> panic + trader" where
  "process_event E ck body tr =
     (let (tr1, ev) = receive E ck body tr
      in case ev of
           EvTick t \<Rightarrow> on_tick E ck t tr1
         | _ \<Rightarrow> Inr (tr1\<lparr>tr_state := apply_event ck ev (tr_state tr1)\<rparr>))"

section \<open>The staleness task\<close>

record to_cancel =
  tc_order_id :: int
  tc_key :: quote_key
  tc_reason_dark :: bool

definition market_dark :: "option_state \<Rightarrow> bool" where
  "market_dark o1 \<longleftrightarrow>
     \<not> (case os_bid o1 of Some b \<Rightarrow> fgt b fzero | None \<Rightarrow> False) \<or>
     \<not> (case os_ask o1 of Some a \<Rightarrow> fgt a fzero | None \<Rightarrow> False) \<or>
     (case os_bid_size o1 of Some n \<Rightarrow> n | None \<Rightarrow> 0) \<le> 0 \<or>
     (case os_ask_size o1 of Some n \<Rightarrow> n | None \<Rightarrow> 0) \<le> 0"

definition price_drift :: "string \<Rightarrow> f64 \<Rightarrow> f64 \<Rightarrow> f64" where
  "price_drift s_char price theo = (if s_char = ''B'' then fsub price theo else fsub theo price)"

definition stale_order ::
  "trader_env \<Rightarrow> date_time \<Rightarrow> trader_state \<Rightarrow> quote_key \<Rightarrow> our_order \<Rightarrow> panic + to_cancel option" where
  "stale_order E now_utc s key order =
     (case key of (strike, expiry, r_char, s_char) \<Rightarrow>
        (case ro_order_id order of
           None \<Rightarrow> Inr None
         | Some order_id \<Rightarrow>
             (case lookup_surface expiry r_char s of
                None \<Rightarrow> Inr None
              | Some vp \<Rightarrow>
                  and_then (expiry_years (te_ymd E) now_utc expiry) (\<lambda>tte_opt.
                    case tte_opt of
                      None \<Rightarrow> Inr None
                    | Some tte \<Rightarrow>
                        if \<not> fgt tte fzero then Inr None
                        else case compute_theo (te_libm E) (ve_forward vp) strike tte r_char (ve_params vp) of
                          None \<Rightarrow> Inr None
                        | Some (_, theo) \<Rightarrow>
                            if fgt (price_drift s_char (ro_price order) theo)
                                 (fmul (of_i staleness_ticks) (ts_tick_size s))
                            then Inr (Some \<lparr>tc_order_id = order_id, tc_key = key, tc_reason_dark = False\<rparr>)
                            else case hm_get (ts_options s) (strike, expiry, r_char) of
                              None \<Rightarrow> Inr None
                            | Some latest \<Rightarrow>
                                Inr (if market_dark latest
                                     then Some \<lparr>tc_order_id = order_id, tc_key = key, tc_reason_dark = True\<rparr>
                                     else None)))))"

fun collect :: "('a \<Rightarrow> 'e + 'b option) \<Rightarrow> 'a list \<Rightarrow> 'e + 'b list" where
  "collect f [] = Inr []"
| "collect f (x # xs) =
     and_then (f x) (\<lambda>y. and_then (collect f xs) (\<lambda>ys. Inr (case y of Some z \<Rightarrow> z # ys | None \<Rightarrow> ys)))"

definition stale_scan :: "trader_env \<Rightarrow> date_time \<Rightarrow> trader_state \<Rightarrow> panic + to_cancel list" where
  "stale_scan E now_utc s =
     collect (\<lambda>(key, order). stale_order E now_utc s key order) (ts_our_orders s)"

definition stale_cancel1 :: "trader_env \<Rightarrow> clocks \<Rightarrow> to_cancel \<Rightarrow> trader \<Rightarrow> trader" where
  "stale_cancel1 E ck tc tr =
     tr\<lparr>tr_ring := write_frames
          (encode_frames E (CancelOrder \<lparr>cn_ts_ns = ck_wall ck, cn_order_id = tc_order_id tc\<rparr>)) (tr_ring tr),
        tr_state := (tr_state tr)
          \<lparr>ts_our_orders := hm_remove (tc_key tc) (ts_our_orders (tr_state tr)),
           ts_orderid_to_key := hm_remove (tc_order_id tc) (ts_orderid_to_key (tr_state tr))\<rparr>,
        tr_counters :=
          (if tc_reason_dark tc
           then (tr_counters tr)\<lparr>dc_staleness_cancel_dark := dc_staleness_cancel_dark (tr_counters tr) + 1\<rparr>
           else (tr_counters tr)\<lparr>dc_staleness_cancel := dc_staleness_cancel (tr_counters tr) + 1\<rparr>)\<rparr>"

definition stale_cancel :: "trader_env \<Rightarrow> clocks \<Rightarrow> to_cancel list \<Rightarrow> trader \<Rightarrow> trader" where
  "stale_cancel E ck cs tr = fold (stale_cancel1 E ck) cs tr"

definition staleness_check :: "trader_env \<Rightarrow> clocks \<Rightarrow> trader \<Rightarrow> panic + trader" where
  "staleness_check E ck tr =
     and_then (stale_scan E (ck_utc ck) (tr_state tr)) (\<lambda>cs. Inr (stale_cancel E ck cs tr))"

section \<open>Telemetry\<close>

record telemetry =
  tl_ts_ns :: int
  tl_decisions :: "(string \<times> int) list"
  tl_ipc_p50_us :: "int option"
  tl_ipc_p99_us :: "int option"
  tl_ipc_n :: nat
  tl_ttt_p50_us :: "int option"
  tl_ttt_p99_us :: "int option"
  tl_ttt_n :: nat
  tl_n_options :: nat
  tl_n_active_orders :: nat
  tl_n_vol_expiries :: nat
  tl_killed :: "string list"
  tl_weekend_paused :: bool

definition pct :: "int list \<Rightarrow> f64 \<Rightarrow> int option" where
  "pct v q =
     (if v = [] then None
      else let idx = nat (to_int_sat 0 (2 ^ 64 - 1) (fmul (of_i (int (length v))) q))
           in Some (v ! min idx (length v - 1)))"

definition build_telemetry :: "clocks \<Rightarrow> int \<Rightarrow> trader \<Rightarrow> telemetry \<times> int" where
  "build_telemetry ck total_events tr =
     (let s = tr_state tr; ipc = sort (ts_ipc_us s); ttt = sort (ts_ttt_us s)
      in (\<lparr>tl_ts_ns = ck_wall ck, tl_decisions = counters_pairs (tr_counters tr),
           tl_ipc_p50_us = pct ipc (lit (1 / 2)), tl_ipc_p99_us = pct ipc (lit (99 / 100)),
           tl_ipc_n = length ipc, tl_ttt_p50_us = pct ttt (lit (1 / 2)),
           tl_ttt_p99_us = pct ttt (lit (99 / 100)), tl_ttt_n = length ttt,
           tl_n_options = hm_len (ts_options s), tl_n_active_orders = hm_len (ts_our_orders s),
           tl_n_vol_expiries = hm_len (ts_vol_surfaces s), tl_killed = map fst (ts_kills s),
           tl_weekend_paused = ts_weekend_paused s\<rparr>,
          wrap_u64 (total_events + int (hm_len (ts_options s)))))"

section \<open>Interleavings\<close>

text \<open>The event loop and the staleness task share the trader under a lock. A tick that leads to
  orders is decided under one acquisition and tracked under a later one; the staleness task
  collects its cancels under one and sends them under another. \<open>sy_tick\<close> and \<open>sy_stale\<close> hold
  what a task has decided and not yet carried out. \<open>owner\<close> is the quote an order id belongs to:
  the broker acknowledges an id for one quote only.\<close>

record sys =
  sy_trader :: trader
  sy_tick :: "(clocks \<times> tick_msg \<times> decision list) option"
  sy_stale :: "to_cancel list option"

definition ack_consistent :: "(int \<Rightarrow> quote_key) \<Rightarrow> trader_event \<Rightarrow> bool" where
  "ack_consistent owner ev \<longleftrightarrow>
     (case ev of
        EvPlaceAck p \<Rightarrow> (case ack_key p of Some k \<Rightarrow> owner (pa_order_id p) = k | None \<Rightarrow> True)
      | _ \<Rightarrow> True)"


inductive sys_step :: "trader_env \<Rightarrow> (int \<Rightarrow> quote_key) \<Rightarrow> sys \<Rightarrow> sys \<Rightarrow> bool" for E owner where
  event: "sy_tick y = None \<Longrightarrow> receive E ck body (sy_trader y) = (tr, ev) \<Longrightarrow> (\<And>t. ev \<noteq> EvTick t) \<Longrightarrow>
    ack_consistent owner ev \<Longrightarrow>
    sys_step E owner y (y\<lparr>sy_trader := tr\<lparr>tr_state := apply_event ck ev (tr_state tr)\<rparr>\<rparr>)"
| tick_begin: "sy_tick y = None \<Longrightarrow> receive E ck body (sy_trader y) = (tr, EvTick t) \<Longrightarrow>
    tick_decide E ck t tr = Inr (tr1, ds) \<Longrightarrow>
    sys_step E owner y (y\<lparr>sy_trader := tr1,
      sy_tick := (if ds = [] \<or> \<not> te_places_orders E then None else Some (ck, t, ds))\<rparr>)"
| tick_end: "sy_tick y = Some (ck, t, ds) \<Longrightarrow>
    sys_step E owner y
      (y\<lparr>sy_trader := tick_track ck t ds (tick_send E ck t ds (sy_trader y)), sy_tick := None\<rparr>)"
| scan: "sy_stale y = None \<Longrightarrow> stale_scan E now_utc (tr_state (sy_trader y)) = Inr cs \<Longrightarrow>
    sys_step E owner y (y\<lparr>sy_stale := Some cs\<rparr>)"
| cancel: "sy_stale y = Some cs \<Longrightarrow>
    sys_step E owner y (y\<lparr>sy_trader := stale_cancel E ck cs (sy_trader y), sy_stale := None\<rparr>)"


text \<open>Undisturbed, the steps are the handlers.\<close>

lemma process_event_steps:
  assumes "sy_tick y = None" "process_event E ck body (sy_trader y) = Inr tr'"
    and "ack_consistent owner (snd (receive E ck body (sy_trader y)))"
  shows "(sys_step E owner)\<^sup>*\<^sup>* y (y\<lparr>sy_trader := tr'\<rparr>)"
proof -
  obtain tr ev where r: "receive E ck body (sy_trader y) = (tr, ev)" by fastforce
  show ?thesis
  proof (cases "\<exists>t. ev = EvTick t")
    case True
    then obtain t where ev: "ev = EvTick t" by blast
    from assms(2) r ev obtain tr1 ds where d: "tick_decide E ck t tr = Inr (tr1, ds)"
      and e: "tr' = (if ds = [] \<or> \<not> te_places_orders E then tr1
                     else tick_track ck t ds (tick_send E ck t ds tr1))"
      by (auto simp: process_event_def on_tick_def and_then_def split: sum.splits if_splits)
    let ?y1 = "y\<lparr>sy_trader := tr1, sy_tick := (if ds = [] \<or> \<not> te_places_orders E then None else Some (ck, t, ds))\<rparr>"
    have b: "sys_step E owner y ?y1" using assms(1) r d unfolding ev by (rule sys_step.tick_begin)
    show ?thesis
    proof (cases "ds = [] \<or> \<not> te_places_orders E")
      case True
      then have "?y1 = y\<lparr>sy_trader := tr'\<rparr>" using e assms(1) by simp
      with b show ?thesis by auto
    next
      case False
      then have "sys_step E owner ?y1 (y\<lparr>sy_trader := tr'\<rparr>)"
        using sys_step.tick_end [of ?y1 ck t ds E owner] e assms(1) by (cases y) simp
      with b show ?thesis by (meson converse_rtranclp_into_rtranclp r_into_rtranclp)
    qed
  next
    case False
    then have "tr' = tr\<lparr>tr_state := apply_event ck ev (tr_state tr)\<rparr>"
      using assms(2) r by (cases ev) (auto simp: process_event_def)
    with sys_step.event [OF assms(1) r, of owner] False assms(3) r show ?thesis by auto
  qed
qed

section \<open>Acknowledged orders stay indexed\<close>

















lemma collect_Inr:
  "collect f xs = Inr ys \<Longrightarrow> set ys = {y. \<exists>x \<in> set xs. f x = Inr (Some y)} \<and> (\<forall>x \<in> set xs. \<exists>r. f x = Inr r)"
proof (induction xs arbitrary: ys)
  case (Cons x xs)
  then obtain r zs where r: "f x = Inr r" "collect f xs = Inr zs" "ys = (case r of Some z \<Rightarrow> z # zs | None \<Rightarrow> zs)"
    by (auto simp: and_then_def split: sum.splits)
  with Cons.IH [OF r(2)] show ?case by (auto split: option.splits)
qed simp

lemma stale_order_Some:
  "stale_order E now_utc s k ord = Inr (Some tc) \<Longrightarrow> tc_key tc = k \<and> ro_order_id ord = Some (tc_order_id tc)"
  unfolding stale_order_def and_then_def
  by (auto split: prod.splits option.splits sum.splits if_splits)





section \<open>The staleness pass\<close>

lemma stale_cancel_orders:
  "hm_get (ts_our_orders (tr_state (stale_cancel E ck cs tr))) k =
     (if k \<in> tc_key ` set cs then None else hm_get (ts_our_orders (tr_state tr)) k)"
  unfolding stale_cancel_def
  by (induction cs arbitrary: tr) (auto simp: stale_cancel1_def hm.get_remove)

lemma staleness_check_orders:
  assumes "staleness_check E ck tr = Inr tr'" "hm_ok (ts_our_orders (tr_state tr))"
  shows "hm_get (ts_our_orders (tr_state tr')) k = Some ord \<longleftrightarrow>
     hm_get (ts_our_orders (tr_state tr)) k = Some ord \<and>
     stale_order E (ck_utc ck) (tr_state tr) k ord = Inr None"
proof -
  let ?s = "tr_state tr"
  obtain cs where cs: "stale_scan E (ck_utc ck) ?s = Inr cs" and tr': "tr' = stale_cancel E ck cs tr"
    using assms(1) by (auto simp: staleness_check_def and_then_def split: sum.splits)
  note c = collect_Inr [OF cs [unfolded stale_scan_def]]
  have mem: "(k, ord) \<in> set (ts_our_orders ?s) \<longleftrightarrow> hm_get (ts_our_orders ?s) k = Some ord" for k ord
    using hm_get_in_set [OF assms(2)] .
  have "k \<in> tc_key ` set cs \<longleftrightarrow> stale_order E (ck_utc ck) ?s k ord \<noteq> Inr None"
    if g: "hm_get (ts_our_orders ?s) k = Some ord" for ord
  proof
    assume "k \<in> tc_key ` set cs"
    then obtain tc k' ord' where "tc_key tc = k" "(k', ord') \<in> set (ts_our_orders ?s)"
      "stale_order E (ck_utc ck) ?s k' ord' = Inr (Some tc)" using c by auto
    moreover from this have "k' = k" using stale_order_Some by blast
    ultimately show "stale_order E (ck_utc ck) ?s k ord \<noteq> Inr None" using mem g by auto
  next
    assume n: "stale_order E (ck_utc ck) ?s k ord \<noteq> Inr None"
    obtain r where "stale_order E (ck_utc ck) ?s k ord = Inr r" using c mem [of k ord] g by fastforce
    with n obtain tc where t: "stale_order E (ck_utc ck) ?s k ord = Inr (Some tc)" by (cases r) auto
    then have "tc \<in> set cs" using c mem [of k ord] g by force
    with stale_order_Some [OF t] show "k \<in> tc_key ` set cs" by force
  qed
  then show ?thesis unfolding tr' stale_cancel_orders by auto
qed

text \<open>
  The rule of the pass, stated on its own. The theoretical price of a resting order is that
  of the surface in force, at the time left to its expiry. An order is due for cancelling
  when it has been acknowledged, has a theoretical price, and either its price is more than
  the threshold on the unfavourable side of it (a buy above, a sell below) or the last known
  market of its option is dark.
\<close>

definition resting_theo :: "trader_env \<Rightarrow> date_time \<Rightarrow> trader_state \<Rightarrow> quote_key \<Rightarrow> f64 option" where
  "resting_theo E now_utc s key =
     (case key of (strike, expiry, r_char, _) \<Rightarrow>
        (case (lookup_surface expiry r_char s, expiry_years (te_ymd E) now_utc expiry) of
           (Some vp, Inr (Some tte)) \<Rightarrow>
             (if fgt tte fzero
              then map_option snd
                (compute_theo (te_libm E) (ve_forward vp) strike tte r_char (ve_params vp))
              else None)
         | _ \<Rightarrow> None))"

definition unfavourable :: "trader_state \<Rightarrow> quote_key \<Rightarrow> our_order \<Rightarrow> f64 \<Rightarrow> bool" where
  "unfavourable s key ord theo \<longleftrightarrow>
     (case key of (_, _, _, side) \<Rightarrow>
        fgt (if side = ''B'' then fsub (ro_price ord) theo else fsub theo (ro_price ord))
          (fmul (of_i 1) (ts_tick_size s)))"

definition dark_on_rest :: "trader_state \<Rightarrow> quote_key \<Rightarrow> bool" where
  "dark_on_rest s key =
     (case key of (strike, expiry, r_char, _) \<Rightarrow>
        (case hm_get (ts_options s) (strike, expiry, r_char) of
           None \<Rightarrow> False
         | Some latest \<Rightarrow> market_dark latest))"

definition cancel_due ::
  "trader_env \<Rightarrow> date_time \<Rightarrow> trader_state \<Rightarrow> quote_key \<Rightarrow> our_order \<Rightarrow> bool" where
  "cancel_due E now_utc s key ord \<longleftrightarrow>
     ro_order_id ord \<noteq> None \<and>
     (\<exists>theo. resting_theo E now_utc s key = Some theo \<and>
        (unfavourable s key ord theo \<or> dark_on_rest s key))"

text \<open>The broker ids of the orders due, in the order of the table.\<close>

definition due_ids :: "trader_env \<Rightarrow> date_time \<Rightarrow> trader_state \<Rightarrow> int list" where
  "due_ids E now_utc s =
     List.map_filter (\<lambda>(key, ord). if cancel_due E now_utc s key ord then ro_order_id ord else None)
       (ts_our_orders s)"

lemma stale_order_due:
  assumes "stale_order E now_utc s key ord = Inr r"
  shows "r \<noteq> None \<longleftrightarrow> cancel_due E now_utc s key ord"
    and "map_option tc_order_id r = (if cancel_due E now_utc s key ord then ro_order_id ord else None)"
proof -
  show due: "r \<noteq> None \<longleftrightarrow> cancel_due E now_utc s key ord"
    using assms unfolding stale_order_def and_then_def
    by (auto simp: cancel_due_def resting_theo_def unfavourable_def dark_on_rest_def price_drift_def
        staleness_ticks_def split: prod.splits option.splits sum.splits if_splits)
  show "map_option tc_order_id r = (if cancel_due E now_utc s key ord then ro_order_id ord else None)"
    using due assms stale_order_Some by (cases r) auto
qed

lemma collect_map_filter:
  "collect f xs = Inr ys \<Longrightarrow> (\<And>x r. f x = Inr r \<Longrightarrow> map_option h r = g x) \<Longrightarrow>
   map h ys = List.map_filter g xs"
proof (induction xs arbitrary: ys)
  case Nil
  then show ?case by (simp add: map_filter_def)
next
  case (Cons x xs)
  then obtain r zs where r: "f x = Inr r" "collect f xs = Inr zs" "ys = (case r of Some z \<Rightarrow> z # zs | None \<Rightarrow> zs)"
    by (auto simp: and_then_def split: sum.splits)
  have g: "g x = map_option h r" using Cons.prems(2) [OF r(1)] by simp
  with Cons.IH [OF r(2) Cons.prems(2)] r(3) show ?case
    by (cases r) (simp_all add: map_filter_def)
qed

lemma stale_cancel_ring:
  "tr_ring (stale_cancel E ck cs tr) =
     fold (\<lambda>oid. write_frames (encode_frames E (CancelOrder \<lparr>cn_ts_ns = ck_wall ck, cn_order_id = oid\<rparr>)))
       (map tc_order_id cs) (tr_ring tr)"
  unfolding stale_cancel_def by (induction cs arbitrary: tr) (simp_all add: stale_cancel1_def)

lemma stale_cancel_index:
  "hm_get (ts_orderid_to_key (tr_state (stale_cancel E ck cs tr))) oid =
     (if oid \<in> set (map tc_order_id cs) then None else hm_get (ts_orderid_to_key (tr_state tr)) oid)"
  unfolding stale_cancel_def
  by (induction cs arbitrary: tr) (auto simp: stale_cancel1_def hm.get_remove)

lemma staleness_check_ids:
  assumes "staleness_check E ck tr = Inr tr'"
  shows "\<exists>cs. tr' = stale_cancel E ck cs tr \<and> map tc_order_id cs = due_ids E (ck_utc ck) (tr_state tr)"
proof -
  obtain cs where cs: "stale_scan E (ck_utc ck) (tr_state tr) = Inr cs" and tr': "tr' = stale_cancel E ck cs tr"
    using assms by (auto simp: staleness_check_def and_then_def split: sum.splits)
  have "map tc_order_id cs = due_ids E (ck_utc ck) (tr_state tr)"
    unfolding due_ids_def
    by (rule collect_map_filter [OF cs [unfolded stale_scan_def]])
       (auto dest: stale_order_due(2) split: prod.splits)
  with tr' show ?thesis by blast
qed

lemma staleness_check_kept:
  assumes "staleness_check E ck tr = Inr tr'" "hm_ok (ts_our_orders (tr_state tr))"
  shows "hm_get (ts_our_orders (tr_state tr')) key = Some ord \<longleftrightarrow>
     hm_get (ts_our_orders (tr_state tr)) key = Some ord \<and>
     \<not> cancel_due E (ck_utc ck) (tr_state tr) key ord"
proof -
  have "stale_order E (ck_utc ck) (tr_state tr) key ord = Inr None \<longleftrightarrow>
      \<not> cancel_due E (ck_utc ck) (tr_state tr) key ord"
    if g: "hm_get (ts_our_orders (tr_state tr)) key = Some ord"
  proof -
    obtain cs where "stale_scan E (ck_utc ck) (tr_state tr) = Inr cs"
      using assms(1) by (auto simp: staleness_check_def and_then_def split: sum.splits)
    then obtain r where "stale_order E (ck_utc ck) (tr_state tr) key ord = Inr r"
      using collect_Inr [of "\<lambda>(key, ord). stale_order E (ck_utc ck) (tr_state tr) key ord"]
        hm_get_in_set [OF assms(2), of key ord] g unfolding stale_scan_def by fastforce
    with stale_order_due(1) [OF this] show ?thesis by auto
  qed
  then show ?thesis using staleness_check_orders [OF assms] by blast
qed

section \<open>Kills\<close>

text \<open>Handling a sequence of messages.\<close>

fun handle_all :: "trader_env \<Rightarrow> (clocks \<times> byte list) list \<Rightarrow> trader \<Rightarrow> panic + trader" where
  "handle_all E [] tr = Inr tr"
| "handle_all E ((ck, body) # ms) tr = and_then (process_event E ck body tr) (handle_all E ms)"

lemma decide_killed:
  assumes "ts_kills s \<noteq> []"
  shows "decide_on_tick E now_utc now t s c = Inr (c, [])"
  using assms by (simp add: decide_on_tick_def Let_def split: prod.splits)

lemma receive_kills:
  "receive E ck body tr = (tr1, ev) \<Longrightarrow> tr_ring tr1 = tr_ring tr \<and> ts_kills (tr_state tr1) = ts_kills (tr_state tr)"
  by (auto simp: receive_def split: option.splits)

lemma receive_resume:
  "receive E ck body tr = (tr1, EvResume r) \<Longrightarrow> \<exists>em. te_decode E body = Some (em, EvResume r)"
  by (auto simp: receive_def split: option.splits trader_event.splits)

lemma apply_event_kills:
  assumes "hm_get (ts_kills s) src \<noteq> None" "\<And>r. ev = EvResume r \<Longrightarrow> or_question r \<noteq> src"
  shows "hm_get (ts_kills (apply_event ck ev s)) src \<noteq> None"
proof (cases ev)
  case (EvHello h)
  then show ?thesis using assms by (cases h) (simp_all add: apply_hello_def)
qed (use assms in \<open>auto simp: apply_vol_surface_def apply_risk_state_def apply_place_ack_def
      apply_order_ack_def Let_def hm.get_insert hm.get_remove split: option.splits\<close>)

lemma process_event_killed:
  assumes "hm_get (ts_kills (tr_state tr)) src \<noteq> None"
    and "\<And>em r. te_decode E body = Some (em, EvResume r) \<Longrightarrow> or_question r \<noteq> src"
  shows "\<exists>tr'. process_event E ck body tr = Inr tr' \<and> tr_ring tr' = tr_ring tr \<and>
     hm_get (ts_kills (tr_state tr')) src \<noteq> None"
proof -
  obtain tr1 ev where r: "receive E ck body tr = (tr1, ev)" by fastforce
  note k = receive_kills [OF r]
  show ?thesis
  proof (cases "\<exists>t. ev = EvTick t")
    case True
    then obtain t where ev: "ev = EvTick t" by blast
    have "ts_kills (store_option t (tr_state tr1)) \<noteq> []" using assms(1) k by (auto simp: store_option_def hm_get_def)
    from decide_killed [OF this] show ?thesis
      using k assms(1) r ev
      by (simp add: process_event_def on_tick_def tick_decide_def Let_def) (simp add: store_option_def)
  next
    case False
    then have "process_event E ck body tr = Inr (tr1\<lparr>tr_state := apply_event ck ev (tr_state tr1)\<rparr>)"
      using r by (cases ev) (auto simp: process_event_def)
    moreover have "\<And>q. ev = EvResume q \<Longrightarrow> or_question q \<noteq> src" using receive_resume r assms(2) by blast
    ultimately show ?thesis using apply_event_kills [of "tr_state tr1" src ev ck] assms(1) k by simp
  qed
qed

section \<open>Properties\<close>

text \<open>C15. A kill silences the trader: once a source has killed, handling any messages none of which
  resumes that source never panics, never writes to the command ring, and leaves the kill in
  force.\<close>

theorem kill_stops_orders:
  assumes "hm_get (ts_kills (tr_state tr)) src \<noteq> None"
    and "\<forall>(ck, body) \<in> set ms. \<forall>em r. te_decode E body = Some (em, EvResume r) \<longrightarrow> or_question r \<noteq> src"
  shows "\<exists>tr'. handle_all E ms tr = Inr tr' \<and> tr_ring tr' = tr_ring tr \<and>
     hm_get (ts_kills (tr_state tr')) src \<noteq> None"
  using assms
proof (induction ms arbitrary: tr)
  case (Cons m ms)
  obtain ck body where m: "m = (ck, body)" by fastforce
  obtain tr1 where "process_event E ck body tr = Inr tr1" "tr_ring tr1 = tr_ring tr"
    "hm_get (ts_kills (tr_state tr1)) src \<noteq> None"
    using process_event_killed [of tr src E body ck] Cons.prems m by auto
  with Cons.IH [of tr1] Cons.prems(2) m show ?case by auto
qed simp

definition demo_clocks :: clocks where
  "demo_clocks = \<lparr>ck_recv = 0, ck_mono = 1, ck_wall = 0, ck_utc = 75600 * 10 ^ 9\<rparr>"

definition demo_codec :: "trader_event \<Rightarrow> trader_env" where
  "demo_codec ev = demo_trader_env\<lparr>te_decode := \<lambda>_. Some (None, ev)\<rparr>"

theorem kill_stops_orders_witness:
  "\<exists>tr'. handle_all (demo_codec (EvTick demo_tick)) [(demo_clocks, []), (demo_clocks, [1])]
       \<lparr>tr_state = demo_trader_state\<lparr>ts_kills := [(''daily_halt'', ''loss'')]\<rparr>, tr_counters = counters_default,
        tr_ring = create_owner 64\<rparr> = Inr tr' \<and>
     tr_ring tr' = create_owner 64"
  using kill_stops_orders [of "\<lparr>tr_state = demo_trader_state\<lparr>ts_kills := [(''daily_halt'', ''loss'')]\<rparr>,
      tr_counters = counters_default, tr_ring = create_owner 64\<rparr>" "''daily_halt''"
      "[(demo_clocks, []), (demo_clocks, [1])]" "demo_codec (EvTick demo_tick)"]
  by (auto simp: hm_get_def demo_codec_def)


definition demo_ack :: place_ack_msg where
  "demo_ack = \<lparr>pa_order_id = 7, pa_strike = Fin 6, pa_expiry = ''20260526'', pa_right = ''C'',
     pa_side = ''BUY'', pa_price = Fin (1 / 2)\<rparr>"


text \<open>C30. A pass of the staleness task cancels exactly the orders that are due. Whenever the pass
  returns, an order is still in the table afterwards if and only if it was there before and was
  not due; a cancel command is written to the ring for each order due, once and in the order
  of the table, and for no other; and the broker ids of the orders due, and no others, leave
  the id index. An order is due when it is acknowledged, has a theoretical price, and is
  priced more than one tick on the unfavourable side of it, or the market of its option is
  dark. So an order without a broker id or without a theoretical price is never cancelled,
  and a price on the favourable side of the theoretical one is no reason to cancel, however
  far away.\<close>

theorem staleness_pass_is_exact:
  assumes "staleness_check E ck tr = Inr tr'" "hm_ok (ts_our_orders (tr_state tr))"
  shows "(hm_get (ts_our_orders (tr_state tr')) key = Some ord \<longleftrightarrow>
       hm_get (ts_our_orders (tr_state tr)) key = Some ord \<and>
       \<not> cancel_due E (ck_utc ck) (tr_state tr) key ord) \<and>
     tr_ring tr' =
       fold (\<lambda>oid. write_frames (encode_frames E (CancelOrder \<lparr>cn_ts_ns = ck_wall ck, cn_order_id = oid\<rparr>)))
         (due_ids E (ck_utc ck) (tr_state tr)) (tr_ring tr) \<and>
     hm_get (ts_orderid_to_key (tr_state tr')) oid =
       (if oid \<in> set (due_ids E (ck_utc ck) (tr_state tr)) then None
        else hm_get (ts_orderid_to_key (tr_state tr)) oid)"
  using staleness_check_kept [OF assms] staleness_check_ids [OF assms(1)]
  by (auto simp: stale_cancel_ring stale_cancel_index)

text \<open>Three resting orders for the witness, with a theoretical price of 3/4: an acknowledged buy
  at 1, an acknowledged sell at 1 and a buy at 1 without an id.\<close>

definition demo_resting :: trader where
  "demo_resting =
     \<lparr>tr_state = demo_trader_state\<lparr>ts_our_orders :=
        [((Fin 6, ''20260526'', ''C'', ''B''),
           \<lparr>ro_price = Fin 1, ro_send_ns = 0, ro_place_monotonic_ns = 0, ro_order_id = Some 7\<rparr>),
         ((Fin 6, ''20260526'', ''C'', ''S''),
           \<lparr>ro_price = Fin 1, ro_send_ns = 0, ro_place_monotonic_ns = 0, ro_order_id = Some 8\<rparr>),
         ((Fin 6, ''20260526'', ''P'', ''B''),
           \<lparr>ro_price = Fin 1, ro_send_ns = 0, ro_place_monotonic_ns = 0, ro_order_id = None\<rparr>)]\<rparr>,
      tr_counters = counters_default, tr_ring = create_owner 64\<rparr>"

lemma demo_resting_state:
  "ts_our_orders (tr_state demo_resting) =
     [((Fin 6, ''20260526'', ''C'', ''B''),
        \<lparr>ro_price = Fin 1, ro_send_ns = 0, ro_place_monotonic_ns = 0, ro_order_id = Some 7\<rparr>),
      ((Fin 6, ''20260526'', ''C'', ''S''),
        \<lparr>ro_price = Fin 1, ro_send_ns = 0, ro_place_monotonic_ns = 0, ro_order_id = Some 8\<rparr>),
      ((Fin 6, ''20260526'', ''P'', ''B''),
        \<lparr>ro_price = Fin 1, ro_send_ns = 0, ro_place_monotonic_ns = 0, ro_order_id = None\<rparr>)]"
  "ts_options (tr_state demo_resting) = hm_new" "ts_tick_size (tr_state demo_resting) = half_mil"
  "tr_ring demo_resting = create_owner 64" "ck_utc demo_clocks = 75600 * 10 ^ 9" "ck_wall demo_clocks = 0"
  by (simp_all add: demo_resting_def demo_trader_state_def trader_new_def demo_clocks_def)

lemma demo_resting_theo:
  "resting_theo demo_trader_env (ck_utc demo_clocks) (tr_state demo_resting) (Fin 6, ''20260526'', ''C'', side) =
     Some (Fin (3 / 4))"
proof -
  have sf: "lookup_surface ''20260526'' ''C'' (tr_state demo_resting) =
      Some \<lparr>ve_forward = Fin 6, ve_params = demo_params\<rparr>"
    and y: "te_ymd demo_trader_env = (\<lambda>_ _ _. Some 365)"
    by (simp_all add: lookup_surface_def demo_resting_def demo_trader_state_def hm_get_def demo_trader_env_def)
  show ?thesis
    unfolding resting_theo_def prod.case sf y demo_resting_state demo_years
    by (simp only: prod.case option.case sum.case vol_surface_entry.select_convs demo_theo) simp
qed

lemma demo_resting_threshold:
  "fgt (fsub (Fin 1) (Fin (3 / 4))) (fmul (of_i 1) half_mil)"
  "\<not> fgt (fsub (Fin (3 / 4)) (Fin 1)) (fmul (of_i 1) half_mil)"
proof -
  have "is_finite (fsub (Fin 1) (Fin (3 / 4))) \<and> 1 / 5 \<le> val (fsub (Fin 1) (Fin (3 / 4)))"
    "is_finite (fsub (Fin (3 / 4)) (Fin 1)) \<and> val (fsub (Fin (3 / 4)) (Fin 1)) \<le> - 1 / 5"
    using fsub_abs_error [of "Fin 1" "Fin (3 / 4)"] fsub_abs_error [of "Fin (3 / 4)" "Fin 1"]
    unfolding abs_le_iff by auto
  with edge_near [of 1] show "fgt (fsub (Fin 1) (Fin (3 / 4))) (fmul (of_i 1) half_mil)"
    "\<not> fgt (fsub (Fin (3 / 4)) (Fin 1)) (fmul (of_i 1) half_mil)"
    unfolding abs_le_iff by auto
qed

lemma demo_resting_due:
  "cancel_due demo_trader_env (ck_utc demo_clocks) (tr_state demo_resting) (Fin 6, ''20260526'', ''C'', ''B'')
     \<lparr>ro_price = Fin 1, ro_send_ns = 0, ro_place_monotonic_ns = 0, ro_order_id = Some 7\<rparr>"
  "\<not> cancel_due demo_trader_env (ck_utc demo_clocks) (tr_state demo_resting) (Fin 6, ''20260526'', ''C'', ''S'')
     \<lparr>ro_price = Fin 1, ro_send_ns = 0, ro_place_monotonic_ns = 0, ro_order_id = Some 8\<rparr>"
  "\<not> cancel_due demo_trader_env (ck_utc demo_clocks) (tr_state demo_resting) (Fin 6, ''20260526'', ''P'', ''B'')
     \<lparr>ro_price = Fin 1, ro_send_ns = 0, ro_place_monotonic_ns = 0, ro_order_id = None\<rparr>"
  unfolding cancel_due_def demo_resting_theo unfavourable_def dark_on_rest_def prod.case demo_resting_state(2,3)
  using demo_resting_threshold by (simp_all add: hm.get_new)

lemma demo_resting_ids: "due_ids demo_trader_env (ck_utc demo_clocks) (tr_state demo_resting) = [7]"
  unfolding due_ids_def demo_resting_state(1)
  by (simp add: map_filter_def demo_resting_due del: One_nat_def)

lemma collect_returns: "(\<And>x. x \<in> set xs \<Longrightarrow> \<exists>r. f x = Inr r) \<Longrightarrow> \<exists>ys. collect f xs = Inr ys"
  by (induction xs) (force simp: and_then_def)+

lemma demo_resting_returns: "\<exists>tr'. staleness_check demo_trader_env demo_clocks demo_resting = Inr tr'"
proof -
  have y: "expiry_years (te_ymd demo_trader_env) (ck_utc demo_clocks) ''20260526'' = Inr (Some (Fin 1))"
    unfolding demo_resting_state using demo_years by (simp add: demo_trader_env_def)
  have st: "\<exists>r. stale_order demo_trader_env (ck_utc demo_clocks) (tr_state demo_resting)
      (k, ''20260526'', rc, sd) ord = Inr r" for k rc sd ord
    using y unfolding stale_order_def and_then_def by (auto split: option.splits prod.splits)
  have "\<exists>cs. stale_scan demo_trader_env (ck_utc demo_clocks) (tr_state demo_resting) = Inr cs"
    unfolding stale_scan_def by (rule collect_returns) (use st in \<open>auto simp: demo_resting_state(1)\<close>)
  then show ?thesis by (auto simp: staleness_check_def)
qed

theorem staleness_pass_is_exact_witness:
  "\<exists>tr'. staleness_check demo_trader_env demo_clocks demo_resting = Inr tr' \<and>
     tr_ring tr' = write_frames
       (encode_frames demo_trader_env (CancelOrder \<lparr>cn_ts_ns = 0, cn_order_id = 7\<rparr>)) (create_owner 64) \<and>
     hm_get (ts_our_orders (tr_state tr')) (Fin 6, ''20260526'', ''C'', ''B'') = None \<and>
     hm_get (ts_our_orders (tr_state tr')) (Fin 6, ''20260526'', ''C'', ''S'') \<noteq> None \<and>
     hm_get (ts_our_orders (tr_state tr')) (Fin 6, ''20260526'', ''P'', ''B'') \<noteq> None"
proof -
  obtain tr' where tr': "staleness_check demo_trader_env demo_clocks demo_resting = Inr tr'"
    using demo_resting_returns by blast
  have ok: "hm_ok (ts_our_orders (tr_state demo_resting))"
    by (simp add: demo_resting_state(1) hm_ok_def)
  note exact = staleness_pass_is_exact [OF tr' ok, unfolded demo_resting_ids demo_resting_state(4,6)]
  have g: "hm_get (ts_our_orders (tr_state demo_resting)) (Fin 6, ''20260526'', ''C'', ''B'') =
      Some \<lparr>ro_price = Fin 1, ro_send_ns = 0, ro_place_monotonic_ns = 0, ro_order_id = Some 7\<rparr>"
    "hm_get (ts_our_orders (tr_state demo_resting)) (Fin 6, ''20260526'', ''C'', ''S'') =
      Some \<lparr>ro_price = Fin 1, ro_send_ns = 0, ro_place_monotonic_ns = 0, ro_order_id = Some 8\<rparr>"
    "hm_get (ts_our_orders (tr_state demo_resting)) (Fin 6, ''20260526'', ''P'', ''B'') =
      Some \<lparr>ro_price = Fin 1, ro_send_ns = 0, ro_place_monotonic_ns = 0, ro_order_id = None\<rparr>"
    by (simp_all add: demo_resting_state(1) hm_get_def)
  have "hm_get (ts_our_orders (tr_state tr')) (Fin 6, ''20260526'', ''C'', ''B'') \<noteq> Some ord" for ord
    using exact [of "(Fin 6, ''20260526'', ''C'', ''B'')" ord] g(1) demo_resting_due(1) by auto
  moreover have "tr_ring tr' = write_frames
      (encode_frames demo_trader_env (CancelOrder \<lparr>cn_ts_ns = 0, cn_order_id = 7\<rparr>)) (create_owner 64)"
    using exact by simp
  ultimately show ?thesis
    using tr' exact [of "(Fin 6, ''20260526'', ''C'', ''S'')"] exact [of "(Fin 6, ''20260526'', ''P'', ''B'')"]
      g(2,3) demo_resting_due(2,3) by auto
qed

text \<open>The status of an old order takes its replacement out of the book: an order replaced close
  to its expiry is not cancelled and its id stays mapped to the quote, so when its own final
  status arrives, the new order is forgotten although it is acknowledged and resting.\<close>

theorem late_status_forgets_replacement:
  assumes "hm_get (ts_orderid_to_key s) old = Some (tick_key t side)" "old \<noteq> pa_order_id p"
    and "ack_key p = Some (tick_key t side)" "oa_order_id a = Some old" "oa_status a = Some status"
    and "terminal_status status"
  shows "let s2 = apply_place_ack ck' p (track_place ck t (Place side price None) s)
         in map_option ro_order_id (hm_get (ts_our_orders s2) (tick_key t side)) = Some (Some (pa_order_id p)) \<and>
            hm_get (ts_our_orders (apply_order_ack a s2)) (tick_key t side) = None"
  using assms by (simp add: Let_def apply_place_ack_def apply_order_ack_def hm.get_insert hm.get_remove)

theorem late_status_forgets_replacement_witness:
  "hm_get (ts_our_orders (apply_order_ack
     \<lparr>oa_order_id = Some 3, oa_status = Some ''Cancelled'', oa_side = None, oa_lmt_price = None, oa_order_ref = None\<rparr>
     (apply_place_ack demo_clocks demo_ack (track_place demo_clocks demo_tick (Place TBuy (Fin (1 / 2)) None)
        (trader_new\<lparr>ts_orderid_to_key := [(3, tick_key demo_tick TBuy)]\<rparr>))))) (tick_key demo_tick TBuy) = None"
proof -
  have k: "ack_key demo_ack = Some (tick_key demo_tick TBuy)" "pa_order_id demo_ack = 7"
    by (simp_all add: ack_key_def demo_ack_def tick_key_def demo_tick_def)
  show ?thesis
    using late_status_forgets_replacement [where t = demo_tick and side = TBuy and p = demo_ack and old = 3
        and s = "trader_new\<lparr>ts_orderid_to_key := [(3, tick_key demo_tick TBuy)]\<rparr>" and status = "''Cancelled''"
        and a = "\<lparr>oa_order_id = Some 3, oa_status = Some ''Cancelled'', oa_side = None, oa_lmt_price = None, oa_order_ref = None\<rparr>"
        and ck = demo_clocks and ck' = demo_clocks and price = "Fin (1 / 2)"] k
    by (simp add: hm_get_def terminal_status_def Let_def)
qed

end
