(* ===== verification/Codec.thy ===== *)
theory Codec
  imports Framing Trader_Pricing
begin

text \<open>
  The wire codec of the gateway socket (\<open>corsair_broker_ibkr_native\<close>: \<open>codec.rs\<close>,
  \<open>error.rs\<close>): fields terminated by a zero byte in a length-prefixed frame. The decoder is the
  second interpretation of the framing contract. The crates that print numbers, \<open>itoa\<close> and
  \<open>ryu\<close>, are parameters; the standard library's parsers are modelled. The text of an error is
  represented by its kind and the field it quotes.
\<close>

section \<open>error.rs\<close>

datatype native_error =
    NeIo string
  | NeLost string
  | NeNotConnected
  | NeProtocol string
  | NeServerVersionTooLow int int
  | NeHandshakeTimeout
  | NeMalformed string string

section \<open>Frames\<close>

definition max_message_bytes :: nat where
  "max_message_bytes = 16 * 1024 * 1024"

definition terminated :: "string list \<Rightarrow> byte list" where
  "terminated fs = concat (map (\<lambda>f. str_bytes f @ [0]) fs)"

definition length_prefixed :: "byte list \<Rightarrow> byte list" where
  "length_prefixed payload = be_bytes 4 (length payload mod 2 ^ 32) @ payload"

definition encode_fields :: "string list \<Rightarrow> byte list" where
  "encode_fields fs = length_prefixed (terminated fs)"

definition encode_owned :: "string list \<Rightarrow> byte list" where
  "encode_owned fs = encode_fields fs"

definition split_fields :: "byte list \<Rightarrow> string list" where
  "split_fields payload =
     (let fs = map from_utf8_lossy (split_at 0 payload)
      in if fs \<noteq> [] \<and> last fs = [] then butlast fs else fs)"

definition try_decode_frame :: "byte list \<Rightarrow> (native_error, string list) step_result" where
  "try_decode_frame buf =
     (if length buf < 4 then (Inr None, buf)
      else
        let size = from_be_bytes (take 4 buf)
        in if max_message_bytes < size then (Inl (NeProtocol ''oversize message''), buf)
           else if length buf < 4 + size then (Inr None, buf)
           else (Inr (Some (split_fields (take size (drop 4 buf)))), drop (4 + size) buf))"

lemma try_decode_step:
  "try_decode_frame = frame_step max_message_bytes (\<lambda>_. NeProtocol ''oversize message'') split_fields"
  by (rule ext) (simp add: try_decode_frame_def frame_step_def)

function try_decode_all :: "byte list \<Rightarrow> (native_error + string list list) \<times> byte list" where
  "try_decode_all buf =
     (case try_decode_frame buf of
        (Inl e, b) \<Rightarrow> (Inl e, b)
      | (Inr None, b) \<Rightarrow> (Inr [], b)
      | (Inr (Some x), b) \<Rightarrow>
          (case try_decode_all b of
             (Inl e, b') \<Rightarrow> (Inl e, b')
           | (Inr xs, b') \<Rightarrow> (Inr (x # xs), b')))"
  by pat_completeness auto
termination
  by (relation "measure length") (auto simp: try_decode_step dest!: frame_step_shrinks [OF sym])

declare try_decode_all.simps [simp del]

interpretation socket: framing length_prefixed split_fields max_message_bytes try_decode_frame try_decode_all
proof unfold_locales
  fix body rest buf more buf' :: "byte list" and x e
  show "length body \<le> max_message_bytes \<Longrightarrow>
      try_decode_frame (length_prefixed body @ rest) = (Inr (Some (split_fields body)), rest)"
    using frame_step_frame [of body max_message_bytes "\<lambda>_. NeProtocol ''oversize message''" split_fields rest]
    by (simp add: try_decode_step length_prefixed_def max_message_bytes_def)
  show "try_decode_frame [] = (Inr None, [])" by (simp add: try_decode_frame_def)
  show "try_decode_frame buf = (Inr (Some x), rest) \<Longrightarrow> try_decode_frame (buf @ more) = (Inr (Some x), rest @ more)"
    "try_decode_frame buf = (Inl e, rest) \<Longrightarrow> try_decode_frame (buf @ more) = (Inl e, rest @ more)"
    "try_decode_frame buf = (Inr None, buf') \<Longrightarrow> buf' = buf"
    "try_decode_frame buf = (Inr (Some x), rest) \<Longrightarrow> length rest < length buf"
    unfolding try_decode_step
    by (fact frame_step_more frame_step_error frame_step_stays frame_step_shrinks)+
qed (rule try_decode_all.simps)

section \<open>Numbers as text\<close>

text \<open>\<open>to_string\<close> of an integer.\<close>

definition digit_char :: "nat \<Rightarrow> char" where
  "digit_char d = char_of (48 + d)"

fun nat_digits :: "nat \<Rightarrow> string" where
  "nat_digits n = (if n < 10 then [digit_char n] else nat_digits (n div 10) @ [digit_char (n mod 10)])"

declare nat_digits.simps [simp del]

definition decimal :: "int \<Rightarrow> string" where
  "decimal v = (if v < 0 then CHR ''-'' # nat_digits (nat (- v)) else nat_digits (nat v))"

record number_format =
  nf_itoa :: "int \<Rightarrow> string"
  nf_ryu :: "f64 \<Rightarrow> string"

definition encode_handshake :: "int \<Rightarrow> int \<Rightarrow> byte list" where
  "encode_handshake min_version max_version =
     (let version = ''v'' @ decimal min_version @ ''..'' @ decimal max_version
      in str_bytes ''API'' @ [0] @ be_bytes 4 (length version mod 2 ^ 32) @ str_bytes version)"

definition encode_int :: "number_format \<Rightarrow> int \<Rightarrow> string" where
  "encode_int F v = nf_itoa F v"

definition encode_int64 :: "number_format \<Rightarrow> int \<Rightarrow> string" where
  "encode_int64 F v = nf_itoa F v"

definition encode_f64 :: "number_format \<Rightarrow> f64 \<Rightarrow> string" where
  "encode_f64 F v = (if is_infinite v then ''Infinite'' else nf_ryu F v)"

definition write_int :: "number_format \<Rightarrow> int \<Rightarrow> byte list \<Rightarrow> byte list" where
  "write_int F v buf = buf @ str_bytes (nf_itoa F v)"

definition write_int64 :: "number_format \<Rightarrow> int \<Rightarrow> byte list \<Rightarrow> byte list" where
  "write_int64 F v buf = buf @ str_bytes (nf_itoa F v)"

definition write_f64 :: "number_format \<Rightarrow> f64 \<Rightarrow> byte list \<Rightarrow> byte list" where
  "write_f64 F v buf =
     (if is_infinite v then buf @ str_bytes ''Infinite'' else buf @ str_bytes (nf_ryu F v))"

definition encode_bool :: "bool \<Rightarrow> string" where
  "encode_bool v = (if v then ''1'' else ''0'')"

definition encode_unset :: string where
  "encode_unset = []"

section \<open>Parsing numbers\<close>

definition parse_i64 :: "string \<Rightarrow> int option" where
  "parse_i64 = parse_integer (- (2 ^ 63)) (2 ^ 63 - 1)"

definition parse_int :: "string \<Rightarrow> native_error + int" where
  "parse_int s = (case parse_i32 s of Some v \<Rightarrow> Inr v | None \<Rightarrow> Inl (NeMalformed ''expected int'' s))"

definition parse_int64 :: "string \<Rightarrow> native_error + int" where
  "parse_int64 s = (case parse_i64 s of Some v \<Rightarrow> Inr v | None \<Rightarrow> Inl (NeMalformed ''expected int64'' s))"

text \<open>\<open>str::parse\<close> for \<open>f64\<close>: an optional sign, then an infinity or NaN in any case, or digits
  with an optional point and exponent, at least one digit in all; the value is correctly
  rounded.\<close>

definition is_digit_char :: "char \<Rightarrow> bool" where
  "is_digit_char c \<longleftrightarrow> 48 \<le> (of_char c :: nat) \<and> (of_char c :: nat) \<le> 57"

definition ascii_lower :: "char \<Rightarrow> char" where
  "ascii_lower c =
     (if 65 \<le> (of_char c :: nat) \<and> (of_char c :: nat) \<le> 90 then char_of (of_char c + 32 :: nat) else c)"

definition parse_exponent :: "string \<Rightarrow> int option" where
  "parse_exponent s =
     (case s of
        [] \<Rightarrow> Some 0
      | c # cs \<Rightarrow>
          (if ascii_lower c \<noteq> CHR ''e'' then None
           else
             let (neg, body) = (case cs of
                  d # ds \<Rightarrow> (if d = CHR ''+'' then (False, ds) else if d = CHR ''-'' then (True, ds) else (False, cs))
                | [] \<Rightarrow> (False, cs))
             in if body = [] then None
                else map_option (\<lambda>v. if neg then - v else v) (digits_value 0 body)))"

definition pow10 :: "int \<Rightarrow> rat" where
  "pow10 e = (if 0 \<le> e then 10 ^ nat e else 1 / 10 ^ nat (- e))"

definition parse_unsigned_f64 :: "string \<Rightarrow> f64 option" where
  "parse_unsigned_f64 s =
     (let low = map ascii_lower s in
      if low = ''inf'' \<or> low = ''infinity'' then Some PInf
      else if low = ''nan'' then Some NaN
      else
        let whole = takeWhile is_digit_char s;
            rest = drop (length whole) s;
            frac = (case rest of c # cs \<Rightarrow> if c = CHR ''.'' then takeWhile is_digit_char cs else [] | [] \<Rightarrow> []);
            tail = (case rest of c # cs \<Rightarrow> if c = CHR ''.'' then drop (length frac) cs else rest | [] \<Rightarrow> rest)
        in if whole = [] \<and> frac = [] then None
           else (case (digits_value 0 (whole @ frac), parse_exponent tail) of
                   (Some m, Some e) \<Rightarrow> Some (rnd (of_int m * pow10 (e - int (length frac))))
                 | _ \<Rightarrow> None))"

definition parse_std_f64 :: "string \<Rightarrow> f64 option" where
  "parse_std_f64 s =
     (case s of
        [] \<Rightarrow> None
      | c # cs \<Rightarrow>
          (if c = CHR ''-'' then
             map_option (\<lambda>x. if x = Fin 0 then NZero else fneg x) (parse_unsigned_f64 cs)
           else parse_unsigned_f64 (if c = CHR ''+'' then cs else s)))"

definition parse_f64 :: "string \<Rightarrow> native_error + f64" where
  "parse_f64 s =
     (if s = [] then Inr fzero
      else if s = ''Infinite'' then Inr PInf
      else (case parse_std_f64 s of
              Some v \<Rightarrow> Inr v
            | None \<Rightarrow> Inl (NeMalformed ''expected f64'' s)))"

definition parse_bool :: "string \<Rightarrow> bool" where
  "parse_bool s \<longleftrightarrow> s = ''1'' \<or> map ascii_lower s = ''true''"

section \<open>Lemmas\<close>

text \<open>Text a field can carry: valid UTF-8 without a zero byte.\<close>

definition field_ok :: "string \<Rightarrow> bool" where
  "field_ok s \<longleftrightarrow> from_utf8_lossy (str_bytes s) = s \<and> CHR 0x00 \<notin> set s"

lemma field_ok_ascii: "ascii s \<Longrightarrow> CHR 0x00 \<notin> set s \<Longrightarrow> field_ok s"
  by (simp add: field_ok_def from_utf8_lossy_ascii)

lemma split_fields_terminated:
  assumes "\<forall>f \<in> set fs. field_ok f"
  shows "split_fields (terminated fs) = fs"
proof -
  have z: "\<forall>p \<in> set (map str_bytes fs). (0::byte) \<notin> set p"
    using assms by (auto simp: field_ok_def str_bytes_def char_byte_zero)
  have "split_at 0 (terminated fs) = map str_bytes fs @ [[]]"
    using split_at_concat [OF z] by (simp add: terminated_def comp_def)
  moreover have "map (from_utf8_lossy \<circ> str_bytes) fs = fs"
    using assms by (auto simp: field_ok_def intro: map_idI)
  moreover have "from_utf8_lossy [] = []" by (simp add: from_utf8_lossy_def bytes_str_def)
  ultimately show ?thesis by (simp add: split_fields_def Let_def)
qed

lemma digit_char_value: "d < 10 \<Longrightarrow> of_char (digit_char d) = (48 + d :: nat)"
  by (simp add: digit_char_def)

lemma digits_value_append:
  "digits_value acc (xs @ ys) = (case digits_value acc xs of None \<Rightarrow> None | Some v \<Rightarrow> digits_value v ys)"
  by (induction acc xs rule: digits_value.induct) auto

lemma digits_value_nat: "digits_value 0 (nat_digits n) = Some (int n)"
proof (induction n rule: nat_digits.induct)
  case (1 n)
  have d: "digits_value acc [digit_char d] = Some (10 * acc + int d)" if "d < 10" for acc d
  proof -
    have "(of_char (digit_char d) :: int) = 48 + int d"
      using digit_char_value [OF that] by (metis of_nat_add of_nat_numeral of_nat_of_char)
    then show ?thesis using digit_char_value [OF that] that by simp
  qed
  show ?case
  proof (cases "n < 10")
    case True
    then show ?thesis by (subst nat_digits.simps) (simp add: d del: digits_value.simps)
  next
    case False
    have "n = 10 * (n div 10) + n mod 10" by simp
    then have "int n = 10 * int (n div 10) + int (n mod 10)" by presburger
    with False 1 show ?thesis by (subst nat_digits.simps) (simp add: digits_value_append d del: digits_value.simps)
  qed
qed

lemma nat_digits_chars: "c \<in> set (nat_digits n) \<Longrightarrow> 48 \<le> (of_char c :: nat) \<and> (of_char c :: nat) \<le> 57"
proof (induction n rule: nat_digits.induct)
  case (1 n)
  have d: "48 \<le> (of_char (digit_char d) :: nat) \<and> (of_char (digit_char d) :: nat) \<le> 57" if "d < 10" for d
    using digit_char_value [OF that] that by simp
  show ?case
    using 1 d [of n] d [of "n mod 10"] by (subst (asm) (2) nat_digits.simps) (auto split: if_splits)
qed

lemma nat_digits_Cons: "\<exists>c cs. nat_digits n = c # cs \<and> 48 \<le> (of_char c :: nat) \<and> (of_char c :: nat) \<le> 57"
proof -
  have "nat_digits n \<noteq> []" by (subst nat_digits.simps) simp
  then obtain c cs where "nat_digits n = c # cs" by (cases "nat_digits n") simp_all
  then show ?thesis using nat_digits_chars [of c n] by auto
qed

lemma parse_integer_decimal:
  assumes "lo \<le> v" "v \<le> hi"
  shows "parse_integer lo hi (decimal v) = Some v"
proof (cases "v < 0")
  case True
  obtain c cs where n: "nat_digits (nat (- v)) = c # cs" using nat_digits_Cons by blast
  have "digits_value 0 (c # cs) = Some (- v)" using digits_value_nat [of "nat (- v)"] True unfolding n by simp
  with True assms n show ?thesis by (simp add: decimal_def parse_integer_def)
next
  case False
  obtain c cs where n: "nat_digits (nat v) = c # cs" and c: "48 \<le> (of_char c :: nat)" "(of_char c :: nat) \<le> 57"
    using nat_digits_Cons by blast
  have "c \<noteq> CHR ''+''" "c \<noteq> CHR ''-''" using c by auto
  moreover have "digits_value 0 (c # cs) = Some v" using digits_value_nat [of "nat v"] False unfolding n by simp
  ultimately show ?thesis using False assms n by (simp add: decimal_def parse_integer_def)
qed

lemma decimal_field: "field_ok (decimal v)"
proof (rule field_ok_ascii)
  have "c \<in> set (decimal v) \<Longrightarrow> c = CHR ''-'' \<or> 48 \<le> (of_char c :: nat) \<and> (of_char c :: nat) \<le> 57" for c
    using nat_digits_chars by (auto simp: decimal_def split: if_splits)
  then show "ascii (decimal v)" "CHR 0x00 \<notin> set (decimal v)" by (fastforce simp: ascii_def)+
qed

lemma feed_fields:
  assumes "\<forall>m \<in> set messages. (\<forall>f \<in> set m. field_ok f) \<and> length (terminated m) \<le> max_message_bytes"
    and "concat chunks = concat (map encode_fields messages)"
  shows "socket.feed [] chunks = (Inr messages, [])"
proof -
  have d: "map split_fields (map terminated messages) = messages"
    using assms(1) split_fields_terminated by (auto intro: map_idI)
  have e: "map encode_fields messages = map length_prefixed (map terminated messages)" by (simp add: encode_fields_def)
  have "try_decode_all ([] @ concat chunks) = (Inr messages, [])"
    using socket.decode_all_frames [of "map terminated messages", OF _ socket.try1_nil] assms d e by auto
  then show ?thesis
    by (rule socket.feed_chunks [OF socket.decode_all_incomplete [OF socket.try1_nil]])
qed

section \<open>Properties\<close>

text \<open>Frames survive the wire: a list of fields that are valid text without zero bytes, encoded
  and followed by anything, decodes to the same fields and leaves the rest; an unfinished
  frame is left alone; and whatever the chunks a sequence of such messages arrives in, the
  receiver that decodes after every chunk obtains all of them in order.\<close>

theorem encoded_fields_decode:
  assumes "\<forall>m \<in> set messages. (\<forall>f \<in> set m. field_ok f) \<and> length (terminated m) \<le> max_message_bytes"
    and "concat chunks = concat (map encode_fields messages)"
  shows "socket.feed [] chunks = (Inr messages, []) \<and>
     (\<forall>m \<in> set messages. \<forall>rest. try_decode_frame (encode_fields m @ rest) = (Inr (Some m), rest))"
proof -
  have "try_decode_frame (encode_fields m @ rest) = (Inr (Some m), rest)" if "m \<in> set messages" for m rest
    using that assms(1) socket.try1_frame [of "terminated m" rest] split_fields_terminated [of m]
    by (simp add: encode_fields_def)
  then show ?thesis using feed_fields [OF assms] by blast
qed

theorem encoded_fields_decode_witness:
  "socket.feed [] [take 3 (encode_fields [''9'', ''1'', ''42'']), drop 3 (encode_fields [''9'', ''1'', ''42''])] =
     (Inr [[''9'', ''1'', ''42'']], [])"
proof -
  have "\<forall>f \<in> set [''9'', ''1'', ''42'']. field_ok f"
    by (simp add: field_ok_ascii ascii_def)
  moreover have "length (terminated [''9'', ''1'', ''42'']) \<le> max_message_bytes"
    by (simp add: terminated_def str_bytes_def max_message_bytes_def)
  ultimately show ?thesis
    using encoded_fields_decode [of "[[''9'', ''1'', ''42'']]"
        "[take 3 (encode_fields [''9'', ''1'', ''42'']), drop 3 (encode_fields [''9'', ''1'', ''42''])]"]
    by simp
qed

text \<open>Integers survive the wire: with a printer that prints decimal numbers, an encoded 32-bit
  or 64-bit integer is parsed back to itself, and its text is a valid field.\<close>

theorem encoded_int_parses:
  assumes "nf_itoa F v = decimal v"
  shows "(in_i32 v \<longrightarrow> parse_int (encode_int F v) = Inr v) \<and>
     (- (2 ^ 63) \<le> v \<and> v < 2 ^ 63 \<longrightarrow> parse_int64 (encode_int64 F v) = Inr v) \<and>
     field_ok (encode_int F v)"
  using assms parse_integer_decimal [of "- (2 ^ 31)" v "2 ^ 31 - 1"]
    parse_integer_decimal [of "- (2 ^ 63)" v "2 ^ 63 - 1"] decimal_field [of v]
  by (simp add: parse_int_def parse_int64_def parse_i32_def parse_i64_def encode_int_def encode_int64_def in_i32_def)

theorem encoded_int_parses_witness:
  "parse_int (encode_int \<lparr>nf_itoa = decimal, nf_ryu = \<lambda>_. []\<rparr> (- 42)) = Inr (- 42)"
  using encoded_int_parses [of "\<lparr>nf_itoa = decimal, nf_ryu = \<lambda>_. []\<rparr>" "- 42"] by (simp add: in_i32_def)

end
