(* ===== verification/Gateway_Requests.thy ===== *)
theory Gateway_Requests
  imports Codec
begin

text \<open>
  The requests of the gateway client (\<open>corsair_broker_ibkr_native\<close>): the message numbers of
  \<open>messages.rs\<close>, the encoders of \<open>requests.rs\<close> and the pre-encoded order template of
  \<open>place_template.rs\<close>. Field order is the protocol, so every encoder keeps its list of fields
  as the code writes it. Orders are sent through the template; the field-by-field encoder is the
  reference it must agree with.
\<close>

section \<open>messages.rs\<close>

definition out_req_mkt_data :: int where "out_req_mkt_data = 1"
definition out_cancel_mkt_data :: int where "out_cancel_mkt_data = 2"
definition out_place_order :: int where "out_place_order = 3"
definition out_cancel_order :: int where "out_cancel_order = 4"
definition out_req_open_orders :: int where "out_req_open_orders = 5"
definition out_req_acct_data :: int where "out_req_acct_data = 6"
definition out_req_executions :: int where "out_req_executions = 7"
definition out_req_ids :: int where "out_req_ids = 8"
definition out_req_contract_data :: int where "out_req_contract_data = 9"
definition out_req_auto_open_orders :: int where "out_req_auto_open_orders = 15"
definition out_req_all_open_orders :: int where "out_req_all_open_orders = 16"
definition out_req_managed_accts :: int where "out_req_managed_accts = 17"
definition out_req_positions :: int where "out_req_positions = 61"
definition out_cancel_positions :: int where "out_cancel_positions = 64"
definition out_start_api :: int where "out_start_api = 71"
definition in_tick_price :: int where "in_tick_price = 1"
definition in_tick_size :: int where "in_tick_size = 2"
definition in_order_status :: int where "in_order_status = 3"
definition in_err_msg :: int where "in_err_msg = 4"
definition in_open_order :: int where "in_open_order = 5"
definition in_acct_value :: int where "in_acct_value = 6"
definition in_portfolio_value :: int where "in_portfolio_value = 7"
definition in_acct_update_time :: int where "in_acct_update_time = 8"
definition in_next_valid_id :: int where "in_next_valid_id = 9"
definition in_contract_data :: int where "in_contract_data = 10"
definition in_execution_data :: int where "in_execution_data = 11"
definition in_managed_accts :: int where "in_managed_accts = 15"
definition in_tick_option_computation :: int where "in_tick_option_computation = 21"
definition in_tick_generic :: int where "in_tick_generic = 45"
definition in_tick_string :: int where "in_tick_string = 46"
definition in_current_time :: int where "in_current_time = 49"
definition in_commission_report :: int where "in_commission_report = 59"
definition in_position_data :: int where "in_position_data = 61"
definition in_position_end :: int where "in_position_end = 62"
definition in_open_order_end :: int where "in_open_order_end = 53"
definition in_account_download_end :: int where "in_account_download_end = 54"
definition in_execution_data_end :: int where "in_execution_data_end = 55"
definition in_tick_req_params :: int where "in_tick_req_params = 81"
definition min_server_version :: int where "min_server_version = 176"
definition max_client_version :: int where "max_client_version = 178"

lemmas message_ids = out_req_mkt_data_def out_cancel_mkt_data_def out_place_order_def out_cancel_order_def
  out_req_open_orders_def out_req_acct_data_def out_req_executions_def out_req_ids_def
  out_req_contract_data_def out_req_auto_open_orders_def out_req_all_open_orders_def out_req_managed_accts_def
  out_req_positions_def out_cancel_positions_def out_start_api_def in_tick_price_def
  in_tick_size_def in_order_status_def in_err_msg_def in_open_order_def
  in_acct_value_def in_portfolio_value_def in_acct_update_time_def in_next_valid_id_def
  in_contract_data_def in_execution_data_def in_managed_accts_def in_tick_option_computation_def
  in_tick_generic_def in_tick_string_def in_current_time_def in_commission_report_def
  in_position_data_def in_position_end_def in_open_order_end_def in_account_download_end_def
  in_execution_data_end_def in_tick_req_params_def min_server_version_def max_client_version_def

section \<open>requests.rs\<close>

record contract_request =
  cr_con_id :: int
  cr_symbol :: string
  cr_sec_type :: string
  cr_last_trade_date :: string
  cr_strike :: f64
  cr_right :: string
  cr_multiplier :: string
  cr_exchange :: string
  cr_primary_exchange :: string
  cr_currency :: string
  cr_local_symbol :: string
  cr_trading_class :: string

record place_order_params =
  pp_action :: string
  pp_total_quantity :: f64
  pp_order_type :: string
  pp_lmt_price :: f64
  pp_aux_price :: f64
  pp_tif :: string
  pp_good_till_date :: string
  pp_account :: string
  pp_order_ref :: string
  pp_outside_rth :: bool

record execution_filter =
  ef_client_id :: int
  ef_account :: string
  ef_time :: string
  ef_symbol :: string
  ef_sec_type :: string
  ef_exchange :: string
  ef_side :: string

definition request_frame :: "string list \<Rightarrow> byte list" where
  "request_frame fs = encode_owned fs"

definition req_account_updates :: "number_format \<Rightarrow> bool \<Rightarrow> string \<Rightarrow> byte list" where
  "req_account_updates F subscribe account =
     request_frame
      [encode_int F out_req_acct_data, ''2'', encode_bool subscribe, account]"

definition req_positions :: "number_format \<Rightarrow> byte list" where
  "req_positions F =
     request_frame
      [encode_int F out_req_positions, ''1'']"

definition cancel_positions :: "number_format \<Rightarrow> byte list" where
  "cancel_positions F =
     request_frame
      [encode_int F out_cancel_positions, ''1'']"

definition req_open_orders :: "number_format \<Rightarrow> byte list" where
  "req_open_orders F =
     request_frame
      [encode_int F out_req_open_orders, ''1'']"

definition req_all_open_orders :: "number_format \<Rightarrow> byte list" where
  "req_all_open_orders F =
     request_frame
      [encode_int F out_req_all_open_orders, ''1'']"

definition req_auto_open_orders :: "number_format \<Rightarrow> bool \<Rightarrow> byte list" where
  "req_auto_open_orders F auto_bind =
     request_frame
      [encode_int F out_req_auto_open_orders, ''1'', encode_bool auto_bind]"

definition req_managed_accounts :: "number_format \<Rightarrow> byte list" where
  "req_managed_accounts F =
     request_frame
      [encode_int F out_req_managed_accts, ''1'']"

definition req_ids :: "number_format \<Rightarrow> int \<Rightarrow> byte list" where
  "req_ids F num =
     request_frame
      [encode_int F out_req_ids, ''1'', encode_int F num]"

definition req_contract_details :: "number_format \<Rightarrow> int \<Rightarrow> contract_request \<Rightarrow> byte list" where
  "req_contract_details F req_id c =
     request_frame
      [encode_int F out_req_contract_data, ''8'', encode_int F req_id, encode_int64 F (cr_con_id c),
      cr_symbol c, cr_sec_type c, cr_last_trade_date c, encode_f64 F (cr_strike c), cr_right c,
      cr_multiplier c, cr_exchange c, cr_primary_exchange c, cr_currency c, cr_local_symbol c,
      cr_trading_class c, encode_bool False, encode_unset, encode_unset, encode_unset]"

definition req_mkt_data :: "number_format \<Rightarrow> int \<Rightarrow> contract_request \<Rightarrow> string \<Rightarrow> bool \<Rightarrow> bool \<Rightarrow> byte list" where
  "req_mkt_data F req_id c generic_tick_list snapshot regulatory_snapshot =
     request_frame
      [encode_int F out_req_mkt_data, ''11'', encode_int F req_id, encode_int64 F (cr_con_id c),
      cr_symbol c, cr_sec_type c, cr_last_trade_date c, encode_f64 F (cr_strike c), cr_right c,
      cr_multiplier c, cr_exchange c, cr_primary_exchange c, cr_currency c, cr_local_symbol c,
      cr_trading_class c, encode_unset, generic_tick_list, encode_bool snapshot,
      encode_bool regulatory_snapshot, encode_unset]"

definition cancel_mkt_data :: "number_format \<Rightarrow> int \<Rightarrow> byte list" where
  "cancel_mkt_data F req_id =
     request_frame
      [encode_int F out_cancel_mkt_data, ''2'', encode_int F req_id]"

definition place_order_fields :: "number_format \<Rightarrow> int \<Rightarrow> contract_request \<Rightarrow> place_order_params \<Rightarrow> string list" where
  "place_order_fields F order_id c p =
     [encode_int F out_place_order, encode_int F order_id, encode_int64 F (cr_con_id c),
      cr_symbol c, cr_sec_type c, cr_last_trade_date c, encode_f64 F (cr_strike c), cr_right c,
      cr_multiplier c, cr_exchange c, cr_primary_exchange c, cr_currency c, cr_local_symbol c,
      cr_trading_class c, encode_unset, encode_unset, pp_action p,
      encode_f64 F (pp_total_quantity p), pp_order_type p, encode_f64 F (pp_lmt_price p),
      encode_f64 F (pp_aux_price p), pp_tif p, encode_unset, pp_account p, encode_unset,
      encode_int F 0, pp_order_ref p, encode_bool True, encode_int F 0, encode_bool False,
      encode_bool False, encode_int F 0, encode_int F 0, encode_bool (pp_outside_rth p),
      encode_bool False, encode_unset, encode_f64 F fzero, pp_good_till_date p, encode_unset,
      encode_unset, encode_unset, encode_unset, encode_unset, encode_unset, encode_unset,
      encode_unset, encode_int F (- 1), encode_int F 0, encode_unset, encode_unset,
      encode_bool False, encode_unset, encode_unset, encode_bool False, encode_bool False,
      encode_unset, encode_int F 0, encode_unset, encode_unset, encode_unset, encode_unset,
      encode_unset, encode_bool False, encode_unset, encode_unset, encode_unset, encode_unset,
      encode_unset, encode_unset, encode_unset, encode_unset, encode_unset, encode_unset,
      encode_unset, encode_unset, encode_unset, encode_unset, encode_unset, encode_bool False,
      encode_bool False, encode_unset, encode_bool False, encode_unset, encode_unset,
      encode_bool False, encode_bool False, encode_unset, encode_bool False, encode_unset,
      encode_unset, encode_unset, encode_int F 0, encode_unset, encode_unset, encode_unset,
      encode_unset, encode_unset, encode_unset, encode_unset, encode_unset, encode_int F 0,
      encode_unset, encode_unset, encode_unset, encode_unset, encode_unset, encode_unset,
      encode_unset, encode_unset, encode_bool False, encode_bool False, encode_bool False,
      encode_unset, encode_int F 0, encode_int F 0, encode_unset, encode_unset, encode_unset]"

definition req_place_order :: "number_format \<Rightarrow> int \<Rightarrow> contract_request \<Rightarrow> place_order_params \<Rightarrow> byte list" where
  "req_place_order F order_id c p = encode_owned (place_order_fields F order_id c p)"

definition req_cancel_order :: "number_format \<Rightarrow> int \<Rightarrow> byte list" where
  "req_cancel_order F order_id =
     request_frame
      [encode_int F out_cancel_order, ''1'', encode_int F order_id, encode_unset]"

definition req_executions :: "number_format \<Rightarrow> int \<Rightarrow> execution_filter \<Rightarrow> byte list" where
  "req_executions F req_id f =
     request_frame
      [encode_int F out_req_executions, ''3'', encode_int F req_id, encode_int F (ef_client_id f),
      ef_account f, ef_time f, ef_symbol f, ef_sec_type f, ef_exchange f, ef_side f]"

section \<open>place_template.rs\<close>

definition encode_int_long :: "int \<Rightarrow> string" where
  "encode_int_long v = decimal v"

definition from_contract :: "number_format \<Rightarrow> contract_request \<Rightarrow> byte list" where
  "from_contract F c =
     terminated
      [encode_int_long (cr_con_id c), cr_symbol c, cr_sec_type c, cr_last_trade_date c,
      encode_f64 F (cr_strike c), cr_right c, cr_multiplier c, cr_exchange c,
      cr_primary_exchange c, cr_currency c, cr_local_symbol c, cr_trading_class c, encode_unset,
      encode_unset]"

definition trailing_bytes :: "number_format \<Rightarrow> byte list" where
  "trailing_bytes F =
     terminated
      [encode_int F (- 1), encode_int F 0, encode_unset, encode_unset, encode_bool False,
      encode_unset, encode_unset, encode_bool False, encode_bool False, encode_unset,
      encode_int F 0, encode_unset, encode_unset, encode_unset, encode_unset, encode_unset,
      encode_bool False, encode_unset, encode_unset, encode_unset, encode_unset, encode_unset,
      encode_unset, encode_unset, encode_unset, encode_unset, encode_unset, encode_unset,
      encode_unset, encode_unset, encode_unset, encode_unset, encode_bool False, encode_bool False,
      encode_unset, encode_bool False, encode_unset, encode_unset, encode_bool False,
      encode_bool False, encode_unset, encode_bool False, encode_unset, encode_unset, encode_unset,
      encode_int F 0, encode_unset, encode_unset, encode_unset, encode_unset, encode_unset,
      encode_unset, encode_unset, encode_unset, encode_int F 0, encode_unset, encode_unset,
      encode_unset, encode_unset, encode_unset, encode_unset, encode_unset, encode_unset,
      encode_bool False, encode_bool False, encode_bool False, encode_unset, encode_int F 0,
      encode_int F 0, encode_unset, encode_unset, encode_unset]"

definition push_field :: "byte list \<Rightarrow> byte list \<Rightarrow> byte list" where
  "push_field buf bytes = buf @ bytes @ [0]"

definition place_order_fast :: "number_format \<Rightarrow> int \<Rightarrow> byte list \<Rightarrow> place_order_params \<Rightarrow> byte list" where
  "place_order_fast F order_id template p =
     (let buf = write_int F out_place_order [];
          buf = buf @ [0];
          buf = write_int F order_id buf;
          buf = buf @ [0];
          buf = buf @ template;
          buf = push_field buf (str_bytes (pp_action p));
          buf = write_f64 F (pp_total_quantity p) buf;
          buf = buf @ [0];
          buf = push_field buf (str_bytes (pp_order_type p));
          buf = write_f64 F (pp_lmt_price p) buf;
          buf = buf @ [0];
          buf = write_f64 F (pp_aux_price p) buf;
          buf = buf @ [0];
          buf = push_field buf (str_bytes (pp_tif p));
          buf = push_field buf (str_bytes []);
          buf = push_field buf (str_bytes (pp_account p));
          buf = push_field buf (str_bytes []);
          buf = push_field buf (str_bytes ''0'');
          buf = push_field buf (str_bytes (pp_order_ref p));
          buf = push_field buf (str_bytes ''1'');
          buf = push_field buf (str_bytes ''0'');
          buf = push_field buf (str_bytes ''0'');
          buf = push_field buf (str_bytes ''0'');
          buf = push_field buf (str_bytes ''0'');
          buf = push_field buf (str_bytes ''0'');
          buf = push_field buf (str_bytes (if pp_outside_rth p then ''1'' else ''0''));
          buf = push_field buf (str_bytes ''0'');
          buf = push_field buf (str_bytes []);
          buf = write_f64 F fzero buf;
          buf = buf @ [0];
          buf = push_field buf (str_bytes (pp_good_till_date p));
          buf = push_field buf (str_bytes []);
          buf = push_field buf (str_bytes []);
          buf = push_field buf (str_bytes []);
          buf = push_field buf (str_bytes []);
          buf = push_field buf (str_bytes []);
          buf = push_field buf (str_bytes []);
          buf = push_field buf (str_bytes []);
          buf = push_field buf (str_bytes []);
          buf = buf @ trailing_bytes F
      in length_prefixed buf)"

section \<open>Lemmas\<close>

text \<open>What the printers promise: \<open>itoa\<close> prints integers in decimal, \<open>ryu\<close> prints plain text.\<close>

definition prints_numbers :: "number_format \<Rightarrow> bool" where
  "prints_numbers F \<longleftrightarrow> (\<forall>v. nf_itoa F v = decimal v) \<and> (\<forall>x. field_ok (nf_ryu F x))"

definition contract_text_ok :: "contract_request \<Rightarrow> bool" where
  "contract_text_ok c \<longleftrightarrow>
     (\<forall>s \<in> {cr_symbol c, cr_sec_type c, cr_last_trade_date c, cr_right c, cr_multiplier c, cr_exchange c,
       cr_primary_exchange c, cr_currency c, cr_local_symbol c, cr_trading_class c}. field_ok s)"

definition order_text_ok :: "place_order_params \<Rightarrow> bool" where
  "order_text_ok p \<longleftrightarrow>
     (\<forall>s \<in> {pp_action p, pp_order_type p, pp_tif p, pp_good_till_date p, pp_account p, pp_order_ref p}. field_ok s)"

lemma field_ok_simps [simp]:
  "field_ok []" "field_ok encode_unset" "field_ok (encode_bool b)" "field_ok (decimal v)" "field_ok ''Infinite''"
  by (simp_all add: encode_unset_def encode_bool_def field_ok_ascii ascii_def decimal_field)

lemma prints_field_ok:
  assumes "prints_numbers F"
  shows "field_ok (encode_int F v)" "field_ok (encode_int64 F v)" "field_ok (encode_f64 F x)"
  using assms by (simp_all add: prints_numbers_def encode_int_def encode_int64_def encode_f64_def)

lemma terminated_simps:
  "terminated [] = []" "terminated (f # fs) = str_bytes f @ 0 # terminated fs"
  by (simp_all add: terminated_def)

lemma digit_char_table:
  "digit_char 0 = CHR ''0''" "digit_char 1 = CHR ''1''" "digit_char 2 = CHR ''2''" "digit_char 3 = CHR ''3''"
  "digit_char 4 = CHR ''4''" "digit_char 5 = CHR ''5''" "digit_char 6 = CHR ''6''" "digit_char 7 = CHR ''7''"
  "digit_char 8 = CHR ''8''" "digit_char 9 = CHR ''9''" "digit_char (Suc 0) = CHR ''1''"
  by code_simp+

lemma decimal_zero: "decimal 0 = ''0''"
proof -
  have "nat_digits 0 = ''0''" by (simp add: nat_digits.simps digit_char_table)
  then show ?thesis by (simp add: decimal_def)
qed

lemma write_int_bytes: "write_int F v buf = buf @ str_bytes (encode_int F v)"
  by (simp add: write_int_def encode_int_def)

lemma write_f64_bytes: "write_f64 F x buf = buf @ str_bytes (encode_f64 F x)"
  by (simp add: write_f64_def encode_f64_def)

lemma prints_int_parses: "prints_numbers F \<Longrightarrow> in_i32 v \<Longrightarrow> parse_int (encode_int F v) = Inr v"
  using parse_integer_decimal [of "- (2 ^ 31)" v "2 ^ 31 - 1"]
  by (simp add: prints_numbers_def encode_int_def parse_int_def parse_i32_def in_i32_def)

lemma trailing_split:
  "terminated (place_order_fields F order_id c p) =
   str_bytes (encode_int F out_place_order) @ 0 # str_bytes (encode_int F order_id) @ 0 #
   terminated (take 14 (drop 2 (place_order_fields F order_id c p))) @
   terminated (take 30 (drop 16 (place_order_fields F order_id c p))) @ trailing_bytes F"
  by (simp add: place_order_fields_def trailing_bytes_def terminated_simps)

lemma place_order_fields_ok:
  assumes "prints_numbers F" "contract_text_ok c" "order_text_ok p"
  shows "\<forall>f \<in> set (place_order_fields F order_id c p). field_ok f"
  using assms(2,3) prints_field_ok [OF assms(1)]
  by (simp add: place_order_fields_def contract_text_ok_def order_text_ok_def)

lemma fast_place_order:
  assumes "prints_numbers F"
  shows "place_order_fast F order_id (from_contract F c) p = req_place_order F order_id c p"
proof -
  have i: "encode_int F v = decimal v" "encode_int64 F v = decimal v" for v
    using assms by (simp_all add: prints_numbers_def encode_int_def encode_int64_def)
  have "from_contract F c = terminated (take 14 (drop 2 (place_order_fields F order_id c p)))"
    by (simp add: from_contract_def place_order_fields_def encode_int_long_def i)
  then show ?thesis
    unfolding req_place_order_def encode_owned_def encode_fields_def trailing_split place_order_fast_def Let_def
    by (simp add: place_order_fields_def push_field_def write_int_bytes write_f64_bytes terminated_simps
        i decimal_zero encode_unset_def encode_bool_def str_bytes_def)
qed

lemma place_order_decodes:
  assumes "prints_numbers F" "contract_text_ok c" "order_text_ok p"
    and "length (terminated (place_order_fields F order_id c p)) \<le> max_message_bytes"
  shows "try_decode_frame (place_order_fast F order_id (from_contract F c) p @ rest) =
     (Inr (Some (place_order_fields F order_id c p)), rest)"
  using socket.try1_frame [OF assms(4), of rest] split_fields_terminated [OF place_order_fields_ok [OF assms(1-3)]]
  by (simp add: fast_place_order [OF assms(1)] req_place_order_def encode_owned_def encode_fields_def)

section \<open>Properties\<close>

text \<open>C33. The pre-encoded order template is an optimisation only: for every order number, contract
  and order, splicing the cached contract bytes, the dynamic fields and the cached trailing
  constants gives byte for byte the frame that the field-by-field encoder builds, when the
  integer printer prints decimal numbers as the standard library does.\<close>

theorem template_matches_reference:
  assumes "prints_numbers F"
  shows "place_order_fast F order_id (from_contract F c) p = req_place_order F order_id c p"
  using assms by (rule fast_place_order)

definition demo_format :: number_format where
  "demo_format = \<lparr>nf_itoa = decimal, nf_ryu = (\<lambda>_. ''0.5'')\<rparr>"

definition demo_contract :: contract_request where
  "demo_contract = \<lparr>cr_con_id = 42, cr_symbol = ''HG'', cr_sec_type = ''FOP'', cr_last_trade_date = ''20260526'',
     cr_strike = lit 6, cr_right = ''C'', cr_multiplier = ''25000'', cr_exchange = ''COMEX'', cr_primary_exchange = [],
     cr_currency = ''USD'', cr_local_symbol = [], cr_trading_class = ''HXE''\<rparr>"

definition demo_order :: place_order_params where
  "demo_order = \<lparr>pp_action = ''BUY'', pp_total_quantity = fone, pp_order_type = ''LMT'', pp_lmt_price = lit (1 / 2),
     pp_aux_price = fzero, pp_tif = ''GTD'', pp_good_till_date = ''20260526 16:00:00 UTC'', pp_account = ''DU1'',
     pp_order_ref = ''k1'', pp_outside_rth = False\<rparr>"

lemma demo_format_ok: "prints_numbers demo_format"
  by (simp add: prints_numbers_def demo_format_def field_ok_ascii ascii_def)

lemma demo_text_ok: "contract_text_ok demo_contract" "order_text_ok demo_order"
  by (simp_all add: contract_text_ok_def order_text_ok_def demo_contract_def demo_order_def field_ok_ascii ascii_def)

theorem template_matches_reference_witness:
  "place_order_fast demo_format 7 (from_contract demo_format demo_contract) demo_order =
   req_place_order demo_format 7 demo_contract demo_order"
  by (rule template_matches_reference [OF demo_format_ok])

text \<open>C34. An order whose texts are well formed arrives field by field. When the texts of the
  contract and of the order are valid UTF-8, as every Rust string is, and contain no zero byte
  (a hypothesis on the caller: the encoder copies the texts as they are and a zero byte in one
  would split its field), and the message fits the size limit, what the gateway reads from the frame of the fast encoder is a list of exactly 118
  fields: the message and order numbers, the twelve terms of the contract in order (id, symbol,
  security type, last trade date, strike, right, multiplier, exchange, primary exchange,
  currency, local symbol, trading class) in fields 2 to 13, and the side, quantity, order type,
  limit price, stop price, time in force, account, reference, outside-hours flag and expiry of
  the order in fields 16 to 21, 23, 26, 33 and 37, with nothing read past the frame.\<close>

theorem order_fields_arrive_in_place:
  assumes "prints_numbers F" "contract_text_ok c" "order_text_ok p"
    and "length (terminated (place_order_fields F order_id c p)) \<le> max_message_bytes"
  shows "\<exists>fs. try_decode_frame (place_order_fast F order_id (from_contract F c) p @ rest) = (Inr (Some fs), rest) \<and>
     length fs = 118 \<and> parse_int (fs ! 0) = Inr out_place_order \<and>
     (in_i32 order_id \<longrightarrow> parse_int (fs ! 1) = Inr order_id) \<and>
     take 12 (drop 2 fs) =
       [decimal (cr_con_id c), cr_symbol c, cr_sec_type c, cr_last_trade_date c, encode_f64 F (cr_strike c),
        cr_right c, cr_multiplier c, cr_exchange c, cr_primary_exchange c, cr_currency c, cr_local_symbol c,
        cr_trading_class c] \<and>
     take 6 (drop 16 fs) =
       [pp_action p, encode_f64 F (pp_total_quantity p), pp_order_type p, encode_f64 F (pp_lmt_price p),
        encode_f64 F (pp_aux_price p), pp_tif p] \<and>
     fs ! 23 = pp_account p \<and> fs ! 26 = pp_order_ref p \<and>
     fs ! 33 = (if pp_outside_rth p then ''1'' else ''0'') \<and> fs ! 37 = pp_good_till_date p"
proof (rule exI [of _ "place_order_fields F order_id c p"], intro conjI)
  show "try_decode_frame (place_order_fast F order_id (from_contract F c) p @ rest) =
      (Inr (Some (place_order_fields F order_id c p)), rest)"
    using assms by (rule place_order_decodes)
  show "parse_int (place_order_fields F order_id c p ! 0) = Inr out_place_order"
    using prints_int_parses [OF assms(1)] by (simp add: place_order_fields_def message_ids in_i32_def)
  show "in_i32 order_id \<longrightarrow> parse_int (place_order_fields F order_id c p ! 1) = Inr order_id"
    using prints_int_parses [OF assms(1)] by (simp add: place_order_fields_def)
  have id: "encode_int64 F (cr_con_id c) = decimal (cr_con_id c)"
    using assms(1) by (simp add: encode_int64_def prints_numbers_def)
  show "take 12 (drop 2 (place_order_fields F order_id c p)) =
       [decimal (cr_con_id c), cr_symbol c, cr_sec_type c, cr_last_trade_date c, encode_f64 F (cr_strike c),
        cr_right c, cr_multiplier c, cr_exchange c, cr_primary_exchange c, cr_currency c, cr_local_symbol c,
        cr_trading_class c]"
    by (simp add: place_order_fields_def id)
qed (simp_all add: place_order_fields_def encode_bool_def)

theorem order_fields_arrive_in_place_witness:
  "\<exists>fs. try_decode_frame (place_order_fast demo_format 7 (from_contract demo_format demo_contract) demo_order @ []) =
     (Inr (Some fs), []) \<and> length fs = 118 \<and> take 12 (drop 2 fs) =
       [''42'', ''HG'', ''FOP'', ''20260526'', ''0.5'', ''C'', ''25000'', ''COMEX'', [], ''USD'', [], ''HXE''] \<and>
     fs ! 16 = ''BUY'' \<and> fs ! 21 = ''GTD'' \<and> fs ! 23 = ''DU1'' \<and> fs ! 26 = ''k1'' \<and> fs ! 33 = ''0''"
proof -
  have d: "decimal 7 = ''7''" "decimal 42 = ''42''" "decimal (- 1) = [CHR ''-'', CHR ''1'']" "decimal 3 = ''3''"
    by (simp_all add: decimal_def nat_digits.simps digit_char_table)
  have len: "length (terminated (place_order_fields demo_format 7 demo_contract demo_order)) \<le> max_message_bytes"
    by (simp add: place_order_fields_def terminated_simps str_bytes_def demo_format_def demo_contract_def demo_order_def
        encode_int_def encode_int64_def encode_f64_def encode_bool_def encode_unset_def message_ids
        max_message_bytes_def d decimal_zero)
  obtain fs where fs: "try_decode_frame (place_order_fast demo_format 7 (from_contract demo_format demo_contract) demo_order @ []) =
      (Inr (Some fs), [])" "length fs = 118"
    "take 12 (drop 2 fs) = [decimal 42, ''HG'', ''FOP'', ''20260526'', encode_f64 demo_format (lit 6), ''C'',
       ''25000'', ''COMEX'', [], ''USD'', [], ''HXE'']"
    "take 6 (drop 16 fs) = [''BUY'', encode_f64 demo_format fone, ''LMT'', encode_f64 demo_format (lit (1 / 2)),
       encode_f64 demo_format fzero, ''GTD'']" "fs ! 23 = ''DU1''" "fs ! 26 = ''k1''" "fs ! 33 = ''0''"
    using order_fields_arrive_in_place [OF demo_format_ok demo_text_ok len, of "[]"]
    by (auto simp: demo_order_def demo_contract_def)
  have "take 6 (drop 16 fs) ! 0 = ''BUY''" "take 6 (drop 16 fs) ! 5 = ''GTD''" unfolding fs(4) by simp_all
  then have "fs ! 16 = ''BUY''" "fs ! 21 = ''GTD''" using fs(2) by simp_all
  moreover have "encode_f64 demo_format (lit 6) = ''0.5''"
    using rnd_exact [OF rep_of_int, of 6] by (simp add: encode_f64_def demo_format_def lit_def)
  ultimately show ?thesis using fs by (simp add: d)
qed

end
