(* ===== verification/Gateway_Decoder.thy ===== *)
theory Gateway_Decoder
  imports Gateway_Requests
begin

text \<open>
  The decoder of inbound gateway messages (\<open>corsair_broker_ibkr_native\<close>: \<open>types.rs\<close>,
  \<open>decoder.rs\<close>). A message is the list of fields of one frame; the first names its type. Indexing
  a slice out of range panics in Rust, so it is a failure of its own here, and the fields of a
  struct literal are evaluated in the order the code writes them.
\<close>

section \<open>types.rs\<close>

record contract_decoded =
  gcd_con_id :: int
  gcd_symbol :: string
  gcd_sec_type :: string
  gcd_last_trade_date :: string
  gcd_strike :: f64
  gcd_right :: string
  gcd_multiplier :: string
  gcd_exchange :: string
  gcd_primary_exchange :: string
  gcd_currency :: string
  gcd_local_symbol :: string
  gcd_trading_class :: string

record position_msg =
  gpm_account :: string
  gpm_contract :: contract_decoded
  gpm_position :: f64
  gpm_avg_cost :: f64

record account_value_msg =
  gav_key :: string
  gav_value :: string
  gav_currency :: string
  gav_account :: string

record open_order_msg =
  goo_order_id :: int
  goo_contract :: contract_decoded
  goo_action :: string
  goo_total_quantity :: f64
  goo_order_type :: string
  goo_lmt_price :: f64
  goo_tif :: string
  goo_account :: string
  goo_order_ref :: string
  goo_status :: string
  goo_filled :: f64
  goo_remaining :: f64

record order_status_msg =
  gos_order_id :: int
  gos_status :: string
  gos_filled :: f64
  gos_remaining :: f64
  gos_avg_fill_price :: f64
  gos_perm_id :: int
  gos_parent_id :: int
  gos_last_fill_price :: f64
  gos_client_id :: int
  gos_why_held :: string
  gos_mkt_cap_price :: f64

record execution_msg =
  gex_req_id :: int
  gex_order_id :: int
  gex_contract :: contract_decoded
  gex_exec_id :: string
  gex_time :: string
  gex_account :: string
  gex_exchange :: string
  gex_side :: string
  gex_shares :: f64
  gex_price :: f64
  gex_perm_id :: int
  gex_client_id :: int
  gex_liquidation :: int
  gex_cum_qty :: f64
  gex_avg_price :: f64
  gex_order_ref :: string

record commission_report_msg =
  gcr_exec_id :: string
  gcr_commission :: f64
  gcr_currency :: string
  gcr_realized_pnl :: f64

record contract_details_msg =
  gcs_req_id :: int
  gcs_contract :: contract_decoded

record tick_price_msg =
  gtp_req_id :: int
  gtp_tick_type :: int
  gtp_price :: f64
  gtp_attribs :: int

record tick_size_msg =
  gts_req_id :: int
  gts_tick_type :: int
  gts_size :: f64

record tick_option_computation_msg =
  gtc_req_id :: int
  gtc_tick_type :: int
  gtc_tick_attrib :: int
  gtc_implied_vol :: f64
  gtc_delta :: f64
  gtc_opt_price :: f64
  gtc_pv_dividend :: f64
  gtc_gamma :: f64
  gtc_vega :: f64
  gtc_theta :: f64
  gtc_und_price :: f64

record error_msg =
  ger_req_id :: int
  ger_error_code :: int
  ger_error_string :: string
  ger_advanced_order_reject_json :: string

datatype inbound_msg =
    ImPosition position_msg
  | ImPositionEnd
  | ImAccountValue account_value_msg
  | ImAccountUpdateTime string
  | ImAccountDownloadEnd string
  | ImOpenOrder open_order_msg
  | ImOpenOrderEnd
  | ImOrderStatus order_status_msg
  | ImExecution execution_msg
  | ImExecutionEnd int
  | ImCommissionReport commission_report_msg
  | ImContractDetails contract_details_msg
  | ImContractDetailsEnd int
  | ImTickPrice tick_price_msg
  | ImTickSize tick_size_msg
  | ImTickOptionComputation tick_option_computation_msg
  | ImError error_msg
  | ImNextValidId int
  | ImManagedAccounts "string list"
  | ImUnparsed int "string list"

section \<open>decoder.rs\<close>

datatype decode_failure = DfPanic | DfNative native_error

definition native :: "native_error + 'a \<Rightarrow> decode_failure + 'a" where
  "native r = (case r of Inl e \<Rightarrow> Inl (DfNative e) | Inr x \<Rightarrow> Inr x)"

text \<open>The accesses the parsers use: \<open>fields[i].clone()\<close>, \<open>parse_*(&fields[i])\<close> and \<open>fields.get(i)\<close>
  with a default.\<close>

definition text_at :: "string list \<Rightarrow> nat \<Rightarrow> decode_failure + string" where
  "text_at fs i = (if i < length fs then Inr (fs ! i) else Inl DfPanic)"

definition int_at :: "string list \<Rightarrow> nat \<Rightarrow> decode_failure + int" where
  "int_at fs i = and_then (text_at fs i) (\<lambda>s. native (parse_int s))"

definition int64_at :: "string list \<Rightarrow> nat \<Rightarrow> decode_failure + int" where
  "int64_at fs i = and_then (text_at fs i) (\<lambda>s. native (parse_int64 s))"

definition f64_at :: "string list \<Rightarrow> nat \<Rightarrow> decode_failure + f64" where
  "f64_at fs i = and_then (text_at fs i) (\<lambda>s. native (parse_f64 s))"

definition text_or :: "string list \<Rightarrow> nat \<Rightarrow> string \<Rightarrow> string" where
  "text_or fs i d = (if i < length fs then fs ! i else d)"

definition int_or :: "string list \<Rightarrow> nat \<Rightarrow> string \<Rightarrow> decode_failure + int" where
  "int_or fs i d = native (parse_int (text_or fs i d))"

definition f64_or :: "string list \<Rightarrow> nat \<Rightarrow> string \<Rightarrow> decode_failure + f64" where
  "f64_or fs i d = native (parse_f64 (text_or fs i d))"

definition parse_tick_price :: "string list \<Rightarrow> decode_failure + inbound_msg" where
  "parse_tick_price fs =
     (if length fs < 6 then Inl (DfNative (NeMalformed ''tickPrice fields'' (decimal (int (length fs)))))
      else
      and_then (int_at fs 2) (\<lambda>v_req_id.
      and_then (int_at fs 3) (\<lambda>v_tick_type.
      and_then (f64_at fs 4) (\<lambda>v_price.
      and_then (int_or fs 6 ''0'') (\<lambda>v_attribs.
       Inr (ImTickPrice
         \<lparr>gtp_req_id = v_req_id, gtp_tick_type = v_tick_type, gtp_price = v_price,
         gtp_attribs = v_attribs\<rparr>))))))"

definition parse_tick_size :: "string list \<Rightarrow> decode_failure + inbound_msg" where
  "parse_tick_size fs =
     (if length fs < 5 then Inl (DfNative (NeMalformed ''tickSize fields'' (decimal (int (length fs)))))
      else
      and_then (int_at fs 2) (\<lambda>v_req_id.
      and_then (int_at fs 3) (\<lambda>v_tick_type.
      and_then (f64_at fs 4) (\<lambda>v_size.
       Inr (ImTickSize
         \<lparr>gts_req_id = v_req_id, gts_tick_type = v_tick_type, gts_size = v_size\<rparr>)))))"

definition parse_tick_option_computation :: "string list \<Rightarrow> decode_failure + inbound_msg" where
  "parse_tick_option_computation fs =
     (if length fs < 12 then Inl (DfNative (NeMalformed ''tickOptionComputation fields'' (decimal (int (length fs)))))
      else
      and_then (int_at fs 1) (\<lambda>v_req_id.
      and_then (int_at fs 2) (\<lambda>v_tick_type.
      and_then (int_at fs 3) (\<lambda>v_tick_attrib.
      and_then (f64_at fs 4) (\<lambda>v_implied_vol.
      and_then (f64_at fs 5) (\<lambda>v_delta.
      and_then (f64_at fs 6) (\<lambda>v_opt_price.
      and_then (f64_at fs 7) (\<lambda>v_pv_dividend.
      and_then (f64_at fs 8) (\<lambda>v_gamma.
      and_then (f64_at fs 9) (\<lambda>v_vega.
      and_then (f64_at fs 10) (\<lambda>v_theta.
      and_then (f64_at fs 11) (\<lambda>v_und_price.
       Inr (ImTickOptionComputation
         \<lparr>gtc_req_id = v_req_id, gtc_tick_type = v_tick_type,
         gtc_tick_attrib = v_tick_attrib, gtc_implied_vol = v_implied_vol, gtc_delta = v_delta,
         gtc_opt_price = v_opt_price, gtc_pv_dividend = v_pv_dividend, gtc_gamma = v_gamma,
         gtc_vega = v_vega, gtc_theta = v_theta, gtc_und_price = v_und_price\<rparr>)))))))))))))"

definition parse_order_status :: "string list \<Rightarrow> decode_failure + inbound_msg" where
  "parse_order_status fs =
     (if length fs < 12 then Inl (DfNative (NeMalformed ''orderStatus fields'' (decimal (int (length fs)))))
      else
      and_then (int_at fs 1) (\<lambda>v_order_id.
      and_then (text_at fs 2) (\<lambda>v_status.
      and_then (f64_at fs 3) (\<lambda>v_filled.
      and_then (f64_at fs 4) (\<lambda>v_remaining.
      and_then (f64_at fs 5) (\<lambda>v_avg_fill_price.
      and_then (int_at fs 6) (\<lambda>v_perm_id.
      and_then (int_at fs 7) (\<lambda>v_parent_id.
      and_then (f64_at fs 8) (\<lambda>v_last_fill_price.
      and_then (int_at fs 9) (\<lambda>v_client_id.
      and_then (text_at fs 10) (\<lambda>v_why_held.
      and_then (f64_at fs 11) (\<lambda>v_mkt_cap_price.
       Inr (ImOrderStatus
         \<lparr>gos_order_id = v_order_id, gos_status = v_status, gos_filled = v_filled,
         gos_remaining = v_remaining, gos_avg_fill_price = v_avg_fill_price,
         gos_perm_id = v_perm_id, gos_parent_id = v_parent_id,
         gos_last_fill_price = v_last_fill_price, gos_client_id = v_client_id,
         gos_why_held = v_why_held, gos_mkt_cap_price = v_mkt_cap_price\<rparr>)))))))))))))"

definition parse_error :: "string list \<Rightarrow> decode_failure + inbound_msg" where
  "parse_error fs =
     (if length fs < 5 then Inl (DfNative (NeMalformed ''errMsg fields'' (decimal (int (length fs)))))
      else
      and_then (int_at fs 2) (\<lambda>v_req_id.
      and_then (int_at fs 3) (\<lambda>v_error_code.
      and_then (text_at fs 4) (\<lambda>v_error_string.
       Inr (ImError
         \<lparr>ger_req_id = v_req_id, ger_error_code = v_error_code,
         ger_error_string = v_error_string, ger_advanced_order_reject_json = text_or fs 5 []\<rparr>)))))"

definition parse_account_value :: "string list \<Rightarrow> decode_failure + inbound_msg" where
  "parse_account_value fs =
     (if length fs < 6 then Inl (DfNative (NeMalformed ''accountValue fields'' (decimal (int (length fs)))))
      else
      and_then (text_at fs 2) (\<lambda>v_key.
      and_then (text_at fs 3) (\<lambda>v_value.
      and_then (text_at fs 4) (\<lambda>v_currency.
      and_then (text_at fs 5) (\<lambda>v_account.
       Inr (ImAccountValue
         \<lparr>gav_key = v_key, gav_value = v_value, gav_currency = v_currency,
         gav_account = v_account\<rparr>))))))"

definition parse_position :: "string list \<Rightarrow> decode_failure + inbound_msg" where
  "parse_position fs =
     (if length fs < 16 then Inl (DfNative (NeMalformed ''position fields'' (decimal (int (length fs)))))
      else
      and_then (text_at fs 2) (\<lambda>v_account.
      and_then (int64_at fs 3) (\<lambda>u_con_id.
      and_then (text_at fs 4) (\<lambda>u_symbol.
      and_then (text_at fs 5) (\<lambda>u_sec_type.
      and_then (text_at fs 6) (\<lambda>u_last_trade_date.
      and_then (f64_at fs 7) (\<lambda>u_strike.
      and_then (text_at fs 8) (\<lambda>u_right.
      and_then (text_at fs 9) (\<lambda>u_multiplier.
      and_then (text_at fs 10) (\<lambda>u_exchange.
      and_then (text_at fs 11) (\<lambda>u_currency.
      and_then (text_at fs 12) (\<lambda>u_local_symbol.
      and_then (text_at fs 13) (\<lambda>u_trading_class.
      and_then (f64_at fs 14) (\<lambda>v_position.
      and_then (f64_at fs 15) (\<lambda>v_avg_cost.
       Inr (ImPosition
         \<lparr>gpm_account = v_account, gpm_contract = \<lparr>gcd_con_id = u_con_id,
         gcd_symbol = u_symbol, gcd_sec_type = u_sec_type, gcd_last_trade_date = u_last_trade_date,
         gcd_strike = u_strike, gcd_right = u_right, gcd_multiplier = u_multiplier,
         gcd_exchange = u_exchange, gcd_primary_exchange = [], gcd_currency = u_currency,
         gcd_local_symbol = u_local_symbol, gcd_trading_class = u_trading_class\<rparr>,
         gpm_position = v_position, gpm_avg_cost = v_avg_cost\<rparr>))))))))))))))))"

definition parse_contract_details :: "string list \<Rightarrow> decode_failure + inbound_msg" where
  "parse_contract_details fs =
     (if length fs < 13 then Inl (DfNative (NeMalformed ''contractDetails fields'' (decimal (int (length fs)))))
      else
      and_then (int_at fs 1) (\<lambda>v_req_id.
      and_then (text_at fs 2) (\<lambda>u_symbol.
      and_then (text_at fs 3) (\<lambda>u_sec_type.
      and_then (text_at fs 4) (\<lambda>u_last_trade_date.
      and_then (f64_at fs 5) (\<lambda>u_strike.
      and_then (text_at fs 6) (\<lambda>u_right.
      and_then (text_at fs 7) (\<lambda>u_exchange.
      and_then (text_at fs 8) (\<lambda>u_currency.
      and_then (text_at fs 9) (\<lambda>u_local_symbol.
      and_then (text_at fs 11) (\<lambda>u_trading_class.
      and_then (int64_at fs 12) (\<lambda>u_con_id.
       Inr (ImContractDetails
         \<lparr>gcs_req_id = v_req_id, gcs_contract = \<lparr>gcd_con_id = u_con_id,
         gcd_symbol = u_symbol, gcd_sec_type = u_sec_type, gcd_last_trade_date = u_last_trade_date,
         gcd_strike = u_strike, gcd_right = u_right, gcd_multiplier = text_or fs 15 [],
         gcd_exchange = u_exchange, gcd_primary_exchange = [], gcd_currency = u_currency,
         gcd_local_symbol = u_local_symbol, gcd_trading_class = u_trading_class\<rparr>\<rparr>)))))))))))))"

definition parse_execution :: "string list \<Rightarrow> decode_failure + inbound_msg" where
  "parse_execution fs =
     (if length fs < 24 then Inl (DfNative (NeMalformed ''execDetails fields'' (decimal (int (length fs)))))
      else
      and_then (int_at fs 2) (\<lambda>v_req_id.
      and_then (int_at fs 3) (\<lambda>v_order_id.
      and_then (int64_at fs 4) (\<lambda>u_con_id.
      and_then (text_at fs 5) (\<lambda>u_symbol.
      and_then (text_at fs 6) (\<lambda>u_sec_type.
      and_then (text_at fs 7) (\<lambda>u_last_trade_date.
      and_then (f64_at fs 8) (\<lambda>u_strike.
      and_then (text_at fs 9) (\<lambda>u_right.
      and_then (text_at fs 10) (\<lambda>u_multiplier.
      and_then (text_at fs 11) (\<lambda>u_exchange.
      and_then (text_at fs 12) (\<lambda>u_currency.
      and_then (text_at fs 13) (\<lambda>u_local_symbol.
      and_then (text_at fs 14) (\<lambda>u_trading_class.
      and_then (text_at fs 15) (\<lambda>v_exec_id.
      and_then (text_at fs 16) (\<lambda>v_time.
      and_then (text_at fs 17) (\<lambda>v_account.
      and_then (text_at fs 18) (\<lambda>v_exchange.
      and_then (text_at fs 19) (\<lambda>v_side.
      and_then (f64_at fs 20) (\<lambda>v_shares.
      and_then (f64_at fs 21) (\<lambda>v_price.
      and_then (int_at fs 22) (\<lambda>v_perm_id.
      and_then (int_at fs 23) (\<lambda>v_client_id.
      and_then (int_or fs 24 ''0'') (\<lambda>v_liquidation.
      and_then (f64_or fs 25 ''0'') (\<lambda>v_cum_qty.
      and_then (f64_or fs 26 ''0'') (\<lambda>v_avg_price.
       Inr (ImExecution
         \<lparr>gex_req_id = v_req_id, gex_order_id = v_order_id,
         gex_contract = \<lparr>gcd_con_id = u_con_id, gcd_symbol = u_symbol,
         gcd_sec_type = u_sec_type, gcd_last_trade_date = u_last_trade_date, gcd_strike = u_strike,
         gcd_right = u_right, gcd_multiplier = u_multiplier, gcd_exchange = u_exchange,
         gcd_primary_exchange = [], gcd_currency = u_currency, gcd_local_symbol = u_local_symbol,
         gcd_trading_class = u_trading_class\<rparr>, gex_exec_id = v_exec_id, gex_time = v_time,
         gex_account = v_account, gex_exchange = v_exchange, gex_side = v_side,
         gex_shares = v_shares, gex_price = v_price, gex_perm_id = v_perm_id,
         gex_client_id = v_client_id, gex_liquidation = v_liquidation, gex_cum_qty = v_cum_qty,
         gex_avg_price = v_avg_price, gex_order_ref = text_or fs 27 []\<rparr>)))))))))))))))))))))))))))"

definition parse_commission :: "string list \<Rightarrow> decode_failure + inbound_msg" where
  "parse_commission fs =
     (if length fs < 6 then Inl (DfNative (NeMalformed ''commissionReport fields'' (decimal (int (length fs)))))
      else
      and_then (text_at fs 2) (\<lambda>v_exec_id.
      and_then (f64_at fs 3) (\<lambda>v_commission.
      and_then (text_at fs 4) (\<lambda>v_currency.
      and_then (f64_at fs 5) (\<lambda>v_realized_pnl.
       Inr (ImCommissionReport
         \<lparr>gcr_exec_id = v_exec_id, gcr_commission = v_commission, gcr_currency = v_currency,
         gcr_realized_pnl = v_realized_pnl\<rparr>))))))"

definition parse_open_order :: "string list \<Rightarrow> decode_failure + inbound_msg" where
  "parse_open_order fs =
     (if length fs < 17 then Inl (DfNative (NeMalformed ''openOrder fields'' (decimal (int (length fs)))))
      else
      and_then (int_at fs 1) (\<lambda>v_order_id.
      and_then (int64_at fs 2) (\<lambda>u_con_id.
      and_then (text_at fs 3) (\<lambda>u_symbol.
      and_then (text_at fs 4) (\<lambda>u_sec_type.
      and_then (text_at fs 5) (\<lambda>u_last_trade_date.
      and_then (f64_at fs 6) (\<lambda>u_strike.
      and_then (text_at fs 7) (\<lambda>u_right.
      and_then (text_at fs 8) (\<lambda>u_multiplier.
      and_then (text_at fs 9) (\<lambda>u_exchange.
      and_then (text_at fs 10) (\<lambda>u_currency.
      and_then (text_at fs 11) (\<lambda>u_local_symbol.
      and_then (text_at fs 12) (\<lambda>u_trading_class.
      and_then (text_at fs 13) (\<lambda>v_action.
      and_then (f64_at fs 14) (\<lambda>v_total_quantity.
      and_then (text_at fs 15) (\<lambda>v_order_type.
      and_then (f64_at fs 16) (\<lambda>v_lmt_price.
       Inr (ImOpenOrder
         \<lparr>goo_order_id = v_order_id, goo_contract = \<lparr>gcd_con_id = u_con_id,
         gcd_symbol = u_symbol, gcd_sec_type = u_sec_type, gcd_last_trade_date = u_last_trade_date,
         gcd_strike = u_strike, gcd_right = u_right, gcd_multiplier = u_multiplier,
         gcd_exchange = u_exchange, gcd_primary_exchange = [], gcd_currency = u_currency,
         gcd_local_symbol = u_local_symbol, gcd_trading_class = u_trading_class\<rparr>,
         goo_action = v_action, goo_total_quantity = v_total_quantity,
         goo_order_type = v_order_type, goo_lmt_price = v_lmt_price, goo_tif = text_or fs 18 [],
         goo_account = text_or fs 20 [], goo_order_ref = text_or fs 23 [], goo_status = [],
         goo_filled = fzero, goo_remaining = fzero\<rparr>))))))))))))))))))"

text \<open>\<open>csv.split(',')\<close> without its empty parts.\<close>

definition csv_parts :: "string \<Rightarrow> string list" where
  "csv_parts csv = filter (\<lambda>s. s \<noteq> []) (split_at (CHR '','') csv)"

definition parse_inbound :: "string list \<Rightarrow> decode_failure + inbound_msg" where
  "parse_inbound fs =
     (if fs = [] then Inl (DfNative (NeMalformed ''empty frame'' []))
      else
      and_then (int_at fs 0) (\<lambda>ty.
        if ty = in_tick_price then parse_tick_price fs
        else if ty = in_tick_size then parse_tick_size fs
        else if ty = in_tick_option_computation then parse_tick_option_computation fs
        else if ty = in_order_status then parse_order_status fs
        else if ty = in_err_msg then parse_error fs
        else if ty = in_open_order then parse_open_order fs
        else if ty = in_acct_value then parse_account_value fs
        else if ty = in_portfolio_value then Inr (ImUnparsed ty fs)
        else if ty = in_acct_update_time then Inr (ImAccountUpdateTime (text_or fs 2 []))
        else if ty = in_next_valid_id then
          and_then (int_or fs 2 ''0'') (\<lambda>oid. Inr (ImNextValidId oid))
        else if ty = in_contract_data then parse_contract_details fs
        else if ty = in_execution_data then parse_execution fs
        else if ty = in_managed_accts then Inr (ImManagedAccounts (csv_parts (text_or fs 2 [])))
        else if ty = in_commission_report then parse_commission fs
        else if ty = in_position_data then parse_position fs
        else if ty = in_position_end then Inr ImPositionEnd
        else if ty = in_open_order_end then Inr ImOpenOrderEnd
        else if ty = in_account_download_end then Inr (ImAccountDownloadEnd (text_or fs 2 []))
        else if ty = in_execution_data_end then
          and_then (int_or fs 2 ''0'') (\<lambda>req_id. Inr (ImExecutionEnd req_id))
        else Inr (ImUnparsed ty fs)))"

section \<open>Lemmas\<close>

named_theorems result_intros \<open>rules that walk a parser\<close>

definition result_ok :: "('a \<Rightarrow> bool) \<Rightarrow> decode_failure + 'a \<Rightarrow> bool" where
  "result_ok Q r \<longleftrightarrow> (case r of Inl e \<Rightarrow> e \<noteq> DfPanic | Inr x \<Rightarrow> Q x)"

abbreviation no_panic :: "decode_failure + 'a \<Rightarrow> bool" where
  "no_panic r \<equiv> result_ok (\<lambda>_. True) r"

text \<open>The type number a decoded message comes from; none is the end of a contract listing.\<close>

fun message_type :: "inbound_msg \<Rightarrow> int option" where
  "message_type (ImPosition _) = Some in_position_data"
| "message_type ImPositionEnd = Some in_position_end"
| "message_type (ImAccountValue _) = Some in_acct_value"
| "message_type (ImAccountUpdateTime _) = Some in_acct_update_time"
| "message_type (ImAccountDownloadEnd _) = Some in_account_download_end"
| "message_type (ImOpenOrder _) = Some in_open_order"
| "message_type ImOpenOrderEnd = Some in_open_order_end"
| "message_type (ImOrderStatus _) = Some in_order_status"
| "message_type (ImExecution _) = Some in_execution_data"
| "message_type (ImExecutionEnd _) = Some in_execution_data_end"
| "message_type (ImCommissionReport _) = Some in_commission_report"
| "message_type (ImContractDetails _) = Some in_contract_data"
| "message_type (ImContractDetailsEnd _) = None"
| "message_type (ImTickPrice _) = Some in_tick_price"
| "message_type (ImTickSize _) = Some in_tick_size"
| "message_type (ImTickOptionComputation _) = Some in_tick_option_computation"
| "message_type (ImError _) = Some in_err_msg"
| "message_type (ImNextValidId _) = Some in_next_valid_id"
| "message_type (ImManagedAccounts _) = Some in_managed_accts"
| "message_type (ImUnparsed ty _) = Some ty"

lemma result_ok_simps [simp]:
  "result_ok Q (Inr x) \<longleftrightarrow> Q x" "result_ok Q (Inl (DfNative e))" "no_panic (native r)"
  by (simp_all add: result_ok_def native_def split: sum.split)

lemma result_ok_bind [result_intros]:
  "no_panic r \<Longrightarrow> (\<And>x. result_ok Q (f x)) \<Longrightarrow> result_ok Q (and_then r f)"
  by (cases r) (auto simp: result_ok_def)

lemma result_ok_guard [result_intros]:
  "(\<not> length fs < n \<Longrightarrow> result_ok Q r) \<Longrightarrow> result_ok Q (if length fs < n then Inl (DfNative e) else r)"
  by simp

lemma no_panic_access:
  "i < length fs \<Longrightarrow> no_panic (text_at fs i)" "i < length fs \<Longrightarrow> no_panic (int_at fs i)"
  "i < length fs \<Longrightarrow> no_panic (int64_at fs i)" "i < length fs \<Longrightarrow> no_panic (f64_at fs i)"
  "no_panic (int_or fs i d)" "no_panic (f64_or fs i d)"
  by (simp_all add: text_at_def int_at_def int64_at_def f64_at_def int_or_def f64_or_def)

lemma parsers_ok:
  "result_ok (\<lambda>m. message_type m = Some in_tick_price) (parse_tick_price fs)"
  "result_ok (\<lambda>m. message_type m = Some in_tick_size) (parse_tick_size fs)"
  "result_ok (\<lambda>m. message_type m = Some in_tick_option_computation) (parse_tick_option_computation fs)"
  "result_ok (\<lambda>m. message_type m = Some in_order_status) (parse_order_status fs)"
  "result_ok (\<lambda>m. message_type m = Some in_err_msg) (parse_error fs)"
  "result_ok (\<lambda>m. message_type m = Some in_acct_value) (parse_account_value fs)"
  "result_ok (\<lambda>m. message_type m = Some in_position_data) (parse_position fs)"
  "result_ok (\<lambda>m. message_type m = Some in_contract_data) (parse_contract_details fs)"
  "result_ok (\<lambda>m. message_type m = Some in_execution_data) (parse_execution fs)"
  "result_ok (\<lambda>m. message_type m = Some in_commission_report) (parse_commission fs)"
  "result_ok (\<lambda>m. message_type m = Some in_open_order) (parse_open_order fs)"
  unfolding parse_tick_price_def parse_tick_size_def parse_tick_option_computation_def parse_order_status_def
    parse_error_def parse_account_value_def parse_position_def parse_contract_details_def parse_execution_def
    parse_commission_def parse_open_order_def
  by ((intro result_intros)?; simp add: no_panic_access)+

lemma parse_inbound_ok:
  assumes "fs \<noteq> []"
  shows "result_ok (\<lambda>m. \<exists>ty. parse_int (fs ! 0) = Inr ty \<and> message_type m = Some ty) (parse_inbound fs)"
proof (cases "parse_int (fs ! 0)")
  case (Inl e)
  with assms show ?thesis by (simp add: parse_inbound_def int_at_def text_at_def native_def)
next
  case (Inr ty)
  with assms have ty: "int_at fs 0 = Inr ty" by (simp add: int_at_def text_at_def native_def)
  show ?thesis
    unfolding parse_inbound_def ty and_then_simps Inr
    using assms parsers_ok [of fs] by (simp add: result_ok_bind no_panic_access)
qed

section \<open>Properties\<close>

text \<open>C35. No message can panic the decoder: for every list of fields, however short or malformed,
  \<open>parse_inbound\<close> returns a message or an error of the protocol; no parser indexes a field that
  its length check has not covered.\<close>

theorem decode_never_panics: "parse_inbound fs \<noteq> Inl DfPanic"
proof (cases "fs = []")
  case True
  then show ?thesis by (simp add: parse_inbound_def)
next
  case False
  show ?thesis using parse_inbound_ok [OF False] by (auto simp: result_ok_def)
qed

text \<open>A decoded message is of the type its first field names, and no frame at all decodes to the
  end of a contract listing: the message that should end it (type 52) comes out unparsed, so a
  request that waits for it can only time out.\<close>

theorem listing_end_never_decoded:
  assumes "parse_inbound fs = Inr m"
  shows "(\<exists>ty. parse_int (fs ! 0) = Inr ty \<and> message_type m = Some ty) \<and>
     (\<forall>r. m \<noteq> ImContractDetailsEnd r) \<and>
     (parse_int (fs ! 0) = Inr 52 \<longrightarrow> m = ImUnparsed 52 fs)"
proof -
  have ne: "fs \<noteq> []" using assms by (auto simp: parse_inbound_def)
  then have ex: "\<exists>ty. parse_int (fs ! 0) = Inr ty \<and> message_type m = Some ty"
    using parse_inbound_ok [OF ne] assms by (simp add: result_ok_def)
  moreover have "m = ImUnparsed 52 fs" if "parse_int (fs ! 0) = Inr 52"
    using assms ne that by (simp add: parse_inbound_def int_at_def text_at_def native_def message_ids)
  ultimately show ?thesis by auto
qed

theorem listing_end_never_decoded_witness:
  "parse_inbound [''52'', ''1'', ''7''] = Inr (ImUnparsed 52 [''52'', ''1'', ''7''])"
proof -
  have i: "parse_int ''52'' = Inr 52" by code_simp
  then have "parse_inbound [''52'', ''1'', ''7''] = Inr (ImUnparsed 52 [''52'', ''1'', ''7''])"
    by (simp add: parse_inbound_def int_at_def text_at_def native_def message_ids)
  with listing_end_never_decoded [OF this] i show ?thesis by simp
qed

end
