(* ===== verification/Gateway_Client.thy ===== *)
theory Gateway_Client
  imports Gateway_Decoder
begin

text \<open>
  The socket client of the gateway (\<open>corsair_broker_ibkr_native/src/client.rs\<close>): the handshake,
  the receive task and its bounded dispatch channel, and the counter of order numbers. The
  locks of the code make every access to a field atomic, so the client is one record and an
  execution a sequence of accesses. What the socket does is an argument: the bytes that arrive
  and the errors that occur, in order.
\<close>

section \<open>State\<close>

record native_client_config =
  cc_host :: string
  cc_port :: int
  cc_client_id :: int
  cc_account :: "string option"
  cc_connect_timeout_ms :: int
  cc_handshake_timeout_ms :: int

definition native_client_config_default :: native_client_config where
  "native_client_config_default =
     \<lparr>cc_host = ''127.0.0.1'', cc_port = 4002, cc_client_id = 0, cc_account = None,
      cc_connect_timeout_ms = 10000, cc_handshake_timeout_ms = 5000\<rparr>"

text \<open>\<open>nc_writer\<close> holds the bytes written to the live socket, and is None while there is none.
  \<open>nc_queue\<close> is the content of the dispatch channel and \<open>nc_open\<close> says that its receiver
  exists.\<close>

record native_client =
  nc_cfg :: native_client_config
  nc_writer :: "byte list option"
  nc_server_version :: int
  nc_conn_time :: string
  nc_next_order_id :: int
  nc_managed_accounts :: "string list"
  nc_queue :: "string list list"
  nc_open :: bool
  nc_msgs_sent :: int
  nc_msgs_recv :: int
  nc_msgs_dropped :: int

definition dispatch_channel_cap :: nat where
  "dispatch_channel_cap = 16384"

definition native_client_new :: "native_client_config \<Rightarrow> native_client" where
  "native_client_new cfg =
     \<lparr>nc_cfg = cfg, nc_writer = None, nc_server_version = 0, nc_conn_time = [], nc_next_order_id = 0,
      nc_managed_accounts = [], nc_queue = [], nc_open = True, nc_msgs_sent = 0, nc_msgs_recv = 0,
      nc_msgs_dropped = 0\<rparr>"

definition alloc_order_id :: "native_client \<Rightarrow> int \<times> native_client" where
  "alloc_order_id c =
     (let oid = nc_next_order_id c
      in (oid, if 0 < oid then c\<lparr>nc_next_order_id := wrap_i32 (oid + 1)\<rparr> else c))"

section \<open>Handshake\<close>

text \<open>What one read of the handshake loop gives before the deadline: bytes, nothing (the socket
  would block, or the peer has closed it: the code does not tell them apart), or an error. The
  end of the list is the deadline.\<close>

datatype read_event = ReadBytes "byte list" | ReadNothing | ReadError string

fun read_handshake_reply :: "byte list \<Rightarrow> read_event list \<Rightarrow> native_error + int \<times> string" where
  "read_handshake_reply buf [] = Inl NeHandshakeTimeout"
| "read_handshake_reply buf (ReadNothing # evs) = read_handshake_reply buf evs"
| "read_handshake_reply buf (ReadError e # evs) = Inl (NeIo e)"
| "read_handshake_reply buf (ReadBytes bs # evs) =
     (if bs = [] then read_handshake_reply buf evs
      else
        (case try_decode_frame (buf @ bs) of
           (Inl e, _) \<Rightarrow> Inl e
         | (Inr None, buf') \<Rightarrow> read_handshake_reply buf' evs
         | (Inr (Some fs), _) \<Rightarrow>
             (if length fs < 2 then Inl (NeProtocol ''handshake reply'')
              else and_then (parse_int (fs ! 0)) (\<lambda>v. Inr (v, fs ! 1)))))"

datatype tcp_outcome = TcpTimeout | TcpError string | TcpConnected

definition start_api_frame :: "native_client_config \<Rightarrow> byte list" where
  "start_api_frame cfg = encode_fields [decimal out_start_api, ''2'', decimal (cc_client_id cfg), []]"

text \<open>\<open>connect\<close>: the outcome of the TCP connection, of the two writes (None when they succeed) and of
  the reads in between are arguments. When it succeeds the receive task starts, with an empty
  buffer of its own.\<close>

definition client_connect ::
  "tcp_outcome \<Rightarrow> string option \<Rightarrow> read_event list \<Rightarrow> string option \<Rightarrow> native_client \<Rightarrow>
   (native_error + unit) \<times> native_client" where
  "client_connect tcp write1 reads write2 c =
     (case tcp of
        TcpTimeout \<Rightarrow> (Inl NeHandshakeTimeout, c)
      | TcpError e \<Rightarrow> (Inl (NeIo e), c)
      | TcpConnected \<Rightarrow>
          (case write1 of
             Some e \<Rightarrow> (Inl (NeIo e), c)
           | None \<Rightarrow>
               (case read_handshake_reply [] reads of
                  Inl e \<Rightarrow> (Inl e, c)
                | Inr (server_version, conn_time) \<Rightarrow>
                    if server_version < min_server_version
                    then (Inl (NeServerVersionTooLow server_version min_server_version), c)
                    else
                      let c1 = c\<lparr>nc_server_version := server_version, nc_conn_time := conn_time\<rparr>
                      in case write2 of
                           Some e \<Rightarrow> (Inl (NeIo e), c1)
                         | None \<Rightarrow>
                             (Inr (),
                              c1\<lparr>nc_msgs_sent := wrap_u64 (nc_msgs_sent c1 + 1),
                                 nc_writer := Some (encode_handshake min_server_version max_client_version @
                                                    start_api_frame (nc_cfg c1))\<rparr>))))"

section \<open>Sending\<close>

text \<open>\<open>fault\<close> is the error of the write, if it fails.\<close>

definition send_raw :: "string option \<Rightarrow> byte list \<Rightarrow> native_client \<Rightarrow> (native_error + unit) \<times> native_client" where
  "send_raw fault frame c =
     (case nc_writer c of
        None \<Rightarrow> (Inl NeNotConnected, c)
      | Some written \<Rightarrow>
          (case fault of
             Some e \<Rightarrow> (Inl (NeIo e), c)
           | None \<Rightarrow>
               (Inr (), c\<lparr>nc_writer := Some (written @ frame), nc_msgs_sent := wrap_u64 (nc_msgs_sent c + 1)\<rparr>)))"

definition send_fields :: "string option \<Rightarrow> string list \<Rightarrow> native_client \<Rightarrow> (native_error + unit) \<times> native_client" where
  "send_fields fault fs c = send_raw fault (encode_fields fs) c"

definition client_disconnect :: "native_client \<Rightarrow> native_client" where
  "client_disconnect c = c\<lparr>nc_writer := None\<rparr>"

section \<open>The receive task\<close>

text \<open>The messages the client keeps state for.\<close>

definition own_state :: "string list \<Rightarrow> native_client \<Rightarrow> native_client" where
  "own_state fs c =
     (case fs of
        [] \<Rightarrow> c
      | ty # _ \<Rightarrow>
          (case parse_int ty of
             Inl _ \<Rightarrow> c
           | Inr mtype \<Rightarrow>
               if mtype = in_next_valid_id \<and> 3 \<le> length fs then
                 (case parse_int (fs ! 2) of
                    Inl _ \<Rightarrow> c
                  | Inr oid \<Rightarrow> if nc_next_order_id c < oid then c\<lparr>nc_next_order_id := oid\<rparr> else c)
               else if mtype = in_managed_accts \<and> 3 \<le> length fs then
                 c\<lparr>nc_managed_accounts := csv_parts (fs ! 2)\<rparr>
               else c))"

text \<open>One decoded frame; the flag is False when the receiver of the channel is gone and the task
  returns.\<close>

definition recv_message :: "string list \<Rightarrow> native_client \<Rightarrow> bool \<times> native_client" where
  "recv_message fs c =
     (let c1 = own_state fs (c\<lparr>nc_msgs_recv := wrap_u64 (nc_msgs_recv c + 1)\<rparr>)
      in if \<not> nc_open c1 then (False, c1)
         else if length (nc_queue c1) < dispatch_channel_cap then (True, c1\<lparr>nc_queue := nc_queue c1 @ [fs]\<rparr>)
         else (True, c1\<lparr>nc_msgs_dropped := wrap_u64 (nc_msgs_dropped c1 + 1)\<rparr>))"

fun recv_messages :: "string list list \<Rightarrow> native_client \<Rightarrow> bool \<times> native_client" where
  "recv_messages [] c = (True, c)"
| "recv_messages (fs # fss) c =
     (case recv_message fs c of
        (False, c') \<Rightarrow> (False, c')
      | (True, c') \<Rightarrow> recv_messages fss c')"

text \<open>The loop over what the socket delivers: an empty read is the end of the stream. The result
  says whether the task still runs, and its buffer.\<close>

fun recv_task :: "byte list \<Rightarrow> read_event list \<Rightarrow> native_client \<Rightarrow> bool \<times> byte list \<times> native_client" where
  "recv_task buf [] c = (True, buf, c)"
| "recv_task buf (ReadNothing # evs) c = (False, buf, c)"
| "recv_task buf (ReadError e # evs) c = (False, buf, c)"
| "recv_task buf (ReadBytes bs # evs) c =
     (if bs = [] then (False, buf, c)
      else
        (case try_decode_all (buf @ bs) of
           (Inl e, buf') \<Rightarrow> (False, buf', c)
         | (Inr frames, buf') \<Rightarrow>
             (case recv_messages frames c of
                (False, c') \<Rightarrow> (False, buf', c')
              | (True, c') \<Rightarrow> recv_task buf' evs c')))"

text \<open>\<open>wait_for_bootstrap\<close>: the batches of frames the receive task handles between two polls, up
  to the deadline.\<close>

definition bootstrapped :: "native_client \<Rightarrow> bool" where
  "bootstrapped c \<longleftrightarrow> 0 < nc_next_order_id c \<and> nc_managed_accounts c \<noteq> []"

fun wait_for_bootstrap :: "string list list list \<Rightarrow> native_client \<Rightarrow> (native_error + unit) \<times> native_client" where
  "wait_for_bootstrap [] c = ((if bootstrapped c then Inr () else Inl NeHandshakeTimeout), c)"
| "wait_for_bootstrap (batch # batches) c =
     (if bootstrapped c then (Inr (), c)
      else wait_for_bootstrap batches (snd (recv_messages batch c)))"

section \<open>Executions\<close>

text \<open>The tasks interleave: an order takes a number, the receive task handles a frame, the broker
  takes a message from the channel.\<close>

datatype client_step = AllocId | Receive "string list" | TakeMessage

definition take_message :: "native_client \<Rightarrow> string list option \<times> native_client" where
  "take_message c =
     (case nc_queue c of
        [] \<Rightarrow> (None, c)
      | fs # rest \<Rightarrow> (Some fs, c\<lparr>nc_queue := rest\<rparr>))"

fun client_run :: "client_step list \<Rightarrow> native_client \<Rightarrow> int list \<times> native_client" where
  "client_run [] c = ([], c)"
| "client_run (AllocId # ss) c =
     (let (oid, c1) = alloc_order_id c; (ids, c2) = client_run ss c1 in (oid # ids, c2))"
| "client_run (Receive fs # ss) c = client_run ss (snd (recv_message fs c))"
| "client_run (TakeMessage # ss) c = client_run ss (snd (take_message c))"

section \<open>Lemmas\<close>

lemma own_state_frame:
  "nc_queue (own_state fs c) = nc_queue c" "nc_open (own_state fs c) = nc_open c"
  "nc_msgs_recv (own_state fs c) = nc_msgs_recv c" "nc_msgs_dropped (own_state fs c) = nc_msgs_dropped c"
  "nc_writer (own_state fs c) = nc_writer c"
  "nc_next_order_id c \<le> nc_next_order_id (own_state fs c)"
  by (auto simp: own_state_def Let_def split: list.split sum.split)

lemma recv_message_frame:
  "nc_open (snd (recv_message fs c)) = nc_open c" "fst (recv_message fs c) = nc_open c"
  "nc_next_order_id c \<le> nc_next_order_id (snd (recv_message fs c))"
  using own_state_frame(6) [of "c\<lparr>nc_msgs_recv := wrap_u64 (nc_msgs_recv c + 1)\<rparr>" fs]
  by (simp_all add: recv_message_def Let_def own_state_frame)

lemma take_message_id: "nc_next_order_id (snd (take_message c)) = nc_next_order_id c"
  by (simp add: take_message_def split: list.split)

lemma wrap_i32_step: "0 < oid \<Longrightarrow> oid < 2 ^ 31 - 1 \<Longrightarrow> wrap_i32 (oid + 1) = oid + 1"
  by (simp add: wrap_i32_def)

text \<open>Every number handed out is at least the counter the run starts from.\<close>

lemma client_run_ids:
  assumes "\<forall>i \<in> set (fst (client_run ss c)). i < 2 ^ 31 - 1"
  shows "sorted_wrt (<) (filter (\<lambda>i. 0 < i) (fst (client_run ss c))) \<and>
     (\<forall>i \<in> set (fst (client_run ss c)). nc_next_order_id c \<le> i)"
  using assms
proof (induction ss c rule: client_run.induct)
  case (2 ss c)
  let ?c = "snd (alloc_order_id c)"
  have oid: "fst (alloc_order_id c) = nc_next_order_id c" by (simp add: alloc_order_id_def Let_def)
  have run: "client_run (AllocId # ss) c =
      (nc_next_order_id c # fst (client_run ss ?c), snd (client_run ss ?c))"
    using oid by (simp add: split_beta)
  have IH: "sorted_wrt (<) (filter (\<lambda>i. 0 < i) (fst (client_run ss ?c))) \<and>
      (\<forall>i \<in> set (fst (client_run ss ?c)). nc_next_order_id ?c \<le> i)"
    using 2 run by (metis fst_conv list.set_intros(2) surjective_pairing)
  have up: "if 0 < nc_next_order_id c then nc_next_order_id ?c = nc_next_order_id c + 1
      else nc_next_order_id ?c = nc_next_order_id c"
    using 2(2) run wrap_i32_step by (auto simp: alloc_order_id_def Let_def)
  show ?case using IH up unfolding run by (fastforce split: if_splits)
next
  case (3 fs ss c)
  then show ?case using recv_message_frame(3) [of c fs] by fastforce
next
  case (4 ss c)
  then show ?case by (simp add: take_message_id)
qed simp

lemma recv_messages_append:
  "recv_messages (xs @ ys) c =
     (case recv_messages xs c of (False, c') \<Rightarrow> (False, c') | (True, c') \<Rightarrow> recv_messages ys c')"
  by (induction xs c rule: recv_messages.induct) (auto split: bool.split prod.split)

lemma recv_messages_open: "nc_open c \<Longrightarrow> fst (recv_messages fss c) \<and> nc_open (snd (recv_messages fss c))"
proof (induction fss arbitrary: c)
  case (Cons fs fss)
  obtain c' where c': "recv_message fs c = (True, c')" "nc_open c'"
    using recv_message_frame(1,2) [of fs c] Cons.prems by (cases "recv_message fs c") auto
  then show ?case using Cons.IH [of c'] by simp
qed simp

text \<open>The task over chunks is the decoder fed with the chunks, then the messages one by one.\<close>

lemma recv_task_feed:
  assumes "socket.feed buf chunks = (Inr messages, rest)" "nc_open c" "[] \<notin> set chunks"
  shows "recv_task buf (map ReadBytes chunks) c = (True, rest, snd (recv_messages messages c))"
  using assms
proof (induction chunks arbitrary: buf messages c)
  case Nil
  then show ?case by (simp add: socket.feed.simps)
next
  case (Cons bs chunks)
  obtain frames buf' later where d: "try_decode_all (buf @ bs) = (Inr frames, buf')"
    and f: "socket.feed buf' chunks = (Inr later, rest)" and m: "messages = frames @ later"
    using Cons.prems(1) by (auto simp: socket.feed.simps split: prod.splits sum.splits)
  have o: "fst (recv_messages frames c)" "nc_open (snd (recv_messages frames c))"
    using recv_messages_open [OF Cons.prems(2)] by auto
  have "recv_task buf' (map ReadBytes chunks) (snd (recv_messages frames c)) =
      (True, rest, snd (recv_messages later (snd (recv_messages frames c))))"
    using Cons.IH [OF f o(2)] Cons.prems(3) by simp
  then show ?case using d o Cons.prems(3) unfolding m
    by (cases "recv_messages frames c") (auto simp: recv_messages_append)
qed

text \<open>The frames received are the frames taken, queued and dropped.\<close>

definition channel_ok :: "native_client \<Rightarrow> bool" where
  "channel_ok c \<longleftrightarrow> length (nc_queue c) \<le> dispatch_channel_cap"

lemma recv_message_queue:
  assumes "nc_open c"
  shows "nc_queue (snd (recv_message fs c)) =
     (if length (nc_queue c) < dispatch_channel_cap then nc_queue c @ [fs] else nc_queue c)"
    "nc_msgs_dropped (snd (recv_message fs c)) =
     (if length (nc_queue c) < dispatch_channel_cap then nc_msgs_dropped c else wrap_u64 (nc_msgs_dropped c + 1))"
  using assms by (simp_all add: recv_message_def Let_def own_state_frame)

lemma recv_messages_queue:
  assumes "nc_open c" "channel_ok c"
  shows "nc_queue (snd (recv_messages fss c)) = take dispatch_channel_cap (nc_queue c @ fss)"
  using assms
proof (induction fss arbitrary: c)
  case Nil
  then show ?case by (simp add: channel_ok_def)
next
  case (Cons fs fss)
  obtain c' where c': "recv_message fs c = (True, c')" "nc_open c'"
    using recv_message_frame(1,2) [of fs c] Cons.prems by (cases "recv_message fs c") auto
  have q: "nc_queue c' = (if length (nc_queue c) < dispatch_channel_cap then nc_queue c @ [fs] else nc_queue c)"
    using recv_message_queue(1) [OF Cons.prems(1), of fs] c' by simp
  then have "channel_ok c'" using Cons.prems(2) by (auto simp: channel_ok_def)
  then show ?case using Cons.IH [OF c'(2)] c' q Cons.prems(2) by (auto simp: channel_ok_def take_Cons')
qed

section \<open>Properties\<close>

text \<open>Order numbers are never reused: in every interleaving of orders taking a number, frames
  arriving from the gateway (its repeated next-valid-id messages among them) and the broker
  emptying the channel, the numbers handed out once the counter is seeded are strictly
  increasing, as long as the counter stays below the largest 32-bit integer.\<close>

theorem order_ids_never_reused:
  assumes "\<forall>i \<in> set (fst (client_run steps c)). i < 2 ^ 31 - 1"
  shows "sorted_wrt (<) (filter (\<lambda>i. 0 < i) (fst (client_run steps c))) \<and>
     distinct (filter (\<lambda>i. 0 < i) (fst (client_run steps c)))"
  using client_run_ids [OF assms] strict_sorted_iff by blast

theorem order_ids_never_reused_witness:
  "sorted_wrt (<) (filter (\<lambda>i. 0 < i) (fst (client_run [AllocId, Receive [''9'', ''1'', ''7''], AllocId,
     Receive [''9'', ''1'', ''7''], AllocId] (native_client_new native_client_config_default)))) \<and>
   fst (client_run [AllocId, Receive [''9'', ''1'', ''7''], AllocId,
     Receive [''9'', ''1'', ''7''], AllocId] (native_client_new native_client_config_default)) = [0, 7, 8]"
proof -
  have ids: "fst (client_run [AllocId, Receive [''9'', ''1'', ''7''], AllocId,
     Receive [''9'', ''1'', ''7''], AllocId] (native_client_new native_client_config_default)) = [0, 7, 8]"
  proof -
    have "parse_int ''9'' = Inr 9" "parse_int ''7'' = Inr 7" by code_simp+
    then show ?thesis
      by (simp add: alloc_order_id_def recv_message_def own_state_def native_client_new_def message_ids wrap_i32_def
          Let_def dispatch_channel_cap_def)
  qed
  then show ?thesis
    using order_ids_never_reused [of "[AllocId, Receive [''9'', ''1'', ''7''], AllocId,
     Receive [''9'', ''1'', ''7''], AllocId]" "native_client_new native_client_config_default"] by simp
qed

text \<open>C36. The receive task is complete up to the channel's bound: whatever the chunks in which the
  socket delivers a sequence of well-formed messages, the task keeps running with an empty
  buffer, handles every message once and in order, and the channel then holds what fits of the
  messages behind those it held; when it is full it is the newest messages that are lost,
  not the oldest as the comment on the channel's capacity says.\<close>

theorem receive_task_delivers_in_order:
  assumes "\<forall>m \<in> set messages. (\<forall>f \<in> set m. field_ok f) \<and> length (terminated m) \<le> max_message_bytes"
    and "concat chunks = concat (map encode_fields messages)" "[] \<notin> set chunks"
    and "nc_open c" "channel_ok c"
  shows "\<exists>c'. recv_task [] (map ReadBytes chunks) c = (True, [], c') \<and> c' = snd (recv_messages messages c) \<and>
     nc_queue c' = take dispatch_channel_cap (nc_queue c @ messages)"
  using recv_task_feed [OF feed_fields [OF assms(1,2)] assms(4,3)] recv_messages_queue [OF assms(4,5)] by blast

theorem receive_task_delivers_in_order_witness:
  "\<exists>c'. recv_task [] (map ReadBytes [take 3 (encode_fields [''9'', ''1'', ''42'']), drop 3 (encode_fields [''9'', ''1'', ''42''])])
     (native_client_new native_client_config_default) = (True, [], c') \<and> nc_queue c' = [[''9'', ''1'', ''42'']]"
proof -
  let ?m = "[''9'', ''1'', ''42'']"
  have "\<forall>m \<in> set [?m]. (\<forall>f \<in> set m. field_ok f) \<and> length (terminated m) \<le> max_message_bytes"
    by (simp add: field_ok_ascii ascii_def terminated_def str_bytes_def max_message_bytes_def)
  moreover have "length (encode_fields ?m) = 11"
    by (simp add: encode_fields_def length_prefixed_def terminated_def str_bytes_def)
  then have "[] \<notin> set [take 3 (encode_fields ?m), drop 3 (encode_fields ?m)]" by auto
  ultimately show ?thesis
    using receive_task_delivers_in_order [of "[?m]" "[take 3 (encode_fields ?m), drop 3 (encode_fields ?m)]"
        "native_client_new native_client_config_default"]
    by (auto simp: native_client_new_def channel_ok_def dispatch_channel_cap_def)
qed

end
