(* ===== verification/Gateway_Convert.thy ===== *)
theory Gateway_Convert
  imports Gateway_Client
begin

text \<open>
  The translations of the gateway adapter (the helpers of
  \<open>corsair_broker_ibkr_native/src/broker.rs\<close>): gateway messages to the value types of the broker
  interface and back. The dates of the \<open>chrono\<close> crate are parameters: its parser of
  \<open>YYYYMMDD\<close> and \<open>YYYYMM\<close> and its printers of days and times.
\<close>

record gateway_env =
  ge_format :: number_format
  ge_parse_ymd :: "string \<Rightarrow> naive_date option"
  ge_parse_ym :: "string \<Rightarrow> naive_date option"
  ge_format_day :: "naive_date \<Rightarrow> string"
  ge_format_gtd :: "date_time \<Rightarrow> string"
  ge_format_exec :: "int \<Rightarrow> string option"

text \<open>The casts \<open>as u64\<close> of a signed integer, \<open>as i64\<close> and \<open>as i32\<close> of a \<open>u64\<close>, and of a
  float to unsigned integers.\<close>

definition as_u64 :: "int \<Rightarrow> int" where
  "as_u64 v = wrap_u64 v"

definition as_i64 :: "int \<Rightarrow> int" where
  "as_i64 v = (v + 2 ^ 63) mod 2 ^ 64 - 2 ^ 63"

definition f64_as_u32 :: "f64 \<Rightarrow> int" where
  "f64_as_u32 = to_int_sat 0 (2 ^ 32 - 1)"

definition f64_as_u64 :: "f64 \<Rightarrow> int" where
  "f64_as_u64 = to_int_sat 0 (2 ^ 64 - 1)"

section \<open>Errors\<close>

text \<open>The texts of \<open>error.rs\<close>.\<close>

fun native_error_text :: "native_error \<Rightarrow> string" where
  "native_error_text (NeIo e) = ''io: '' @ e"
| "native_error_text (NeLost e) = ''connection lost: '' @ e"
| "native_error_text NeNotConnected = ''not connected''"
| "native_error_text (NeProtocol e) = ''protocol violation: '' @ e"
| "native_error_text (NeServerVersionTooLow v m) =
     ''server version '' @ decimal v @ '' below minimum supported '' @ decimal m"
| "native_error_text NeHandshakeTimeout = ''handshake timed out''"
| "native_error_text (NeMalformed what value) = ''malformed message: '' @ what @ '' '' @ value"

definition map_native_err :: "native_error \<Rightarrow> broker_error" where
  "map_native_err e =
     (let msg = native_error_text e
      in case e of
           NeLost _ \<Rightarrow> ConnectionLostErr msg
         | NeNotConnected \<Rightarrow> NotConnectedErr msg
         | NeServerVersionTooLow _ _ \<Rightarrow> ProtocolErr None msg
         | NeProtocol _ \<Rightarrow> ProtocolErr None msg
         | NeMalformed _ _ \<Rightarrow> ProtocolErr None msg
         | NeHandshakeTimeout \<Rightarrow> ConnectionLostErr msg
         | NeIo _ \<Rightarrow> ConnectionLostErr msg)"

definition is_contract_error :: "int \<Rightarrow> bool" where
  "is_contract_error code \<longleftrightarrow> code = 200 \<or> code = 321 \<or> code = 322"

definition is_order_error :: "int \<Rightarrow> bool" where
  "is_order_error code \<longleftrightarrow>
     code = 201 \<or> code = 203 \<or> code = 434 \<or> code = 436 \<or> code = 10148 \<or> code = 10197"

definition error_to_broker_error :: "error_msg \<Rightarrow> broker_error" where
  "error_to_broker_error e =
     (let code = ger_error_code e
      in if code = 1100 \<or> code = 1101 \<or> code = 1102 \<or> code = 1300 then ConnectionLostErr (ger_error_string e)
         else if code = 100 then RateLimitedErr (ger_error_string e)
         else if code = 110 \<or> code = 200 \<or> code = 321 \<or> code = 322 then ContractNotFoundErr (ger_error_string e)
         else ProtocolErr (Some code) (ger_error_string e))"

section \<open>From the gateway\<close>

definition parse_status :: "string \<Rightarrow> order_status" where
  "parse_status s =
     (if s = ''PendingSubmit'' \<or> s = ''ApiPending'' \<or> s = ''PreSubmitted'' then PendingSubmit
      else if s = ''Submitted'' then Submitted
      else if s = ''Filled'' then Filled
      else if s = ''Cancelled'' \<or> s = ''ApiCancelled'' then Cancelled
      else if s = ''PendingCancel'' then PendingCancelStatus
      else if s = ''Inactive'' then Inactive
      else Inactive)"

definition parse_side :: "string \<Rightarrow> side option" where
  "parse_side s = (if s = ''BUY'' then Some Buy else if s = ''SELL'' then Some Sell else None)"

definition parse_order_type :: "string \<Rightarrow> f64 \<Rightarrow> order_type" where
  "parse_order_type s aux =
     (if s = ''MKT'' then Market
      else if s = ''LMT'' then Limit
      else if s = ''STP LMT'' then StopLimit aux
      else Limit)"

definition parse_tif :: "string \<Rightarrow> time_in_force" where
  "parse_tif s =
     (if s = ''GTC'' then Gtc else if s = ''DAY'' then Day else if s = ''GTD'' then Gtd
      else if s = ''IOC'' then Ioc else if s = ''FOK'' then Fok else Day)"

definition parse_right :: "string \<Rightarrow> right option" where
  "parse_right s =
     (if s = ''C'' \<or> s = ''CALL'' then Some Call
      else if s = ''P'' \<or> s = ''PUT'' then Some Put
      else None)"

definition parse_kind :: "string \<Rightarrow> contract_kind option" where
  "parse_kind s =
     (if s = ''FUT'' then Some Future
      else if s = ''OPT'' \<or> s = ''FOP'' then Some OptionKind
      else None)"

definition parse_exchange :: "string \<Rightarrow> exchange" where
  "parse_exchange s =
     (if s = ''COMEX'' then Comex else if s = ''NYMEX'' then Nymex
      else if s = ''CBOT'' then Cbot else if s = ''CME'' then Cme else OtherExchange 0)"

definition parse_currency :: "string \<Rightarrow> currency" where
  "parse_currency s =
     (if s = ''USD'' then Usd else if s = ''EUR'' then Eur
      else if s = ''GBP'' then Gbp else if s = ''JPY'' then Jpy else Usd)"

text \<open>\<open>parse().unwrap_or(0.0)\<close>.\<close>

definition parse_or_zero :: "string \<Rightarrow> f64" where
  "parse_or_zero s = (case parse_std_f64 s of Some v \<Rightarrow> v | None \<Rightarrow> fzero)"

text \<open>The contract that the three conversions build, over the expiry each of them parses; the
  epoch is the day that stands for an expiry that does not parse.\<close>

definition decoded_contract :: "contract_decoded \<Rightarrow> naive_date option \<Rightarrow> contract option" where
  "decoded_contract c expiry =
     (case parse_kind (gcd_sec_type c) of
        None \<Rightarrow> None
      | Some kind \<Rightarrow>
          Some \<lparr>c_instrument_id = as_u64 (gcd_con_id c), c_kind = kind, c_symbol = gcd_symbol c,
            c_local_symbol = gcd_local_symbol c, c_expiry = (case expiry of Some d \<Rightarrow> d | None \<Rightarrow> 0),
            c_strike = (if fgt (gcd_strike c) fzero then Some (gcd_strike c) else None),
            c_right = parse_right (gcd_right c), c_multiplier = parse_or_zero (gcd_multiplier c),
            c_exchange = parse_exchange (gcd_exchange c), c_currency = parse_currency (gcd_currency c)\<rparr>)"

definition native_to_contract :: "gateway_env \<Rightarrow> contract_details_msg \<Rightarrow> contract option" where
  "native_to_contract E cd =
     (let date = gcd_last_trade_date (gcs_contract cd)
      in decoded_contract (gcs_contract cd)
           (case ge_parse_ymd E date of Some d \<Rightarrow> Some d | None \<Rightarrow> ge_parse_ym E date))"

definition native_to_position :: "gateway_env \<Rightarrow> position_msg \<Rightarrow> broker_position option" where
  "native_to_position E p =
     (case decoded_contract (gpm_contract p) (ge_parse_ymd E (gcd_last_trade_date (gpm_contract p))) of
        None \<Rightarrow> None
      | Some c \<Rightarrow>
          Some \<lparr>bp_contract = c, bp_quantity = to_i32 (gpm_position p), bp_avg_cost = gpm_avg_cost p,
            bp_realized_pnl = fzero, bp_unrealized_pnl = fzero\<rparr>)"

definition native_to_open_order :: "gateway_env \<Rightarrow> open_order_msg \<Rightarrow> open_order option" where
  "native_to_open_order E ord =
     (case decoded_contract (goo_contract ord) (ge_parse_ymd E (gcd_last_trade_date (goo_contract ord))) of
        None \<Rightarrow> None
      | Some c \<Rightarrow>
          (case parse_side (goo_action ord) of
             None \<Rightarrow> None
           | Some sd \<Rightarrow>
               Some \<lparr>oo_order_id = as_u64 (goo_order_id ord), oo_contract = c, oo_side = sd,
                 oo_qty = f64_as_u32 (goo_total_quantity ord),
                 oo_order_type = parse_order_type (goo_order_type ord) fzero,
                 oo_price = (if is_finite (goo_lmt_price ord) \<and> fgt (goo_lmt_price ord) fzero
                             then Some (goo_lmt_price ord) else None),
                 oo_tif = parse_tif (goo_tif ord), oo_gtd_until_utc = None,
                 oo_client_order_ref = goo_order_ref ord, oo_status = PendingSubmit, oo_filled_qty = 0,
                 oo_remaining_qty = f64_as_u32 (goo_remaining ord)\<rparr>))"

definition execution_to_fill :: "int \<Rightarrow> execution_msg \<Rightarrow> fill option" where
  "execution_to_fill now e =
     (case (if gex_side e = ''BOT'' then Some Buy else if gex_side e = ''SLD'' then Some Sell else None) of
        None \<Rightarrow> None
      | Some sd \<Rightarrow>
          Some \<lparr>f_exec_id = gex_exec_id e, f_order_id = as_u64 (gex_order_id e),
            f_instrument_id = as_u64 (gcd_con_id (gex_contract e)), f_side = sd,
            f_qty = f64_as_u32 (gex_shares e), f_price = gex_price e, f_timestamp_ns = now,
            f_commission = None\<rparr>)"

section \<open>To the gateway\<close>

fun exchange_to_str :: "exchange \<Rightarrow> string" where
  "exchange_to_str Comex = ''COMEX''"
| "exchange_to_str Nymex = ''NYMEX''"
| "exchange_to_str Cbot = ''CBOT''"
| "exchange_to_str Cme = ''CME''"
| "exchange_to_str (OtherExchange _) = []"

fun currency_to_str :: "currency \<Rightarrow> string" where
  "currency_to_str Usd = ''USD''"
| "currency_to_str Eur = ''EUR''"
| "currency_to_str Gbp = ''GBP''"
| "currency_to_str Jpy = ''JPY''"

definition place_order_contract_request :: "gateway_env \<Rightarrow> contract \<Rightarrow> contract_request" where
  "place_order_contract_request E c =
     \<lparr>cr_con_id = as_i64 (c_instrument_id c), cr_symbol = c_symbol c,
      cr_sec_type = (case c_kind c of Future \<Rightarrow> ''FUT'' | OptionKind \<Rightarrow> ''FOP''),
      cr_last_trade_date = ge_format_day E (c_expiry c),
      cr_strike = (case c_strike c of Some k \<Rightarrow> k | None \<Rightarrow> fzero),
      cr_right = (case c_right c of Some Call \<Rightarrow> ''C'' | Some Put \<Rightarrow> ''P'' | None \<Rightarrow> []),
      cr_multiplier = decimal (to_i64 (c_multiplier c)), cr_exchange = exchange_to_str (c_exchange c),
      cr_primary_exchange = [], cr_currency = currency_to_str (c_currency c),
      cr_local_symbol = c_local_symbol c, cr_trading_class = []\<rparr>"

definition order_terms :: "place_order_req \<Rightarrow> broker_error + string \<times> f64 \<times> f64" where
  "order_terms req =
     (case po_order_type req of
        Limit \<Rightarrow>
          (case po_price req of
             None \<Rightarrow> Inl (InvalidRequestErr ''limit order requires price'')
           | Some price \<Rightarrow> Inr (''LMT'', price, fzero))
      | Market \<Rightarrow> Inr (''MKT'', fzero, fzero)
      | StopLimit stop_price \<Rightarrow>
          (case po_price req of
             None \<Rightarrow> Inl (InvalidRequestErr ''stop-limit requires limit price'')
           | Some price \<Rightarrow> Inr (''STP LMT'', price, stop_price)))"

fun tif_to_str :: "time_in_force \<Rightarrow> string" where
  "tif_to_str Gtc = ''GTC''"
| "tif_to_str Day = ''DAY''"
| "tif_to_str Gtd = ''GTD''"
| "tif_to_str Ioc = ''IOC''"
| "tif_to_str Fok = ''FOK''"

definition good_till_date :: "gateway_env \<Rightarrow> place_order_req \<Rightarrow> broker_error + string" where
  "good_till_date E req =
     (if po_tif req = Gtd then
        (case po_gtd_until_utc req of
           Some t \<Rightarrow> Inr (ge_format_gtd E t)
         | None \<Rightarrow> Inl (InvalidRequestErr ''Gtd TIF requires gtd_until_utc''))
      else Inr [])"

definition build_place_params ::
  "gateway_env \<Rightarrow> place_order_req \<Rightarrow> string \<Rightarrow> broker_error + place_order_params" where
  "build_place_params E req fallback_account =
     and_then (order_terms req) (\<lambda>(otype, lmt_price, aux_price).
     and_then (good_till_date E req) (\<lambda>gtd.
       Inr \<lparr>pp_action = (case po_side req of Buy \<Rightarrow> ''BUY'' | Sell \<Rightarrow> ''SELL''),
            pp_total_quantity = of_i (po_qty req), pp_order_type = otype, pp_lmt_price = lmt_price,
            pp_aux_price = aux_price, pp_tif = tif_to_str (po_tif req), pp_good_till_date = gtd,
            pp_account = (case po_account req of Some a \<Rightarrow> a | None \<Rightarrow> fallback_account),
            pp_order_ref = po_client_order_ref req, pp_outside_rth = False\<rparr>))"

definition empty_contract_request :: "string \<Rightarrow> string \<Rightarrow> contract_request" where
  "empty_contract_request symbol sec_type =
     \<lparr>cr_con_id = 0, cr_symbol = symbol, cr_sec_type = sec_type, cr_last_trade_date = [], cr_strike = fzero,
      cr_right = [], cr_multiplier = [], cr_exchange = [], cr_primary_exchange = [], cr_currency = [],
      cr_local_symbol = [], cr_trading_class = []\<rparr>"

section \<open>Lemmas\<close>

lemma tif_round_trip [simp]: "parse_tif (tif_to_str t) = t"
  by (cases t) (simp_all add: parse_tif_def)

lemma currency_round_trip [simp]: "parse_currency (currency_to_str c) = c"
  by (cases c) (simp_all add: parse_currency_def)

lemma exchange_round_trip: "(\<forall>n. x \<noteq> OtherExchange n) \<Longrightarrow> parse_exchange (exchange_to_str x) = x"
  by (cases x) (simp_all add: parse_exchange_def)

lemma as_u64_i64: "0 \<le> v \<Longrightarrow> v < 2 ^ 64 \<Longrightarrow> as_u64 (as_i64 v) = v"
  using mod_diff_left_eq [of "v + 2 ^ 63" "2 ^ 64" "2 ^ 63"]
  by (simp add: as_u64_def as_i64_def wrap_u64_def)

lemma native_to_open_order_gtd: "native_to_open_order E ord = Some op \<Longrightarrow> oo_gtd_until_utc op = None"
  by (auto simp: native_to_open_order_def split: option.splits)

lemma is_digit_of_nat_digits: "c \<in> set (nat_digits n) \<Longrightarrow> is_digit_char c"
  using nat_digits_chars by (simp add: is_digit_char_def)

lemma takeWhile_all: "(\<And>x. x \<in> set xs \<Longrightarrow> P x) \<Longrightarrow> takeWhile P xs = xs"
  by (simp add: takeWhile_eq_all_conv)

lemma parse_std_decimal:
  assumes "0 \<le> n" "n \<le> 2 ^ 53"
  shows "parse_std_f64 (decimal n) = Some (Fin (of_int n))"
proof -
  obtain c cs where s: "nat_digits (nat n) = c # cs" and c: "48 \<le> (of_char c :: nat)" "(of_char c :: nat) \<le> 57"
    using nat_digits_Cons by blast
  have ne: "c \<noteq> CHR ''-''" "c \<noteq> CHR ''+''" using c by auto
  have low: "ascii_lower c = c" using c by (simp add: ascii_lower_def)
  have c3: "c \<noteq> CHR ''i''" "c \<noteq> CHR ''n''" using c by auto
  have tw: "takeWhile is_digit_char (c # cs) = c # cs"
    by (rule takeWhile_all) (metis is_digit_of_nat_digits s)
  have dv: "digits_value 0 (c # cs) = Some n" using digits_value_nat [of "nat n"] assms(1) unfolding s by simp
  have "rnd (of_int n) = Fin (of_int n)" using assms by (simp add: rnd_exact rep_of_int)
  then have "parse_unsigned_f64 (c # cs) = Some (Fin (of_int n))"
    unfolding parse_unsigned_f64_def Let_def tw using low c3 dv
    by (simp add: parse_exponent_def pow10_def del: digits_value.simps)
  then show ?thesis using s ne assms(1) by (simp add: parse_std_f64_def decimal_def)
qed

lemma f64_as_u32_of_i: "0 \<le> n \<Longrightarrow> n < 2 ^ 32 \<Longrightarrow> f64_as_u32 (of_i n) = n"
  using rnd_exact [OF rep_of_int [of n]] by (simp add: f64_as_u32_def of_i_def)

section \<open>Properties\<close>

text \<open>The gateway's report of an order it was sent, as the decoder reads it: the wire fields of the
  request in the positions of the report.\<close>

definition echoed_contract :: "contract_request \<Rightarrow> contract_decoded" where
  "echoed_contract r =
     \<lparr>gcd_con_id = cr_con_id r, gcd_symbol = cr_symbol r, gcd_sec_type = cr_sec_type r,
      gcd_last_trade_date = cr_last_trade_date r, gcd_strike = cr_strike r, gcd_right = cr_right r,
      gcd_multiplier = cr_multiplier r, gcd_exchange = cr_exchange r, gcd_primary_exchange = [],
      gcd_currency = cr_currency r, gcd_local_symbol = cr_local_symbol r, gcd_trading_class = cr_trading_class r\<rparr>"

definition echoed_order :: "int \<Rightarrow> contract_request \<Rightarrow> place_order_params \<Rightarrow> open_order_msg" where
  "echoed_order order_id r p =
     \<lparr>goo_order_id = order_id, goo_contract = echoed_contract r, goo_action = pp_action p,
      goo_total_quantity = pp_total_quantity p, goo_order_type = pp_order_type p, goo_lmt_price = pp_lmt_price p,
      goo_tif = pp_tif p, goo_account = pp_account p, goo_order_ref = pp_order_ref p, goo_status = [],
      goo_filled = fzero, goo_remaining = fzero\<rparr>"

text \<open>Contracts the gateway protocol can carry.\<close>

definition carried_contract :: "gateway_env \<Rightarrow> contract \<Rightarrow> bool" where
  "carried_contract E c \<longleftrightarrow>
     0 \<le> c_instrument_id c \<and> c_instrument_id c < 2 ^ 64 \<and>
     ge_parse_ymd E (ge_format_day E (c_expiry c)) = Some (c_expiry c) \<and>
     (case c_strike c of None \<Rightarrow> True | Some k \<Rightarrow> fgt k fzero) \<and>
     c_exchange c \<in> {Comex, Nymex, Cbot, Cme} \<and>
     (case c_multiplier c of Fin q \<Rightarrow> q = of_int \<lfloor>q\<rfloor> \<and> 0 \<le> q \<and> q \<le> 2 ^ 53 | _ \<Rightarrow> False)"

lemma carried_contract_echo:
  assumes "carried_contract E c"
  shows "decoded_contract (echoed_contract (place_order_contract_request E c))
     (ge_parse_ymd E (ge_format_day E (c_expiry c))) = Some c"
proof -
  obtain q where q: "c_multiplier c = Fin q" "q = of_int \<lfloor>q\<rfloor>" "0 \<le> q" "q \<le> 2 ^ 53"
    using assms by (auto simp: carried_contract_def split: f64.splits)
  define n where "n = \<lfloor>q\<rfloor>"
  have qn: "q = of_int n" using q(2) by (simp add: n_def)
  have n: "0 \<le> n" "n \<le> 2 ^ 53" using q(3,4) unfolding qn by simp_all
  have m: "parse_or_zero (decimal (to_i64 (c_multiplier c))) = c_multiplier c"
    using n parse_std_decimal [OF n] by (simp add: q(1) qn to_i64_def parse_or_zero_def)
  have x: "parse_exchange (exchange_to_str (c_exchange c)) = c_exchange c"
    using assms by (intro exchange_round_trip) (auto simp: carried_contract_def)
  have i: "as_u64 (as_i64 (c_instrument_id c)) = c_instrument_id c"
    using assms by (intro as_u64_i64) (simp_all add: carried_contract_def)
  have k: "fgt a fzero" if "c_strike c = Some a" for a
    using assms that by (simp add: carried_contract_def)
  have r: "parse_right (case c_right c of Some Call \<Rightarrow> ''C'' | Some Put \<Rightarrow> ''P'' | None \<Rightarrow> []) = c_right c"
    by (cases "c_right c") (auto simp: parse_right_def split: right.split)
  have kd: "parse_kind (case c_kind c of Future \<Rightarrow> ''FUT'' | OptionKind \<Rightarrow> ''FOP'') = Some (c_kind c)"
    by (cases "c_kind c") (simp_all add: parse_kind_def)
  have d: "ge_parse_ymd E (ge_format_day E (c_expiry c)) = Some (c_expiry c)"
    using assms by (simp add: carried_contract_def)
  show ?thesis
    unfolding decoded_contract_def echoed_contract_def place_order_contract_request_def
    by (cases "c_strike c") (simp_all add: m x i r kd d k)
qed

text \<open>An order survives the trip to the gateway and back: for a limit order on a contract the
  protocol can carry, the report the gateway echoes is cached with the contract, side,
  quantity, price, time in force and reference of the request. Two things do not survive: the
  expiry time of a GTD order, and the remaining quantity, which the cache always holds as
  zero although the order has not traded.\<close>

theorem order_survives_gateway:
  assumes "carried_contract E (po_contract req)" "po_order_type req = Limit" "po_price req = Some px"
    and "is_finite px" "fgt px fzero" "0 < po_qty req" "po_qty req < 2 ^ 32" "0 \<le> order_id"
    and "build_place_params E req account = Inr p"
  shows "native_to_open_order E (echoed_order order_id (place_order_contract_request E (po_contract req)) p) =
     Some \<lparr>oo_order_id = wrap_u64 order_id, oo_contract = po_contract req, oo_side = po_side req,
       oo_qty = po_qty req, oo_order_type = Limit, oo_price = Some px, oo_tif = po_tif req,
       oo_gtd_until_utc = None, oo_client_order_ref = po_client_order_ref req, oo_status = PendingSubmit,
       oo_filled_qty = 0, oo_remaining_qty = 0\<rparr>"
proof -
  obtain gtd where "good_till_date E req = Inr gtd"
    using assms(9) by (cases "good_till_date E req") (simp_all add: build_place_params_def order_terms_def assms(2,3))
  then have p: "p = \<lparr>pp_action = (case po_side req of Buy \<Rightarrow> ''BUY'' | Sell \<Rightarrow> ''SELL''),
      pp_total_quantity = of_i (po_qty req), pp_order_type = ''LMT'', pp_lmt_price = px, pp_aux_price = fzero,
      pp_tif = tif_to_str (po_tif req), pp_good_till_date = gtd,
      pp_account = (case po_account req of Some a \<Rightarrow> a | None \<Rightarrow> account),
      pp_order_ref = po_client_order_ref req, pp_outside_rth = False\<rparr>"
    using assms(9) by (simp add: build_place_params_def order_terms_def assms(2,3))
  have sd: "parse_side (case po_side req of Buy \<Rightarrow> ''BUY'' | Sell \<Rightarrow> ''SELL'') = Some (po_side req)"
    by (cases "po_side req") (simp_all add: parse_side_def)
  have dt: "gcd_last_trade_date (echoed_contract (place_order_contract_request E (po_contract req))) =
      ge_format_day E (c_expiry (po_contract req))"
    by (simp add: echoed_contract_def place_order_contract_request_def)
  show ?thesis
    unfolding native_to_open_order_def echoed_order_def p
    using assms(4-7) carried_contract_echo [OF assms(1)]
    by (simp add: dt sd f64_as_u32_of_i parse_order_type_def as_u64_def) (simp add: f64_as_u32_def)
qed

definition demo_gateway_env :: gateway_env where
  "demo_gateway_env =
     \<lparr>ge_format = demo_format, ge_parse_ymd = (\<lambda>s. if s = ''20260526'' then Some 20599 else None),
      ge_parse_ym = (\<lambda>_. None), ge_format_day = (\<lambda>_. ''20260526''), ge_format_gtd = (\<lambda>_. ''20260526 16:00:00 UTC''),
      ge_format_exec = (\<lambda>_. None)\<rparr>"

definition demo_option :: contract where
  "demo_option = \<lparr>c_instrument_id = 42, c_kind = OptionKind, c_symbol = ''HG'', c_local_symbol = ''HXEK6'',
     c_expiry = 20599, c_strike = Some (Fin 6), c_right = Some Call, c_multiplier = Fin 25000,
     c_exchange = Comex, c_currency = Usd\<rparr>"

definition demo_place_req :: place_order_req where
  "demo_place_req = \<lparr>po_contract = demo_option, po_side = Sell, po_qty = 3, po_order_type = Limit,
     po_price = Some (Fin (1 / 2)), po_tif = Gtd, po_gtd_until_utc = Some 7, po_client_order_ref = ''k1'',
     po_account = None\<rparr>"

theorem order_survives_gateway_witness:
  "\<exists>p. build_place_params demo_gateway_env demo_place_req ''DU1'' = Inr p \<and>
     map_option oo_qty (native_to_open_order demo_gateway_env
       (echoed_order 7 (place_order_contract_request demo_gateway_env demo_option) p)) = Some 3"
proof -
  obtain p where p: "build_place_params demo_gateway_env demo_place_req ''DU1'' = Inr p"
    by (simp add: build_place_params_def order_terms_def good_till_date_def demo_place_req_def)
  have "carried_contract demo_gateway_env demo_option"
    by (simp add: carried_contract_def demo_gateway_env_def demo_option_def)
  then show ?thesis
    using order_survives_gateway [of demo_gateway_env demo_place_req "Fin (1 / 2)" 7, OF _ _ _ _ _ _ _ _ p] p
    by (simp add: demo_place_req_def)
qed

end
