(* ===== verification/Gateway_Broker.thy ===== *)
theory Gateway_Broker
  imports Gateway_Convert
begin

text \<open>
  The gateway adapter (\<open>NativeBroker\<close> of \<open>corsair_broker_ibkr_native/src/broker.rs\<close>): its
  caches, the dispatcher that routes inbound messages, and the operations of the broker
  interface. An operation that waits for the gateway is split at its wait: the part that sends
  the request, and the part that reads the outcome of the wait. A one-shot sender is named by the
  key it is stored under; what is sent on the one-shot and broadcast channels is a list of
  outputs in order.
\<close>

section \<open>State\<close>

record seeding_progress =
  sp_positions_done :: bool
  sp_open_orders_done :: bool
  sp_account_done :: bool

definition seeding_progress_default :: seeding_progress where
  "seeding_progress_default =
     \<lparr>sp_positions_done = False, sp_open_orders_done = False, sp_account_done = False\<rparr>"

text \<open>The sender of a pending request is always present, so the two pending records are their
  accumulated answers.\<close>

record broker_state =
  bs_positions :: "(string \<times> int, broker_position) hmap"
  bs_open_orders :: "(int, open_order) hmap"
  bs_account_values :: "(string \<times> string \<times> string, account_value_msg) hmap"
  bs_pending_contracts :: "(int, contract_details_msg list) hmap"
  bs_pending_executions :: "(int, fill list) hmap"
  bs_pending_acks :: "(int, unit) hmap"
  bs_templates :: "(instrument_id, byte list) hmap"
  bs_tick_routes :: "(int, instrument_id) hmap"
  bs_handles :: "(stream_handle, int) hmap"
  bs_seeding :: seeding_progress

definition broker_state_default :: broker_state where
  "broker_state_default =
     \<lparr>bs_positions = hm_new, bs_open_orders = hm_new, bs_account_values = hm_new,
      bs_pending_contracts = hm_new, bs_pending_executions = hm_new, bs_pending_acks = hm_new,
      bs_templates = hm_new, bs_tick_routes = hm_new, bs_handles = hm_new,
      bs_seeding = seeding_progress_default\<rparr>"

datatype broker_output =
    OutContracts int "broker_error + contract list"
  | OutExecutions int "broker_error + fill list"
  | OutAck int "broker_error + unit"
  | OutFill fill
  | OutStatus order_status_update
  | OutPublish tick
  | OutTick tick
  | OutError broker_error
  | OutConnection connection_event

section \<open>Routing\<close>

definition route_position :: "gateway_env \<Rightarrow> position_msg \<Rightarrow> broker_state \<Rightarrow> broker_state" where
  "route_position E p s =
     (let key = (gpm_account p, gcd_con_id (gpm_contract p))
      in if feq (gpm_position p) fzero then s\<lparr>bs_positions := hm_remove key (bs_positions s)\<rparr>
         else (case native_to_position E p of
                 None \<Rightarrow> s
               | Some pos \<Rightarrow> s\<lparr>bs_positions := hm_insert key pos (bs_positions s)\<rparr>))"

text \<open>Resolving the waiter of an order: it is removed, and answered if there was one.\<close>

definition resolve_ack ::
  "int \<Rightarrow> broker_error + unit \<Rightarrow> broker_state \<Rightarrow> broker_state \<times> broker_output list" where
  "resolve_ack order_id answer s =
     (s\<lparr>bs_pending_acks := hm_remove order_id (bs_pending_acks s)\<rparr>,
      if hm_contains (bs_pending_acks s) order_id then [OutAck order_id answer] else [])"

definition route_open_order ::
  "gateway_env \<Rightarrow> open_order_msg \<Rightarrow> broker_state \<Rightarrow> broker_state \<times> broker_output list" where
  "route_open_order E ord s =
     (let s1 = (case native_to_open_order E ord of
                  None \<Rightarrow> s
                | Some op \<Rightarrow> s\<lparr>bs_open_orders := hm_insert (goo_order_id ord) op (bs_open_orders s)\<rparr>)
      in resolve_ack (goo_order_id ord) (Inr ()) s1)"

definition acking_status :: "order_status \<Rightarrow> bool" where
  "acking_status st \<longleftrightarrow> st = Submitted \<or> st = Filled \<or> st = Cancelled \<or> st = PendingCancelStatus"

definition update_cached_order :: "order_status_msg \<Rightarrow> broker_state \<Rightarrow> broker_state" where
  "update_cached_order m s =
     (case hm_get (bs_open_orders s) (gos_order_id m) of
        None \<Rightarrow> s
      | Some op \<Rightarrow>
          s\<lparr>bs_open_orders := hm_insert (gos_order_id m)
              (op\<lparr>oo_status := parse_status (gos_status m), oo_filled_qty := f64_as_u32 (gos_filled m)\<rparr>)
              (bs_open_orders s)\<rparr>)"

definition status_update :: "int \<Rightarrow> order_status_msg \<Rightarrow> order_status_update" where
  "status_update now m =
     \<lparr>su_order_id = as_u64 (gos_order_id m), su_status = parse_status (gos_status m),
      su_filled_qty = f64_as_u32 (gos_filled m), su_remaining_qty = f64_as_u32 (gos_remaining m),
      su_avg_fill_price = gos_avg_fill_price m,
      su_last_fill_price = (if fgt (gos_last_fill_price m) fzero then Some (gos_last_fill_price m) else None),
      su_timestamp_ns = now, su_reject_reason = None\<rparr>"

definition route_order_status ::
  "int \<Rightarrow> order_status_msg \<Rightarrow> broker_state \<Rightarrow> broker_state \<times> broker_output list" where
  "route_order_status now m s =
     (let s1 = update_cached_order m s;
          (s2, acks) = (if acking_status (parse_status (gos_status m))
                        then resolve_ack (gos_order_id m) (Inr ()) s1 else (s1, []))
      in (s2, acks @ [OutStatus (status_update now m)]))"

definition route_execution ::
  "int \<Rightarrow> execution_msg \<Rightarrow> broker_state \<Rightarrow> broker_state \<times> broker_output list" where
  "route_execution now e s =
     (case execution_to_fill now e of
        None \<Rightarrow> (s, [])
      | Some fl \<Rightarrow>
          (case (if 0 < gex_req_id e then hm_get (bs_pending_executions s) (gex_req_id e) else None) of
             Some acc \<Rightarrow>
               (s\<lparr>bs_pending_executions := hm_insert (gex_req_id e) (acc @ [fl]) (bs_pending_executions s)\<rparr>, [])
           | None \<Rightarrow> (s, [OutFill fl])))"

definition route_execution_end :: "int \<Rightarrow> broker_state \<Rightarrow> broker_state \<times> broker_output list" where
  "route_execution_end req_id s =
     (s\<lparr>bs_pending_executions := hm_remove req_id (bs_pending_executions s)\<rparr>,
      (case hm_get (bs_pending_executions s) req_id of
         None \<Rightarrow> []
       | Some acc \<Rightarrow> [OutExecutions req_id (Inr acc)]))"

definition route_contract_details :: "contract_details_msg \<Rightarrow> broker_state \<Rightarrow> broker_state" where
  "route_contract_details cd s =
     (case hm_get (bs_pending_contracts s) (gcs_req_id cd) of
        None \<Rightarrow> s
      | Some acc \<Rightarrow> s\<lparr>bs_pending_contracts := hm_insert (gcs_req_id cd) (acc @ [cd]) (bs_pending_contracts s)\<rparr>)"

definition route_contract_details_end ::
  "gateway_env \<Rightarrow> int \<Rightarrow> broker_state \<Rightarrow> broker_state \<times> broker_output list" where
  "route_contract_details_end E req_id s =
     (s\<lparr>bs_pending_contracts := hm_remove req_id (bs_pending_contracts s)\<rparr>,
      (case hm_get (bs_pending_contracts s) req_id of
         None \<Rightarrow> []
       | Some acc \<Rightarrow> [OutContracts req_id (Inr (List.map_filter (native_to_contract E) acc))]))"

definition route_tick ::
  "bool \<Rightarrow> int \<Rightarrow> tick_kind option \<Rightarrow> int \<Rightarrow> f64 option \<Rightarrow> int option \<Rightarrow> broker_state \<Rightarrow> broker_output list" where
  "route_tick publisher now kind req_id price qty s =
     (case kind of
        None \<Rightarrow> []
      | Some k \<Rightarrow>
          (case hm_get (bs_tick_routes s) req_id of
             None \<Rightarrow> []
           | Some iid \<Rightarrow>
               let t = \<lparr>t_instrument_id = iid, t_kind = k, t_price = price, t_size = qty, t_timestamp_ns = now\<rparr>
               in (if publisher then [OutPublish t] else []) @ [OutTick t]))"

definition price_tick_kind :: "int \<Rightarrow> tick_kind option" where
  "price_tick_kind ty =
     (if ty = 1 then Some BidTick else if ty = 2 then Some AskTick else if ty = 4 then Some LastTick else None)"

definition size_tick_kind :: "int \<Rightarrow> tick_kind option" where
  "size_tick_kind ty =
     (if ty = 0 then Some BidSizeTick else if ty = 3 then Some AskSizeTick
      else if ty = 8 then Some VolumeTick else None)"

definition route_error :: "error_msg \<Rightarrow> broker_state \<Rightarrow> broker_state \<times> broker_output list" where
  "route_error e s =
     (let req = ger_req_id e;
          fail_contract = (0 < req \<and> is_contract_error (ger_error_code e));
          fail_place = (0 < req \<and> is_order_error (ger_error_code e));
          s1 = (if fail_contract then s\<lparr>bs_pending_contracts := hm_remove req (bs_pending_contracts s)\<rparr> else s);
          (s2, acks) = (if fail_place
                        then resolve_ack req (Inl (OrderRejectedErr (Some (as_u64 req)) (ger_error_string e))) s1
                        else (s1, []))
      in (s2,
          (if fail_contract \<and> hm_contains (bs_pending_contracts s) req
           then [OutContracts req (Inl (ContractNotFoundErr (ger_error_string e)))] else []) @
          acks @ [OutError (error_to_broker_error e)]))"

fun route :: "gateway_env \<Rightarrow> bool \<Rightarrow> int \<Rightarrow> inbound_msg \<Rightarrow> broker_state \<Rightarrow> broker_state \<times> broker_output list" where
  "route E publisher now (ImPosition p) s = (route_position E p s, [])"
| "route E publisher now ImPositionEnd s =
     (s\<lparr>bs_seeding := (bs_seeding s)\<lparr>sp_positions_done := True\<rparr>\<rparr>, [])"
| "route E publisher now ImOpenOrderEnd s =
     (s\<lparr>bs_seeding := (bs_seeding s)\<lparr>sp_open_orders_done := True\<rparr>\<rparr>, [])"
| "route E publisher now (ImAccountDownloadEnd _) s =
     (s\<lparr>bs_seeding := (bs_seeding s)\<lparr>sp_account_done := True\<rparr>\<rparr>, [])"
| "route E publisher now (ImAccountValue a) s =
     (s\<lparr>bs_account_values := hm_insert (gav_key a, gav_currency a, gav_account a) a (bs_account_values s)\<rparr>, [])"
| "route E publisher now (ImOpenOrder ord) s = route_open_order E ord s"
| "route E publisher now (ImOrderStatus m) s = route_order_status now m s"
| "route E publisher now (ImExecution e) s = route_execution now e s"
| "route E publisher now (ImExecutionEnd req_id) s = route_execution_end req_id s"
| "route E publisher now (ImContractDetails cd) s = (route_contract_details cd s, [])"
| "route E publisher now (ImContractDetailsEnd req_id) s = route_contract_details_end E req_id s"
| "route E publisher now (ImTickPrice t) s =
     (s, route_tick publisher now (price_tick_kind (gtp_tick_type t)) (gtp_req_id t) (Some (gtp_price t)) None s)"
| "route E publisher now (ImTickSize t) s =
     (s, route_tick publisher now (size_tick_kind (gts_tick_type t)) (gts_req_id t) None
           (Some (f64_as_u64 (gts_size t))) s)"
| "route E publisher now (ImError e) s = route_error e s"
| "route E publisher now (ImAccountUpdateTime _) s = (s, [])"
| "route E publisher now (ImCommissionReport _) s = (s, [])"
| "route E publisher now (ImTickOptionComputation _) s = (s, [])"
| "route E publisher now (ImNextValidId _) s = (s, [])"
| "route E publisher now (ImManagedAccounts _) s = (s, [])"
| "route E publisher now (ImUnparsed _ _) s = (s, [])"

text \<open>One turn of the dispatcher: a message that does not parse is logged and skipped.\<close>

definition dispatch_fields ::
  "gateway_env \<Rightarrow> bool \<Rightarrow> int \<Rightarrow> string list \<Rightarrow> broker_state \<Rightarrow> panic + broker_state \<times> broker_output list" where
  "dispatch_fields E publisher now fs s =
     (case parse_inbound fs of
        Inl DfPanic \<Rightarrow> Inl Panic
      | Inl (DfNative _) \<Rightarrow> Inr (s, [])
      | Inr msg \<Rightarrow> Inr (route E publisher now msg s))"

section \<open>The broker\<close>

record native_broker =
  nb_account :: string
  nb_client :: native_client
  nb_state :: broker_state
  nb_next_req_id :: int
  nb_next_handle :: int
  nb_connected :: bool
  nb_rx :: bool
  nb_dispatching :: bool
  nb_publisher :: bool
  nb_sent :: "broker_output list"

definition native_broker_new :: "native_client_config \<Rightarrow> string \<Rightarrow> native_broker" where
  "native_broker_new cfg account =
     \<lparr>nb_account = account, nb_client = native_client_new cfg, nb_state = broker_state_default,
      nb_next_req_id = 1000, nb_next_handle = 1, nb_connected = False, nb_rx = True,
      nb_dispatching = False, nb_publisher = False, nb_sent = []\<rparr>"

definition nb_emit :: "broker_output list \<Rightarrow> native_broker \<Rightarrow> native_broker" where
  "nb_emit outs nb = nb\<lparr>nb_sent := nb_sent nb @ outs\<rparr>"

definition set_tick_publisher :: "native_broker \<Rightarrow> native_broker" where
  "set_tick_publisher nb = nb\<lparr>nb_publisher := True\<rparr>"

definition reset_seeding_flags :: "native_broker \<Rightarrow> native_broker" where
  "reset_seeding_flags nb = nb\<lparr>nb_state := (nb_state nb)\<lparr>bs_seeding := seeding_progress_default\<rparr>\<rparr>"

text \<open>\<open>wait_for_seeding\<close> over the progress it sees at each poll; the last poll is the deadline.\<close>

definition seeded :: "seeding_progress \<Rightarrow> bool" where
  "seeded p \<longleftrightarrow> sp_positions_done p \<and> sp_open_orders_done p \<and> sp_account_done p"

fun wait_for_seeding :: "seeding_progress \<Rightarrow> seeding_progress list \<Rightarrow> seeding_progress" where
  "wait_for_seeding p [] = p"
| "wait_for_seeding p (q # ps) = (if seeded p then p else wait_for_seeding q ps)"

definition alloc_req_id :: "native_broker \<Rightarrow> int \<times> native_broker" where
  "alloc_req_id nb = (nb_next_req_id nb, nb\<lparr>nb_next_req_id := wrap_i32 (nb_next_req_id nb + 1)\<rparr>)"

definition alloc_handle :: "native_broker \<Rightarrow> int \<times> native_broker" where
  "alloc_handle nb = (as_u64 (nb_next_handle nb), nb\<lparr>nb_next_handle := wrap_i32 (nb_next_handle nb + 1)\<rparr>)"

text \<open>The dispatcher takes the next message of the channel; when the receive task has ended and the
  channel is empty it ends too.\<close>

definition dispatch_next :: "gateway_env \<Rightarrow> int \<Rightarrow> native_broker \<Rightarrow> panic + native_broker" where
  "dispatch_next E now nb =
     (if \<not> nb_dispatching nb then Inr nb
      else
        (case take_message (nb_client nb) of
           (None, _) \<Rightarrow> Inr nb
         | (Some fs, c) \<Rightarrow>
             and_then (dispatch_fields E (nb_publisher nb) now fs (nb_state nb)) (\<lambda>(s, outs).
               Inr (nb_emit outs (nb\<lparr>nb_client := c, nb_state := s\<rparr>)))))"

definition dispatcher_ends :: "int \<Rightarrow> native_broker \<Rightarrow> native_broker" where
  "dispatcher_ends now nb =
     nb_emit [OutConnection \<lparr>ce_state = LostConnection, ce_reason = Some ''recv channel closed'', ce_timestamp_ns = now\<rparr>]
       (nb\<lparr>nb_connected := False, nb_dispatching := False\<rparr>)"

definition broker_send :: "string option \<Rightarrow> byte list \<Rightarrow> native_broker \<Rightarrow> (broker_error + unit) \<times> native_broker" where
  "broker_send fault frame nb =
     (case send_raw fault frame (nb_client nb) of
        (Inl e, c) \<Rightarrow> (Inl (map_native_err e), nb\<lparr>nb_client := c\<rparr>)
      | (Inr _, c) \<Rightarrow> (Inr (), nb\<lparr>nb_client := c\<rparr>))"

fun broker_send_all :: "(string option \<times> byte list) list \<Rightarrow> native_broker \<Rightarrow> (broker_error + unit) \<times> native_broker" where
  "broker_send_all [] nb = (Inr (), nb)"
| "broker_send_all ((fault, frame) # rest) nb =
     (case broker_send fault frame nb of
        (Inl e, nb') \<Rightarrow> (Inl e, nb')
      | (Inr _, nb') \<Rightarrow> broker_send_all rest nb')"

text \<open>\<open>connect\<close>. What the network does is an argument: the outcomes of the socket, the frames that
  arrive while the bootstrap is awaited and the faults of the three requests.\<close>

record connect_io =
  io_tcp :: tcp_outcome
  io_hello :: "string option"
  io_reads :: "read_event list"
  io_start :: "string option"
  io_batches :: "string list list list"
  io_account :: "string option"
  io_positions :: "string option"
  io_orders :: "string option"

definition broker_connect ::
  "gateway_env \<Rightarrow> connect_io \<Rightarrow> int \<Rightarrow> native_broker \<Rightarrow> (broker_error + unit) \<times> native_broker" where
  "broker_connect E io now nb =
     (if nb_connected nb then (Inr (), nb)
      else
        (case client_connect (io_tcp io) (io_hello io) (io_reads io) (io_start io) (nb_client nb) of
           (Inl e, c) \<Rightarrow> (Inl (map_native_err e), nb\<lparr>nb_client := c\<rparr>)
         | (Inr _, c) \<Rightarrow>
             (case wait_for_bootstrap (io_batches io) c of
                (Inl e, c') \<Rightarrow> (Inl (map_native_err e), nb\<lparr>nb_client := c'\<rparr>)
              | (Inr _, c') \<Rightarrow>
                  let nb1 = nb\<lparr>nb_client := c'\<rparr>
                  in if \<not> nb_rx nb1 then (Inl (InternalErr ''rx already taken''), nb1)
                     else
                       (case broker_send_all
                               [(io_account io, req_account_updates (ge_format E) True (nb_account nb1)),
                                (io_positions io, req_positions (ge_format E)),
                                (io_orders io, req_open_orders (ge_format E))]
                               (nb1\<lparr>nb_rx := False, nb_dispatching := True\<rparr>) of
                          (Inl e, nb2) \<Rightarrow> (Inl e, nb2)
                        | (Inr _, nb2) \<Rightarrow>
                            (Inr (), nb_emit [OutConnection \<lparr>ce_state = Connected, ce_reason = None, ce_timestamp_ns = now\<rparr>]
                                       (nb2\<lparr>nb_connected := True\<rparr>))))))"

text \<open>\<open>disconnect\<close>: every waiter is drained and answered with a lost connection.\<close>

definition drained_answers :: "broker_state \<Rightarrow> broker_output list" where
  "drained_answers s =
     map (\<lambda>(r, _). OutContracts r (Inl (ConnectionLostErr ''disconnect during pending qualify''))) (bs_pending_contracts s) @
     map (\<lambda>(r, _). OutExecutions r (Inl (ConnectionLostErr ''disconnect during pending executions''))) (bs_pending_executions s) @
     map (\<lambda>(r, _). OutAck r (Inl (ConnectionLostErr ''disconnect during pending place_order ack''))) (bs_pending_acks s)"

definition broker_disconnect :: "int \<Rightarrow> native_broker \<Rightarrow> native_broker" where
  "broker_disconnect now nb =
     (let nb1 = nb\<lparr>nb_connected := False\<rparr>;
          s = nb_state nb1;
          nb2 = nb_emit (drained_answers s)
                  (nb1\<lparr>nb_state := s\<lparr>bs_pending_contracts := hm_new, bs_pending_executions := hm_new,
                                     bs_pending_acks := hm_new\<rparr>\<rparr>);
          nb3 = nb2\<lparr>nb_client := client_disconnect (nb_client nb2)\<rparr>
      in nb_emit [OutConnection \<lparr>ce_state = Closed, ce_reason = Some ''disconnect requested'', ce_timestamp_ns = now\<rparr>] nb3)"

section \<open>Orders\<close>

text \<open>The frame of an order: the contract's template comes from the cache, which keeps the one it
  first encodes for an instrument.\<close>

definition order_frame ::
  "gateway_env \<Rightarrow> int \<Rightarrow> contract \<Rightarrow> place_order_params \<Rightarrow> broker_state \<Rightarrow> byte list \<times> broker_state" where
  "order_frame E order_id c params s =
     (case hm_get (bs_templates s) (c_instrument_id c) of
        Some template \<Rightarrow> (place_order_fast (ge_format E) order_id template params, s)
      | None \<Rightarrow>
          let template = from_contract (ge_format E) (place_order_contract_request E c)
          in (place_order_fast (ge_format E) order_id template params,
              s\<lparr>bs_templates := hm_insert (c_instrument_id c) template (bs_templates s)\<rparr>))"

definition nb_set_acks :: "((int, unit) hmap \<Rightarrow> (int, unit) hmap) \<Rightarrow> native_broker \<Rightarrow> native_broker" where
  "nb_set_acks f nb = nb\<lparr>nb_state := (nb_state nb)\<lparr>bs_pending_acks := f (bs_pending_acks (nb_state nb))\<rparr>\<rparr>"

text \<open>\<open>place_order\<close> up to its wait: on success the result is the number it waits on.\<close>

definition place_order_start ::
  "gateway_env \<Rightarrow> string option \<Rightarrow> place_order_req \<Rightarrow> native_broker \<Rightarrow> (broker_error + int) \<times> native_broker" where
  "place_order_start E fault req nb =
     (if po_qty req = 0 then (Inl (InvalidRequestErr ''qty must be > 0''), nb)
      else
        let (order_id, c) = alloc_order_id (nb_client nb);
            nb1 = nb\<lparr>nb_client := c\<rparr>
        in if order_id \<le> 0 then (Inl (InternalErr ''next_valid_id not seeded''), nb1)
           else
             let nb2 = nb_set_acks (hm_insert order_id ()) nb1
             in case build_place_params E req (nb_account nb2) of
                  Inl e \<Rightarrow> (Inl e, nb2)
                | Inr params \<Rightarrow>
                    let (frame, s) = order_frame E order_id (po_contract req) params (nb_state nb2)
                    in case broker_send fault frame (nb2\<lparr>nb_state := s\<rparr>) of
                         (Inl e, nb3) \<Rightarrow> (Inl e, nb_set_acks (hm_remove order_id) nb3)
                       | (Inr _, nb3) \<Rightarrow> (Inr order_id, nb3))"

text \<open>The wait ends with the answer of the dispatcher, with its sender dropped, or with the time
  limit.\<close>

datatype 'a wait_outcome = Answered "broker_error + 'a" | SenderDropped | Elapsed

definition place_order_finish ::
  "int \<Rightarrow> unit wait_outcome \<Rightarrow> native_broker \<Rightarrow> (broker_error + order_id) \<times> native_broker" where
  "place_order_finish order_id outcome nb =
     (case outcome of
        Answered (Inr _) \<Rightarrow> (Inr (as_u64 order_id), nb)
      | Answered (Inl e) \<Rightarrow> (Inl e, nb)
      | SenderDropped \<Rightarrow> (Inl (InternalErr ''place_order ack channel dropped''), nb)
      | Elapsed \<Rightarrow>
          (Inl (ProtocolErr None (''place_order ack timeout (orderId='' @ decimal order_id @ '')'')),
           nb_set_acks (hm_remove order_id) nb))"

definition broker_cancel_order ::
  "gateway_env \<Rightarrow> string option \<Rightarrow> order_id \<Rightarrow> native_broker \<Rightarrow> (broker_error + unit) \<times> native_broker" where
  "broker_cancel_order E fault oid nb = broker_send fault (req_cancel_order (ge_format E) (wrap_i32 oid)) nb"

definition or_else :: "'a option \<Rightarrow> 'a option \<Rightarrow> 'a option" where
  "or_else a b = (case a of Some x \<Rightarrow> Some x | None \<Rightarrow> b)"

definition modified_request :: "string \<Rightarrow> open_order \<Rightarrow> modify_order_req \<Rightarrow> place_order_req" where
  "modified_request account existing req =
     \<lparr>po_contract = oo_contract existing, po_side = oo_side existing,
      po_qty = (case mo_qty req of Some q \<Rightarrow> q | None \<Rightarrow> oo_qty existing),
      po_order_type = oo_order_type existing, po_price = or_else (mo_price req) (oo_price existing),
      po_tif = oo_tif existing, po_gtd_until_utc = or_else (mo_gtd_until_utc req) (oo_gtd_until_utc existing),
      po_client_order_ref = oo_client_order_ref existing, po_account = Some account\<rparr>"

definition broker_modify_order ::
  "gateway_env \<Rightarrow> string option \<Rightarrow> order_id \<Rightarrow> modify_order_req \<Rightarrow> native_broker \<Rightarrow>
   (broker_error + unit) \<times> native_broker" where
  "broker_modify_order E fault oid req nb =
     (case hm_get (bs_open_orders (nb_state nb)) (wrap_i32 oid) of
        None \<Rightarrow> (Inl (InternalErr (''modify_order: orderId='' @ decimal oid @ '' not in open cache'')), nb)
      | Some existing \<Rightarrow>
          let cr = place_order_contract_request E (oo_contract existing)
          in case build_place_params E (modified_request (nb_account nb) existing req) (nb_account nb) of
               Inl e \<Rightarrow> (Inl e, nb)
             | Inr params \<Rightarrow> broker_send fault (req_place_order (ge_format E) (wrap_i32 oid) cr params) nb)"

section \<open>Snapshots\<close>

definition broker_positions :: "native_broker \<Rightarrow> broker_position list" where
  "broker_positions nb = hm_values (bs_positions (nb_state nb))"

definition broker_open_orders :: "native_broker \<Rightarrow> open_order list" where
  "broker_open_orders nb = hm_values (bs_open_orders (nb_state nb))"

definition apply_account_value :: "string \<Rightarrow> f64 \<Rightarrow> account_snapshot \<Rightarrow> account_snapshot" where
  "apply_account_value key v snap =
     (if key = ''NetLiquidation'' then snap\<lparr>as_net_liquidation := v\<rparr>
      else if key = ''MaintMarginReq'' then snap\<lparr>as_maintenance_margin := v\<rparr>
      else if key = ''InitMarginReq'' then snap\<lparr>as_initial_margin := v\<rparr>
      else if key = ''BuyingPower'' then snap\<lparr>as_buying_power := v\<rparr>
      else if key = ''RealizedPnL'' then snap\<lparr>as_realized_pnl_today := v\<rparr>
      else snap)"

definition broker_account_values :: "int \<Rightarrow> native_broker \<Rightarrow> account_snapshot" where
  "broker_account_values now nb =
     fold (\<lambda>((key, _), m). apply_account_value key (parse_or_zero (gav_value m)))
       (bs_account_values (nb_state nb))
       \<lparr>as_net_liquidation = fzero, as_maintenance_margin = fzero, as_initial_margin = fzero,
        as_buying_power = fzero, as_realized_pnl_today = fzero, as_timestamp_ns = now\<rparr>"

section \<open>Requests with an answer\<close>

definition recent_fills_start ::
  "gateway_env \<Rightarrow> string option \<Rightarrow> int \<Rightarrow> native_broker \<Rightarrow> (broker_error + int) \<times> native_broker" where
  "recent_fills_start E fault since_ns nb =
     (let (req_id, nb1) = alloc_req_id nb;
          nb2 = nb1\<lparr>nb_state := (nb_state nb1)\<lparr>bs_pending_executions :=
                  hm_insert req_id [] (bs_pending_executions (nb_state nb1))\<rparr>\<rparr>;
          time = (if since_ns = 0 then []
                  else (case ge_format_exec E (as_i64 (since_ns div 1000000000)) of Some t \<Rightarrow> t | None \<Rightarrow> []));
          filt = \<lparr>ef_client_id = 0, ef_account = nb_account nb2, ef_time = time, ef_symbol = [], ef_sec_type = [],
                 ef_exchange = [], ef_side = []\<rparr>
      in case broker_send fault (req_executions (ge_format E) req_id filt) nb2 of
           (Inl e, nb3) \<Rightarrow> (Inl e, nb3)
         | (Inr _, nb3) \<Rightarrow> (Inr req_id, nb3))"

definition recent_fills_finish ::
  "int \<Rightarrow> fill list wait_outcome \<Rightarrow> native_broker \<Rightarrow> (broker_error + fill list) \<times> native_broker" where
  "recent_fills_finish req_id outcome nb =
     (case outcome of
        Answered r \<Rightarrow> (r, nb)
      | SenderDropped \<Rightarrow> (Inl (InternalErr ''recent_fills channel dropped''), nb)
      | Elapsed \<Rightarrow>
          (Inl (InternalErr ''recent_fills timeout''),
           nb\<lparr>nb_state := (nb_state nb)\<lparr>bs_pending_executions := hm_remove req_id (bs_pending_executions (nb_state nb))\<rparr>\<rparr>))"

text \<open>The sending part that the three contract requests share: number, waiter, frame.\<close>

definition contract_query_start ::
  "gateway_env \<Rightarrow> string option \<Rightarrow> contract_request \<Rightarrow> native_broker \<Rightarrow> (broker_error + int) \<times> native_broker" where
  "contract_query_start E fault cr nb =
     (let (req_id, nb1) = alloc_req_id nb;
          nb2 = nb1\<lparr>nb_state := (nb_state nb1)\<lparr>bs_pending_contracts :=
                  hm_insert req_id [] (bs_pending_contracts (nb_state nb1))\<rparr>\<rparr>
      in case broker_send fault (req_contract_details (ge_format E) req_id cr) nb2 of
           (Inl e, nb3) \<Rightarrow> (Inl e, nb3)
         | (Inr _, nb3) \<Rightarrow> (Inr req_id, nb3))"

definition drop_contract_waiter :: "int \<Rightarrow> native_broker \<Rightarrow> native_broker" where
  "drop_contract_waiter req_id nb =
     nb\<lparr>nb_state := (nb_state nb)\<lparr>bs_pending_contracts := hm_remove req_id (bs_pending_contracts (nb_state nb))\<rparr>\<rparr>"

definition future_request :: "gateway_env \<Rightarrow> future_query \<Rightarrow> contract_request" where
  "future_request E q =
     (empty_contract_request (fq_symbol q) ''FUT'')\<lparr>cr_last_trade_date := ge_format_day E (fq_expiry q),
        cr_exchange := exchange_to_str (fq_exchange q), cr_currency := currency_to_str (fq_currency q)\<rparr>"

definition option_request :: "gateway_env \<Rightarrow> option_query \<Rightarrow> contract_request" where
  "option_request E q =
     (empty_contract_request (oq_symbol q) ''FOP'')\<lparr>cr_last_trade_date := ge_format_day E (oq_expiry q),
        cr_strike := oq_strike q, cr_right := (case oq_right q of Call \<Rightarrow> ''C'' | Put \<Rightarrow> ''P''),
        cr_multiplier := decimal (to_i64 (oq_multiplier q)),
        cr_exchange := exchange_to_str (oq_exchange q), cr_currency := currency_to_str (oq_currency q)\<rparr>"

definition chain_request :: "chain_query \<Rightarrow> contract_request" where
  "chain_request q =
     (empty_contract_request (cq_symbol q)
        (case cq_kind q of Some Future \<Rightarrow> ''FUT'' | Some OptionKind \<Rightarrow> ''FOP'' | None \<Rightarrow> ''FUT''))
      \<lparr>cr_exchange := exchange_to_str (cq_exchange q), cr_currency := currency_to_str (cq_currency q)\<rparr>"

definition qualify_future_start ::
  "gateway_env \<Rightarrow> string option \<Rightarrow> future_query \<Rightarrow> native_broker \<Rightarrow> (broker_error + int) \<times> native_broker" where
  "qualify_future_start E fault q nb = contract_query_start E fault (future_request E q) nb"

definition qualify_option_start ::
  "gateway_env \<Rightarrow> string option \<Rightarrow> option_query \<Rightarrow> native_broker \<Rightarrow> (broker_error + int) \<times> native_broker" where
  "qualify_option_start E fault q nb = contract_query_start E fault (option_request E q) nb"

definition list_chain_start ::
  "gateway_env \<Rightarrow> string option \<Rightarrow> chain_query \<Rightarrow> native_broker \<Rightarrow> (broker_error + int) \<times> native_broker" where
  "list_chain_start E fault q nb = contract_query_start E fault (chain_request q) nb"

text \<open>\<open>op\<close> is the operation its messages name; the text of a failed match quotes the query.\<close>

definition qualify_finish ::
  "string \<Rightarrow> int \<Rightarrow> contract list wait_outcome \<Rightarrow> native_broker \<Rightarrow> (broker_error + contract) \<times> native_broker" where
  "qualify_finish op req_id outcome nb =
     (case outcome of
        Answered (Inr cs) \<Rightarrow>
          (case cs of c # _ \<Rightarrow> (Inr c, nb) | [] \<Rightarrow> (Inl (ContractNotFoundErr ''no match''), nb))
      | Answered (Inl e) \<Rightarrow> (Inl e, nb)
      | SenderDropped \<Rightarrow> (Inl (InternalErr (op @ '' channel dropped'')), nb)
      | Elapsed \<Rightarrow> (Inl (InternalErr (op @ '' timeout'')), drop_contract_waiter req_id nb))"

definition list_chain_finish ::
  "naive_date option \<Rightarrow> int \<Rightarrow> contract list wait_outcome \<Rightarrow> native_broker \<Rightarrow> (broker_error + contract list) \<times> native_broker" where
  "list_chain_finish min_expiry req_id outcome nb =
     (case outcome of
        Answered (Inr cs) \<Rightarrow>
          (Inr (case min_expiry of None \<Rightarrow> cs | Some d \<Rightarrow> filter (\<lambda>c. d \<le> c_expiry c) cs), nb)
      | Answered (Inl e) \<Rightarrow> (Inl e, nb)
      | SenderDropped \<Rightarrow> (Inl (InternalErr ''list_chain channel dropped''), nb)
      | Elapsed \<Rightarrow> (Inl (InternalErr ''list_chain timeout''), drop_contract_waiter req_id nb))"

section \<open>Tick streams\<close>

definition subscribe_ticks ::
  "gateway_env \<Rightarrow> string option \<Rightarrow> tick_subscription \<Rightarrow> native_broker \<Rightarrow> (broker_error + stream_handle) \<times> native_broker" where
  "subscribe_ticks E fault sub nb =
     (let (req_id, nb1) = alloc_req_id nb;
          (h, nb2) = alloc_handle nb1;
          s = nb_state nb2;
          nb3 = nb2\<lparr>nb_state := s\<lparr>bs_tick_routes := hm_insert req_id (ts_instrument_id sub) (bs_tick_routes s),
                                   bs_handles := hm_insert h req_id (bs_handles s)\<rparr>\<rparr>;
          cr = (empty_contract_request [] [])\<lparr>cr_con_id := as_i64 (ts_instrument_id sub)\<rparr>
      in case broker_send fault (req_mkt_data (ge_format E) req_id cr [] False False) nb3 of
           (Inl e, nb4) \<Rightarrow> (Inl e, nb4)
         | (Inr _, nb4) \<Rightarrow> (Inr h, nb4))"

definition unsubscribe_ticks ::
  "gateway_env \<Rightarrow> string option \<Rightarrow> stream_handle \<Rightarrow> native_broker \<Rightarrow> (broker_error + unit) \<times> native_broker" where
  "unsubscribe_ticks E fault h nb =
     (let s = nb_state nb
      in case hm_get (bs_handles s) h of
           None \<Rightarrow> (Inr (), nb\<lparr>nb_state := s\<lparr>bs_handles := hm_remove h (bs_handles s)\<rparr>\<rparr>)
         | Some rid \<Rightarrow>
             broker_send fault (cancel_mkt_data (ge_format E) rid)
               (nb\<lparr>nb_state := s\<lparr>bs_handles := hm_remove h (bs_handles s),
                                 bs_tick_routes := hm_remove rid (bs_tick_routes s)\<rparr>\<rparr>))"

end
