(* ===== verification/Gateway_Safety.thy ===== *)
theory Gateway_Safety
  imports Gateway_Broker
begin

text \<open>
  The executions of the gateway adapter and what holds in all of them. The tasks interleave at
  their locks, so an execution is any sequence of the adapter's operations, of frames the
  receive task takes from the socket and of turns of the dispatcher.
\<close>

section \<open>Executions\<close>

inductive broker_step :: "gateway_env \<Rightarrow> native_broker \<Rightarrow> native_broker \<Rightarrow> bool" for E where
  connect: "broker_step E nb (snd (broker_connect E io now nb))"
| disconnect: "broker_step E nb (broker_disconnect now nb)"
| place: "broker_step E nb (snd (place_order_start E fault req nb))"
| placed: "broker_step E nb (snd (place_order_finish order_id outcome nb))"
| cancel: "broker_step E nb (snd (broker_cancel_order E fault oid nb))"
| modify: "broker_step E nb (snd (broker_modify_order E fault oid mreq nb))"
| fills: "broker_step E nb (snd (recent_fills_start E fault since nb))"
| fills_done: "broker_step E nb (snd (recent_fills_finish req_id fouts nb))"
| query: "broker_step E nb (snd (contract_query_start E fault cr nb))"
| matched: "broker_step E nb (snd (qualify_finish opn req_id couts nb))"
| listed: "broker_step E nb (snd (list_chain_finish d req_id couts nb))"
| subscribe: "broker_step E nb (snd (subscribe_ticks E fault sub nb))"
| unsubscribe: "broker_step E nb (snd (unsubscribe_ticks E fault h nb))"
| publisher: "broker_step E nb (set_tick_publisher nb)"
| reseed: "broker_step E nb (reset_seeding_flags nb)"
| receive: "broker_step E nb (nb\<lparr>nb_client := snd (recv_message fs (nb_client nb))\<rparr>)"
| dispatch: "dispatch_next E now nb = Inr nb' \<Longrightarrow> broker_step E nb nb'"
| closed: "broker_step E nb (dispatcher_ends now nb)"

inductive broker_reachable :: "gateway_env \<Rightarrow> native_broker \<Rightarrow> native_broker \<Rightarrow> bool" for E nb where
  start: "broker_reachable E nb nb"
| step: "broker_reachable E nb mid \<Longrightarrow> broker_step E mid nb' \<Longrightarrow> broker_reachable E nb nb'"

text \<open>The same executions with the states they pass through before each step.\<close>

inductive broker_path :: "gateway_env \<Rightarrow> native_broker \<Rightarrow> native_broker list \<Rightarrow> native_broker \<Rightarrow> bool" for E nb where
  nil: "broker_path E nb [] nb"
| snoc: "broker_path E nb mids mid \<Longrightarrow> broker_step E mid nb' \<Longrightarrow> broker_path E nb (mids @ [mid]) nb'"

lemma broker_path_reachable: "broker_reachable E nb nb' \<longleftrightarrow> (\<exists>mids. broker_path E nb mids nb')"
proof
  show "broker_reachable E nb nb' \<Longrightarrow> \<exists>mids. broker_path E nb mids nb'"
    by (induction rule: broker_reachable.induct) (blast intro: broker_path.intros)+
next
  assume "\<exists>mids. broker_path E nb mids nb'"
  then obtain mids where "broker_path E nb mids nb'" by blast
  then show "broker_reachable E nb nb'"
    by (induction rule: broker_path.induct) (blast intro: broker_reachable.intros)+
qed

section \<open>What an operation leaves alone\<close>

text \<open>A quiet operation touches neither the waiters of orders nor the order cache, sends nothing on
  the channels and keeps the receiver; it may move the order counter forward.\<close>

definition quiet :: "native_broker \<Rightarrow> native_broker \<Rightarrow> bool" where
  "quiet nb nb' \<longleftrightarrow>
     bs_pending_acks (nb_state nb') = bs_pending_acks (nb_state nb) \<and>
     bs_open_orders (nb_state nb') = bs_open_orders (nb_state nb) \<and>
     bs_positions (nb_state nb') = bs_positions (nb_state nb) \<and>
     nb_sent nb' = nb_sent nb \<and> nb_rx nb' = nb_rx nb \<and>
     nc_next_order_id (nb_client nb) \<le> nc_next_order_id (nb_client nb')"

lemma quiet_refl [simp]: "quiet nb nb"
  by (simp add: quiet_def)

lemma quiet_trans: "quiet a b \<Longrightarrow> quiet b c \<Longrightarrow> quiet a c"
  by (auto simp: quiet_def)

lemma send_raw_id: "nc_next_order_id (snd (send_raw fault frame c)) = nc_next_order_id c"
  by (simp add: send_raw_def split: option.split)

lemma broker_send_quiet: "quiet nb (snd (broker_send fault frame nb))"
  "nb_state (snd (broker_send fault frame nb)) = nb_state nb"
  "nb_connected (snd (broker_send fault frame nb)) = nb_connected nb"
  "nc_next_order_id (nb_client (snd (broker_send fault frame nb))) = nc_next_order_id (nb_client nb)"
  using send_raw_id [of fault frame "nb_client nb"]
  by (auto simp: broker_send_def quiet_def split: prod.split sum.split)

lemma broker_send_snd:
  "broker_send fault frame nb = (r, nb') \<Longrightarrow> nb' = snd (broker_send fault frame nb)"
  by simp

lemma broker_send_quiet_eq: "broker_send fault frame nb = (r, nb') \<Longrightarrow> quiet nb nb'"
  using broker_send_quiet(1) [of nb fault frame] by simp

lemma broker_send_all_quiet: "broker_send_all frames nb = (r, nb') \<Longrightarrow> quiet nb nb'"
  by (induction frames nb arbitrary: r nb' rule: broker_send_all.induct)
    (auto split: prod.splits sum.splits dest!: broker_send_quiet_eq intro: quiet_trans)

lemma client_connect_id: "client_connect tcp w1 reads w2 c = (r, c') \<Longrightarrow> nc_next_order_id c' = nc_next_order_id c"
  by (auto simp: client_connect_def Let_def split: tcp_outcome.splits option.splits sum.splits if_splits)

lemma recv_messages_id: "nc_next_order_id c \<le> nc_next_order_id (snd (recv_messages fss c))"
proof (induction fss arbitrary: c)
  case (Cons fs fss)
  obtain b c' where c': "recv_message fs c = (b, c')" by fastforce
  then have "nc_next_order_id c \<le> nc_next_order_id c'" using recv_message_frame(3) [of c fs] by simp
  with Cons.IH [of c'] c' show ?case by (cases b) auto
qed simp

lemma wait_for_bootstrap_id: "wait_for_bootstrap batches c = (r, c') \<Longrightarrow> nc_next_order_id c \<le> nc_next_order_id c'"
  by (induction batches c rule: wait_for_bootstrap.induct)
    (auto split: if_splits intro: order_trans [OF recv_messages_id])

text \<open>What a connection attempt changes: the receiver may be taken, and a connection event sent.\<close>

lemma broker_connect_effect:
  assumes "broker_connect E io now nb = (r, nb')"
  shows "bs_pending_acks (nb_state nb') = bs_pending_acks (nb_state nb) \<and>
     bs_open_orders (nb_state nb') = bs_open_orders (nb_state nb) \<and>
     bs_positions (nb_state nb') = bs_positions (nb_state nb) \<and>
     nc_next_order_id (nb_client nb) \<le> nc_next_order_id (nb_client nb') \<and>
     (nb_rx nb' \<longrightarrow> nb_rx nb) \<and>
     (\<exists>ev. nb_sent nb' = nb_sent nb \<or> nb_sent nb' = nb_sent nb @ [OutConnection ev])"
  using assms unfolding broker_connect_def
  by (auto simp: Let_def quiet_def nb_emit_def simp del: broker_send_all.simps
      split: if_splits prod.splits sum.splits
      dest!: client_connect_id wait_for_bootstrap_id broker_send_all_quiet)

lemma quiet_operations:
  "quiet nb (snd (broker_cancel_order E fault oid nb))"
  "quiet nb (snd (broker_modify_order E fault oid mreq nb))"
  "quiet nb (snd (recent_fills_start E fault since nb))"
  "quiet nb (snd (recent_fills_finish req_id fouts nb))"
  "quiet nb (snd (contract_query_start E fault cr nb))"
  "quiet nb (snd (qualify_finish opn req_id couts nb))"
  "quiet nb (snd (list_chain_finish d req_id couts nb))"
  "quiet nb (snd (subscribe_ticks E fault sub nb))"
  "quiet nb (snd (unsubscribe_ticks E fault h nb))"
  "quiet nb (set_tick_publisher nb)" "quiet nb (reset_seeding_flags nb)"
  "quiet nb (nb\<lparr>nb_client := snd (recv_message fs (nb_client nb))\<rparr>)"
proof -
  show "quiet nb (snd (broker_cancel_order E fault oid nb))"
    by (simp add: broker_cancel_order_def broker_send_quiet)
  show "quiet nb (snd (broker_modify_order E fault oid mreq nb))"
    by (simp add: broker_modify_order_def Let_def broker_send_quiet split: option.split sum.split)
  show "quiet nb (snd (recent_fills_start E fault since nb))"
    by (auto simp: recent_fills_start_def alloc_req_id_def Let_def quiet_def split: prod.split sum.split
        dest!: broker_send_quiet_eq)
  show "quiet nb (snd (recent_fills_finish req_id fouts nb))"
    by (auto simp: recent_fills_finish_def quiet_def split: wait_outcome.split)
  show "quiet nb (snd (contract_query_start E fault cr nb))"
    by (auto simp: contract_query_start_def alloc_req_id_def Let_def quiet_def split: prod.split sum.split
        dest!: broker_send_quiet_eq)
  show "quiet nb (snd (qualify_finish opn req_id couts nb))"
    by (auto simp: qualify_finish_def drop_contract_waiter_def quiet_def
        split: wait_outcome.split sum.split list.split)
  show "quiet nb (snd (list_chain_finish d req_id couts nb))"
    by (auto simp: list_chain_finish_def drop_contract_waiter_def quiet_def split: wait_outcome.split sum.split)
  show "quiet nb (snd (subscribe_ticks E fault sub nb))"
    by (auto simp: subscribe_ticks_def alloc_req_id_def alloc_handle_def Let_def quiet_def split: prod.split sum.split
        dest!: broker_send_quiet_eq)
  show "quiet nb (snd (unsubscribe_ticks E fault h nb))"
    by (auto simp: unsubscribe_ticks_def Let_def split: option.split intro!: quiet_trans [OF _ broker_send_quiet(1)])
      (simp_all add: quiet_def)
  show "quiet nb (set_tick_publisher nb)" "quiet nb (reset_seeding_flags nb)"
    by (simp_all add: set_tick_publisher_def reset_seeding_flags_def quiet_def)
  show "quiet nb (nb\<lparr>nb_client := snd (recv_message fs (nb_client nb))\<rparr>)"
    by (simp add: quiet_def recv_message_frame)
qed

section \<open>Each order is answered once\<close>

fun ack_of :: "broker_output \<Rightarrow> int option" where
  "ack_of (OutAck i _) = Some i"
| "ack_of _ = None"

definition ack_ids :: "broker_output list \<Rightarrow> int list" where
  "ack_ids outs = concat (map (\<lambda>out. case ack_of out of None \<Rightarrow> [] | Some i \<Rightarrow> [i]) outs)"

lemma ack_ids_simps [simp]:
  "ack_ids [] = []"
  "ack_ids (out # outs) = (case ack_of out of None \<Rightarrow> ack_ids outs | Some i \<Rightarrow> i # ack_ids outs)"
  "ack_ids (xs @ ys) = ack_ids xs @ ack_ids ys"
  by (simp_all add: ack_ids_def split: option.split)

text \<open>Answers leave the table of waiters.\<close>

definition acks_step :: "(int, unit) hmap \<Rightarrow> (int, unit) hmap \<Rightarrow> int list \<Rightarrow> bool" where
  "acks_step pend pend' acks \<longleftrightarrow>
     (hm_ok pend \<longrightarrow> hm_ok pend') \<and> distinct acks \<and>
     (\<forall>i. hm_get pend' i \<noteq> None \<longrightarrow> hm_get pend i \<noteq> None \<and> i \<notin> set acks) \<and>
     (\<forall>i \<in> set acks. hm_get pend i \<noteq> None)"

lemma acks_step_none [simp]: "acks_step pend pend []"
  by (simp add: acks_step_def)

lemma resolve_ack_step:
  "resolve_ack i answer s = (s', outs) \<Longrightarrow> acks_step (bs_pending_acks s) (bs_pending_acks s') (ack_ids outs)"
  by (auto simp: resolve_ack_def acks_step_def hm_contains_def hm_simps hm.ok_remove split: if_splits)

lemma route_acks:
  assumes "route E publisher now m s = (s', outs)"
  shows "acks_step (bs_pending_acks s) (bs_pending_acks s') (ack_ids outs)"
proof (cases m)
  case (ImOpenOrder ord)
  have "bs_pending_acks s = bs_pending_acks (case native_to_open_order E ord of None \<Rightarrow> s
      | Some op \<Rightarrow> s\<lparr>bs_open_orders := hm_insert (goo_order_id ord) op (bs_open_orders s)\<rparr>)"
    by (simp split: option.split)
  then show ?thesis
    using assms ImOpenOrder resolve_ack_step by (simp add: route_open_order_def Let_def)
next
  case (ImOrderStatus st)
  have u: "bs_pending_acks (update_cached_order st s) = bs_pending_acks s"
    by (simp add: update_cached_order_def split: option.split)
  show ?thesis
    using assms ImOrderStatus resolve_ack_step [of "gos_order_id st" "Inr ()" "update_cached_order st s"] u
    by (auto simp: route_order_status_def Let_def split: prod.splits if_splits)
next
  case (ImError e)
  let ?s1 = "if 0 < ger_req_id e \<and> is_contract_error (ger_error_code e)
    then s\<lparr>bs_pending_contracts := hm_remove (ger_req_id e) (bs_pending_contracts s)\<rparr> else s"
  have u: "bs_pending_acks ?s1 = bs_pending_acks s" by simp
  show ?thesis
    using assms ImError u resolve_ack_step [of "ger_req_id e" _ ?s1]
    by (auto simp: route_error_def Let_def split: prod.splits if_splits)
qed (use assms in \<open>auto simp: route_position_def route_execution_def route_execution_end_def route_contract_details_def
      route_contract_details_end_def route_tick_def Let_def split: option.splits if_splits\<close>)

definition acks_ok :: "native_broker \<Rightarrow> bool" where
  "acks_ok nb \<longleftrightarrow>
     hm_ok (bs_pending_acks (nb_state nb)) \<and> distinct (ack_ids (nb_sent nb)) \<and>
     (\<forall>i \<in> set (ack_ids (nb_sent nb)). hm_get (bs_pending_acks (nb_state nb)) i = None \<and>
        i < nc_next_order_id (nb_client nb)) \<and>
     (\<forall>i. hm_get (bs_pending_acks (nb_state nb)) i \<noteq> None \<longrightarrow> i < nc_next_order_id (nb_client nb))"

lemma acks_ok_quiet: "acks_ok nb \<Longrightarrow> quiet nb nb' \<Longrightarrow> acks_ok nb'"
  by (fastforce simp: acks_ok_def quiet_def)

text \<open>A change whose answers come out of the table of waiters.\<close>

lemma acks_ok_step:
  assumes "acks_ok nb"
    and "acks_step (bs_pending_acks (nb_state nb)) (bs_pending_acks (nb_state nb')) (ack_ids outs)"
    and "ack_ids (nb_sent nb') = ack_ids (nb_sent nb) @ ack_ids outs"
    and "nc_next_order_id (nb_client nb) \<le> nc_next_order_id (nb_client nb')"
  shows "acks_ok nb'"
  using assms unfolding acks_ok_def acks_step_def by (auto; fastforce)

text \<open>An order takes the next number and installs its waiter, which stays unless the frame cannot be
  sent.\<close>

lemma place_order_effect:
  assumes "place_order_start E fault req nb = (r, nb')"
  shows "quiet nb nb' \<or>
     0 < nc_next_order_id (nb_client nb) \<and>
     nc_next_order_id (nb_client nb') = wrap_i32 (nc_next_order_id (nb_client nb) + 1) \<and>
     bs_open_orders (nb_state nb') = bs_open_orders (nb_state nb) \<and>
     bs_positions (nb_state nb') = bs_positions (nb_state nb) \<and> nb_sent nb' = nb_sent nb \<and> nb_rx nb' = nb_rx nb \<and>
     (let i = nc_next_order_id (nb_client nb); pend = hm_insert i () (bs_pending_acks (nb_state nb))
      in bs_pending_acks (nb_state nb') = pend \<or> bs_pending_acks (nb_state nb') = hm_remove i pend)"
proof -
  let ?i = "nc_next_order_id (nb_client nb)"
  obtain c where al: "alloc_order_id (nb_client nb) = (?i, c)" and
    c: "nc_next_order_id c = (if 0 < ?i then wrap_i32 (?i + 1) else ?i)"
    by (auto simp: alloc_order_id_def Let_def)
  have os: "bs_pending_acks (snd (order_frame E j ct ps s)) = bs_pending_acks s \<and>
      bs_open_orders (snd (order_frame E j ct ps s)) = bs_open_orders s \<and>
      bs_positions (snd (order_frame E j ct ps s)) = bs_positions s" for j ct ps s
    by (simp add: order_frame_def Let_def split: option.split)
  consider (zero) "po_qty req = 0" | (unseeded) "po_qty req \<noteq> 0" "?i \<le> 0" | (go) "po_qty req \<noteq> 0" "0 < ?i" by linarith
  then show ?thesis
  proof cases
    case zero
    then show ?thesis using assms by (simp add: place_order_start_def)
  next
    case unseeded
    then show ?thesis using assms c by (auto simp: place_order_start_def al Let_def quiet_def)
  next
    case go
    let ?nb = "nb_set_acks (hm_insert ?i ()) (nb\<lparr>nb_client := c\<rparr>)"
    show ?thesis
    proof (cases "build_place_params E req (nb_account ?nb)")
      case (Inl e)
      then show ?thesis using assms go c by (auto simp: place_order_start_def al Let_def nb_set_acks_def)
    next
      case (Inr params)
      obtain frame s where f: "order_frame E ?i (po_contract req) params (nb_state ?nb) = (frame, s)" by fastforce
      have s: "bs_pending_acks s = hm_insert ?i () (bs_pending_acks (nb_state nb))"
        "bs_open_orders s = bs_open_orders (nb_state nb)" "bs_positions s = bs_positions (nb_state nb)"
        using os [of ?i "po_contract req" params "nb_state ?nb"] f by (simp_all add: nb_set_acks_def)
      obtain r3 nb3 where b: "broker_send fault frame (?nb\<lparr>nb_state := s\<rparr>) = (r3, nb3)" by fastforce
      have q: "quiet (?nb\<lparr>nb_state := s\<rparr>) nb3" "nc_next_order_id (nb_client nb3) = nc_next_order_id c"
        using broker_send_quiet(1,4) [where nb = "?nb\<lparr>nb_state := s\<rparr>" and fault = fault and frame = frame]
        unfolding b snd_conv by (simp_all add: nb_set_acks_def)
      have "nb' = nb3 \<or> nb' = nb_set_acks (hm_remove ?i) nb3"
        using assms go Inr f b by (auto simp: place_order_start_def al Let_def split: sum.splits)
      then show ?thesis
        using q s c go by (auto simp: nb_set_acks_def quiet_def Let_def)
    qed
  qed
qed

lemma acks_ok_place:
  assumes "acks_ok nb" "nc_next_order_id (nb_client nb) < 2 ^ 31 - 1"
  shows "acks_ok (snd (place_order_start E fault req nb))"
proof -
  obtain r nb' where p: "place_order_start E fault req nb = (r, nb')" by fastforce
  have "acks_ok nb'"
    using place_order_effect [OF p]
  proof
    assume "quiet nb nb'"
    then show ?thesis by (rule acks_ok_quiet [OF assms(1)])
  next
    let ?i = "nc_next_order_id (nb_client nb)" and ?pend = "bs_pending_acks (nb_state nb)"
    assume e: "0 < ?i \<and> nc_next_order_id (nb_client nb') = wrap_i32 (?i + 1) \<and>
      bs_open_orders (nb_state nb') = bs_open_orders (nb_state nb) \<and>
      bs_positions (nb_state nb') = bs_positions (nb_state nb) \<and> nb_sent nb' = nb_sent nb \<and> nb_rx nb' = nb_rx nb \<and>
      (let i = ?i; pend = hm_insert i () ?pend
       in bs_pending_acks (nb_state nb') = pend \<or> bs_pending_acks (nb_state nb') = hm_remove i pend)"
    then have a: "0 < ?i \<and> nc_next_order_id (nb_client nb') = ?i + 1 \<and>
      bs_open_orders (nb_state nb') = bs_open_orders (nb_state nb) \<and>
      bs_positions (nb_state nb') = bs_positions (nb_state nb) \<and> nb_sent nb' = nb_sent nb \<and> nb_rx nb' = nb_rx nb \<and>
      (let i = ?i; pend = hm_insert i () ?pend
       in bs_pending_acks (nb_state nb') = pend \<or> bs_pending_acks (nb_state nb') = hm_remove i pend)"
      using wrap_i32_step assms(2) by auto
    have "hm_ok (bs_pending_acks (nb_state nb'))"
      using a assms(1) by (auto simp: acks_ok_def Let_def hm.ok_insert hm.ok_remove)
    moreover have "hm_get (bs_pending_acks (nb_state nb')) i \<noteq> None \<longrightarrow> i = ?i \<or> hm_get ?pend i \<noteq> None" for i
      using a by (auto simp: Let_def hm_simps split: if_splits)
    ultimately show ?thesis
      using a assms(1) unfolding acks_ok_def
      by (auto simp: Let_def hm_simps split: if_splits)
  qed
  then show ?thesis using p by simp
qed

lemma ack_ids_map_none: "(\<And>x. ack_of (f x) = None) \<Longrightarrow> ack_ids (map f xs) = []"
  by (induction xs) auto

lemma ack_ids_map_some: "(\<And>x. ack_of (f x) = Some (g x)) \<Longrightarrow> ack_ids (map f xs) = map g xs"
  by (induction xs) auto

lemma acks_drained: "ack_ids (drained_answers s) = map fst (bs_pending_acks s)"
  by (simp add: drained_answers_def ack_ids_map_none ack_ids_map_some [where g = fst] split_beta)

lemma acks_ok_disconnect:
  assumes "acks_ok nb"
  shows "acks_ok (broker_disconnect now nb)"
proof (rule acks_ok_step [OF assms, where outs = "drained_answers (nb_state nb)"])
  have "hm_ok (bs_pending_acks (nb_state nb))" using assms by (simp add: acks_ok_def)
  then show "acks_step (bs_pending_acks (nb_state nb)) (bs_pending_acks (nb_state (broker_disconnect now nb)))
      (ack_ids (drained_answers (nb_state nb)))"
    by (auto simp: acks_step_def acks_drained broker_disconnect_def nb_emit_def Let_def hm_simps hm.ok_new hm_ok_def
        hm_new_def hm_get_def map_of_eq_None_iff)
qed (simp_all add: broker_disconnect_def nb_emit_def Let_def client_disconnect_def)

lemma dispatch_next_effect:
  assumes "dispatch_next E now nb = Inr nb'"
  shows "nb' = nb \<or> (\<exists>fs m outs. parse_inbound fs = Inr m \<and>
       route E (nb_publisher nb) now m (nb_state nb) = (nb_state nb', outs) \<and> nb_sent nb' = nb_sent nb @ outs \<and>
       nb_rx nb' = nb_rx nb \<and> nc_next_order_id (nb_client nb') = nc_next_order_id (nb_client nb)) \<or>
     quiet nb nb'"
proof -
  have t: "take_message (nb_client nb) = (x, c) \<Longrightarrow> nc_next_order_id c = nc_next_order_id (nb_client nb)" for x c
    using take_message_id [of "nb_client nb"] by simp
  show ?thesis
    using assms unfolding dispatch_next_def dispatch_fields_def
    by (auto simp: and_then_def nb_emit_def quiet_def split: if_splits prod.splits option.splits sum.splits
        decode_failure.splits dest: t intro!: exI)
qed

lemma acks_ok_broker_step:
  assumes "broker_step E nb nb'" "acks_ok nb" "nc_next_order_id (nb_client nb) < 2 ^ 31 - 1"
  shows "acks_ok nb'"
  using assms(1)
proof cases
  case (connect io now)
  then show ?thesis
    using broker_connect_effect [of E io now nb "fst (broker_connect E io now nb)" nb'] assms(2)
    by (auto intro!: acks_ok_step [where nb = nb and outs = "[]"])
next
  case (disconnect now)
  then show ?thesis using acks_ok_disconnect [OF assms(2)] by simp
next
  case (place fault req)
  then show ?thesis using acks_ok_place [OF assms(2,3)] by simp
next
  case (placed order_id outcome)
  have "acks_step (bs_pending_acks (nb_state nb)) (bs_pending_acks (nb_state nb')) []"
    using placed by (auto simp: place_order_finish_def nb_set_acks_def acks_step_def hm_simps hm.ok_remove
        split: wait_outcome.splits sum.splits if_splits)
  then show ?thesis
    using placed by (intro acks_ok_step [OF assms(2), where outs = "[]"])
      (auto simp: place_order_finish_def nb_set_acks_def split: wait_outcome.splits sum.splits)
next
  case (dispatch now)
  from dispatch_next_effect [OF this] show ?thesis
    using assms(2) acks_ok_quiet acks_ok_step route_acks by (elim disjE exE conjE) (metis, metis ack_ids_simps(3) order_refl, metis)
next
  case (closed now)
  then show ?thesis
    by (intro acks_ok_step [OF assms(2), where outs = "[]"]) (simp_all add: dispatcher_ends_def nb_emit_def)
qed (use acks_ok_quiet [OF assms(2)] quiet_operations in auto)

lemma acks_ok_path:
  "broker_path E nb mids nb' \<Longrightarrow> acks_ok nb \<Longrightarrow>
   \<forall>mid \<in> set mids. nc_next_order_id (nb_client mid) < 2 ^ 31 - 1 \<Longrightarrow> acks_ok nb'"
  by (induction rule: broker_path.induct) (auto intro: acks_ok_broker_step)

lemma acks_ok_new: "acks_ok (native_broker_new cfg account)"
  by (simp add: acks_ok_def native_broker_new_def broker_state_default_def hm.ok_new hm_simps)

section \<open>The order cache\<close>

text \<open>No cached order has a remaining quantity or an expiry time.\<close>

definition cached_order_ok :: "open_order \<Rightarrow> bool" where
  "cached_order_ok op \<longleftrightarrow> oo_remaining_qty op = 0 \<and> oo_gtd_until_utc op = None"

definition cache_ok :: "native_broker \<Rightarrow> bool" where
  "cache_ok nb \<longleftrightarrow> (\<forall>k op. hm_get (bs_open_orders (nb_state nb)) k = Some op \<longrightarrow> cached_order_ok op) \<and>
     hm_ok (bs_open_orders (nb_state nb))"

lemma decoded_order_remaining:
  assumes "parse_inbound fs = Inr (ImOpenOrder ord)"
  shows "goo_remaining ord = fzero"
proof -
  have ne: "fs \<noteq> []" using assms by (auto simp: parse_inbound_def)
  then have "int_at fs 0 = Inr in_open_order"
    using parse_inbound_ok [OF ne] assms by (auto simp: result_ok_def int_at_def text_at_def native_def)
  then have "parse_open_order fs = Inr (ImOpenOrder ord)"
    using assms ne by (simp add: parse_inbound_def message_ids)
  moreover have "result_ok (\<lambda>m. \<forall>ord. m = ImOpenOrder ord \<longrightarrow> goo_remaining ord = fzero) (parse_open_order fs)"
    unfolding parse_open_order_def by (intro result_intros; simp add: no_panic_access)
  ultimately show ?thesis by (simp add: result_ok_def)
qed

lemma converted_order_ok:
  assumes "native_to_open_order E ord = Some op" "goo_remaining ord = fzero"
  shows "cached_order_ok op"
proof -
  have "f64_as_u32 fzero = 0" by (simp add: f64_as_u32_def)
  with assms show ?thesis by (auto simp: native_to_open_order_def cached_order_ok_def split: option.splits)
qed

text \<open>The cache after a message: every order in it was there, up to its status and filled quantity,
  or is the one the message reports; and no order leaves it.\<close>

lemma route_open_orders:
  assumes "route E publisher now m s = (s', outs)"
  shows "(hm_ok (bs_open_orders s) \<longrightarrow> hm_ok (bs_open_orders s')) \<and>
     (\<forall>k. hm_get (bs_open_orders s) k \<noteq> None \<longrightarrow> hm_get (bs_open_orders s') k \<noteq> None) \<and>
     (\<forall>k op. hm_get (bs_open_orders s') k = Some op \<longrightarrow>
        (\<exists>op'. hm_get (bs_open_orders s) k = Some op' \<and> (cached_order_ok op' \<longrightarrow> cached_order_ok op)) \<or>
        (\<exists>ord. m = ImOpenOrder ord \<and> native_to_open_order E ord = Some op))"
proof (cases m)
  case (ImOpenOrder ord)
  then show ?thesis
    using assms by (auto simp: route_open_order_def resolve_ack_def Let_def hm_simps hm.ok_insert split: option.splits if_splits)
next
  case (ImOrderStatus st)
  have "bs_open_orders (fst (route_order_status now st s)) = bs_open_orders (update_cached_order st s)"
    by (auto simp: route_order_status_def resolve_ack_def Let_def)
  then have "bs_open_orders s' = bs_open_orders (update_cached_order st s)" using assms ImOrderStatus by simp
  then show ?thesis
    by (auto simp: update_cached_order_def hm_simps hm.ok_insert cached_order_ok_def split: option.splits if_splits)
next
  case (ImError e)
  then have "bs_open_orders s' = bs_open_orders s"
    using assms by (auto simp: route_error_def resolve_ack_def Let_def split: if_splits)
  then show ?thesis by auto
qed (use assms in \<open>auto simp: route_position_def route_execution_def route_execution_end_def route_contract_details_def
      route_contract_details_end_def Let_def split: option.splits if_splits\<close>)

lemma step_open_orders:
  assumes "broker_step E nb nb'"
  shows "bs_open_orders (nb_state nb') = bs_open_orders (nb_state nb) \<or>
     (\<exists>fs m now outs. parse_inbound fs = Inr m \<and> route E (nb_publisher nb) now m (nb_state nb) = (nb_state nb', outs))"
  using assms
proof cases
  case (connect io now)
  then show ?thesis using broker_connect_effect [of E io now nb "fst (broker_connect E io now nb)" nb'] by auto
next
  case (place fault req)
  then show ?thesis
    using place_order_effect [of E fault req nb "fst (place_order_start E fault req nb)" nb']
    by (auto simp: quiet_def)
next
  case (dispatch now)
  from dispatch_next_effect [OF this] show ?thesis by (auto simp: quiet_def)
qed (auto simp: broker_disconnect_def nb_emit_def Let_def dispatcher_ends_def place_order_finish_def nb_set_acks_def
      quiet_operations [unfolded quiet_def] split: wait_outcome.split sum.split)

lemma cache_ok_step:
  assumes "broker_step E nb nb'" "cache_ok nb"
  shows "cache_ok nb'"
  using step_open_orders [OF assms(1)]
proof (elim disjE exE conjE)
  assume "bs_open_orders (nb_state nb') = bs_open_orders (nb_state nb)"
  then show ?thesis using assms(2) by (simp add: cache_ok_def)
next
  fix fs m now outs
  assume p: "parse_inbound fs = Inr m" and r: "route E (nb_publisher nb) now m (nb_state nb) = (nb_state nb', outs)"
  have "cached_order_ok op" if "hm_get (bs_open_orders (nb_state nb')) k = Some op" for k op
    using route_open_orders [OF r] that assms(2) p decoded_order_remaining converted_order_ok
    unfolding cache_ok_def by metis
  then show ?thesis using route_open_orders [OF r] assms(2) by (simp add: cache_ok_def)
qed

lemma cache_ok_reachable: "broker_reachable E nb nb' \<Longrightarrow> cache_ok nb \<Longrightarrow> cache_ok nb'"
  by (induction rule: broker_reachable.induct) (auto intro: cache_ok_step)

lemma cache_ok_new: "cache_ok (native_broker_new cfg account)"
  by (simp add: cache_ok_def native_broker_new_def broker_state_default_def hm.ok_new hm_simps)

lemma cached_reachable:
  assumes "broker_reachable E (native_broker_new cfg account) nb" "op \<in> set (broker_open_orders nb)"
  shows "cached_order_ok op"
  using cache_ok_reachable [OF assms(1) cache_ok_new] assms(2)
  by (auto simp: broker_open_orders_def cache_ok_def hm.elems_get)

section \<open>Contract listings\<close>

definition listing_answered :: "broker_output list \<Rightarrow> bool" where
  "listing_answered outs \<longleftrightarrow> (\<exists>r cs. OutContracts r (Inr cs) \<in> set outs)"

lemma route_listing:
  "route E publisher now m s = (s', outs) \<Longrightarrow> listing_answered outs \<Longrightarrow> \<exists>r. m = ImContractDetailsEnd r"
  by (cases m)
    (auto simp: listing_answered_def route_open_order_def route_order_status_def route_error_def resolve_ack_def
      route_execution_def route_execution_end_def route_tick_def Let_def split: option.splits if_splits)

lemma decoded_not_end: "parse_inbound fs = Inr m \<Longrightarrow> m \<noteq> ImContractDetailsEnd r"
  using parse_inbound_ok [of fs] by (cases "fs = []") (auto simp: result_ok_def parse_inbound_def)

lemma listing_step:
  assumes "broker_step E nb nb'" "\<not> listing_answered (nb_sent nb)"
  shows "\<not> listing_answered (nb_sent nb')"
  using assms(1)
proof cases
  case (connect io now)
  then show ?thesis
    using broker_connect_effect [of E io now nb "fst (broker_connect E io now nb)" nb'] assms(2)
    by (auto simp: listing_answered_def)
next
  case (place fault req)
  then show ?thesis
    using place_order_effect [of E fault req nb "fst (place_order_start E fault req nb)" nb'] assms(2)
    by (auto simp: quiet_def)
next
  case (dispatch now)
  have "\<not> listing_answered outs" if "parse_inbound fs = Inr m" "route E p now m s = (s', outs)" for fs m p s s' outs
    using route_listing [OF that(2)] decoded_not_end [OF that(1)] by blast
  with dispatch_next_effect [OF dispatch] assms(2) show ?thesis
    by (fastforce simp: quiet_def listing_answered_def)
qed (use assms(2) in \<open>auto simp: listing_answered_def broker_disconnect_def drained_answers_def nb_emit_def Let_def
      dispatcher_ends_def place_order_finish_def nb_set_acks_def quiet_operations [unfolded quiet_def]
      split: wait_outcome.split sum.split\<close>)

section \<open>The position cache\<close>

text \<open>Every cached quantity is a 32-bit integer.\<close>

definition typed_positions :: "native_broker \<Rightarrow> bool" where
  "typed_positions nb \<longleftrightarrow> (\<forall>kp \<in> set (bs_positions (nb_state nb)). in_i32 (bp_quantity (snd kp)))"

lemma typed_positions_cached: "typed_positions nb \<Longrightarrow> bp \<in> set (broker_positions nb) \<Longrightarrow> in_i32 (bp_quantity bp)"
  by (auto simp: typed_positions_def broker_positions_def hm_values_def)

lemma route_typed:
  assumes "route E publisher now m s = (s', outs)" "\<forall>kp \<in> set (bs_positions s). in_i32 (bp_quantity (snd kp))"
  shows "\<forall>kp \<in> set (bs_positions s'). in_i32 (bp_quantity (snd kp))"
proof (cases m)
  case (ImPosition p)
  have "in_i32 (bp_quantity pos)" if "native_to_position E p = Some pos" for pos
    using that by (auto simp: native_to_position_def split: option.splits)
  then have "\<forall>kp \<in> set (bs_positions (route_position E p s)). in_i32 (bp_quantity (snd kp))"
    using hm_all_values [where P = "\<lambda>bp. in_i32 (bp_quantity bp)", OF assms(2)] assms(2)
    unfolding route_position_def Let_def by (simp split: option.split) blast
  then show ?thesis using assms(1) ImPosition by simp
next
  case (ImOrderStatus st)
  have "bs_positions (fst (route_order_status now st s)) = bs_positions (update_cached_order st s)"
    by (auto simp: route_order_status_def resolve_ack_def Let_def)
  moreover have "bs_positions (update_cached_order st s) = bs_positions s"
    by (simp add: update_cached_order_def split: option.split)
  ultimately have "bs_positions s' = bs_positions s" using assms(1) ImOrderStatus by simp
  then show ?thesis using assms(2) by simp
next
  case (ImError e)
  then have "bs_positions s' = bs_positions s"
    using assms by (auto simp: route_error_def resolve_ack_def Let_def split: if_splits)
  then show ?thesis using assms(2) by simp
qed (use assms in \<open>auto simp: route_open_order_def resolve_ack_def route_execution_def route_execution_end_def
      route_contract_details_def route_contract_details_end_def Let_def split: option.splits if_splits\<close>)

lemma typed_positions_step:
  assumes "broker_step E nb nb'" "typed_positions nb"
  shows "typed_positions nb'"
  using assms(1)
proof cases
  case (connect io now)
  then show ?thesis
    using broker_connect_effect [of E io now nb "fst (broker_connect E io now nb)" nb'] assms(2)
    by (auto simp: typed_positions_def)
next
  case (place fault req)
  then show ?thesis
    using place_order_effect [of E fault req nb "fst (place_order_start E fault req nb)" nb'] assms(2)
    by (auto simp: quiet_def typed_positions_def)
next
  case (dispatch now)
  from dispatch_next_effect [OF this] show ?thesis
    using assms(2) route_typed unfolding typed_positions_def quiet_def by (elim disjE exE conjE) metis+
qed (use assms(2) in \<open>auto simp: typed_positions_def broker_disconnect_def nb_emit_def Let_def dispatcher_ends_def
      place_order_finish_def nb_set_acks_def quiet_operations [unfolded quiet_def]
      split: wait_outcome.split sum.split\<close>)

lemma typed_positions_new: "typed_positions (native_broker_new cfg account)"
  by (simp add: typed_positions_def native_broker_new_def broker_state_default_def hm_new_def)

section \<open>Reconnecting\<close>

lemma rx_step:
  assumes "broker_step E nb nb'" "\<not> nb_rx nb"
  shows "\<not> nb_rx nb'"
  using assms(1)
proof cases
  case (connect io now)
  then show ?thesis
    using broker_connect_effect [of E io now nb "fst (broker_connect E io now nb)" nb'] assms(2) by auto
next
  case (place fault req)
  then show ?thesis
    using place_order_effect [of E fault req nb "fst (place_order_start E fault req nb)" nb'] assms(2)
    by (auto simp: quiet_def)
next
  case (dispatch now)
  from dispatch_next_effect [OF this] show ?thesis using assms(2) by (auto simp: quiet_def)
qed (use assms(2) in \<open>auto simp: broker_disconnect_def nb_emit_def Let_def dispatcher_ends_def place_order_finish_def
      nb_set_acks_def quiet_operations [unfolded quiet_def] split: wait_outcome.split sum.split\<close>)

lemma rx_reachable: "broker_reachable E nb nb' \<Longrightarrow> \<not> nb_rx nb \<Longrightarrow> \<not> nb_rx nb'"
  by (induction rule: broker_reachable.induct) (auto dest: rx_step)

lemma connect_takes_rx:
  assumes "broker_connect E io now nb = (Inr (), nb')" "\<not> nb_connected nb"
  shows "\<not> nb_rx nb'"
  using assms unfolding broker_connect_def
  by (auto simp: Let_def quiet_def nb_emit_def simp del: broker_send_all.simps
      split: if_splits prod.splits sum.splits dest!: broker_send_all_quiet)

lemma connect_needs_rx:
  assumes "\<not> nb_rx nb" "\<not> nb_connected nb"
  shows "\<exists>e. fst (broker_connect E io now nb) = Inl e"
  using assms unfolding broker_connect_def
  by (auto simp: Let_def split: prod.split sum.split)

lemma hm_contains_in: "hm_contains m i \<Longrightarrow> \<exists>x. (i, x) \<in> set m"
  by (auto simp: hm_contains_def hm_get_def dest: map_of_SomeD)

section \<open>Properties\<close>

text \<open>A run used as the concrete execution of the witnesses: the counter is seeded, and an order for
  which there is no socket is refused.\<close>

definition demo_broker :: native_broker where
  "demo_broker = native_broker_new native_client_config_default ''DU1''"

definition demo_seeded :: native_broker where
  "demo_seeded = demo_broker\<lparr>nb_client := snd (recv_message [''9'', ''1'', ''7''] (nb_client demo_broker))\<rparr>"

lemma demo_seeded_id: "nc_next_order_id (nb_client demo_seeded) = 7"
proof -
  have "parse_int ''9'' = Inr 9" "parse_int ''7'' = Inr 7" by code_simp+
  then show ?thesis
    by (simp add: demo_seeded_def demo_broker_def native_broker_new_def recv_message_def own_state_def
        native_client_new_def message_ids Let_def)
qed

lemma demo_run:
  "broker_reachable demo_gateway_env demo_broker
     (snd (place_order_start demo_gateway_env None demo_place_req demo_seeded))"
proof -
  have "broker_step demo_gateway_env demo_broker demo_seeded"
    unfolding demo_seeded_def by (rule broker_step.receive)
  then have "broker_reachable demo_gateway_env demo_broker demo_seeded"
    by (rule broker_reachable.step [OF broker_reachable.start])
  then show ?thesis
    by (rule broker_reachable.step) (rule broker_step.place)
qed

text \<open>A connection that succeeds, and the report of a GTD order on it.\<close>

definition demo_io :: connect_io where
  "demo_io = \<lparr>io_tcp = TcpConnected, io_hello = None, io_reads = [ReadBytes (encode_fields [''176'', ''now''])],
     io_start = None, io_batches = [[[''9'', ''1'', ''7''], [''15'', ''1'', ''DU1'']]], io_account = None,
     io_positions = None, io_orders = None\<rparr>"

definition demo_report :: "string list" where
  "demo_report = [''5'', ''7'', ''42'', ''HG'', ''FOP'', ''20260526'', [], ''C'', ''25000'', ''COMEX'', ''USD'',
     ''HXEK6'', ''HXE'', ''SELL'', [], ''LMT'', [], [], ''GTD'']"

lemma demo_ints: "parse_int ''9'' = Inr 9" "parse_int ''7'' = Inr 7" "parse_int ''15'' = Inr 15" "parse_int ''5'' = Inr 5"
    "parse_int ''176'' = Inr 176" "parse_int64 ''42'' = Inr 42"
  by code_simp+

lemma demo_csv: "csv_parts ''DU1'' = [''DU1'']"
  by code_simp

lemma demo_handshake: "read_handshake_reply [] [ReadBytes (encode_fields [''176'', ''now''])] = Inr (176, ''now'')"
proof -
  have "try_decode_frame (encode_fields [''176'', ''now''] @ []) = (Inr (Some [''176'', ''now'']), [])"
    using socket.try1_frame [of "terminated [''176'', ''now'']" "[]"] split_fields_terminated [of "[''176'', ''now'']"]
    by (simp add: encode_fields_def field_ok_ascii ascii_def terminated_def str_bytes_def max_message_bytes_def)
  moreover have "encode_fields [''176'', ''now''] \<noteq> []"
    by (simp add: encode_fields_def length_prefixed_def terminated_def)
  ultimately show ?thesis by (simp add: demo_ints)
qed

definition demo_linked :: native_client where
  "demo_linked = \<lparr>nc_cfg = native_client_config_default,
     nc_writer = Some (encode_handshake min_server_version max_client_version @ start_api_frame native_client_config_default),
     nc_server_version = 176, nc_conn_time = ''now'', nc_next_order_id = 7, nc_managed_accounts = [''DU1''],
     nc_queue = [[''9'', ''1'', ''7''], [''15'', ''1'', ''DU1'']], nc_open = True, nc_msgs_sent = 1, nc_msgs_recv = 2,
     nc_msgs_dropped = 0\<rparr>"

lemma demo_bootstrap:
  "\<exists>c. client_connect TcpConnected None [ReadBytes (encode_fields [''176'', ''now''])] None
     (native_client_new native_client_config_default) = (Inr (), c) \<and>
   wait_for_bootstrap [[[''9'', ''1'', ''7''], [''15'', ''1'', ''DU1'']]] c = (Inr (), demo_linked)"
  by (simp add: client_connect_def demo_handshake min_server_version_def native_client_new_def bootstrapped_def
      recv_message_def own_state_def demo_ints demo_csv in_next_valid_id_def in_managed_accts_def Let_def
      dispatch_channel_cap_def wrap_u64_def demo_linked_def del: read_handshake_reply.simps)

lemma demo_connects:
  "\<exists>nb1. broker_connect demo_gateway_env demo_io 0 demo_broker = (Inr (), nb1) \<and> nb_dispatching nb1 \<and>
     nb_state nb1 = broker_state_default \<and> nc_open (nb_client nb1) \<and>
     nc_queue (nb_client nb1) = [[''9'', ''1'', ''7''], [''15'', ''1'', ''DU1'']] \<and>
     nc_next_order_id (nb_client nb1) = 7 \<and> nc_writer (nb_client nb1) \<noteq> None \<and> ack_ids (nb_sent nb1) = []"
proof -
  obtain c where c: "client_connect TcpConnected None [ReadBytes (encode_fields [''176'', ''now''])] None
      (native_client_new native_client_config_default) = (Inr (), c)"
    "wait_for_bootstrap [[[''9'', ''1'', ''7''], [''15'', ''1'', ''DU1'']]] c = (Inr (), demo_linked)"
    using demo_bootstrap by blast
  have b: "\<not> nb_connected demo_broker" "nb_client demo_broker = native_client_new native_client_config_default"
    "nb_rx demo_broker" "nb_sent demo_broker = []" "nb_state demo_broker = broker_state_default"
    by (simp_all add: demo_broker_def native_broker_new_def)
  show ?thesis
    unfolding broker_connect_def b demo_io_def connect_io.simps c
    using b by (simp add: c broker_send_def send_raw_def demo_linked_def nb_emit_def Let_def
        del: wait_for_bootstrap.simps)
qed

lemma demo_report_id: "nc_next_order_id (snd (recv_message demo_report c)) = nc_next_order_id c"
  by (simp add: recv_message_def own_state_def demo_report_def demo_ints message_ids Let_def)

lemma dispatch_queued:
  assumes "nb_dispatching nb" "nc_queue (nb_client nb) = fs # rest" "parse_inbound fs = Inr m"
    and "route E (nb_publisher nb) now m (nb_state nb) = (s', outs)"
  shows "dispatch_next E now nb =
     Inr (nb\<lparr>nb_client := (nb_client nb)\<lparr>nc_queue := rest\<rparr>, nb_state := s', nb_sent := nb_sent nb @ outs\<rparr>)"
  using assms by (simp add: dispatch_next_def take_message_def dispatch_fields_def nb_emit_def)

lemma demo_parses:
  "parse_inbound [''9'', ''1'', ''7''] = Inr (ImNextValidId 7)"
  "parse_inbound [''15'', ''1'', ''DU1''] = Inr (ImManagedAccounts [''DU1''])"
  by (simp_all add: parse_inbound_def int_at_def text_at_def native_def demo_ints message_ids int_or_def text_or_def demo_csv)

lemma demo_report_parses:
  "\<exists>ord. parse_inbound demo_report = Inr (ImOpenOrder ord) \<and> goo_order_id ord = 7 \<and> goo_tif ord = ''GTD'' \<and>
     goo_action ord = ''SELL'' \<and> gcd_sec_type (goo_contract ord) = ''FOP''"
  by (simp add: demo_report_def parse_inbound_def parse_open_order_def int_at_def int64_at_def f64_at_def text_at_def
      native_def demo_ints message_ids text_or_def parse_f64_def)

text \<open>After the connection the dispatcher handles the two bootstrap messages and the report.\<close>

lemma demo_cached:
  "\<exists>nb op. broker_reachable demo_gateway_env demo_broker nb \<and>
     hm_get (bs_open_orders (nb_state nb)) 7 = Some op \<and> oo_tif op = Gtd"
proof -
  let ?E = demo_gateway_env
  obtain nb1 where c: "broker_connect ?E demo_io 0 demo_broker = (Inr (), nb1)" "nb_dispatching nb1"
    "nb_state nb1 = broker_state_default" "nc_open (nb_client nb1)"
    "nc_queue (nb_client nb1) = [[''9'', ''1'', ''7''], [''15'', ''1'', ''DU1'']]"
    using demo_connects by blast
  define nb2 where "nb2 = nb1\<lparr>nb_client := snd (recv_message demo_report (nb_client nb1))\<rparr>"
  have q: "nc_queue (nb_client nb2) = [[''9'', ''1'', ''7''], [''15'', ''1'', ''DU1''], demo_report]"
    "nb_dispatching nb2" "nb_state nb2 = broker_state_default"
    using c recv_message_queue(1) [OF c(4), of demo_report]
    by (simp_all add: nb2_def dispatch_channel_cap_def)
  obtain ord where ord: "parse_inbound demo_report = Inr (ImOpenOrder ord)" "goo_order_id ord = 7"
      "goo_tif ord = ''GTD''" "goo_action ord = ''SELL''" "gcd_sec_type (goo_contract ord) = ''FOP''"
    using demo_report_parses by blast
  obtain op where op: "native_to_open_order ?E ord = Some op" "oo_tif op = Gtd"
    using ord by (simp add: native_to_open_order_def decoded_contract_def parse_kind_def parse_side_def parse_tif_def)
  obtain nb3 where d3: "dispatch_next ?E 0 nb2 = Inr nb3" and q3: "nc_queue (nb_client nb3) = [[''15'', ''1'', ''DU1''], demo_report]"
    "nb_dispatching nb3" "nb_state nb3 = broker_state_default"
    using dispatch_queued [OF q(2,1) demo_parses(1)] q by fastforce
  obtain nb4 where d4: "dispatch_next ?E 0 nb3 = Inr nb4" and q4: "nc_queue (nb_client nb4) = [demo_report]"
    "nb_dispatching nb4" "nb_state nb4 = broker_state_default"
    using dispatch_queued [OF q3(2,1) demo_parses(2)] q3 by fastforce
  obtain s outs where r: "route ?E (nb_publisher nb4) 0 (ImOpenOrder ord) (nb_state nb4) = (s, outs)" by fastforce
  have s: "hm_get (bs_open_orders s) 7 = Some op"
    using r op ord by (auto simp: route_open_order_def resolve_ack_def hm_simps)
  obtain nb5 where d5: "dispatch_next ?E 0 nb4 = Inr nb5" and s5: "nb_state nb5 = s"
    using dispatch_queued [OF q4(2,1) ord(1) r] by fastforce
  have "broker_reachable ?E demo_broker nb1"
    using broker_reachable.step [OF broker_reachable.start broker_step.connect [of ?E demo_broker demo_io 0]] c by simp
  then have "broker_reachable ?E demo_broker nb2"
    unfolding nb2_def by (rule broker_reachable.step [OF _ broker_step.receive])
  then have "broker_reachable ?E demo_broker nb5"
    using d3 d4 d5 by (blast intro: broker_reachable.step broker_step.dispatch)
  then show ?thesis using s s5 op by blast
qed

text \<open>An execution that answers an order: after the connection an order is sent under number 7, and the
  dispatcher handles the two bootstrap messages and the gateway's report of the order.\<close>

lemma demo_placed:
  assumes "nc_next_order_id (nb_client nb) = 7" "nc_writer (nb_client nb) \<noteq> None"
    "nb_state nb = broker_state_default"
  shows "\<exists>nb'. snd (place_order_start demo_gateway_env None demo_place_req nb) = nb' \<and>
     nb_sent nb' = nb_sent nb \<and> nc_next_order_id (nb_client nb') = 8 \<and>
     nc_queue (nb_client nb') = nc_queue (nb_client nb) \<and> nc_open (nb_client nb') = nc_open (nb_client nb) \<and>
     nb_dispatching nb' = nb_dispatching nb \<and> hm_contains (bs_pending_acks (nb_state nb')) 7"
proof -
  obtain w where w: "nc_writer (nb_client nb) = Some w" using assms(2) by blast
  show ?thesis
    using assms w
    by (simp add: place_order_start_def alloc_order_id_def demo_place_req_def build_place_params_def order_terms_def
        good_till_date_def order_frame_def broker_send_def send_raw_def nb_set_acks_def broker_state_default_def
        hm_simps hm_contains_def Let_def wrap_i32_def)
qed

lemma demo_answered:
  "\<exists>mids nb. broker_path demo_gateway_env demo_broker mids nb \<and>
     (\<forall>mid \<in> set mids. nc_next_order_id (nb_client mid) < 2 ^ 31 - 1) \<and> ack_ids (nb_sent nb) = [7]"
proof -
  let ?E = demo_gateway_env
  obtain nb1 where c: "broker_connect ?E demo_io 0 demo_broker = (Inr (), nb1)" "nb_dispatching nb1"
    "nb_state nb1 = broker_state_default" "nc_open (nb_client nb1)"
    "nc_queue (nb_client nb1) = [[''9'', ''1'', ''7''], [''15'', ''1'', ''DU1'']]"
    "nc_next_order_id (nb_client nb1) = 7" "nc_writer (nb_client nb1) \<noteq> None" "ack_ids (nb_sent nb1) = []"
    using demo_connects by blast
  obtain nbp where p: "snd (place_order_start ?E None demo_place_req nb1) = nbp" "nb_sent nbp = nb_sent nb1"
    "nc_next_order_id (nb_client nbp) = 8" "nc_queue (nb_client nbp) = nc_queue (nb_client nb1)"
    "nc_open (nb_client nbp)" "nb_dispatching nbp" "hm_contains (bs_pending_acks (nb_state nbp)) 7"
    using demo_placed [OF c(6,7,3)] c(2,4) by blast
  obtain ord where ord: "parse_inbound demo_report = Inr (ImOpenOrder ord)" "goo_order_id ord = 7"
    using demo_report_parses by blast
  define nb2 where "nb2 = nbp\<lparr>nb_client := snd (recv_message demo_report (nb_client nbp))\<rparr>"
  have q: "nc_queue (nb_client nb2) = [[''9'', ''1'', ''7''], [''15'', ''1'', ''DU1''], demo_report]"
    "nb_dispatching nb2" "nb_state nb2 = nb_state nbp" "nb_sent nb2 = nb_sent nb1" "nc_next_order_id (nb_client nb2) = 8"
    using p c recv_message_queue(1) [OF p(5), of demo_report] demo_report_id [of "nb_client nbp"]
    by (simp_all add: nb2_def dispatch_channel_cap_def)
  define nb3 where "nb3 = nb2\<lparr>nb_client := (nb_client nb2)\<lparr>nc_queue := [[''15'', ''1'', ''DU1''], demo_report]\<rparr>\<rparr>"
  have d3: "dispatch_next ?E 0 nb2 = Inr nb3"
    using dispatch_queued [OF q(2,1) demo_parses(1), of ?E 0 "nb_state nb2" "[]"] by (simp add: nb3_def)
  have q3: "nc_queue (nb_client nb3) = [[''15'', ''1'', ''DU1''], demo_report]" "nb_dispatching nb3"
    "nb_state nb3 = nb_state nbp" "nb_sent nb3 = nb_sent nb1" "nc_next_order_id (nb_client nb3) = 8"
    using q by (simp_all add: nb3_def)
  define nb4 where "nb4 = nb3\<lparr>nb_client := (nb_client nb3)\<lparr>nc_queue := [demo_report]\<rparr>\<rparr>"
  have d4: "dispatch_next ?E 0 nb3 = Inr nb4"
    using dispatch_queued [OF q3(2,1) demo_parses(2), of ?E 0 "nb_state nb3" "[]"] by (simp add: nb4_def)
  have q4: "nc_queue (nb_client nb4) = [demo_report]" "nb_dispatching nb4"
    "nb_state nb4 = nb_state nbp" "nb_sent nb4 = nb_sent nb1" "nc_next_order_id (nb_client nb4) = 8"
    using q3 by (simp_all add: nb4_def)
  obtain s outs where r: "route ?E (nb_publisher nb4) 0 (ImOpenOrder ord) (nb_state nb4) = (s, outs)" by fastforce
  then have outs: "outs = [OutAck 7 (Inr ())]"
    using ord(2) p(7) q4(3) by (auto simp: route_open_order_def resolve_ack_def Let_def split: option.splits)
  obtain nb5 where d5: "dispatch_next ?E 0 nb4 = Inr nb5" "nb_sent nb5 = nb_sent nb1 @ outs"
    using dispatch_queued [OF q4(2,1) ord(1) r] q4(4) by fastforce
  have b: "nc_next_order_id (nb_client demo_broker) = 0"
    by (simp add: demo_broker_def native_broker_new_def native_client_new_def)
  have "broker_path ?E demo_broker ([] @ [demo_broker]) nb1"
    using broker_path.snoc [OF broker_path.nil broker_step.connect [of ?E demo_broker demo_io 0]] c(1) by simp
  then have "broker_path ?E demo_broker (([] @ [demo_broker]) @ [nb1]) nbp"
    unfolding p(1) [symmetric] by (rule broker_path.snoc) (rule broker_step.place)
  then have "broker_path ?E demo_broker ((([] @ [demo_broker]) @ [nb1]) @ [nbp]) nb2"
    unfolding nb2_def by (rule broker_path.snoc) (rule broker_step.receive)
  then have "broker_path ?E demo_broker (((([] @ [demo_broker]) @ [nb1]) @ [nbp]) @ [nb2]) nb3"
    by (rule broker_path.snoc) (rule broker_step.dispatch [OF d3])
  then have "broker_path ?E demo_broker ((((([] @ [demo_broker]) @ [nb1]) @ [nbp]) @ [nb2]) @ [nb3]) nb4"
    by (rule broker_path.snoc) (rule broker_step.dispatch [OF d4])
  then have "broker_path ?E demo_broker (((((([] @ [demo_broker]) @ [nb1]) @ [nbp]) @ [nb2]) @ [nb3]) @ [nb4]) nb5"
    by (rule broker_path.snoc) (rule broker_step.dispatch [OF d5(1)])
  moreover have "ack_ids (nb_sent nb5) = [7]" using d5(2) outs c(8) by simp
  ultimately show ?thesis
    by (rule_tac exI, rule_tac exI) (auto simp: b c(6) p(3) q(5) q3(5) q4(5))
qed

text \<open>C31. No order is answered twice. Take any execution of the adapter, with orders placed and timing
  out, messages dispatched and connections lost and made in any order, in which the counter of
  order numbers has not reached the largest 32-bit integer (where the next allocation would
  wrap, and a number could be handed out again). Then each order number is answered at most
  once, and a number that has been answered has no waiter left.\<close>

theorem orders_answered_once:
  assumes "broker_path E (native_broker_new cfg account) mids nb"
    and "\<forall>mid \<in> set mids. nc_next_order_id (nb_client mid) < 2 ^ 31 - 1"
  shows "distinct (ack_ids (nb_sent nb)) \<and>
     (\<forall>i r. OutAck i r \<in> set (nb_sent nb) \<longrightarrow> \<not> hm_contains (bs_pending_acks (nb_state nb)) i)"
proof -
  have ok: "acks_ok nb" by (rule acks_ok_path [OF assms(1) acks_ok_new assms(2)])
  have "OutAck i r \<in> set outs \<Longrightarrow> i \<in> set (ack_ids outs)" for i r outs
    by (induction outs) (auto split: option.split)
  with ok show ?thesis by (auto simp: acks_ok_def hm_contains_def)
qed

theorem orders_answered_once_witness:
  "\<exists>mids nb. broker_path demo_gateway_env demo_broker mids nb \<and> ack_ids (nb_sent nb) = [7] \<and>
     \<not> hm_contains (bs_pending_acks (nb_state nb)) 7"
proof -
  obtain mids nb where run: "broker_path demo_gateway_env demo_broker mids nb"
    "\<forall>mid \<in> set mids. nc_next_order_id (nb_client mid) < 2 ^ 31 - 1" "ack_ids (nb_sent nb) = [7]"
    using demo_answered by blast
  have "i \<in> set (ack_ids outs) \<Longrightarrow> \<exists>r. OutAck i r \<in> set outs" for i outs
    by (induction outs) (auto split: option.splits elim: ack_of.elims)
  with run(3) have "\<exists>r. OutAck 7 r \<in> set (nb_sent nb)" by simp
  then show ?thesis
    using orders_answered_once [OF run(1) [unfolded demo_broker_def] run(2)] run by blast
qed

text \<open>C32. No caller is left waiting by a disconnect: every pending order, execution and contract request
  is answered with a lost connection and its waiter removed.\<close>

theorem disconnect_answers_every_waiter:
  "(\<forall>i. hm_contains (bs_pending_acks (nb_state nb)) i \<longrightarrow>
      (\<exists>e. OutAck i (Inl (ConnectionLostErr e)) \<in> set (nb_sent (broker_disconnect now nb)))) \<and>
   (\<forall>i. hm_contains (bs_pending_executions (nb_state nb)) i \<longrightarrow>
      (\<exists>e. OutExecutions i (Inl (ConnectionLostErr e)) \<in> set (nb_sent (broker_disconnect now nb)))) \<and>
   (\<forall>i. hm_contains (bs_pending_contracts (nb_state nb)) i \<longrightarrow>
      (\<exists>e. OutContracts i (Inl (ConnectionLostErr e)) \<in> set (nb_sent (broker_disconnect now nb)))) \<and>
   (\<forall>i. \<not> hm_contains (bs_pending_acks (nb_state (broker_disconnect now nb))) i \<and>
        \<not> hm_contains (bs_pending_executions (nb_state (broker_disconnect now nb))) i \<and>
        \<not> hm_contains (bs_pending_contracts (nb_state (broker_disconnect now nb))) i)"
proof -
  have sent: "set (drained_answers (nb_state nb)) \<subseteq> set (nb_sent (broker_disconnect now nb))"
    by (auto simp: broker_disconnect_def nb_emit_def Let_def)
  have acks: "OutAck i (Inl (ConnectionLostErr ''disconnect during pending place_order ack'')) \<in> set (drained_answers (nb_state nb))"
    if "hm_contains (bs_pending_acks (nb_state nb)) i" for i
    using hm_contains_in [OF that] by (force simp: drained_answers_def)
  have execs: "OutExecutions i (Inl (ConnectionLostErr ''disconnect during pending executions'')) \<in> set (drained_answers (nb_state nb))"
    if "hm_contains (bs_pending_executions (nb_state nb)) i" for i
    using hm_contains_in [OF that] by (force simp: drained_answers_def)
  have contracts: "OutContracts i (Inl (ConnectionLostErr ''disconnect during pending qualify'')) \<in> set (drained_answers (nb_state nb))"
    if "hm_contains (bs_pending_contracts (nb_state nb)) i" for i
    using hm_contains_in [OF that] by (force simp: drained_answers_def)
  have "\<not> hm_contains (bs_pending_acks (nb_state (broker_disconnect now nb))) i \<and>
      \<not> hm_contains (bs_pending_executions (nb_state (broker_disconnect now nb))) i \<and>
      \<not> hm_contains (bs_pending_contracts (nb_state (broker_disconnect now nb))) i" for i
    by (simp add: broker_disconnect_def nb_emit_def Let_def hm_contains_def hm_simps)
  then show ?thesis using subsetD [OF sent] acks execs contracts by blast
qed

theorem disconnect_answers_every_waiter_witness:
  "\<exists>e. OutAck 7 (Inl (ConnectionLostErr e)) \<in>
     set (nb_sent (broker_disconnect 0 (nb_set_acks (hm_insert 7 ()) demo_broker)))"
proof -
  have "hm_contains (bs_pending_acks (nb_state (nb_set_acks (hm_insert 7 ()) demo_broker))) 7"
    by (simp add: nb_set_acks_def hm_contains_def hm_simps)
  then show ?thesis
    using disconnect_answers_every_waiter [of "nb_set_acks (hm_insert 7 ()) demo_broker" 0] by blast
qed

text \<open>A contract request is never answered with contracts: the end of a listing is not decoded, so
  in every execution whatever the gateway sends, \<open>qualify_future\<close>, \<open>qualify_option\<close> and
  \<open>list_chain\<close> can only fail.\<close>

theorem listings_never_answered:
  assumes "broker_reachable E (native_broker_new cfg account) nb"
  shows "OutContracts req_id (Inr cs) \<notin> set (nb_sent nb)"
proof -
  have "broker_reachable E nb0 nb \<Longrightarrow> \<not> listing_answered (nb_sent nb0) \<Longrightarrow> \<not> listing_answered (nb_sent nb)" for nb0
    by (induction rule: broker_reachable.induct) (auto dest: listing_step)
  from this [OF assms] show ?thesis by (auto simp: listing_answered_def native_broker_new_def)
qed

theorem listings_never_answered_witness:
  "OutContracts 1000 (Inr [demo_option]) \<notin>
     set (nb_sent (snd (place_order_start demo_gateway_env None demo_place_req demo_seeded)))"
  by (rule listings_never_answered [OF demo_run [unfolded demo_broker_def]])

text \<open>A good-till-date order cannot be repriced: the cache never holds an expiry time, so
  in every execution a modification of a cached GTD order that does not bring a new expiry is
  refused and sends nothing.\<close>

theorem gtd_reprice_refused:
  assumes "broker_reachable E (native_broker_new cfg account) nb"
    and "hm_get (bs_open_orders (nb_state nb)) (wrap_i32 oid) = Some op" "oo_tif op = Gtd"
    and "mo_gtd_until_utc mreq = None"
  shows "\<exists>e. broker_modify_order E fault oid mreq nb = (Inl (InvalidRequestErr e), nb)"
proof -
  have "oo_gtd_until_utc op = None"
    using cache_ok_reachable [OF assms(1) cache_ok_new] assms(2) by (auto simp: cache_ok_def cached_order_ok_def)
  then have "good_till_date E (modified_request (nb_account nb) op mreq) =
      Inl (InvalidRequestErr ''Gtd TIF requires gtd_until_utc'')"
    using assms(3,4) by (simp add: good_till_date_def modified_request_def or_else_def)
  then have "\<exists>e. build_place_params E (modified_request (nb_account nb) op mreq) (nb_account nb) = Inl (InvalidRequestErr e)"
    by (auto simp: build_place_params_def order_terms_def split: order_type.split option.split)
  then show ?thesis using assms(2) by (auto simp: broker_modify_order_def Let_def)
qed

definition demo_reprice :: modify_order_req where
  "demo_reprice = \<lparr>mo_price = Some (Fin (1 / 4)), mo_qty = None, mo_gtd_until_utc = None\<rparr>"

theorem gtd_reprice_refused_witness:
  "\<exists>nb op e. hm_get (bs_open_orders (nb_state nb)) 7 = Some op \<and> oo_tif op = Gtd \<and>
     broker_modify_order demo_gateway_env None 7 demo_reprice nb = (Inl (InvalidRequestErr e), nb)"
proof -
  obtain nb op where n: "broker_reachable demo_gateway_env demo_broker nb"
    "hm_get (bs_open_orders (nb_state nb)) 7 = Some op" "oo_tif op = Gtd"
    using demo_cached by blast
  have "\<exists>e. broker_modify_order demo_gateway_env None 7 demo_reprice nb = (Inl (InvalidRequestErr e), nb)"
    using n by (intro gtd_reprice_refused [where op = op]) (auto simp: demo_broker_def demo_reprice_def wrap_i32_def)
  with n show ?thesis by blast
qed

text \<open>The adapter cannot reconnect: once a connection has been made, in every later state in which it
  is down, \<open>connect\<close> fails whatever the network does, because the receiver of the dispatch
  channel was given away by the first connection.\<close>

theorem reconnect_always_fails:
  assumes "broker_connect E io now nb = (Inr (), nb1)" "\<not> nb_connected nb"
    and "broker_reachable E nb1 nb2" "\<not> nb_connected nb2"
  shows "\<exists>e. fst (broker_connect E io' now' nb2) = Inl e"
  using connect_needs_rx [OF rx_reachable [OF assms(3) connect_takes_rx [OF assms(1,2)]] assms(4)] .

theorem reconnect_always_fails_witness:
  "\<exists>nb1 e. broker_connect demo_gateway_env demo_io 0 demo_broker = (Inr (), nb1) \<and>
     fst (broker_connect demo_gateway_env demo_io 9 (broker_disconnect 5 nb1)) = Inl e"
proof -
  obtain nb1 where c: "broker_connect demo_gateway_env demo_io 0 demo_broker = (Inr (), nb1)"
    using demo_connects by blast
  have r: "broker_reachable demo_gateway_env nb1 (broker_disconnect 5 nb1)"
    by (rule broker_reachable.step [OF broker_reachable.start broker_step.disconnect])
  have "\<not> nb_connected demo_broker" "\<not> nb_connected (broker_disconnect 5 nb1)"
    by (simp_all add: demo_broker_def native_broker_new_def broker_disconnect_def nb_emit_def Let_def)
  with reconnect_always_fails [OF c _ r, of demo_io 9] c show ?thesis by blast
qed

end
