(* ===== verification/Gateway_Calls.thy ===== *)
theory Gateway_Calls
  imports Gateway_Safety
begin

text \<open>
  The operations of the gateway adapter as their callers see them
  (\<open>corsair_broker_ibkr_native/src/broker.rs\<close>): each runs its sending part, waits while the receive
  task and the dispatcher run, and finishes with what the wait gave. What the network does is a
  parameter: the error of a write, if it fails, and the turns that the other tasks of the adapter
  take during a wait, both as functions of the adapter's state.
\<close>

section \<open>Waiting\<close>

datatype broker_turn =
    TurnReceive "string list"
  | TurnDispatch int
  | TurnClosed int

fun take_turn :: "gateway_env \<Rightarrow> broker_turn \<Rightarrow> native_broker \<Rightarrow> native_broker" where
  "take_turn E (TurnReceive fs) nb = nb\<lparr>nb_client := snd (recv_message fs (nb_client nb))\<rparr>"
| "take_turn E (TurnDispatch now) nb = (case dispatch_next E now nb of Inl _ \<Rightarrow> nb | Inr nb' \<Rightarrow> nb')"
| "take_turn E (TurnClosed now) nb = dispatcher_ends now nb"

definition run_turns :: "gateway_env \<Rightarrow> broker_turn list \<Rightarrow> native_broker \<Rightarrow> native_broker" where
  "run_turns E turns nb = fold (take_turn E) turns nb"

record network =
  nw_fault :: "native_broker \<Rightarrow> string option"
  nw_turns :: "native_broker \<Rightarrow> broker_turn list"

definition awaited :: "gateway_env \<Rightarrow> network \<Rightarrow> native_broker \<Rightarrow> native_broker" where
  "awaited E N nb = run_turns E (nw_turns N nb) nb"

text \<open>The one-shot of a request holds what was sent on it during the wait; without an answer the
  wait ends at its time limit.\<close>

fun ack_outcome :: "int \<Rightarrow> broker_output list \<Rightarrow> unit wait_outcome" where
  "ack_outcome i [] = Elapsed"
| "ack_outcome i (out # outs) =
     (case out of
        OutAck j r \<Rightarrow> if j = i then Answered r else ack_outcome i outs
      | _ \<Rightarrow> ack_outcome i outs)"

fun contracts_outcome :: "int \<Rightarrow> broker_output list \<Rightarrow> contract list wait_outcome" where
  "contracts_outcome i [] = Elapsed"
| "contracts_outcome i (out # outs) =
     (case out of
        OutContracts j r \<Rightarrow> if j = i then Answered r else contracts_outcome i outs
      | _ \<Rightarrow> contracts_outcome i outs)"

definition new_outputs :: "native_broker \<Rightarrow> native_broker \<Rightarrow> broker_output list" where
  "new_outputs nb nb' = drop (length (nb_sent nb)) (nb_sent nb')"

section \<open>Operations\<close>

definition gateway_place_order ::
  "gateway_env \<Rightarrow> network \<Rightarrow> place_order_req \<Rightarrow> native_broker \<Rightarrow> (broker_error + order_id) \<times> native_broker" where
  "gateway_place_order E N req nb =
     (case place_order_start E (nw_fault N nb) req nb of
        (Inl e, nb1) \<Rightarrow> (Inl e, nb1)
      | (Inr order_id, nb1) \<Rightarrow>
          let nb2 = awaited E N nb1
          in place_order_finish order_id (ack_outcome order_id (new_outputs nb1 nb2)) nb2)"

definition gateway_cancel_order ::
  "gateway_env \<Rightarrow> network \<Rightarrow> order_id \<Rightarrow> native_broker \<Rightarrow> (broker_error + unit) \<times> native_broker" where
  "gateway_cancel_order E N oid nb = broker_cancel_order E (nw_fault N nb) oid nb"

definition gateway_modify_order ::
  "gateway_env \<Rightarrow> network \<Rightarrow> order_id \<Rightarrow> modify_order_req \<Rightarrow> native_broker \<Rightarrow>
   (broker_error + unit) \<times> native_broker" where
  "gateway_modify_order E N oid req nb = broker_modify_order E (nw_fault N nb) oid req nb"

definition list_chain ::
  "gateway_env \<Rightarrow> network \<Rightarrow> chain_query \<Rightarrow> native_broker \<Rightarrow>
   (broker_error + contract list) \<times> native_broker" where
  "list_chain E N q nb =
     (case list_chain_start E (nw_fault N nb) q nb of
        (Inl e, nb1) \<Rightarrow> (Inl e, nb1)
      | (Inr req_id, nb1) \<Rightarrow>
          let nb2 = awaited E N nb1
          in list_chain_finish (cq_min_expiry q) req_id (contracts_outcome req_id (new_outputs nb1 nb2)) nb2)"

definition qualify_option ::
  "gateway_env \<Rightarrow> network \<Rightarrow> option_query \<Rightarrow> native_broker \<Rightarrow> (broker_error + contract) \<times> native_broker" where
  "qualify_option E N q nb =
     (case qualify_option_start E (nw_fault N nb) q nb of
        (Inl e, nb1) \<Rightarrow> (Inl e, nb1)
      | (Inr req_id, nb1) \<Rightarrow>
          let nb2 = awaited E N nb1
          in qualify_finish ''qualify_option'' req_id (contracts_outcome req_id (new_outputs nb1 nb2)) nb2)"

definition wait_for_initial_snapshot :: "gateway_env \<Rightarrow> network \<Rightarrow> native_broker \<Rightarrow> native_broker" where
  "wait_for_initial_snapshot E N nb = awaited E N nb"

section \<open>What a call leaves alone\<close>

lemma turn_step: "broker_step E nb (take_turn E t nb) \<or> take_turn E t nb = nb"
  by (cases t) (auto split: sum.split intro: broker_step.receive broker_step.dispatch broker_step.closed)

lemma reachable_trans:
  "broker_reachable E a b \<Longrightarrow> broker_reachable E b c \<Longrightarrow> broker_reachable E a c"
  by (rotate_tac 1, induction rule: broker_reachable.induct) (auto intro: broker_reachable.step)

lemma run_turns_reachable: "broker_reachable E nb (run_turns E turns nb)"
proof (induction turns arbitrary: nb)
  case Nil
  then show ?case by (simp add: run_turns_def broker_reachable.start)
next
  case (Cons t turns)
  have "broker_reachable E nb (take_turn E t nb)"
    using turn_step [of E nb t] by (metis broker_reachable.step broker_reachable.start)
  then show ?case using reachable_trans Cons.IH by (fastforce simp: run_turns_def)
qed

lemma awaited_reachable: "broker_reachable E nb (awaited E N nb)"
  by (simp add: awaited_def run_turns_reachable)

text \<open>Every step of the adapter extends what it has sent on its channels.\<close>

lemma place_order_start_frame:
  assumes "place_order_start E fault req nb = (r, nb')"
  shows "nb_sent nb' = nb_sent nb \<and> nb_rx nb' = nb_rx nb \<and>
     bs_open_orders (nb_state nb') = bs_open_orders (nb_state nb) \<and> bs_positions (nb_state nb') = bs_positions (nb_state nb)"
  using assms
  by (auto simp: place_order_start_def Let_def nb_set_acks_def quiet_def order_frame_def
      split: if_splits prod.splits sum.splits option.splits dest!: broker_send_quiet_eq)


text \<open>The facts about the adapter that the daemon rests on: the cache holds no order with a
  remaining quantity, no listing has been answered, and the cached positions are 32-bit integers.\<close>

definition gateway_ok :: "native_broker \<Rightarrow> bool" where
  "gateway_ok nb \<longleftrightarrow> cache_ok nb \<and> \<not> listing_answered (nb_sent nb) \<and> typed_positions nb"

lemma gateway_ok_frame:
  "gateway_ok nb \<Longrightarrow> nb_sent nb' = nb_sent nb \<Longrightarrow>
   bs_open_orders (nb_state nb') = bs_open_orders (nb_state nb) \<Longrightarrow>
   bs_positions (nb_state nb') = bs_positions (nb_state nb) \<Longrightarrow> gateway_ok nb'"
  by (simp add: gateway_ok_def cache_ok_def typed_positions_def)

lemma gateway_ok_quiet: "gateway_ok nb \<Longrightarrow> quiet nb nb' \<Longrightarrow> gateway_ok nb'"
  by (rule gateway_ok_frame) (simp_all add: quiet_def)

lemma gateway_ok_step: "broker_step E nb nb' \<Longrightarrow> gateway_ok nb \<Longrightarrow> gateway_ok nb'"
  by (simp add: gateway_ok_def cache_ok_step listing_step typed_positions_step)

lemma gateway_ok_reachable: "broker_reachable E nb nb' \<Longrightarrow> gateway_ok nb \<Longrightarrow> gateway_ok nb'"
  by (induction rule: broker_reachable.induct) (auto intro: gateway_ok_step)

lemma gateway_ok_new: "gateway_ok (native_broker_new cfg account)"
proof -
  have "\<not> listing_answered (nb_sent (native_broker_new cfg account))"
    by (simp add: native_broker_new_def listing_answered_def)
  then show ?thesis using cache_ok_new typed_positions_new by (simp add: gateway_ok_def)
qed

lemma gateway_ok_awaited: "gateway_ok nb \<Longrightarrow> gateway_ok (awaited E N nb)"
  by (rule gateway_ok_reachable [OF awaited_reachable])

lemma place_order_finish_frame:
  "nb_sent (snd (place_order_finish i w nb)) = nb_sent nb"
  "bs_open_orders (nb_state (snd (place_order_finish i w nb))) = bs_open_orders (nb_state nb)"
  "bs_positions (nb_state (snd (place_order_finish i w nb))) = bs_positions (nb_state nb)"
  by (simp_all add: place_order_finish_def nb_set_acks_def split: wait_outcome.split sum.split)

lemma gateway_ok_place:
  assumes "gateway_ok nb"
  shows "gateway_ok (snd (gateway_place_order E N req nb))"
proof (cases "place_order_start E (nw_fault N nb) req nb")
  case (Pair r nb1)
  then have ok: "gateway_ok nb1" using gateway_ok_frame [OF assms] place_order_start_frame by metis
  show ?thesis
  proof (cases r)
    case (Inr i)
    have "gateway_ok (snd (place_order_finish i w (awaited E N nb1)))" for w
      by (rule gateway_ok_frame [OF gateway_ok_awaited [OF ok, of E N] place_order_finish_frame])
    with Pair Inr show ?thesis by (simp add: gateway_place_order_def Let_def)
  qed (use Pair ok in \<open>simp add: gateway_place_order_def\<close>)
qed

lemma gateway_ok_orders:
  "gateway_ok nb \<Longrightarrow> gateway_ok (snd (gateway_cancel_order E N oid nb))"
  "gateway_ok nb \<Longrightarrow> gateway_ok (snd (gateway_modify_order E N oid req nb))"
  by (auto simp: gateway_cancel_order_def gateway_modify_order_def intro: gateway_ok_quiet quiet_operations)

lemma gateway_ok_query:
  "gateway_ok nb \<Longrightarrow> contract_query_start E fault cr nb = (r, nb') \<Longrightarrow> gateway_ok nb'"
  using gateway_ok_quiet [OF _ quiet_operations(5) [of nb E fault cr]] by simp

text \<open>A contract request of the daemon can only fail.\<close>

lemma contracts_outcome_answered:
  "contracts_outcome i outs = Answered (Inr cs) \<Longrightarrow> OutContracts i (Inr cs) \<in> set outs"
  by (induction outs) (auto split: broker_output.splits if_splits)

lemma contracts_never_answered:
  "gateway_ok nb' \<Longrightarrow> contracts_outcome i (new_outputs nb nb') \<noteq> Answered (Inr cs)"
  by (auto simp: gateway_ok_def listing_answered_def new_outputs_def
      dest!: contracts_outcome_answered in_set_dropD)

lemma list_chain_fails:
  assumes "gateway_ok nb"
  shows "\<exists>e nb'. list_chain E N q nb = (Inl e, nb') \<and> gateway_ok nb'"
proof (cases "contract_query_start E (nw_fault N nb) (chain_request q) nb")
  case (Pair r nb1)
  then have ok: "gateway_ok nb1" by (rule gateway_ok_query [OF assms])
  show ?thesis
  proof (cases r)
    case (Inl e)
    with Pair ok show ?thesis by (simp add: list_chain_def list_chain_start_def)
  next
    case (Inr i)
    let ?nb2 = "awaited E N nb1" and ?w = "contracts_outcome i (new_outputs nb1 (awaited E N nb1))"
    have "\<exists>e. fst (list_chain_finish (cq_min_expiry q) i ?w ?nb2) = Inl e"
      using contracts_never_answered [OF gateway_ok_awaited [OF ok], of i nb1]
      by (auto simp: list_chain_finish_def split: wait_outcome.split sum.split)
    moreover have "gateway_ok (snd (list_chain_finish (cq_min_expiry q) i ?w ?nb2))"
      by (rule gateway_ok_quiet [OF gateway_ok_awaited [OF ok] quiet_operations(7)])
    ultimately show ?thesis using Pair Inr
      by (cases "list_chain_finish (cq_min_expiry q) i ?w ?nb2") (simp add: list_chain_def list_chain_start_def Let_def)
  qed
qed

lemma qualify_option_fails:
  assumes "gateway_ok nb"
  shows "\<exists>e nb'. qualify_option E N q nb = (Inl e, nb') \<and> gateway_ok nb'"
proof (cases "contract_query_start E (nw_fault N nb) (option_request E q) nb")
  case (Pair r nb1)
  then have ok: "gateway_ok nb1" by (rule gateway_ok_query [OF assms])
  show ?thesis
  proof (cases r)
    case (Inl e)
    with Pair ok show ?thesis by (simp add: qualify_option_def qualify_option_start_def)
  next
    case (Inr i)
    let ?nb2 = "awaited E N nb1" and ?w = "contracts_outcome i (new_outputs nb1 (awaited E N nb1))"
    have "\<exists>e. fst (qualify_finish ''qualify_option'' i ?w ?nb2) = Inl e"
      using contracts_never_answered [OF gateway_ok_awaited [OF ok], of i nb1]
      by (auto simp: qualify_finish_def split: wait_outcome.split sum.split)
    moreover have "gateway_ok (snd (qualify_finish ''qualify_option'' i ?w ?nb2))"
      by (rule gateway_ok_quiet [OF gateway_ok_awaited [OF ok] quiet_operations(6)])
    ultimately show ?thesis using Pair Inr
      by (cases "qualify_finish ''qualify_option'' i ?w ?nb2")
        (simp add: qualify_option_def qualify_option_start_def Let_def)
  qed
qed

end
