(* ===== verification/Pricing_Core.thy ===== *)
theory Pricing_Core
  imports Trader_Pricing
begin

text \<open>
  The pricing functions of the broker's crate (\<open>corsair_pricing/src/lib.rs\<close>): Black-76, the
  implied volatility by Brent's method, the SABR and SVI formulas, and the quote decision that
  Python calls. The wrappers that only convert Python values are left out; the dictionary of the
  volatility parameters and the resulting one are records.
\<close>

section \<open>Black-76\<close>

definition black76_price_inner :: "'a libm_scheme \<Rightarrow> f64 \<Rightarrow> f64 \<Rightarrow> f64 \<Rightarrow> f64 \<Rightarrow> f64 \<Rightarrow> char \<Rightarrow> f64" where
  "black76_price_inner M f k t sigma r rt =
     (let is_call = (rt = CHR ''C'' \<or> rt = CHR ''c'') in
      if fle t fzero \<or> fle sigma fzero \<or> fle f fzero \<or> fle k fzero
      then (if is_call then fmax (fsub f k) fzero else fmax (fsub k f) fzero)
      else
        let sqrt_t = m_sqrt M t;
            d1 = fdiv (fadd (m_ln M (fdiv f k)) (fmul (fmul (fmul (lit (1 / 2)) sigma) sigma) t))
                   (fmul sigma sqrt_t);
            d2 = fsub d1 (fmul sigma sqrt_t);
            df = m_exp M (fmul (fneg r) t)
        in if is_call
           then fmul df (fsub (fmul f (m_cdf M d1)) (fmul k (m_cdf M d2)))
           else fmul df (fsub (fmul k (m_cdf M (fneg d2))) (fmul f (m_cdf M (fneg d1)))))"

definition is_call_text :: "string \<Rightarrow> bool" where
  "is_call_text rt \<longleftrightarrow> map to_ascii_uppercase rt = ''C''"

definition black76_price_text :: "'a libm_scheme \<Rightarrow> f64 \<Rightarrow> f64 \<Rightarrow> f64 \<Rightarrow> f64 \<Rightarrow> f64 \<Rightarrow> string \<Rightarrow> f64" where
  "black76_price_text M f k t sigma r rt =
     black76_price_inner M f k t sigma r (if is_call_text rt then CHR ''C'' else CHR ''P'')"

section \<open>Implied volatility\<close>

text \<open>One turn of Brent's method: the candidate is an inverse quadratic or a secant step, or the
  midpoint when one of the five safeguards holds. The state is the bracket with its function
  values, the previous best point and the one before it, and the flag of the last step.\<close>

record brent_state =
  br_a :: f64
  br_fa :: f64
  br_b :: f64
  br_fb :: f64
  br_c :: f64
  br_fc :: f64
  br_d :: f64
  br_mflag :: bool

definition interpolate :: "brent_state \<Rightarrow> f64" where
  "interpolate s =
     (let a = br_a s; fa = br_fa s; b = br_b s; fb = br_fb s; c = br_c s; fc = br_fc s
      in if \<not> feq fa fc \<and> \<not> feq fb fc
         then fadd (fadd (fdiv (fmul (fmul a fb) fc) (fmul (fsub fa fb) (fsub fa fc)))
                         (fdiv (fmul (fmul b fa) fc) (fmul (fsub fb fa) (fsub fb fc))))
                (fdiv (fmul (fmul c fa) fb) (fmul (fsub fc fa) (fsub fc fb)))
         else fsub b (fdiv (fmul fb (fsub b a)) (fsub fb fa)))"

definition quarter_point :: "brent_state \<Rightarrow> f64" where
  "quarter_point s = fdiv (fadd (fmul (lit 3) (br_a s)) (br_b s)) (lit 4)"

definition use_bisection :: "f64 \<Rightarrow> f64 \<Rightarrow> brent_state \<Rightarrow> bool" where
  "use_bisection xtol x s =
     (let a = br_a s; b = br_b s; c = br_c s; d = br_d s; mflag = br_mflag s;
          lo = quarter_point s; hi = b;
          between = (if fle lo hi then fge x lo \<and> fle x hi else fge x hi \<and> fle x lo)
      in \<not> between
         \<or> mflag \<and> fge (fabs (fsub x b)) (fdiv (fabs (fsub b c)) (lit 2))
         \<or> \<not> mflag \<and> fge (fabs (fsub x b)) (fdiv (fabs (fsub c d)) (lit 2))
         \<or> mflag \<and> flt (fabs (fsub b c)) xtol
         \<or> \<not> mflag \<and> flt (fabs (fsub c d)) xtol)"

definition order_bracket :: "brent_state \<Rightarrow> brent_state" where
  "order_bracket s =
     (if flt (fabs (br_fa s)) (fabs (br_fb s))
      then s\<lparr>br_a := br_b s, br_b := br_a s, br_fa := br_fb s, br_fb := br_fa s\<rparr> else s)"

definition next_point :: "f64 \<Rightarrow> brent_state \<Rightarrow> f64 \<times> bool" where
  "next_point xtol s =
     (let x = interpolate s
      in if use_bisection xtol x s then (fdiv (fadd (br_a s) (br_b s)) (lit 2), True) else (x, False))"

definition brent_step :: "(f64 \<Rightarrow> f64) \<Rightarrow> f64 \<Rightarrow> brent_state \<Rightarrow> brent_state" where
  "brent_step f xtol s =
     (let (x, mflag) = next_point xtol s;
          fx = f x;
          s1 = s\<lparr>br_mflag := mflag, br_d := br_c s, br_c := br_b s, br_fc := br_fb s\<rparr>;
          s2 = (if flt (fmul (br_fa s) fx) fzero then s1\<lparr>br_b := x, br_fb := fx\<rparr>
                else s1\<lparr>br_a := x, br_fa := fx\<rparr>)
      in order_bracket s2)"

fun brent_loop :: "(f64 \<Rightarrow> f64) \<Rightarrow> f64 \<Rightarrow> nat \<Rightarrow> brent_state \<Rightarrow> f64" where
  "brent_loop f xtol 0 s = br_b s"
| "brent_loop f xtol (Suc n) s =
     (if flt (fabs (fsub (br_b s) (br_a s))) xtol then br_b s
      else if feq (br_fb s) fzero then br_b s
      else brent_loop f xtol n (brent_step f xtol s))"

definition brent :: "(f64 \<Rightarrow> f64) \<Rightarrow> f64 \<Rightarrow> f64 \<Rightarrow> f64 \<Rightarrow> nat \<Rightarrow> f64 option" where
  "brent f a b xtol max_iter =
     (let fa = f a; fb = f b
      in if fge (fmul fa fb) fzero then None
         else
           let s = order_bracket \<lparr>br_a = a, br_fa = fa, br_b = b, br_fb = fb, br_c = a, br_fc = fa, br_d = a,
                                  br_mflag = True\<rparr>
           in Some (brent_loop f xtol max_iter (s\<lparr>br_c := br_a s, br_fc := br_fa s, br_d := br_a s\<rparr>)))"

definition implied_vol ::
  "'a libm_scheme \<Rightarrow> f64 \<Rightarrow> f64 \<Rightarrow> f64 \<Rightarrow> f64 \<Rightarrow> f64 \<Rightarrow> string \<Rightarrow> f64 option" where
  "implied_vol M market_price f k t r rt =
     (if fle t fzero \<or> fle market_price fzero then None
      else
        let intrinsic = (if is_call_text rt then fmax (fsub f k) fzero else fmax (fsub k f) fzero);
            df = m_exp M (fmul (fneg r) t)
        in if flt market_price (fsub (fmul df intrinsic) (lit (1 / 10 ^ 10))) then None
           else brent (\<lambda>sigma. fsub (black76_price_text M f k t sigma r rt) market_price)
                  (lit (1 / 100)) (lit 5) (lit (1 / 10 ^ 6)) 100)"

section \<open>Volatility models\<close>

definition svi_total_variance_inner :: "'a libm_scheme \<Rightarrow> f64 \<Rightarrow> f64 \<Rightarrow> f64 \<Rightarrow> f64 \<Rightarrow> f64 \<Rightarrow> f64 \<Rightarrow> f64" where
  "svi_total_variance_inner M k a b rho m sigma =
     (let dk = fsub k m
      in fadd a (fmul b (fadd (fmul rho dk) (m_sqrt M (fadd (fmul dk dk) (fmul sigma sigma))))))"

definition pricing_svi_implied_vol ::
  "'a libm_scheme \<Rightarrow> f64 \<Rightarrow> f64 \<Rightarrow> f64 \<Rightarrow> f64 \<Rightarrow> f64 \<Rightarrow> f64 \<Rightarrow> f64 \<Rightarrow> f64 \<Rightarrow> f64" where
  "pricing_svi_implied_vol M f k_strike t a b rho m sigma =
     (if fle t fzero \<or> fle k_strike fzero \<or> fle f fzero then fzero
      else
        let k = m_ln M (fdiv k_strike f);
            w = svi_total_variance_inner M k a b rho m sigma
        in if fle w fzero then lit (1 / 1000) else m_sqrt M (fdiv w t))"

definition pricing_sabr_implied_vol ::
  "trader_libm \<Rightarrow> f64 \<Rightarrow> f64 \<Rightarrow> f64 \<Rightarrow> f64 \<Rightarrow> f64 \<Rightarrow> f64 \<Rightarrow> f64 \<Rightarrow> f64" where
  "pricing_sabr_implied_vol M f k t alpha beta rho nu =
     (if fle t fzero \<or> fle alpha fzero \<or> fle f fzero \<or> fle k fzero
      then (if fgt alpha fzero then alpha else lit (1 / 100))
      else
        let eps = lit (1 / 10 ^ 7);
            one_minus_beta = fsub fone beta;
            p3 = fdiv (fmul (fmul (fsub (lit 2) (fmul (fmul (lit 3) rho) rho)) nu) nu) (lit 24)
        in if flt (fabs (fsub f k)) (fmul eps f) then
             let fmid_beta = m_powf M f one_minus_beta;
                 term1 = fdiv alpha fmid_beta;
                 p1 = fdiv (fmul (fmul (fdiv (m_powi M one_minus_beta 2) (lit 24)) alpha) alpha)
                        (m_powf M f (fsub (lit 2) (fmul (lit 2) beta)));
                 p2 = fdiv (fmul (fmul (fmul (fmul (lit (1 / 4)) rho) beta) nu) alpha) fmid_beta
             in fmul term1 (fadd fone (fmul (fadd (fadd p1 p2) p3) t))
           else
             let fk = fmul f k;
                 fk_beta = m_powf M fk (fdiv one_minus_beta (lit 2));
                 log_fk = m_ln M (fdiv f k);
                 z = fmul (fmul (fdiv nu alpha) fk_beta) log_fk;
                 xz = (if flt (fabs z) eps then fone
                       else
                         let sqrt_term = m_sqrt M (fadd (fsub fone (fmul (fmul (lit 2) rho) z)) (fmul z z))
                         in fdiv z (m_ln M (fdiv (fsub (fadd sqrt_term z) rho) (fsub fone rho))));
                 denom1 = fmul fk_beta
                   (fadd (fadd fone (fmul (fdiv (m_powi M one_minus_beta 2) (lit 24)) (m_powi M log_fk 2)))
                      (fmul (fdiv (m_powi M one_minus_beta 4) (lit 1920)) (m_powi M log_fk 4)));
                 p1 = fdiv (fmul (fmul (fdiv (m_powi M one_minus_beta 2) (lit 24)) alpha) alpha)
                        (m_powf M fk one_minus_beta);
                 p2 = fdiv (fmul (fmul (fmul (fmul (lit (1 / 4)) rho) beta) nu) alpha) fk_beta
             in fmul (fmul (fdiv alpha denom1) xz) (fadd fone (fmul (fadd (fadd p1 p2) p3) t)))"

section \<open>The quote decision for Python\<close>

text \<open>The dictionary of volatility parameters: its model name, if it has one that is text, and its
  numbers. A missing number is an exception of Python, the left result.\<close>

record py_vol_params =
  vp_model :: "string option"
  vp_item :: "string \<Rightarrow> f64 option"

datatype py_error = MissingItem string

record quote_decision =
  qd_side :: string
  qd_strike :: f64
  qd_expiry :: string
  qd_right :: string
  qd_price :: "f64 option"
  qd_theo :: "f64 option"
  qd_iv :: "f64 option"
  qd_action :: string
  qd_reason :: string

definition py_item :: "py_vol_params \<Rightarrow> string \<Rightarrow> py_error + f64" where
  "py_item v key = (case vp_item v key of None \<Rightarrow> Inl (MissingItem key) | Some x \<Rightarrow> Inr x)"

text \<open>The volatility of the model, None for a model that is not known.\<close>

definition decide_iv :: "trader_libm \<Rightarrow> f64 \<Rightarrow> f64 \<Rightarrow> f64 \<Rightarrow> py_vol_params \<Rightarrow> py_error + f64 option" where
  "decide_iv M forward strike tte v =
     (let model = (case vp_model v of None \<Rightarrow> [] | Some m \<Rightarrow> m)
      in if model = ''sabr'' then
           and_then (py_item v ''alpha'') (\<lambda>alpha.
           and_then (py_item v ''beta'') (\<lambda>beta.
           and_then (py_item v ''rho'') (\<lambda>rho.
           and_then (py_item v ''nu'') (\<lambda>nu.
             Inr (Some (pricing_sabr_implied_vol M forward strike tte alpha beta rho nu))))))
         else if model = ''svi'' then
           and_then (py_item v ''a'') (\<lambda>a.
           and_then (py_item v ''b'') (\<lambda>b.
           and_then (py_item v ''rho'') (\<lambda>rho.
           and_then (py_item v ''m'') (\<lambda>m.
           and_then (py_item v ''sigma'') (\<lambda>sigma.
             Inr (Some (pricing_svi_implied_vol M forward strike tte a b rho m sigma)))))))
         else Inr None)"

definition snap_to_tick :: "f64 \<Rightarrow> f64 \<Rightarrow> f64" where
  "snap_to_tick tick_size target = fmul (fround (fdiv target tick_size)) tick_size"

definition decide_target ::
  "string \<Rightarrow> f64 \<Rightarrow> f64 option \<Rightarrow> f64 option \<Rightarrow> f64 \<Rightarrow> f64 \<Rightarrow> string \<times> string \<times> f64 option" where
  "decide_target side theo market_bid market_ask edge tick_size =
     (if side = ''BUY'' then
        let target = fsub theo edge
        in if fle target fzero then (''skip'', ''target_nonpositive'', None)
           else (case market_ask of
                   Some ask \<Rightarrow>
                     if fgt ask fzero \<and> fge target ask then (''skip'', ''would_cross_ask'', Some target)
                     else (''place'', ''edge_below_theo'', Some (snap_to_tick tick_size target))
                 | None \<Rightarrow> (''place'', ''edge_below_theo'', Some (snap_to_tick tick_size target)))
      else if side = ''SELL'' then
        let target = fadd theo edge
        in (case market_bid of
              Some bid \<Rightarrow>
                if fgt bid fzero \<and> fle target bid then (''skip'', ''would_cross_bid'', Some target)
                else (''place'', ''edge_above_theo'', Some (snap_to_tick tick_size target))
            | None \<Rightarrow> (''place'', ''edge_above_theo'', Some (snap_to_tick tick_size target)))
      else (''skip'', ''unknown_side'', None))"

definition live_quote :: "f64 option \<Rightarrow> bool" where
  "live_quote q = (case q of Some x \<Rightarrow> fgt x fzero | None \<Rightarrow> False)"

definition decide_quote ::
  "trader_libm \<Rightarrow> f64 \<Rightarrow> f64 \<Rightarrow> string \<Rightarrow> string \<Rightarrow> string \<Rightarrow> py_vol_params option \<Rightarrow> f64 option \<Rightarrow> f64 option \<Rightarrow>
   int \<Rightarrow> f64 \<Rightarrow> f64 \<Rightarrow> py_error + quote_decision" where
  "decide_quote M forward strike expiry rt side vol_params market_bid market_ask min_edge_ticks tick_size tte =
     (let d = \<lparr>qd_side = side, qd_strike = strike, qd_expiry = expiry, qd_right = rt, qd_price = None,
               qd_theo = None, qd_iv = None, qd_action = [], qd_reason = []\<rparr>;
          skip = (\<lambda>d reason. Inr (d\<lparr>qd_action := ''skip'', qd_reason := reason\<rparr>))
      in case vol_params of
           None \<Rightarrow> skip d ''no_vol_surface''
         | Some v \<Rightarrow>
             and_then (decide_iv M forward strike tte v) (\<lambda>iv_opt.
               case iv_opt of
                 None \<Rightarrow> skip d ''model_not_in_rust''
               | Some iv \<Rightarrow>
                   if fle iv fzero \<or> is_nan iv then skip d ''iv_invalid''
                   else
                     let theo = black76_price_text M forward strike tte iv fzero rt
                     in if fle theo fzero then skip d ''theo_unavailable''
                        else
                          let d1 = d\<lparr>qd_iv := Some iv, qd_theo := Some theo\<rparr>
                          in if \<not> live_quote market_bid \<or> \<not> live_quote market_ask
                             then skip d1 ''one_sided_or_dark''
                             else
                               let edge = fmul (of_i min_edge_ticks) tick_size;
                                   (action, reason, price) =
                                     decide_target side theo market_bid market_ask edge tick_size
                               in Inr (d1\<lparr>qd_action := action, qd_reason := reason,
                                         qd_price := (case price of None \<Rightarrow> qd_price d1 | Some p \<Rightarrow> Some p)\<rparr>)))"

section \<open>The bracket of Brent's method\<close>

lemma rep_val_fadd: "rep (val (fadd x y))"
  by (cases x; cases y) (simp_all add: rep_val_rnd)

lemma rep_val_fdiv: "rep (val (fdiv x y))"
  by (auto simp: fdiv_def Let_def signed_inf_def rep_val_rnd)

text \<open>A volatility inside the search interval.\<close>

definition in_bracket :: "f64 \<Rightarrow> bool" where
  "in_bracket x \<longleftrightarrow> is_finite x \<and> rep (val x) \<and> val (lit (1 / 100)) \<le> val x \<and> val x \<le> 5"

lemma lit_hundredth: "is_finite (lit (1 / 100))" "\<bar>val (lit (1 / 100)) - 1 / 100\<bar> \<le> 1 / 2 ^ 32"
  using rnd_abs_error [of "1 / 100"] by (simp_all add: lit_def)

lemma lit_hundredth_range: "9 / 1000 \<le> val (lit (1 / 100))" "val (lit (1 / 100)) \<le> 5"
  using lit_hundredth(2) by (simp_all add: abs_if split: if_splits)

lemma in_bracket_range: "in_bracket x \<Longrightarrow> is_finite x \<and> 9 / 1000 \<le> val x \<and> val x \<le> 5"
  using lit_hundredth_range(1) unfolding in_bracket_def by linarith

lemma in_bracket_ends: "in_bracket (lit (1 / 100))" "in_bracket (lit 5)"
  using lit_hundredth(1) lit_hundredth_range lit_int [of 5] rep_of_int [of 5] rep_val_rnd [of "1 / 100"]
  by (simp_all add: in_bracket_def lit_def)

text \<open>A representable number between two volatilities of the bracket is one.\<close>

lemma in_bracket_between:
  assumes "in_bracket x" "in_bracket y" "fle x z" "fle z y" "rep (val z)"
  shows "in_bracket z"
proof -
  have "is_finite z" using fle_finite_sandwich [OF assms(3,4)] assms(1,2) by (simp add: in_bracket_def)
  with assms show ?thesis by (auto simp: in_bracket_def)
qed

lemma fadd_commute: "fadd x y = fadd y x"
  by (cases x; cases y) (simp_all add: add.commute)

lemma midpoint_in_bracket:
  assumes "in_bracket x" "in_bracket y"
  shows "in_bracket (fdiv (fadd x y) (lit 2))"
proof -
  have between: "in_bracket (fdiv (fadd u v) (lit 2))" if b: "in_bracket u" "in_bracket v" "fle u v" for u v
  proof -
    have "\<bar>val u\<bar> \<le> p2 1000" "\<bar>val v\<bar> \<le> p2 1000"
      using in_bracket_range [OF b(1)] in_bracket_range [OF b(2)] p2_1000 by linarith+
    then have "fle u (fdiv (fadd u v) (lit 2)) \<and> fle (fdiv (fadd u v) (lit 2)) v"
      using fmid_between [of u v] b by (simp add: in_bracket_def)
    then show ?thesis using in_bracket_between [OF b(1,2)] rep_val_fdiv by blast
  qed
  have "fle x y \<or> fle y x" using assms by (auto simp: in_bracket_def)
  then show ?thesis using between [of x y] between [of y x] assms fadd_commute [of x y] by auto
qed

text \<open>While the bracket is wider than the tolerance, the rounded quarter point lies inside it.\<close>

lemma quarter_point_inside:
  assumes "in_bracket (br_a s)" "in_bracket (br_b s)" "\<not> flt (fabs (fsub (br_b s) (br_a s))) (lit (1 / 10 ^ 6))"
  shows "in_bracket (quarter_point s)"
proof -
  let ?a = "br_a s" and ?b = "br_b s"
  have a: "is_finite ?a" "9 / 1000 \<le> val ?a" "val ?a \<le> 5" using in_bracket_range [OF assms(1)] by auto
  have b: "is_finite ?b" "9 / 1000 \<le> val ?b" "val ?b \<le> 5" using in_bracket_range [OF assms(2)] by auto
  have three: "lit 3 = Fin 3" "lit 4 = Fin 4" using lit_int [of 3] lit_int [of 4] by simp_all
  have wide: "99 / 10 ^ 8 \<le> \<bar>val ?b - val ?a\<bar>"
  proof -
    have d: "is_finite (fsub ?b ?a)" "\<bar>val (fsub ?b ?a) - (val ?b - val ?a)\<bar> \<le> 1 / 2 ^ 32"
      using fsub_abs_error [of ?b ?a] a b by (simp_all add: abs_le_iff)
    have e: "is_finite (lit (1 / 10 ^ 6))" "\<bar>val (lit (1 / 10 ^ 6)) - 1 / 10 ^ 6\<bar> \<le> 1 / 2 ^ 32"
      using rnd_abs_error [of "1 / 10 ^ 6"] by (simp_all add: lit_def)
    have "val (lit (1 / 10 ^ 6)) \<le> \<bar>val (fsub ?b ?a)\<bar>" using assms(3) d(1) e(1) by (simp add: not_less)
    with d(2) e(2) show ?thesis by (simp add: abs_if split: if_splits)
  qed
  let ?m = "fmul (lit 3) ?a"
  have m: "is_finite ?m" "\<bar>val ?m - 3 * val ?a\<bar> \<le> 1 / 2 ^ 32"
    using fmul_abs_error [of "lit 3" ?a] a by (simp_all add: three abs_le_iff)
  let ?s = "fadd ?m ?b"
  have s: "is_finite ?s" "\<bar>val ?s - (val ?m + val ?b)\<bar> \<le> 1 / 2 ^ 32"
  proof -
    have "\<bar>val ?m + val ?b\<bar> \<le> 2 ^ 21" using m(2) a b by (simp add: abs_if split: if_splits)
    then show "is_finite ?s" "\<bar>val ?s - (val ?m + val ?b)\<bar> \<le> 1 / 2 ^ 32"
      using fadd_abs_error [of ?m ?b] m a b by blast+
  qed
  let ?q = "quarter_point s"
  have q: "is_finite ?q" "\<bar>val ?q - val ?s / 4\<bar> \<le> 1 / 2 ^ 32"
  proof -
    have "\<bar>val ?s / val (lit 4)\<bar> \<le> 2 ^ 21"
      using s(2) m(2) a b by (simp add: three abs_if field_simps split: if_splits)
    then show "is_finite ?q" "\<bar>val ?q - val ?s / 4\<bar> \<le> 1 / 2 ^ 32"
      using fdiv_abs_error [of ?s "lit 4"] s by (simp_all add: three quarter_point_def)
  qed
  have near: "\<bar>val ?q - (3 * val ?a + val ?b) / 4\<bar> \<le> 2 / 2 ^ 32"
    using q(2) s(2) m(2) by (simp add: abs_if field_simps split: if_splits)
  have "fle ?a ?q \<and> fle ?q ?b \<or> fle ?b ?q \<and> fle ?q ?a"
    using near wide a b q by (auto simp: abs_le_iff abs_if field_simps split: if_splits)
  moreover have "rep (val ?q)" by (simp add: quarter_point_def rep_val_fdiv)
  ultimately show ?thesis using in_bracket_between [OF assms(1,2)] in_bracket_between [OF assms(2,1)] by blast
qed

text \<open>A state whose bracket lies in the search interval; no other field is constrained.\<close>

definition bracket_ok :: "brent_state \<Rightarrow> bool" where
  "bracket_ok s \<longleftrightarrow> in_bracket (br_a s) \<and> in_bracket (br_b s)"

lemma bracket_ok_order: "bracket_ok s \<Longrightarrow> bracket_ok (order_bracket s)"
  by (simp add: bracket_ok_def order_bracket_def)

lemma rep_interpolate: "rep (val (interpolate s))"
  by (simp add: interpolate_def Let_def rep_val_fadd fsub_def)

lemma next_point_inside:
  assumes "bracket_ok s" "\<not> flt (fabs (fsub (br_b s) (br_a s))) (lit (1 / 10 ^ 6))"
  shows "in_bracket (fst (next_point (lit (1 / 10 ^ 6)) s))"
proof (cases "use_bisection (lit (1 / 10 ^ 6)) (interpolate s) s")
  case True
  then show ?thesis using assms(1) by (simp add: next_point_def midpoint_in_bracket bracket_ok_def)
next
  case False
  then have "fle (quarter_point s) (interpolate s) \<and> fle (interpolate s) (br_b s) \<or>
      fle (br_b s) (interpolate s) \<and> fle (interpolate s) (quarter_point s)"
    by (auto simp: use_bisection_def Let_def split: if_splits)
  moreover have "in_bracket (quarter_point s)" "in_bracket (br_b s)"
    using quarter_point_inside assms by (auto simp: bracket_ok_def)
  ultimately have "in_bracket (interpolate s)" using in_bracket_between rep_interpolate by blast
  with False show ?thesis by (simp add: next_point_def)
qed

lemma brent_step_inside:
  assumes "bracket_ok s" "\<not> flt (fabs (fsub (br_b s) (br_a s))) (lit (1 / 10 ^ 6))"
  shows "bracket_ok (brent_step f (lit (1 / 10 ^ 6)) s)"
  using next_point_inside [OF assms] assms(1)
  by (auto simp: brent_step_def Let_def bracket_ok_def intro!: bracket_ok_order [unfolded bracket_ok_def]
      split: prod.split)

lemma brent_loop_inside: "bracket_ok s \<Longrightarrow> in_bracket (brent_loop f (lit (1 / 10 ^ 6)) n s)"
proof (induction n arbitrary: s)
  case (Suc n)
  then show ?case using brent_step_inside by (simp add: bracket_ok_def)
qed (simp add: bracket_ok_def)

lemma brent_inside:
  assumes "brent f (lit (1 / 100)) (lit 5) (lit (1 / 10 ^ 6)) n = Some v"
  shows "in_bracket v"
proof -
  have "bracket_ok s \<Longrightarrow> bracket_ok (s\<lparr>br_c := x, br_fc := y, br_d := z\<rparr>)" for s x y z
    by (simp add: bracket_ok_def)
  moreover have "bracket_ok \<lparr>br_a = lit (1 / 100), br_fa = x, br_b = lit 5, br_fb = y, br_c = lit (1 / 100),
      br_fc = x, br_d = lit (1 / 100), br_mflag = True\<rparr>" for x y
    by (simp add: bracket_ok_def in_bracket_ends)
  ultimately show ?thesis
    using assms unfolding brent_def Let_def
    by (metis bracket_ok_order brent_loop_inside option.distinct(1) option.inject)
qed

text \<open>A price that is not a number has a volatility all the same: the guards compare with \<open>\<le>\<close>, \<open><\<close>
  and \<open>\<ge>\<close>, which a NaN passes, and the bisection then closes in on the upper end.\<close>

lemma brent_loop_nan: "br_fa s = NaN \<Longrightarrow> brent_loop (\<lambda>_. NaN) xtol n s = br_b s"
proof (induction n arbitrary: s)
  case (Suc n)
  have "br_fa (brent_step (\<lambda>_. NaN) xtol s) = NaN" "br_b (brent_step (\<lambda>_. NaN) xtol s) = br_b s"
    using Suc.prems by (simp_all add: brent_step_def order_bracket_def Let_def split: prod.split)
  then show ?case using Suc.IH [of "brent_step (\<lambda>_. NaN) xtol s"] by simp
qed simp

lemma implied_vol_nan: "\<not> fle t fzero \<Longrightarrow> implied_vol M NaN f k t r rt = Some (lit 5)"
proof -
  have "brent (\<lambda>_. NaN) (lit (1 / 100)) (lit 5) (lit (1 / 10 ^ 6)) 100 = Some (lit 5)"
    by (simp add: brent_def Let_def order_bracket_def fle_def brent_loop_nan del: brent_loop.simps)
  then show "\<not> fle t fzero \<Longrightarrow> ?thesis" by (simp add: implied_vol_def fle_def)
qed

section \<open>Properties\<close>

text \<open>A solved volatility lies in the search interval: whatever the price and the platform's
  libm, with NaN inputs and after all hundred iterations without convergence included, what
  \<open>implied_vol\<close> returns is a finite number between the two ends of the interval; every rounding
  of the interpolation steps is accounted for.\<close>

theorem implied_vol_in_interval:
  assumes "implied_vol M market_price f k t r rt = Some v"
  shows "is_finite v \<and> fle (lit (1 / 100)) v \<and> fle v (lit 5)"
proof -
  have "in_bracket v"
    using assms by (auto simp: implied_vol_def Let_def split: if_splits intro: brent_inside)
  moreover have "lit 5 = Fin 5" using lit_int [of 5] by simp
  ultimately show ?thesis using lit_hundredth(1) by (simp add: in_bracket_def)
qed

theorem implied_vol_in_interval_witness:
  "fle (lit (1 / 100)) (lit 5)"
proof -
  let ?M = "\<lparr>m_ln = \<lambda>x. x, m_exp = \<lambda>x. x, m_sqrt = \<lambda>x. x, m_cdf = \<lambda>x. x\<rparr>"
  show ?thesis
    using implied_vol_in_interval [OF implied_vol_nan [of fone ?M "Fin 6" "Fin 6" fzero "''C''"]] by simp
qed

lemma one_is_call: "is_call_text ''C''" "\<not> is_call_text ''P''"
  by (simp_all add: is_call_text_def to_ascii_uppercase_def)

text \<open>The two crates price alike: the formulas are written twice, in the crate the broker fits
  surfaces and margins with and in the trader that quotes from them, and for every libm they
  agree bit for bit, so the trader evaluates exactly the surface that was fitted.\<close>

theorem crates_price_alike:
  "pricing_sabr_implied_vol M f k t alpha beta rho nu = sabr_implied_vol M f k t alpha beta rho nu \<and>
   pricing_svi_implied_vol M f k t a b rho m sigma = svi_implied_vol M f k t a b rho m sigma \<and>
   black76_price_text M f k t sigma r ''C'' = black76_price M f k t sigma r ''C'' \<and>
   black76_price_text M f k t sigma r ''P'' = black76_price M f k t sigma r ''P''"
proof (intro conjI)
  show "pricing_sabr_implied_vol M f k t alpha beta rho nu = sabr_implied_vol M f k t alpha beta rho nu"
    by (simp only: pricing_sabr_implied_vol_def sabr_implied_vol_def sabr_correction_def sabr_eps_def Let_def)
  show "pricing_svi_implied_vol M f k t a b rho m sigma = svi_implied_vol M f k t a b rho m sigma"
    by (simp only: pricing_svi_implied_vol_def svi_implied_vol_def svi_total_variance_inner_def
        svi_total_variance_def)
qed (simp_all add: black76_price_text_def black76_price_inner_def black76_price_def one_is_call Let_def)

end
