(* ===== verification/Float_Bounds.thy ===== *)
theory Float_Bounds
  imports Float64
begin

text \<open>
  Bounds on float operations shared by the numeric components: the larger of two numbers, the error
  of an operation on moderate magnitudes, and overflow.
\<close>

section \<open>The larger of two numbers\<close>

lemma fmax_upper: "a \<noteq> NaN \<Longrightarrow> fle a (fmax a b)" "b \<noteq> NaN \<Longrightarrow> fle b (fmax a b)"
  using not_flt_iff [of a b] by (auto simp: fmax_def intro: flt_imp_fle)

lemma fmax_nan [simp]: "fmax a b = NaN \<longleftrightarrow> a = NaN \<and> b = NaN"
  by (auto simp: fmax_def)

lemma fmax_cases: "fmax a b = a \<or> fmax a b = b"
  by (simp add: fmax_def)

lemma fle_fmax: "fle x a \<Longrightarrow> fle x (fmax a b)" "fle x b \<Longrightarrow> fle x (fmax a b)"
  using fmax_upper fle_trans fle_not_nan by blast+

section \<open>Rounding errors\<close>

text \<open>Below \<open>2 ^ 11\<close> a float operation is exact up to one part in \<open>2 ^ 42\<close>.\<close>

definition ulp :: rat where
  "ulp = 1 / 2 ^ 42"

lemma rnd_ulp:
  assumes "\<bar>q\<bar> \<le> 2 ^ 11"
  shows "is_finite (rnd q) \<and> \<bar>val (rnd q) - q\<bar> \<le> ulp"
proof (cases "p2 (- 1000) \<le> \<bar>q\<bar>")
  case True
  have "\<bar>q\<bar> < p2 1000" using assms p2_1000 by simp
  from rnd_rel_error [OF True this] assms show ?thesis by (auto simp: ulp_def)
next
  case False
  then have lo: "- p2 (- 1000) \<le> q" and hi: "q \<le> p2 (- 1000)" by auto
  have r: "rep (p2 (- 1000))"
    unfolding rep_def by (intro exI [of _ 1] exI [of _ "- 1000"]) simp
  have b: "fle (Fin (- p2 (- 1000))) (rnd q) \<and> fle (rnd q) (Fin (p2 (- 1000)))"
    by (rule rnd_between) (use lo hi r in auto)
  then have f: "is_finite (rnd q)"
    using fle_finite_sandwich [of "Fin (- p2 (- 1000))" _ "Fin (p2 (- 1000))"] by auto
  with b have "- p2 (- 1000) \<le> val (rnd q)" "val (rnd q) \<le> p2 (- 1000)" by auto
  with lo hi have "\<bar>val (rnd q) - q\<bar> \<le> 2 * p2 (- 1000)" by (simp add: abs_le_iff)
  also have "\<dots> = p2 (- 999)" using p2_Suc [of "- 1000"] by simp
  also have "\<dots> \<le> p2 (- 42)" by simp
  also have "\<dots> = ulp" by (simp add: p2_def ulp_def)
  finally show ?thesis using f by simp
qed

lemma fadd_ulp:
  "is_finite a \<Longrightarrow> is_finite b \<Longrightarrow> \<bar>val a + val b\<bar> \<le> 2 ^ 11 \<Longrightarrow>
   is_finite (fadd a b) \<and> \<bar>val (fadd a b) - (val a + val b)\<bar> \<le> ulp"
  using rnd_ulp [of "val a + val b"] by (auto simp: fadd_finite ulp_def)

lemma val_fmul: "is_finite a \<Longrightarrow> is_finite b \<Longrightarrow> val (fmul a b) = val (rnd (val a * val b))"
  by (simp add: fmul_finite)

lemma fmul_ulp:
  "is_finite a \<Longrightarrow> is_finite b \<Longrightarrow> \<bar>val a * val b\<bar> \<le> 2 ^ 11 \<Longrightarrow>
   is_finite (fmul a b) \<and> \<bar>val (fmul a b) - val a * val b\<bar> \<le> ulp"
  using rnd_ulp [of "val a * val b"] by (auto simp: fmul_finite ulp_def)

lemma fround_near_int:
  assumes "is_finite x" "\<bar>val x - of_int n\<bar> < 1 / 2"
  shows "is_finite (fround x) \<and> val (fround x) = of_int n"
proof -
  obtain k where k: "is_finite (fround x)" "val (fround x) = of_int k" "\<bar>of_int k - val x\<bar> \<le> 1 / 2"
    using fround_int [OF assms(1)] by blast
  then have "\<bar>of_int k - of_int n\<bar> < (1 :: rat)" using assms(2) unfolding abs_le_iff abs_less_iff by linarith
  then have "k = n" by linarith
  with k show ?thesis by simp
qed

lemma abs_scaled: "0 < d \<Longrightarrow> \<bar>q / d - t\<bar> * d = \<bar>t * d - (q :: rat)\<bar>"
proof -
  assume d: "0 < d"
  have "\<bar>q / d - t\<bar> * d = \<bar>(q / d - t) * d\<bar>" using d by (simp add: abs_mult)
  also have "(q / d - t) * d = q - t * d" using d by (simp add: algebra_simps)
  finally show ?thesis by (simp add: abs_minus_commute)
qed

text \<open>A magnitude of \<open>2 ^ 1024\<close> overflows.\<close>

lemma rnd_huge: "p2 1024 \<le> q \<Longrightarrow> rnd q = PInf"
proof -
  assume q: "p2 1024 \<le> q"
  then have "0 < q" using p2_pos [of 1024] by linarith
  moreover have "overflows q" using ilog2_ge [OF q] by (simp add: overflows_def ulp_exp_def)
  ultimately show ?thesis by (simp add: rnd_def)
qed

end
