(* ===== verification/Span.thy ===== *)
theory Span
  imports Pricing_Core Float_Bounds
begin

text \<open>
  The synthetic SPAN margin (\<open>corsair_pricing/src/span.rs\<close>): the risk array of a position over
  sixteen scenarios, and the margin of a portfolio as the largest of the scan risk net of option
  value, the short minimum and the long premium.
\<close>

section \<open>Scenarios\<close>

definition price_fracs :: "f64 list" where
  "price_fracs =
     (let third = fdiv fone (lit 3); two_thirds = fdiv (lit 2) (lit 3)
      in [fzero, fzero, third, third, fneg third, fneg third, two_thirds, two_thirds,
          fneg two_thirds, fneg two_thirds, fone, fone, fneg fone, fneg fone])"

definition vol_signs :: "f64 list" where
  "vol_signs = [fone, fneg fone, fone, fneg fone, fone, fneg fone, fone, fneg fone, fone, fneg fone,
     fone, fneg fone, fone, fneg fone]"

record span_config =
  sc_up_scan_pct :: f64
  sc_down_scan_pct :: f64
  sc_vol_scan_pct :: f64
  sc_extreme_mult :: f64
  sc_extreme_cover :: f64
  sc_short_option_minimum :: f64
  sc_multiplier :: f64

definition scenario_loss ::
  "'a libm_scheme \<Rightarrow> f64 \<Rightarrow> f64 \<Rightarrow> f64 \<Rightarrow> f64 \<Rightarrow> char \<Rightarrow> span_config \<Rightarrow> f64 \<Rightarrow> f64 \<times> f64 \<Rightarrow> f64" where
  "scenario_loss M f k t iv rt cfg base scenario =
     (let (frac, vol_sign) = scenario;
          shift = (if fge frac fzero then fmul frac (fmul f (sc_up_scan_pct cfg))
                   else fmul frac (fmul f (sc_down_scan_pct cfg)));
          f_scen = fmax (fadd f shift) fone;
          iv_scen = fmax (fadd iv (fmul vol_sign (fmul iv (sc_vol_scan_pct cfg)))) (lit (1 / 100));
          p = black76_price_inner M f_scen k t iv_scen fzero rt
      in fmul (fneg (fsub p base)) (sc_multiplier cfg))"

definition extreme_loss ::
  "'a libm_scheme \<Rightarrow> f64 \<Rightarrow> f64 \<Rightarrow> f64 \<Rightarrow> char \<Rightarrow> span_config \<Rightarrow> f64 \<Rightarrow> f64 \<Rightarrow> f64" where
  "extreme_loss M k t iv rt cfg base f_moved =
     fmul (fmul (fneg (fsub (black76_price_inner M (fmax f_moved fone) k t iv fzero rt) base))
       (sc_multiplier cfg)) (sc_extreme_cover cfg)"

definition position_risk_array ::
  "'a libm_scheme \<Rightarrow> f64 \<Rightarrow> f64 \<Rightarrow> f64 \<Rightarrow> f64 \<Rightarrow> char \<Rightarrow> span_config \<Rightarrow> f64 list" where
  "position_risk_array M f k t iv rt cfg =
     (if fle f fzero \<or> fle t fzero \<or> fle iv fzero then replicate 16 fzero
      else
        let base = black76_price_inner M f k t iv fzero rt;
            up_scan = fmul f (sc_up_scan_pct cfg);
            down_scan = fmul f (sc_down_scan_pct cfg)
        in map (scenario_loss M f k t iv rt cfg base) (zip price_fracs vol_signs) @
           [extreme_loss M k t iv rt cfg base (fadd f (fmul (sc_extreme_mult cfg) up_scan)),
            extreme_loss M k t iv rt cfg base (fsub f (fmul (sc_extreme_mult cfg) down_scan))])"

section \<open>Portfolio margin\<close>

record span_position =
  sp_strike :: f64
  sp_right :: char
  sp_tte :: f64
  sp_iv :: f64
  sp_qty :: int

record margin_result =
  pm_scan_risk :: f64
  pm_net_option_value :: f64
  pm_long_premium :: f64
  pm_short_minimum :: f64
  pm_total_margin :: f64
  pm_worst_scenario :: int

record span_totals =
  st_portfolio :: "f64 list"
  st_nov :: f64
  st_long_premium :: f64
  st_short_count :: int

definition span_step :: "'a libm_scheme \<Rightarrow> f64 \<Rightarrow> span_config \<Rightarrow> span_totals \<Rightarrow> span_position \<Rightarrow> span_totals" where
  "span_step M f cfg acc p =
     (if sp_qty p = 0 \<or> fle (sp_tte p) fzero \<or> fle (sp_iv p) fzero then acc
      else
        let ra = position_risk_array M f (sp_strike p) (sp_tte p) (sp_iv p) (sp_right p) cfg;
            qty_f = of_i (sp_qty p);
            base = black76_price_inner M f (sp_strike p) (sp_tte p) (sp_iv p) fzero (sp_right p);
            premium = fmul (fmul base qty_f) (sc_multiplier cfg);
            acc1 = acc\<lparr>st_portfolio := map2 (\<lambda>x r. fadd x (fmul r qty_f)) (st_portfolio acc) ra,
                       st_nov := fadd (st_nov acc) premium\<rparr>
        in if 0 < sp_qty p then acc1\<lparr>st_long_premium := fadd (st_long_premium acc1) premium\<rparr>
           else acc1\<lparr>st_short_count := wrap_u64 (st_short_count acc1 + \<bar>sp_qty p\<bar>)\<rparr>)"

definition span_totals_of :: "'a libm_scheme \<Rightarrow> f64 \<Rightarrow> span_config \<Rightarrow> span_position list \<Rightarrow> span_totals" where
  "span_totals_of M f cfg ps =
     foldl (span_step M f cfg)
       \<lparr>st_portfolio = replicate 16 fzero, st_nov = fzero, st_long_premium = fzero, st_short_count = 0\<rparr> ps"

text \<open>The worst scenario, numbered from one; zero when no scenario loses.\<close>

fun worst_scenario :: "int \<Rightarrow> f64 list \<Rightarrow> f64 \<times> int \<Rightarrow> f64 \<times> int" where
  "worst_scenario i [] best = best"
| "worst_scenario i (v # vs) best = worst_scenario (i + 1) vs (if fgt v (fst best) then (v, i + 1) else best)"

definition portfolio_margin :: "'a libm_scheme \<Rightarrow> f64 \<Rightarrow> span_position list \<Rightarrow> span_config \<Rightarrow> margin_result" where
  "portfolio_margin M f ps cfg =
     (let acc = span_totals_of M f cfg ps;
          (max_v, max_idx) = worst_scenario 0 (st_portfolio acc) (fzero, 0);
          scan_risk = fmax max_v fzero;
          short_min = fmul (of_i (st_short_count acc)) (sc_short_option_minimum cfg);
          risk_margin = fmax (fsub scan_risk (st_nov acc)) fzero;
          margin = fmax (fmax risk_margin short_min) (st_long_premium acc)
      in \<lparr>pm_scan_risk = scan_risk, pm_net_option_value = st_nov acc, pm_long_premium = st_long_premium acc,
          pm_short_minimum = short_min, pm_total_margin = margin,
          pm_worst_scenario = (if fgt scan_risk fzero then max_idx else 0)\<rparr>)"

section \<open>Lemmas\<close>

lemma length_risk_array [simp]: "length (position_risk_array M f k t iv rt cfg) = 16"
  by (simp add: position_risk_array_def Let_def price_fracs_def vol_signs_def)

lemma span_step_length: "length (st_portfolio (span_step M f cfg acc p)) = min 16 (length (st_portfolio acc)) \<or>
    st_portfolio (span_step M f cfg acc p) = st_portfolio acc"
  by (auto simp: span_step_def Let_def)

lemma span_totals_length [simp]: "length (st_portfolio (span_totals_of M f cfg ps)) = 16"
proof -
  have "length (st_portfolio acc) = 16 \<Longrightarrow> length (st_portfolio (foldl (span_step M f cfg) acc ps)) = 16" for acc
  proof (induction ps arbitrary: acc)
    case (Cons p ps)
    then show ?case using span_step_length [of M f cfg acc p] by auto
  qed simp
  then show ?thesis by (simp add: span_totals_of_def)
qed

lemma worst_scenario_upper:
  assumes "worst_scenario i vs best = (v, n)" "fst best \<noteq> NaN"
  shows "fle (fst best) v \<and> (\<forall>x \<in> set vs. x \<noteq> NaN \<longrightarrow> fle x v) \<and>
     ((v, n) = best \<or> i < n \<and> n \<le> i + int (length vs) \<and> vs ! nat (n - i - 1) = v)"
  using assms
proof (induction i vs best rule: worst_scenario.induct)
  case (1 i best)
  then show ?case by simp
next
  case (2 i x vs best)
  let ?b = "if fgt x (fst best) then (x, i + 1) else best"
  have nn: "fst ?b \<noteq> NaN" using "2.prems"(2) flt_not_nan by auto
  have ih: "fle (fst ?b) v" "\<forall>y \<in> set vs. y \<noteq> NaN \<longrightarrow> fle y v"
    "(v, n) = ?b \<or> i + 1 < n \<and> n \<le> i + 1 + int (length vs) \<and> vs ! nat (n - (i + 1) - 1) = v"
    using "2.IH" [OF _ nn] "2.prems"(1) by auto
  have b: "fle (fst best) (fst ?b)" "x \<noteq> NaN \<Longrightarrow> fle x (fst ?b)"
    using "2.prems"(2) flt_imp_fle fle_linear [of x "fst best"] by auto
  have "fle (fst best) v" "x \<noteq> NaN \<Longrightarrow> fle x v" using fle_trans [OF b(1) ih(1)] fle_trans [OF b(2) ih(1)] .
  moreover have "(v, n) = best \<or> i < n \<and> n \<le> i + int (length (x # vs)) \<and> (x # vs) ! nat (n - i - 1) = v"
    using ih(3)
  proof (elim disjE conjE)
    assume "(v, n) = ?b"
    then show ?thesis by (simp split: if_splits)
  next
    assume n: "i + 1 < n" "n \<le> i + 1 + int (length vs)" "vs ! nat (n - (i + 1) - 1) = v"
    have "nat (n - i - 1) = Suc (nat (n - (i + 1) - 1))" using n(1) by simp
    with n show ?thesis by simp
  qed
  ultimately show ?case using ih(2) by simp
qed

section \<open>Properties\<close>

text \<open>C40. The margin of a portfolio is the largest of its floors, and NaN-proof: it is never a NaN nor
  negative; it is at least the scan risk net of option value, the short minimum and the long
  premium, each unless it is a NaN, and is one of them or zero. The scan risk is at least every
  scenario's loss that is not a NaN, and a positive one is attained at the reported scenario.\<close>

theorem margin_is_largest_floor:
  fixes M :: "'a libm_scheme"
  assumes "m = portfolio_margin M f ps cfg"
  shows "pm_total_margin m \<noteq> NaN \<and> fle fzero (pm_total_margin m) \<and>
     (\<forall>x \<in> {fsub (pm_scan_risk m) (pm_net_option_value m), pm_short_minimum m, pm_long_premium m}.
        x \<noteq> NaN \<longrightarrow> fle x (pm_total_margin m)) \<and>
     pm_total_margin m \<in> {fzero, fsub (pm_scan_risk m) (pm_net_option_value m), pm_short_minimum m, pm_long_premium m} \<and>
     (\<forall>v \<in> set (st_portfolio (span_totals_of M f cfg ps)). v \<noteq> NaN \<longrightarrow> fle v (pm_scan_risk m)) \<and>
     (pm_worst_scenario m = 0 \<or> pm_worst_scenario m \<in> {1..16} \<and>
        st_portfolio (span_totals_of M f cfg ps) ! nat (pm_worst_scenario m - 1) = pm_scan_risk m)"
proof -
  let ?acc = "span_totals_of M f cfg ps"
  obtain v n where w: "worst_scenario 0 (st_portfolio ?acc) (fzero, 0) = (v, n)" by fastforce
  have u: "fle fzero v" "\<forall>x \<in> set (st_portfolio ?acc). x \<noteq> NaN \<longrightarrow> fle x v"
    "(v, n) = (fzero, 0) \<or> 0 < n \<and> n \<le> 16 \<and> st_portfolio ?acc ! nat (n - 1) = v"
    using worst_scenario_upper [OF w] by auto
  have scan: "fmax v fzero = v" using u(1) by (auto simp: fmax_def fle_def)
  have m: "pm_scan_risk m = v" "pm_net_option_value m = st_nov ?acc" "pm_long_premium m = st_long_premium ?acc"
    "pm_worst_scenario m = (if fgt v fzero then n else 0)"
    "pm_total_margin m = fmax (fmax (fmax (fsub v (st_nov ?acc)) fzero) (pm_short_minimum m)) (st_long_premium ?acc)"
    by (simp_all add: assms portfolio_margin_def Let_def w scan)
  have cases: "fmax a b \<in> {a, b}" for a b using fmax_cases [of a b] by auto
  have "pm_total_margin m \<in> {fzero, fsub v (st_nov ?acc), pm_short_minimum m, st_long_premium ?acc}"
    unfolding m(5) using cases by (metis insert_iff empty_iff)
  moreover have "fle fzero (pm_total_margin m)" "fsub v (st_nov ?acc) \<noteq> NaN \<Longrightarrow> fle (fsub v (st_nov ?acc)) (pm_total_margin m)"
    "pm_short_minimum m \<noteq> NaN \<Longrightarrow> fle (pm_short_minimum m) (pm_total_margin m)"
    "st_long_premium ?acc \<noteq> NaN \<Longrightarrow> fle (st_long_premium ?acc) (pm_total_margin m)"
    unfolding m(5) by (simp_all add: fle_fmax fmax_upper)
  ultimately show ?thesis using u m fle_not_nan by auto
qed

definition demo_span :: span_config where
  "demo_span = \<lparr>sc_up_scan_pct = lit (1 / 20), sc_down_scan_pct = lit (1 / 20), sc_vol_scan_pct = lit (1 / 4),
     sc_extreme_mult = lit 2, sc_extreme_cover = lit (35 / 100), sc_short_option_minimum = lit 50,
     sc_multiplier = lit 25000\<rparr>"

definition demo_short :: span_position where
  "demo_short = \<lparr>sp_strike = Fin 6, sp_right = CHR ''C'', sp_tte = fone, sp_iv = fone, sp_qty = - 3\<rparr>"

theorem margin_is_largest_floor_witness:
  "fle (Fin 150) (pm_total_margin
     (portfolio_margin \<lparr>m_ln = \<lambda>x. x, m_exp = \<lambda>x. x, m_sqrt = \<lambda>x. x, m_cdf = \<lambda>x. x\<rparr> (Fin 6) [demo_short] demo_span))"
proof -
  let ?M = "\<lparr>m_ln = \<lambda>x. x, m_exp = \<lambda>x. x, m_sqrt = \<lambda>x. x, m_cdf = \<lambda>x. x\<rparr>"
  have "st_short_count (span_totals_of ?M (Fin 6) demo_span [demo_short]) = 3"
    by (simp add: span_totals_of_def span_step_def demo_short_def Let_def wrap_u64_def)
  then have "pm_short_minimum (portfolio_margin ?M (Fin 6) [demo_short] demo_span) = Fin 150"
    using lit_int [of 50] rnd_exact [OF rep_of_int, of 150]
    by (simp add: portfolio_margin_def Let_def demo_span_def fmul_def split: prod.split)
  then show ?thesis
    using margin_is_largest_floor [OF refl, where M = ?M and f = "Fin 6" and ps = "[demo_short]" and cfg = demo_span]
    by simp
qed

end
