(* ===== verification/Calibrate.thy ===== *)
theory Calibrate
  imports Trader_Pricing Pricing_Core Float_Bounds
begin

text \<open>
  The calibrator of the volatility surfaces (\<open>corsair_pricing/src/calibrate.rs\<close>): a bounded
  Levenberg-Marquardt solver with projection, and the SABR and SVI fits on top of it. Loops with a
  counter take the counter as fuel. A matrix is the list of its rows. The sums of a loop that
  runs over the residuals first and the entries second are written per entry, each in the order
  of the residuals.
\<close>

section \<open>Constants\<close>

definition eps_grad :: f64 where "eps_grad = lit (1 / 10 ^ 8)"

definition eps_step :: f64 where "eps_step = lit (1 / 10 ^ 9)"

definition eps_cost :: f64 where "eps_cost = lit (1 / 10 ^ 12)"

definition fd_step :: f64 where "fd_step = lit (1 / 10 ^ 6)"

definition lm_mu_init :: f64 where "lm_mu_init = lit (1 / 10 ^ 3)"

definition lm_mu_down :: f64 where "lm_mu_down = lit (4 / 10)"

definition lm_mu_up :: f64 where "lm_mu_up = lit 5"

definition lm_mu_floor :: f64 where "lm_mu_floor = lit (1 / 10 ^ 12)"

definition lm_mu_ceil :: f64 where "lm_mu_ceil = lit (10 ^ 10)"

section \<open>Linear systems\<close>

type_synonym matrix = "f64 list list"

definition find_pivot :: "matrix \<Rightarrow> nat \<Rightarrow> nat \<Rightarrow> nat \<times> f64" where
  "find_pivot a k n =
     foldl (\<lambda>(piv, piv_val) i. if fgt (fabs (a ! i ! k)) piv_val then (i, fabs (a ! i ! k)) else (piv, piv_val))
       (k, fabs (a ! k ! k)) [Suc k ..< n]"

definition swap_at :: "nat \<Rightarrow> nat \<Rightarrow> 'a list \<Rightarrow> 'a list" where
  "swap_at i j xs = xs[i := xs ! j, j := xs ! i]"

definition eliminate_row :: "matrix \<Rightarrow> nat \<Rightarrow> nat \<Rightarrow> nat \<Rightarrow> f64 list" where
  "eliminate_row a k n i =
     (if k < i then
        let factor = fdiv (a ! i ! k) (a ! k ! k)
        in map (\<lambda>j. if k \<le> j then fsub (a ! i ! j) (fmul factor (a ! k ! j)) else a ! i ! j) [0 ..< n]
      else a ! i)"

definition eliminate_rhs :: "matrix \<Rightarrow> f64 list \<Rightarrow> nat \<Rightarrow> nat \<Rightarrow> f64" where
  "eliminate_rhs a b k i =
     (if k < i then fsub (b ! i) (fmul (fdiv (a ! i ! k) (a ! k ! k)) (b ! k)) else b ! i)"

text \<open>Forward elimination from column \<open>k\<close>, for the remaining columns; \<open>None\<close> for a singular matrix.\<close>

fun eliminate :: "nat \<Rightarrow> nat \<Rightarrow> nat \<Rightarrow> matrix \<times> f64 list \<Rightarrow> (matrix \<times> f64 list) option" where
  "eliminate n k 0 ab = Some ab"
| "eliminate n k (Suc left) (a, b) =
     (let (piv, piv_val) = find_pivot a k n
      in if flt piv_val (lit (1 / 10 ^ 14)) then None
         else
           let a1 = (if piv \<noteq> k then swap_at piv k a else a);
               b1 = (if piv \<noteq> k then swap_at piv k b else b)
           in eliminate n (Suc k) left
                (map (eliminate_row a1 k n) [0 ..< n], map (eliminate_rhs a1 b1 k) [0 ..< n]))"

definition back_substitute :: "nat \<Rightarrow> matrix \<Rightarrow> f64 list \<Rightarrow> f64 list" where
  "back_substitute n a b =
     foldl (\<lambda>x i. let s = foldl (\<lambda>s j. fsub s (fmul (a ! i ! j) (x ! j))) (x ! i) [Suc i ..< n]
                  in x[i := fdiv s (a ! i ! i)]) b (rev [0 ..< n])"

definition solve_linear :: "matrix \<Rightarrow> f64 list \<Rightarrow> nat \<Rightarrow> f64 list option" where
  "solve_linear a b n =
     (case eliminate n 0 n (a, b) of None \<Rightarrow> None | Some (a1, b1) \<Rightarrow> Some (back_substitute n a1 b1))"

definition build_normal_eqs :: "matrix \<Rightarrow> f64 list \<Rightarrow> f64 \<Rightarrow> nat \<Rightarrow> nat \<Rightarrow> matrix \<times> f64 list" where
  "build_normal_eqs j r mu n m =
     (let jtj = (\<lambda>i q. foldl (\<lambda>s k. fadd s (fmul (j ! k ! i) (j ! k ! q))) fzero [0 ..< m]);
          jtr = map (\<lambda>i. foldl (\<lambda>s k. fsub s (fmul (j ! k ! i) (r ! k))) fzero [0 ..< m]) [0 ..< n]
      in (map (\<lambda>i. map (\<lambda>q. if q = i then fadd (jtj i i) (fmul mu (fmax (jtj i i) (lit (1 / 10 ^ 12))))
                             else jtj i q) [0 ..< n]) [0 ..< n],
          jtr))"

section \<open>The solver\<close>

definition jacobian_column :: "(f64 list \<Rightarrow> f64 list) \<Rightarrow> f64 list \<Rightarrow> nat \<Rightarrow> nat \<Rightarrow> f64 list" where
  "jacobian_column f x m i =
     (let h = fmul fd_step (fmax (fabs (x ! i)) fone);
          r_plus = f (x[i := fadd (x ! i) h]);
          r_minus = f (x[i := fsub (x ! i) h]);
          inv = fdiv (lit (1 / 2)) h
      in map (\<lambda>k. fmul (fsub (r_plus ! k) (r_minus ! k)) inv) [0 ..< m])"

definition numerical_jacobian ::
  "(f64 list \<Rightarrow> f64 list) \<Rightarrow> f64 list \<Rightarrow> f64 list \<Rightarrow> nat \<Rightarrow> matrix \<times> nat" where
  "numerical_jacobian f x r0 nfev =
     (let n = length x; m = length r0; cols = map (jacobian_column f x m) [0 ..< n]
      in (map (\<lambda>k. map (\<lambda>i. cols ! i ! k) [0 ..< n]) [0 ..< m], nfev + 2 * n))"

definition cost :: "f64 list \<Rightarrow> f64" where
  "cost r = fmul (lit (1 / 2)) (fsum (map (\<lambda>v. fmul v v) r))"

definition project1 :: "f64 \<Rightarrow> f64 \<Rightarrow> f64 \<Rightarrow> f64" where
  "project1 lo hi x = (if flt x lo then lo else if fgt x hi then hi else x)"

definition project :: "f64 list \<Rightarrow> f64 list \<Rightarrow> f64 list \<Rightarrow> f64 list" where
  "project lb ub x = map (\<lambda>i. project1 (lb ! i) (ub ! i) (x ! i)) [0 ..< length x]"

record lm_state =
  lm_x :: "f64 list"
  lm_residuals :: "f64 list"
  lm_cost :: f64
  lm_nfev :: nat
  lm_success :: bool
  lm_mu :: f64

definition lm_start :: "(f64 list \<Rightarrow> f64 list) \<Rightarrow> f64 list \<Rightarrow> f64 list \<Rightarrow> f64 list \<Rightarrow> lm_state" where
  "lm_start f lb ub x0 =
     (let x = project lb ub x0; r = f x
      in \<lparr>lm_x = x, lm_residuals = r, lm_cost = cost r, lm_nfev = 1, lm_success = False, lm_mu = lm_mu_init\<rparr>)"

definition raise_mu :: "f64 \<Rightarrow> f64" where
  "raise_mu mu = fmin (fmul mu lm_mu_up) lm_mu_ceil"

text \<open>The tests for convergence after a step that lowered the cost.\<close>

definition step_converged :: "'a libm_scheme \<Rightarrow> f64 list \<Rightarrow> f64 \<Rightarrow> f64 \<Rightarrow> bool" where
  "step_converged M b c c_new \<longleftrightarrow>
     flt (m_sqrt M (fsum (map (\<lambda>v. fmul v v) b))) eps_step \<or>
     flt (fdiv (fsub c c_new) (fmax c (lit (1 / 10 ^ 30)))) eps_cost"

text \<open>One try of a step from the current point. A singular system only raises the damping, without
  a look at the number of evaluations.\<close>

datatype try_outcome = Retry | Accepted | GiveUp

definition lm_try ::
  "'a libm_scheme \<Rightarrow> (f64 list \<Rightarrow> f64 list) \<Rightarrow> f64 list \<Rightarrow> f64 list \<Rightarrow> nat \<Rightarrow> matrix \<Rightarrow> lm_state \<Rightarrow>
   lm_state \<times> try_outcome" where
  "lm_try M f lb ub max_nfev j s =
     (let n = length (lm_x s);
          (a, b0) = build_normal_eqs j (lm_residuals s) (lm_mu s) n (length (lm_residuals s))
      in case solve_linear a b0 n of
           None \<Rightarrow> (s\<lparr>lm_mu := raise_mu (lm_mu s)\<rparr>, Retry)
         | Some b \<Rightarrow>
             let x_new = project lb ub (map2 fadd (lm_x s) b);
                 r_new = f x_new;
                 s1 = s\<lparr>lm_nfev := lm_nfev s + 1\<rparr>;
                 c_new = cost r_new
             in if flt c_new (lm_cost s)
                then (s1\<lparr>lm_x := x_new, lm_residuals := r_new, lm_cost := c_new,
                         lm_mu := fmax (fmul (lm_mu s) lm_mu_down) lm_mu_floor,
                         lm_success := lm_success s \<or> step_converged M b (lm_cost s) c_new\<rparr>, Accepted)
                else
                  let mu = raise_mu (lm_mu s); s2 = s1\<lparr>lm_mu := mu\<rparr>
                  in if fge mu lm_mu_ceil \<or> max_nfev \<le> lm_nfev s2 then (s2, GiveUp) else (s2, Retry))"

text \<open>The inner loop: at most thirty tries; the flag tells whether a step was accepted.\<close>

fun lm_tries ::
  "'a libm_scheme \<Rightarrow> (f64 list \<Rightarrow> f64 list) \<Rightarrow> f64 list \<Rightarrow> f64 list \<Rightarrow> nat \<Rightarrow> matrix \<Rightarrow> nat \<Rightarrow> lm_state \<Rightarrow>
   lm_state \<times> bool" where
  "lm_tries M f lb ub max_nfev j 0 s = (s, False)"
| "lm_tries M f lb ub max_nfev j (Suc left) s =
     (case lm_try M f lb ub max_nfev j s of
        (s1, Accepted) \<Rightarrow> (s1, True)
      | (s1, GiveUp) \<Rightarrow> (s1, False)
      | (s1, Retry) \<Rightarrow> lm_tries M f lb ub max_nfev j left s1)"

definition gradient_norm :: "'a libm_scheme \<Rightarrow> matrix \<Rightarrow> f64 list \<Rightarrow> nat \<Rightarrow> f64" where
  "gradient_norm M j r n =
     m_sqrt M (foldl (\<lambda>acc i. let g = foldl (\<lambda>g k. fadd g (fmul (j ! k ! i) (r ! k))) fzero [0 ..< length r]
                              in fadd acc (fmul g g)) fzero [0 ..< n])"

fun lm_iterate ::
  "'a libm_scheme \<Rightarrow> (f64 list \<Rightarrow> f64 list) \<Rightarrow> f64 list \<Rightarrow> f64 list \<Rightarrow> nat \<Rightarrow> nat \<Rightarrow> lm_state \<Rightarrow> lm_state" where
  "lm_iterate M f lb ub max_nfev 0 s = s"
| "lm_iterate M f lb ub max_nfev (Suc left) s =
     (if max_nfev \<le> lm_nfev s then s
      else
        let (j, nfev) = numerical_jacobian f (lm_x s) (lm_residuals s) (lm_nfev s);
            s1 = s\<lparr>lm_nfev := nfev\<rparr>
        in if flt (gradient_norm M j (lm_residuals s) (length (lm_x s))) eps_grad then s1\<lparr>lm_success := True\<rparr>
           else
             let (s2, accepted) = lm_tries M f lb ub max_nfev j 30 s1
             in if \<not> accepted \<or> lm_success s2 then s2 else lm_iterate M f lb ub max_nfev left s2)"

definition lm_solve ::
  "'a libm_scheme \<Rightarrow> (f64 list \<Rightarrow> f64 list) \<Rightarrow> f64 list \<Rightarrow> f64 list \<Rightarrow> f64 list \<Rightarrow> nat \<Rightarrow> lm_state" where
  "lm_solve M f x0 lb ub max_nfev = lm_iterate M f lb ub max_nfev 200 (lm_start f lb ub x0)"

section \<open>Fits\<close>

definition fit_weights :: "f64 list option \<Rightarrow> nat \<Rightarrow> f64 list" where
  "fit_weights weights n =
     (case weights of
        None \<Rightarrow> replicate n fone
      | Some ws \<Rightarrow>
          if length ws = n \<and> fgt (fsum ws) fzero
          then map (\<lambda>w. fmul w (fdiv (of_i (int n)) (fsum ws))) ws else replicate n fone)"

text \<open>Of several solver results the first with the least cost.\<close>

definition better :: "lm_state option \<Rightarrow> lm_state \<Rightarrow> lm_state option" where
  "better best res =
     (case best of
        None \<Rightarrow> Some res
      | Some b \<Rightarrow> if flt (lm_cost res) (lm_cost b) then Some res else Some b)"

definition best_result :: "lm_state list \<Rightarrow> lm_state option" where
  "best_result rs = foldl better None rs"

definition fit_rmse :: "'a libm_scheme \<Rightarrow> lm_state \<Rightarrow> f64" where
  "fit_rmse M best =
     m_sqrt M (fdiv (fsum (map (\<lambda>v. fmul v v) (lm_residuals best))) (of_i (int (length (lm_residuals best)))))"

record sabr_fit =
  sf_alpha :: f64
  sf_beta :: f64
  sf_rho :: f64
  sf_nu :: f64
  sf_rmse :: f64
  sf_n_points :: nat

definition atm_index :: "f64 \<Rightarrow> f64 list \<Rightarrow> nat" where
  "atm_index f strikes =
     fst (foldl (\<lambda>(best, best_d) i. let d = fabs (fsub (strikes ! i) f)
                                    in if flt d best_d then (i, d) else (best, best_d))
            (0, fabs (fsub (strikes ! 0) f)) [1 ..< length strikes])"

definition sabr_residual ::
  "trader_libm \<Rightarrow> f64 \<Rightarrow> f64 \<Rightarrow> f64 \<Rightarrow> f64 list \<Rightarrow> f64 list \<Rightarrow> f64 list \<Rightarrow> f64 list \<Rightarrow> f64 list" where
  "sabr_residual M f t beta strikes mkt w p =
     map (\<lambda>i. fmul (fsub (pricing_sabr_implied_vol M f (strikes ! i) t (p ! 0) beta (p ! 1) (p ! 2)) (mkt ! i)) (w ! i))
       [0 ..< length strikes]"

definition sabr_alpha_0 :: "trader_libm \<Rightarrow> f64 \<Rightarrow> f64 list \<Rightarrow> f64 list \<Rightarrow> f64 \<Rightarrow> f64" where
  "sabr_alpha_0 M f strikes market_ivs beta =
     fmax (fmul (market_ivs ! atm_index f strikes) (m_powf M f (fsub fone beta))) (lit (1 / 1000))"

definition sabr_lower :: "f64 list" where
  "sabr_lower = [lit (1 / 10000), lit (- 999 / 1000), lit (1 / 10000)]"

definition sabr_upper :: "f64 \<Rightarrow> f64 list" where
  "sabr_upper alpha_0 = [fmax (lit 10) (fmul alpha_0 (lit 5)), lit (999 / 1000), lit 5]"

definition sabr_guesses :: "f64 \<Rightarrow> f64 list list" where
  "sabr_guesses alpha_0 =
     [[alpha_0, lit (- 3 / 10), lit (3 / 10)],
      [alpha_0, lit (- 5 / 10), lit (5 / 10)],
      [alpha_0, fzero, lit (2 / 10)],
      [fmul alpha_0 (lit (8 / 10)), lit (- 2 / 10), lit (4 / 10)]]"

definition calibrate_sabr ::
  "trader_libm \<Rightarrow> f64 \<Rightarrow> f64 \<Rightarrow> f64 list \<Rightarrow> f64 list \<Rightarrow> f64 list option \<Rightarrow> f64 \<Rightarrow> f64 \<Rightarrow> sabr_fit option" where
  "calibrate_sabr M f t strikes market_ivs weights beta max_rmse =
     (let n = length strikes in
      if n < 3 \<or> length market_ivs \<noteq> n \<or> fle t fzero \<or> fle f fzero then None
      else
        let w = fit_weights weights n;
            alpha_0 = sabr_alpha_0 M f strikes market_ivs beta;
            residual = sabr_residual M f t beta strikes market_ivs w
        in case best_result (map (\<lambda>guess. lm_solve M residual guess sabr_lower (sabr_upper alpha_0) 200)
                   (sabr_guesses alpha_0)) of
             None \<Rightarrow> None
           | Some best \<Rightarrow>
               let rmse = fit_rmse M best
               in if fgt rmse max_rmse then None
                  else Some \<lparr>sf_alpha = lm_x best ! 0, sf_beta = beta, sf_rho = lm_x best ! 1, sf_nu = lm_x best ! 2,
                             sf_rmse = rmse, sf_n_points = n\<rparr>)"

record svi_fit =
  vf_a :: f64
  vf_b :: f64
  vf_rho :: f64
  vf_m :: f64
  vf_sigma :: f64
  vf_rmse :: f64
  vf_n_points :: nat

definition interp1 :: "f64 list \<Rightarrow> f64 list \<Rightarrow> f64 \<Rightarrow> f64" where
  "interp1 xs ys x =
     (if fle x (xs ! 0) then ys ! 0
      else if fge x (xs ! (length xs - 1)) then ys ! (length ys - 1)
      else
        (case find (\<lambda>i. fle x (xs ! i)) [1 ..< length xs] of
           Some i \<Rightarrow>
             let t = fdiv (fsub x (xs ! (i - 1))) (fsub (xs ! i) (xs ! (i - 1)))
             in fadd (ys ! (i - 1)) (fmul t (fsub (ys ! i) (ys ! (i - 1))))
         | None \<Rightarrow> ys ! (length ys - 1)))"

text \<open>The stable sort of the indices by log-moneyness. Its comparison panics on a NaN, and every
  element of a list of two or more is compared.\<close>

fun insert_index :: "f64 list \<Rightarrow> nat \<Rightarrow> nat list \<Rightarrow> nat list" where
  "insert_index ks i [] = [i]"
| "insert_index ks i (j # js) = (if fle (ks ! i) (ks ! j) then i # j # js else j # insert_index ks i js)"

definition sorted_indices :: "f64 list \<Rightarrow> nat list" where
  "sorted_indices ks = foldr (insert_index ks) [0 ..< length ks] []"

definition svi_residual ::
  "'a libm_scheme \<Rightarrow> f64 \<Rightarrow> f64 list \<Rightarrow> f64 list \<Rightarrow> f64 list \<Rightarrow> f64 list \<Rightarrow> f64 list" where
  "svi_residual M t ks mkt w p =
     map (\<lambda>i. let w_i = svi_total_variance_inner M (ks ! i) (p ! 0) (p ! 1) (p ! 2) (p ! 3) (p ! 4);
                  model_iv = m_sqrt M (fdiv (fmax w_i (lit (1 / 10 ^ 10))) t)
              in fmul (fsub model_iv (mkt ! i)) (w ! i)) [0 ..< length ks]"

definition svi_guesses :: "f64 \<Rightarrow> f64 list list" where
  "svi_guesses atm_var =
     [[atm_var, lit (1 / 10), lit (- 3 / 10), fzero, lit (1 / 10)],
      [atm_var, lit (2 / 10), lit (- 5 / 10), fzero, lit (5 / 100)],
      [fmul atm_var (lit (8 / 10)), lit (15 / 100), lit (- 2 / 10), lit (- 5 / 100), lit (15 / 100)],
      [atm_var, lit (5 / 100), lit (- 4 / 10), lit (2 / 100), lit (8 / 100)],
      [atm_var, lit (1 / 10), lit (- 7 / 10), lit (- 1 / 10), lit (3 / 10)],
      [fmul atm_var (lit (5 / 10)), lit (15 / 100), lit (- 6 / 10), lit (- 5 / 100), lit (5 / 10)],
      [atm_var, lit (8 / 100), lit (- 8 / 10), lit (- 15 / 100), lit (4 / 10)],
      [fmul atm_var (lit (3 / 10)), lit (2 / 10), lit (- 5 / 10), fzero, lit (6 / 10)]]"

definition svi_lower :: "f64 list" where
  "svi_lower = [fzero, lit (1 / 10000), lit (- 999 / 1000), lit (- 1), lit (1 / 10000)]"

definition svi_upper :: "f64 list" where
  "svi_upper = [lit 5, lit 5, lit (999 / 1000), fone, lit 2]"

definition calibrate_svi ::
  "'a libm_scheme \<Rightarrow> f64 \<Rightarrow> f64 \<Rightarrow> f64 list \<Rightarrow> f64 list \<Rightarrow> f64 list option \<Rightarrow> f64 \<Rightarrow> panic + svi_fit option" where
  "calibrate_svi M f t strikes market_ivs weights max_rmse =
     (let n = length strikes in
      if n < 5 \<or> length market_ivs \<noteq> n \<or> fle t fzero \<or> fle f fzero then Inr None
      else
        let w = fit_weights weights n;
            ks = map (\<lambda>k. m_ln M (fdiv k f)) strikes;
            mkt_w = map (\<lambda>iv. fmul (fmul iv iv) t) market_ivs
        in if list_ex is_nan ks then Inl Panic
           else
             let idx = sorted_indices ks;
                 atm_var = interp1 (map (nth ks) idx) (map (nth mkt_w) idx) fzero;
                 residual = svi_residual M t ks market_ivs w
             in (case best_result (map (\<lambda>guess. lm_solve M residual guess svi_lower svi_upper 500)
                          (svi_guesses atm_var)) of
                   None \<Rightarrow> Inr None
                 | Some best \<Rightarrow>
                     let rmse = fit_rmse M best; x = lm_x best
                     in if fgt rmse max_rmse then Inr None
                        else if list_ex (\<lambda>k. flt (svi_total_variance_inner M k (x ! 0) (x ! 1) (x ! 2) (x ! 3) (x ! 4)) fzero) ks
                        then Inr None
                        else Inr (Some \<lparr>vf_a = x ! 0, vf_b = x ! 1, vf_rho = x ! 2, vf_m = x ! 3, vf_sigma = x ! 4,
                                        vf_rmse = rmse, vf_n_points = n\<rparr>)))"


section \<open>Lemmas\<close>

lemma lit_mono: "a \<le> b \<Longrightarrow> fle (lit a) (lit b)"
  by (simp add: lit_def rnd_mono)

lemma fsum_has_nan: "NaN \<in> set xs \<Longrightarrow> fsum xs = NaN"
proof -
  have "foldl fadd NaN ys = NaN" for ys by (induction ys) simp_all
  then have "NaN \<in> set xs \<Longrightarrow> foldl fadd acc xs = NaN" for acc
    by (induction xs arbitrary: acc) auto
  then show "NaN \<in> set xs \<Longrightarrow> fsum xs = NaN" by (simp add: fsum_def)
qed

lemma cost_has_nan: "NaN \<in> set r \<Longrightarrow> cost r = NaN"
proof -
  assume "NaN \<in> set r"
  then have "NaN \<in> set (map (\<lambda>v. fmul v v) r)" by force
  then show ?thesis by (simp add: cost_def fsum_has_nan)
qed

lemma length_project [simp]: "length (project lb ub x) = length x"
  by (simp add: project_def)

lemma nth_project: "i < length x \<Longrightarrow> project lb ub x ! i = project1 (lb ! i) (ub ! i) (x ! i)"
  by (simp add: project_def)

lemma project1_range:
  assumes "fle lo hi" "project1 lo hi x \<noteq> NaN"
  shows "fle lo (project1 lo hi x) \<and> fle (project1 lo hi x) hi"
proof -
  have n: "lo \<noteq> NaN" "hi \<noteq> NaN" using fle_not_nan [OF assms(1)] by simp_all
  then show ?thesis
    using assms not_flt_iff [of x lo] not_flt_iff [of hi x] by (auto simp: project1_def split: if_splits)
qed

lemma project1_nan: "fle lo hi \<Longrightarrow> project1 lo hi x = NaN \<longleftrightarrow> x = NaN"
  using fle_not_nan [of lo hi] flt_not_nan by (auto simp: project1_def)

lemma eliminate_length:
  "eliminate n k left (a, b) = Some (a', b') \<Longrightarrow> length b = n \<Longrightarrow> length b' = n"
proof (induction left arbitrary: k a b)
  case (Suc left)
  from Suc.prems(1) show ?case
    by (auto simp: Let_def split: prod.splits if_splits intro: Suc.IH)
qed simp

lemma back_substitute_length [simp]: "length (back_substitute n a b) = length b"
proof -
  have "length (foldl (\<lambda>x i. x[i := g x i]) xs ns) = length xs" for g :: "f64 list \<Rightarrow> nat \<Rightarrow> f64" and ns xs
    by (induction ns arbitrary: xs) simp_all
  then show ?thesis by (simp add: back_substitute_def Let_def)
qed

lemma solve_linear_length: "solve_linear a b n = Some x \<Longrightarrow> length b = n \<Longrightarrow> length x = n"
  by (auto simp: solve_linear_def split: option.splits dest: eliminate_length)

text \<open>What the solver keeps: the residuals and the cost belong to the current point, which is a
  projected one; a cost that moved is lower than the first; the evaluations are bounded.\<close>

definition lm_inv :: "(f64 list \<Rightarrow> f64 list) \<Rightarrow> f64 list \<Rightarrow> f64 list \<Rightarrow> f64 list \<Rightarrow> lm_state \<Rightarrow> bool" where
  "lm_inv f lb ub x0 s \<longleftrightarrow>
     lm_residuals s = f (lm_x s) \<and> lm_cost s = cost (f (lm_x s)) \<and> length (lm_x s) = length x0 \<and>
     (\<exists>y. length y = length x0 \<and> lm_x s = project lb ub y) \<and>
     (lm_x s = project lb ub x0 \<or> flt (lm_cost s) (cost (f (project lb ub x0))))"

lemma lm_start_inv: "lm_inv f lb ub x0 (lm_start f lb ub x0)"
  by (auto simp: lm_inv_def lm_start_def Let_def)

lemma lm_inv_cong:
  assumes "lm_inv f lb ub x0 s" "lm_x s' = lm_x s" "lm_residuals s' = lm_residuals s" "lm_cost s' = lm_cost s"
  shows "lm_inv f lb ub x0 s'"
  using assms(1) unfolding lm_inv_def assms(2-4) .

lemma lm_step_inv:
  assumes "lm_inv f lb ub x0 s" "length b = length x0" "flt (cost (f x)) (lm_cost s)"
    "x = project lb ub (map2 fadd (lm_x s) b)"
    "lm_x s' = x" "lm_residuals s' = f x" "lm_cost s' = cost (f x)"
  shows "lm_inv f lb ub x0 s'"
proof -
  have "length (map2 fadd (lm_x s) b) = length x0" using assms(1,2) by (simp add: lm_inv_def)
  moreover from this have "length x = length x0" by (simp add: assms(4))
  moreover have "flt (cost (f x)) (cost (f (project lb ub x0)))"
    using assms(1,3) flt_trans by (auto simp: lm_inv_def)
  ultimately show ?thesis unfolding lm_inv_def assms(5-7) using assms(4) by blast
qed

lemma normal_eqs_length: "build_normal_eqs j r mu n m = (a, b) \<Longrightarrow> length b = n"
  by (auto simp: build_normal_eqs_def Let_def)

lemma lm_try_inv:
  assumes "lm_inv f lb ub x0 s"
  shows "lm_inv f lb ub x0 (fst (lm_try M f lb ub max_nfev j s))"
proof -
  let ?n = "length (lm_x s)"
  obtain a b0 where e: "build_normal_eqs j (lm_residuals s) (lm_mu s) ?n (length (lm_residuals s)) = (a, b0)"
    by fastforce
  show ?thesis
  proof (cases "solve_linear a b0 ?n")
    case None
    with e show ?thesis by (simp add: lm_try_def Let_def) (rule lm_inv_cong [OF assms], simp_all)
  next
    case (Some b)
    then have b: "length b = length x0"
      using solve_linear_length [OF Some normal_eqs_length [OF e]] assms by (simp add: lm_inv_def)
    show ?thesis
    proof (cases "flt (cost (f (project lb ub (map2 fadd (lm_x s) b)))) (lm_cost s)")
      case True
      with e Some show ?thesis
        by (simp add: lm_try_def Let_def) (rule lm_step_inv [OF assms b True refl], simp_all)
    next
      case False
      with e Some show ?thesis
        by (simp add: lm_try_def Let_def) (intro conjI impI; rule lm_inv_cong [OF assms]; simp)
    qed
  qed
qed

lemma lm_try_nfev:
  assumes "lm_try M f lb ub max_nfev j s = (s1, r)"
  shows "lm_nfev s1 \<le> lm_nfev s + 1 \<and> (r = Retry \<longrightarrow> lm_nfev s1 = lm_nfev s \<or> lm_nfev s1 < max_nfev)"
  using assms by (auto simp: lm_try_def Let_def split: prod.splits option.splits if_splits)

lemma lm_tries_inv:
  "lm_inv f lb ub x0 s \<Longrightarrow> lm_inv f lb ub x0 (fst (lm_tries M f lb ub max_nfev j left s))"
proof (induction left arbitrary: s)
  case (Suc left)
  obtain s1 r where t: "lm_try M f lb ub max_nfev j s = (s1, r)" by fastforce
  have "lm_inv f lb ub x0 s1" using lm_try_inv [OF Suc.prems, of M max_nfev j] by (simp add: t)
  with Suc.IH show ?case by (cases r) (simp_all add: t)
qed simp

lemma lm_tries_nfev: "lm_nfev (fst (lm_tries M f lb ub max_nfev j left s)) \<le> max (lm_nfev s + 1) max_nfev"
proof (induction left arbitrary: s)
  case (Suc left)
  obtain s1 r where t: "lm_try M f lb ub max_nfev j s = (s1, r)" by fastforce
  show ?case
  proof (cases r)
    case Retry
    with lm_try_nfev [OF t] Suc.IH [of s1] show ?thesis by (auto simp: t)
  qed (use lm_try_nfev [OF t] in \<open>simp_all add: t\<close>)
qed simp

lemma lm_iterate_inv:
  assumes "lm_inv f lb ub x0 s" "lm_nfev s \<le> max 1 (max_nfev + 2 * length x0)"
  shows "lm_inv f lb ub x0 (lm_iterate M f lb ub max_nfev left s) \<and>
     lm_nfev (lm_iterate M f lb ub max_nfev left s) \<le> max 1 (max_nfev + 2 * length x0)"
  using assms
proof (induction left arbitrary: s)
  case (Suc left)
  obtain j nf where j: "numerical_jacobian f (lm_x s) (lm_residuals s) (lm_nfev s) = (j, nf)" by fastforce
  have nf: "nf = lm_nfev s + 2 * length x0"
    using j Suc.prems(1) by (auto simp: numerical_jacobian_def Let_def lm_inv_def)
  define s1 where "s1 = s\<lparr>lm_nfev := nf\<rparr>"
  have i1: "lm_inv f lb ub x0 s1" "lm_inv f lb ub x0 (s1\<lparr>lm_success := True\<rparr>)"
    by (rule lm_inv_cong [OF Suc.prems(1)]; simp add: s1_def)+
  obtain s2 acc where t: "lm_tries M f lb ub max_nfev j 30 s1 = (s2, acc)" by fastforce
  have i2: "lm_inv f lb ub x0 s2" "lm_nfev s2 \<le> max (nf + 1) max_nfev"
    using lm_tries_inv [OF i1(1), of M max_nfev j 30] lm_tries_nfev [of M f lb ub max_nfev j 30 s1]
    by (simp_all only: t fst_conv) (simp add: s1_def)
  have step: "lm_iterate M f lb ub max_nfev (Suc left) s =
      (if max_nfev \<le> lm_nfev s then s
       else if flt (gradient_norm M j (lm_residuals s) (length (lm_x s))) eps_grad then s1\<lparr>lm_success := True\<rparr>
       else if \<not> acc \<or> lm_success s2 then s2 else lm_iterate M f lb ub max_nfev left s2)"
    by (simp del: lm_tries.simps add: j t flip: s1_def)
  show ?case
  proof (cases "max_nfev \<le> lm_nfev s")
    case True
    with Suc.prems show ?thesis by (simp add: step del: lm_iterate.simps)
  next
    case False
    with nf i2(2) have "lm_nfev s2 \<le> max 1 (max_nfev + 2 * length x0)"
      "lm_nfev s1 \<le> max 1 (max_nfev + 2 * length x0)" by (auto simp: s1_def)
    with False i1 i2(1) Suc.IH show ?thesis by (simp add: step del: lm_iterate.simps)
  qed
qed simp

lemma lm_solve_inv:
  "lm_inv f lb ub x0 (lm_solve M f x0 lb ub max_nfev) \<and>
   lm_nfev (lm_solve M f x0 lb ub max_nfev) \<le> max 1 (max_nfev + 2 * length x0)"
  unfolding lm_solve_def by (rule lm_iterate_inv [OF lm_start_inv]) (simp add: lm_start_def Let_def)


text \<open>The chosen result is one of the results, and none of the others has a lower cost.\<close>

lemma best_result_in: "best_result rs = Some b \<Longrightarrow> b \<in> set rs"
proof -
  have "foldl better best rs = Some b \<Longrightarrow> b \<in> set rs \<or> best = Some b" for best
    by (induction rs arbitrary: best) (auto simp: better_def split: option.splits if_splits)
  then show "best_result rs = Some b \<Longrightarrow> b \<in> set rs" by (auto simp: best_result_def)
qed

lemma best_result_some: "rs \<noteq> [] \<Longrightarrow> best_result rs \<noteq> None"
proof -
  have "foldl better (Some b) xs \<noteq> None" for b xs
    by (induction xs arbitrary: b) (auto simp: better_def)
  moreover have "better None r = Some r" for r by (simp add: better_def)
  ultimately show "rs \<noteq> [] \<Longrightarrow> best_result rs \<noteq> None" by (cases rs) (simp_all add: best_result_def)
qed

text \<open>A parameter that is not a number makes the model volatility of a positive strike not a number.\<close>

lemma sabr_nan:
  assumes "fgt k fzero" "fgt t fzero" "fgt f fzero" "fgt alpha fzero \<or> alpha = NaN"
    "alpha = NaN \<or> rho = NaN \<or> nu = NaN"
  shows "pricing_sabr_implied_vol M f k t alpha beta rho nu = NaN"
proof -
  have "\<not> fle k fzero" "\<not> fle t fzero" "\<not> fle f fzero" "\<not> fle alpha fzero"
    using assms(1-4) flt_asym by (auto simp: fle_def)
  moreover have "fdiv NaN x = NaN" for x by (simp add: fdiv_def)
  ultimately show ?thesis
    using assms(5) by (auto simp: pricing_sabr_implied_vol_def Let_def)
qed

lemma sabr_residual_nan:
  assumes "\<exists>k \<in> set strikes. fgt k fzero" "fgt t fzero" "fgt f fzero" "fgt (p ! 0) fzero \<or> p ! 0 = NaN"
    "p ! 0 = NaN \<or> p ! 1 = NaN \<or> p ! 2 = NaN"
  shows "cost (sabr_residual M f t beta strikes mkt w p) = NaN"
proof -
  obtain i where i: "i < length strikes" "fgt (strikes ! i) fzero"
    using assms(1) by (auto simp: in_set_conv_nth)
  have "sabr_residual M f t beta strikes mkt w p ! i = NaN"
    using i(1) sabr_nan [OF i(2) assms(2-5)] by (simp add: sabr_residual_def)
  moreover have "sabr_residual M f t beta strikes mkt w p ! i \<in> set (sabr_residual M f t beta strikes mkt w p)"
    using i(1) by (intro nth_mem) (simp add: sabr_residual_def)
  ultimately show ?thesis using cost_has_nan by metis
qed

lemma lit_small_pos: "fgt (lit (1 / 10000)) fzero"
  by code_simp

lemma sabr_bounds_ordered:
  assumes "i < 3"
  shows "fle (sabr_lower ! i) (sabr_upper alpha_0 ! i)"
proof -
  have "fle (lit (1 / 10000)) (lit 10)" "fle (lit (- 999 / 1000)) (lit (999 / 1000))" "fle (lit (1 / 10000)) (lit 5)"
    by (rule lit_mono, simp)+
  moreover have "i = 0 \<or> i = 1 \<or> i = 2" using assms by auto
  ultimately show ?thesis by (auto simp: sabr_lower_def sabr_upper_def fle_fmax)
qed

lemma fmul_nonzero_not_nan: "x \<noteq> NaN \<Longrightarrow> is_finite y \<Longrightarrow> val y \<noteq> 0 \<Longrightarrow> fmul x y \<noteq> NaN"
  by (cases x; cases y) (simp_all add: fmul_def Let_def signed_inf_def signed_zero_def)

lemma fmul_four_fifths: "x \<noteq> NaN \<Longrightarrow> fmul x (lit (8 / 10)) \<noteq> NaN"
proof -
  have "is_finite (lit (8 / 10)) \<and> val (lit (8 / 10)) \<noteq> 0" by code_simp
  then show "x \<noteq> NaN \<Longrightarrow> fmul x (lit (8 / 10)) \<noteq> NaN" using fmul_nonzero_not_nan by blast
qed

lemma sabr_guess_numbers:
  assumes "g \<in> set (sabr_guesses (sabr_alpha_0 M f strikes market_ivs beta))"
  shows "length g = 3" "i < 3 \<Longrightarrow> g ! i \<noteq> NaN"
proof -
  define a0 where "a0 = sabr_alpha_0 M f strikes market_ivs beta"
  define a1 where "a1 = fmul a0 (lit (8 / 10))"
  have "a0 \<noteq> NaN" by (simp add: a0_def sabr_alpha_0_def)
  moreover from this have "a1 \<noteq> NaN" unfolding a1_def by (rule fmul_four_fifths)
  moreover have "\<exists>a q r. g = [a, lit q, lit r] \<and> (a = a0 \<or> a = a1) \<or> g = [a0, fzero, lit r]"
    using assms unfolding sabr_guesses_def a0_def [symmetric] a1_def [symmetric]
    by (simp only: list.set insert_iff empty_iff) blast
  ultimately have "length g = 3 \<and> g ! 0 \<noteq> NaN \<and> g ! 1 \<noteq> NaN \<and> g ! 2 \<noteq> NaN"
    using lit_not_nan by auto
  moreover have "i = 0 \<or> i = 1 \<or> i = 2" if "i < 3" using that by auto
  ultimately show "length g = 3" "i < 3 \<Longrightarrow> g ! i \<noteq> NaN" by blast+
qed

text \<open>A function whose cost is nowhere a number leaves the solver at its projected start.\<close>

lemma lm_solve_nan:
  assumes "\<And>p. cost (f p) = NaN"
  shows "lm_x (lm_solve M f x0 lb ub max_nfev) = project lb ub x0"
    "lm_residuals (lm_solve M f x0 lb ub max_nfev) = f (project lb ub x0)"
    "lm_cost (lm_solve M f x0 lb ub max_nfev) = NaN"
  using lm_solve_inv [of f lb ub x0 M max_nfev] assms flt_not_nan unfolding lm_inv_def by metis+

lemma best_result_nan:
  assumes "\<forall>r \<in> set (r0 # rs). lm_cost r = NaN"
  shows "best_result (r0 # rs) = Some r0"
proof -
  have "\<forall>r \<in> set rs. lm_cost r = NaN \<Longrightarrow> lm_cost r0 = NaN \<Longrightarrow> foldl better (Some r0) rs = Some r0"
    by (induction rs) (auto simp: better_def dest: flt_not_nan)
  moreover have "better None r = Some r" for r by (simp add: better_def)
  ultimately show ?thesis using assms by (simp add: best_result_def)
qed

lemma project1_inside: "fle lo x \<Longrightarrow> fle x hi \<Longrightarrow> project1 lo hi x = x"
  by (auto simp: project1_def fle_def)

lemma nan_chain_fit:
  assumes "3 \<le> length strikes" "length market_ivs = length strikes" "fgt t fzero" "fgt f fzero"
    "NaN \<in> set market_ivs" "m_sqrt M NaN = NaN"
  shows "\<exists>fit. calibrate_sabr M f t strikes market_ivs weights beta max_rmse = Some fit \<and>
     sf_rmse fit = NaN \<and> sf_rho fit = lit (- 3 / 10) \<and> sf_nu fit = lit (3 / 10)"
proof -
  let ?n = "length strikes" and ?a = "sabr_alpha_0 M f strikes market_ivs beta"
  let ?F = "sabr_residual M f t beta strikes market_ivs (fit_weights weights ?n)"
  let ?run = "\<lambda>guess. lm_solve M ?F guess sabr_lower (sabr_upper ?a) 200"
  define g where "g = [?a, lit (- 3 / 10), lit (3 / 10)]"
  obtain gs where gs: "sabr_guesses ?a = g # gs" by (simp add: sabr_guesses_def g_def)
  obtain i where i: "i < length strikes" "market_ivs ! i = NaN" using assms(2,5) by (auto simp: in_set_conv_nth)
  have nan: "NaN \<in> set (?F p)" for p
  proof -
    have "?F p ! i \<in> set (?F p)" using i(1) by (intro nth_mem) (simp add: sabr_residual_def)
    moreover have "?F p ! i = NaN" using i by (simp add: sabr_residual_def)
    ultimately show ?thesis by simp
  qed
  then have c: "cost (?F p) = NaN" for p by (rule cost_has_nan)
  have best: "best_result (map ?run (sabr_guesses ?a)) = Some (?run g)"
    unfolding gs list.map by (rule best_result_nan) (simp add: lm_solve_nan [OF c])
  have "NaN \<in> set (map (\<lambda>v. fmul v v) (?F p))" for p using nan [of p] by force
  then have rmse: "fit_rmse M (?run g) = NaN"
    unfolding fit_rmse_def lm_solve_nan [OF c] by (simp only: fsum_has_nan) (simp add: fdiv_def assms(6))
  have "project1 (lit (- 999 / 1000)) (lit (999 / 1000)) (lit (- 3 / 10)) = lit (- 3 / 10)"
    "project1 (lit (1 / 10000)) (lit 5) (lit (3 / 10)) = lit (3 / 10)"
    by (rule project1_inside; rule lit_mono; simp)+
  then have x: "lm_x (?run g) ! 1 = lit (- 3 / 10)" "lm_x (?run g) ! 2 = lit (3 / 10)"
    unfolding lm_solve_nan [OF c] by (simp_all add: nth_project g_def sabr_lower_def sabr_upper_def)
  have "\<not> fle t fzero" "\<not> fle f fzero" using assms(3,4) by (auto simp: fle_def)
  then show ?thesis
    using assms(1,2) best rmse x flt_not_nan by (auto simp: calibrate_sabr_def Let_def)
qed

section \<open>Properties\<close>

text \<open>C24. The solver stops within its budget of evaluations and twice the number of parameters more,
  the evaluations of one Jacobian; the residuals and the cost it returns are those of the point it
  returns, that point is a projection onto the bounds, and its cost is the cost of the projected
  start or below it.\<close>

theorem solver_stops_and_improves:
  "let s = lm_solve M f x0 lb ub max_nfev; start = project lb ub x0
   in lm_nfev s \<le> max 1 (max_nfev + 2 * length x0) \<and>
      lm_residuals s = f (lm_x s) \<and> lm_cost s = cost (f (lm_x s)) \<and>
      (\<exists>y. length y = length x0 \<and> lm_x s = project lb ub y) \<and>
      (lm_x s = start \<or> flt (lm_cost s) (cost (f start)))"
  using lm_solve_inv [of f lb ub x0 M max_nfev] unfolding Let_def lm_inv_def by blast

lemma sabr_fit_bounds:
  assumes "calibrate_sabr M f t strikes market_ivs weights beta max_rmse = Some fit"
    and "\<exists>k \<in> set strikes. fgt k fzero" "t \<noteq> NaN" "f \<noteq> NaN"
  shows "fle (lit (1 / 10000)) (sf_alpha fit) \<and>
     fle (sf_alpha fit) (fmax (lit 10) (fmul (sabr_alpha_0 M f strikes market_ivs beta) (lit 5))) \<and>
     fle (lit (- 999 / 1000)) (sf_rho fit) \<and> fle (sf_rho fit) (lit (999 / 1000)) \<and>
     fle (lit (1 / 10000)) (sf_nu fit) \<and> fle (sf_nu fit) (lit 5) \<and> \<not> fgt (sf_rmse fit) max_rmse"
proof -
  let ?a = "sabr_alpha_0 M f strikes market_ivs beta"
  let ?F = "sabr_residual M f t beta strikes market_ivs (fit_weights weights (length strikes))"
  let ?run = "\<lambda>guess. lm_solve M ?F guess sabr_lower (sabr_upper ?a) 200"
  have ft: "fgt t fzero" "fgt f fzero"
    using assms(1,3,4) fle_linear [of t fzero] fle_linear [of f fzero] unfolding calibrate_sabr_def Let_def
    by (auto split: if_splits)
  obtain best where b: "best_result (map ?run (sabr_guesses ?a)) = Some best"
    and fit: "\<not> fgt (fit_rmse M best) max_rmse" "sf_alpha fit = lm_x best ! 0" "sf_rho fit = lm_x best ! 1"
      "sf_nu fit = lm_x best ! 2" "sf_rmse fit = fit_rmse M best"
    using assms(1) by (auto simp: calibrate_sabr_def Let_def split: if_splits option.splits)
  obtain g where g: "g \<in> set (sabr_guesses ?a)" and best: "best = ?run g" using best_result_in [OF b] by auto
  have inv: "lm_inv ?F sabr_lower (sabr_upper ?a) g best" using lm_solve_inv unfolding best by blast
  note lg = sabr_guess_numbers(1) [OF g] and gn = sabr_guess_numbers(2) [OF g]
  obtain y where y: "length y = 3" "lm_x best = project sabr_lower (sabr_upper ?a) y"
    using inv lg by (auto simp: lm_inv_def)
  have x: "lm_x best ! i = project1 (sabr_lower ! i) (sabr_upper ?a ! i) (y ! i)" if "i < 3" for i
    using that y by (simp add: nth_project)
  have nn: "lm_x best ! i \<noteq> NaN" if i: "i < 3" for i
  proof (cases "lm_x best = project sabr_lower (sabr_upper ?a) g")
    case True
    then show ?thesis
      using gn [OF i] i lg project1_nan [OF sabr_bounds_ordered [OF i]] by (simp add: nth_project)
  next
    case False
    then have "cost (?F (lm_x best)) \<noteq> NaN" using inv flt_not_nan unfolding lm_inv_def by metis
    moreover have "fgt (lm_x best ! 0) fzero \<or> lm_x best ! 0 = NaN"
      using project1_range [OF sabr_bounds_ordered [of 0 ?a]] x [of 0] lit_small_pos
        flt_fle_trans [of fzero] by (auto simp: sabr_lower_def)
    ultimately have "\<not> (lm_x best ! 0 = NaN \<or> lm_x best ! 1 = NaN \<or> lm_x best ! 2 = NaN)"
      using sabr_residual_nan [OF assms(2) ft] by blast
    moreover have "i = 0 \<or> i = 1 \<or> i = 2" using i by auto
    ultimately show ?thesis by auto
  qed
  have "fle (sabr_lower ! i) (lm_x best ! i) \<and> fle (lm_x best ! i) (sabr_upper ?a ! i)" if i: "i < 3" for i
    using project1_range [OF sabr_bounds_ordered [OF i]] nn [OF i] x [OF i] by simp
  from this [of 0] this [of 1] this [of 2] show ?thesis
    using fit by (simp add: sabr_lower_def sabr_upper_def)
qed

text \<open>Every parameter of an accepted SABR fit to a chain with a positive strike lies within its
  bounds, whatever the quotes and the mathematical functions answer, and the error reported is
  within the limit unless it is not a number. A fit is always found for such a chain; only the
  limit rejects it.\<close>

theorem sabr_fit_within_bounds:
  assumes "calibrate_sabr M f t strikes market_ivs weights beta max_rmse = Some fit"
    and "\<exists>k \<in> set strikes. fgt k fzero" "t \<noteq> NaN" "f \<noteq> NaN"
  shows "fle (lit (1 / 10000)) (sf_alpha fit) \<and>
     fle (sf_alpha fit) (fmax (lit 10) (fmul (sabr_alpha_0 M f strikes market_ivs beta) (lit 5))) \<and>
     fle (lit (- 999 / 1000)) (sf_rho fit) \<and> fle (sf_rho fit) (lit (999 / 1000)) \<and>
     fle (lit (1 / 10000)) (sf_nu fit) \<and> fle (sf_nu fit) (lit 5) \<and> \<not> fgt (sf_rmse fit) max_rmse"
  by (rule sabr_fit_bounds [OF assms])

definition demo_trader_libm :: trader_libm where
  "demo_trader_libm =
     \<lparr>m_ln = \<lambda>x. x, m_exp = \<lambda>x. x, m_sqrt = \<lambda>x. x, m_cdf = \<lambda>x. x, m_powf = \<lambda>x y. x, m_powi = \<lambda>x n. x\<rparr>"

theorem sabr_fit_within_bounds_witness:
  "\<exists>fit. calibrate_sabr demo_trader_libm (Fin 6) fone [Fin 5, Fin 6, Fin 7] [NaN, fone, fone] None fone fone = Some fit \<and>
     fle (sf_nu fit) (lit 5)"
proof -
  obtain fit where fit: "calibrate_sabr demo_trader_libm (Fin 6) fone [Fin 5, Fin 6, Fin 7] [NaN, fone, fone] None fone fone =
      Some fit"
    using nan_chain_fit [of "[Fin 5, Fin 6, Fin 7]" "[NaN, fone, fone]" fone "Fin 6" demo_trader_libm None fone fone]
    by (auto simp: demo_trader_libm_def)
  show ?thesis using sabr_fit_within_bounds [OF fit] fit by simp
qed

text \<open>A diverged calibration is reported as a fit: if one quoted volatility is not a number, no
  step of the solver is ever accepted, and the first initial guess comes back as a fit whose error
  is not a number, which no limit on the error rejects.\<close>

theorem diverged_fit_accepted:
  assumes "3 \<le> length strikes" "length market_ivs = length strikes" "fgt t fzero" "fgt f fzero"
    and "NaN \<in> set market_ivs" "m_sqrt M NaN = NaN"
  shows "\<exists>fit. calibrate_sabr M f t strikes market_ivs weights beta max_rmse = Some fit \<and>
     sf_rmse fit = NaN \<and> sf_rho fit = lit (- 3 / 10) \<and> sf_nu fit = lit (3 / 10)"
  using nan_chain_fit [OF assms] .

theorem diverged_fit_accepted_witness:
  "calibrate_sabr demo_trader_libm (Fin 6) fone [Fin 5, Fin 6, Fin 7] [NaN, fone, fone] None fone fzero \<noteq> None"
  using diverged_fit_accepted [of "[Fin 5, Fin 6, Fin 7]" "[NaN, fone, fone]" fone "Fin 6" demo_trader_libm None fone fzero]
  by (auto simp: demo_trader_libm_def)

end
