(* ===== verification/Daemon_Config.thy ===== *)
theory Daemon_Config
  imports Risk
begin

text \<open>
  The configuration of the broker daemon (\<open>corsair_broker/src/config.rs\<close>): its sections, their
  defaults, and the validation of a loaded file. Reading the file and decoding YAML are a
  parameter of \<open>config_load\<close>. A message that quotes a value is the text around it and the value.
\<close>

section \<open>Sections\<close>

record gateway_section =
  gs_host :: string
  gs_port :: int

record ibkr_section =
  ib_gateway :: gateway_section
  ib_client_id :: int
  ib_account :: string

record broker_section =
  bk_kind :: string
  bk_ibkr :: "ibkr_section option"

record risk_section =
  rk_daily_pnl_halt_pct :: "f64 option"
  rk_max_daily_loss :: "f64 option"
  rk_margin_kill_pct :: f64
  rk_delta_kill :: f64
  rk_vega_kill :: f64
  rk_theta_kill :: f64

record constraints_section =
  cs_capital :: f64
  cs_margin_ceiling_pct :: f64
  cs_delta_ceiling :: f64
  cs_theta_floor :: f64
  cs_effective_delta_gating :: bool
  cs_margin_escape_enabled :: bool

definition default_true :: bool where
  "default_true = True"

record product_config =
  pc_name :: string
  pc_multiplier :: f64
  pc_default_iv :: f64
  pc_quote_range_low :: int
  pc_quote_range_high :: int
  pc_strike_increment :: f64
  pc_enabled :: bool

definition default_iv :: f64 where
  "default_iv = lit (3 / 10)"

record quoting_section =
  qs_tick_size :: f64
  qs_min_edge_ticks :: int
  qs_max_strike_offset_usd :: f64
  qs_gtd_lifetime_s :: f64
  qs_gtd_refresh_lead_s :: f64
  qs_dead_band_ticks :: int
  qs_min_send_interval_ms :: int

definition default_max_strike_offset :: f64 where
  "default_max_strike_offset = lit (3 / 10)"

definition default_gtd :: f64 where
  "default_gtd = lit 30"

definition default_gtd_lead :: f64 where
  "default_gtd_lead = lit (7 / 2)"

definition default_dead_band :: int where
  "default_dead_band = 1"

definition default_min_send :: int where
  "default_min_send = 250"

record hedging_section =
  hs_enabled :: bool
  hs_mode :: string
  hs_tolerance_deltas :: f64
  hs_rebalance_on_fill :: bool
  hs_rebalance_cadence_sec :: f64
  hs_include_in_daily_pnl :: bool
  hs_flatten_on_halt :: bool
  hs_ioc_tick_offset :: int
  hs_hedge_tick_size :: f64
  hs_hedge_lockout_days :: int

definition default_hedge_mode :: string where
  "default_hedge_mode = ''observe''"

definition default_tolerance :: f64 where
  "default_tolerance = lit (1 / 2)"

definition default_hedge_cadence :: f64 where
  "default_hedge_cadence = lit 30"

definition default_ioc_offset :: int where
  "default_ioc_offset = 2"

definition default_hedge_tick :: f64 where
  "default_hedge_tick = lit (5 / 10000)"

definition default_lockout :: int where
  "default_lockout = 30"

record snapshot_section =
  ss_path :: string
  ss_cadence_ms :: int

definition default_snapshot_path :: string where
  "default_snapshot_path = ''/app/data/snapshot.json''"

definition default_snapshot_cadence :: int where
  "default_snapshot_cadence = 250"

definition snapshot_section_default :: snapshot_section where
  "snapshot_section_default = \<lparr>ss_path = default_snapshot_path, ss_cadence_ms = default_snapshot_cadence\<rparr>"

text \<open>\<open>RuntimeSection\<close> derives its default, so a missing section has the empty level, while a
  section without the field has the level of \<open>default_log_level\<close>.\<close>

record runtime_section =
  rs_log_level :: string

definition runtime_section_default :: runtime_section where
  "runtime_section_default = \<lparr>rs_log_level = []\<rparr>"

definition default_log_level :: string where
  "default_log_level = ''info''"

record daemon_config =
  dc_broker :: broker_section
  dc_risk :: risk_section
  dc_constraints :: constraints_section
  dc_products :: "product_config list"
  dc_quoting :: quoting_section
  dc_hedging :: hedging_section
  dc_snapshot :: snapshot_section
  dc_runtime :: runtime_section

section \<open>Loading\<close>

datatype config_error =
    ConfigIo string
  | ConfigYaml string
  | ConfigValidation string string

fun validate_products :: "product_config list \<Rightarrow> config_error + unit" where
  "validate_products [] = Inr ()"
| "validate_products (p # ps) =
     (if fle (pc_multiplier p) fzero
      then Inl (ConfigValidation ''product: multiplier must be > 0'' (pc_name p))
      else validate_products ps)"

definition validate :: "daemon_config \<Rightarrow> config_error + unit" where
  "validate cfg =
     (if fle (cs_capital (dc_constraints cfg)) fzero
      then Inl (ConfigValidation ''constraints.capital must be > 0'' [])
      else if dc_products cfg = []
      then Inl (ConfigValidation ''at least one product required'' [])
      else if bk_kind (dc_broker cfg) \<noteq> ''ibkr'' \<and> bk_kind (dc_broker cfg) \<noteq> ''ilink''
      then Inl (ConfigValidation ''broker.kind must be ibkr or ilink'' (bk_kind (dc_broker cfg)))
      else if bk_kind (dc_broker cfg) = ''ibkr'' \<and> bk_ibkr (dc_broker cfg) = None
      then Inl (ConfigValidation ''broker.kind=ibkr requires broker.ibkr section'' [])
      else validate_products (dc_products cfg))"

definition config_load ::
  "('bytes \<Rightarrow> string + daemon_config) \<Rightarrow> string + 'bytes \<Rightarrow> config_error + daemon_config" where
  "config_load from_slice content =
     (case content of
        Inl e \<Rightarrow> Inl (ConfigIo e)
      | Inr bytes \<Rightarrow>
          (case from_slice bytes of
             Inl e \<Rightarrow> Inl (ConfigYaml e)
           | Inr cfg \<Rightarrow> and_then (validate cfg) (\<lambda>_. Inr cfg)))"

definition config_daily_halt_threshold :: "daemon_config \<Rightarrow> f64 option" where
  "config_daily_halt_threshold cfg =
     resolve_daily_halt_threshold (rk_daily_pnl_halt_pct (dc_risk cfg)) (rk_max_daily_loss (dc_risk cfg))
       (cs_capital (dc_constraints cfg))"

section \<open>Lemmas\<close>

lemma validate_products_ok:
  "validate_products ps = Inr () \<longleftrightarrow> (\<forall>p \<in> set ps. \<not> fle (pc_multiplier p) fzero)"
  by (induction ps) auto

lemma validate_ok:
  "validate cfg = Inr () \<longleftrightarrow>
     \<not> fle (cs_capital (dc_constraints cfg)) fzero \<and> dc_products cfg \<noteq> [] \<and>
     (bk_kind (dc_broker cfg) = ''ibkr'' \<and> bk_ibkr (dc_broker cfg) \<noteq> None \<or> bk_kind (dc_broker cfg) = ''ilink'') \<and>
     (\<forall>p \<in> set (dc_products cfg). \<not> fle (pc_multiplier p) fzero)"
  by (auto simp: validate_def validate_products_ok)

lemma config_load_ok:
  "config_load from_slice content = Inr cfg \<longleftrightarrow>
     (\<exists>bytes. content = Inr bytes \<and> from_slice bytes = Inr cfg \<and> validate cfg = Inr ())"
  by (cases content) (auto simp: config_load_def and_then_def split: sum.splits)

end
