(* ===== verification/Daemon_Runtime.thy ===== *)
theory Daemon_Runtime
  imports Daemon_Config Gateway_Calls Hedge Constraint_Gates Orders Market_Data
begin

text \<open>
  The state hub of the broker daemon and its boot sequence (\<open>corsair_broker/src/runtime.rs\<close>).
  Every component lives in a lock of its own; a stretch of a task between two awaits is one step
  here, and the locks it takes leave no trace. The snapshot publisher writes a file and keeps no
  state that anything reads, so it is not part of the record. The directory of the induced kill
  files is, because the risk check removes files from it.
\<close>

section \<open>State\<close>

datatype runtime_error =
    ReBroker broker_error
  | ReConfig config_error
  | ReInternal string

datatype runtime_mode = ShadowMode | LiveMode

definition runtime_mode_from_env :: "string option \<Rightarrow> runtime_mode" where
  "runtime_mode_from_env var =
     (let v = (case var of Some x \<Rightarrow> x | None \<Rightarrow> [])
      in if v = ''0'' \<or> v = ''false'' \<or> v = ''FALSE'' then LiveMode else ShadowMode)"

record runtime =
  rt_mode :: runtime_mode
  rt_config :: daemon_config
  rt_broker :: native_broker
  rt_portfolio :: portfolio_state
  rt_risk :: risk_monitor
  rt_constraint :: constraint_checker
  rt_hedge :: hedge_fanout
  rt_oms :: order_book
  rt_market_data :: market_data_state
  rt_account :: account_snapshot
  rt_sentinels :: sentinel_files

section \<open>Construction\<close>

definition build_broker :: "daemon_config \<Rightarrow> runtime_error + native_broker" where
  "build_broker cfg =
     (let kind = bk_kind (dc_broker cfg)
      in if kind = ''ibkr'' \<or> kind = ''ibkr_native'' then
           (case bk_ibkr (dc_broker cfg) of
              None \<Rightarrow> Inl (ReInternal ''missing broker.ibkr'')
            | Some ib \<Rightarrow>
                Inr (native_broker_new
                  \<lparr>cc_host = gs_host (ib_gateway ib), cc_port = gs_port (ib_gateway ib),
                   cc_client_id = ib_client_id ib, cc_account = None,
                   cc_connect_timeout_ms = 10000, cc_handshake_timeout_ms = 10000\<rparr>
                  (ib_account ib)))
         else if kind = ''ilink'' then Inl (ReInternal ''ilink adapter not implemented (Phase 7)'')
         else Inl (ReInternal (''unknown broker.kind: '' @ kind)))"

definition build_hedge_fanout :: "daemon_config \<Rightarrow> hedge_fanout" where
  "build_hedge_fanout cfg =
     (let h = dc_hedging cfg
      in if \<not> hs_enabled h then []
         else
           let mode = (if hs_mode h = ''execute'' then Execute else Observe)
           in map (\<lambda>p. hedge_manager_new
                 \<lparr>hc_product = pc_name p, hc_multiplier = pc_multiplier p, hc_mode = mode,
                  hc_tolerance_deltas = hs_tolerance_deltas h, hc_rebalance_on_fill = hs_rebalance_on_fill h,
                  hc_rebalance_cadence_sec = hs_rebalance_cadence_sec h,
                  hc_include_in_daily_pnl = hs_include_in_daily_pnl h,
                  hc_flatten_on_halt_enabled = hs_flatten_on_halt h,
                  hc_ioc_tick_offset = hs_ioc_tick_offset h, hc_hedge_tick_size = hs_hedge_tick_size h,
                  hc_lockout_days = hs_hedge_lockout_days h\<rparr>)
               (filter pc_enabled (dc_products cfg)))"

definition build_registry :: "daemon_config \<Rightarrow> product_registry" where
  "build_registry cfg =
     fold (\<lambda>p. registry_register
         \<lparr>pi_product = pc_name p, pi_multiplier = pc_multiplier p, pi_default_iv = pc_default_iv p\<rparr>)
       (filter pc_enabled (dc_products cfg)) registry_new"

definition build_risk_config :: "daemon_config \<Rightarrow> risk_config" where
  "build_risk_config cfg =
     \<lparr>rc_capital = cs_capital (dc_constraints cfg), rc_margin_kill_pct = rk_margin_kill_pct (dc_risk cfg),
      rc_daily_halt_threshold = config_daily_halt_threshold cfg, rc_delta_kill = rk_delta_kill (dc_risk cfg),
      rc_vega_kill = rk_vega_kill (dc_risk cfg), rc_theta_kill = rk_theta_kill (dc_risk cfg),
      rc_margin_ceiling_pct = cs_margin_ceiling_pct (dc_constraints cfg),
      rc_effective_delta_gating = cs_effective_delta_gating (dc_constraints cfg)\<rparr>"

definition build_constraint_config :: "daemon_config \<Rightarrow> product_config \<Rightarrow> constraint_config" where
  "build_constraint_config cfg primary =
     \<lparr>cc_product = pc_name primary, cc_capital = cs_capital (dc_constraints cfg),
      cc_margin_ceiling_pct = cs_margin_ceiling_pct (dc_constraints cfg),
      cc_delta_ceiling = cs_delta_ceiling (dc_constraints cfg), cc_theta_floor = cs_theta_floor (dc_constraints cfg),
      cc_margin_kill_pct = rk_margin_kill_pct (dc_risk cfg), cc_delta_kill = rk_delta_kill (dc_risk cfg),
      cc_theta_kill = rk_theta_kill (dc_risk cfg),
      cc_effective_delta_gating = cs_effective_delta_gating (dc_constraints cfg),
      cc_margin_escape_enabled = cs_margin_escape_enabled (dc_constraints cfg)\<rparr>"

definition account_zero :: account_snapshot where
  "account_zero =
     \<lparr>as_net_liquidation = fzero, as_maintenance_margin = fzero, as_initial_margin = fzero,
      as_buying_power = fzero, as_realized_pnl_today = fzero, as_timestamp_ns = 0\<rparr>"

text \<open>\<open>Runtime::new\<close> up to the first await.\<close>

definition runtime_construct ::
  "daemon_config \<Rightarrow> runtime_mode \<Rightarrow> sentinel_files \<Rightarrow> runtime_error + runtime" where
  "runtime_construct cfg mode dir =
     and_then (build_broker cfg) (\<lambda>nb.
       case find pc_enabled (dc_products cfg) of
         None \<Rightarrow> Inl (ReInternal ''no enabled product'')
       | Some primary \<Rightarrow>
           Inr \<lparr>rt_mode = mode, rt_config = cfg, rt_broker = nb,
                rt_portfolio = portfolio_new (build_registry cfg),
                rt_risk = monitor_new (build_risk_config cfg),
                rt_constraint = checker_new (build_constraint_config cfg primary),
                rt_hedge = build_hedge_fanout cfg, rt_oms = book_new, rt_market_data = md_new,
                rt_account = account_zero, rt_sentinels = dir\<rparr>)"

section \<open>Boot\<close>

text \<open>The sort is stable, and the first contract past the lockout wins.\<close>

definition resolve_hedge_contract ::
  "gateway_env \<Rightarrow> network \<Rightarrow> naive_date \<Rightarrow> string \<times> int \<Rightarrow> runtime \<Rightarrow> runtime" where
  "resolve_hedge_contract E N today target rt =
     (let (symbol, lockout_days) = target;
          min_expiry = today + lockout_days;
          q = \<lparr>cq_symbol = symbol, cq_exchange = Comex, cq_currency = Usd, cq_kind = Some Future,
               cq_min_expiry = Some min_expiry\<rparr>;
          (r, nb) = list_chain E N q (rt_broker rt);
          rt1 = rt\<lparr>rt_broker := nb\<rparr>
      in case r of
           Inl _ \<Rightarrow> rt1
         | Inr chain \<Rightarrow>
             (case find (\<lambda>c. min_expiry \<le> c_expiry c) (sort_key c_expiry chain) of
                None \<Rightarrow> rt1
              | Some c \<Rightarrow> rt1\<lparr>rt_hedge := update_product symbol (set_hedge_contract c) (rt_hedge rt1)\<rparr>))"

definition resolve_hedge_contracts :: "gateway_env \<Rightarrow> network \<Rightarrow> naive_date \<Rightarrow> runtime \<Rightarrow> runtime" where
  "resolve_hedge_contracts E N today rt =
     fold (resolve_hedge_contract E N today)
       (map (\<lambda>m. (hc_product (mg_cfg m), hc_lockout_days (mg_cfg m))) (rt_hedge rt)) rt"

definition runtime_connect ::
  "gateway_env \<Rightarrow> connect_io \<Rightarrow> int \<Rightarrow> runtime \<Rightarrow> (runtime_error + unit) \<times> runtime" where
  "runtime_connect E io now rt =
     (let (r, nb) = broker_connect E io now (rt_broker rt)
      in (case r of Inl e \<Rightarrow> Inl (ReBroker e) | Inr _ \<Rightarrow> Inr (), rt\<lparr>rt_broker := nb\<rparr>))"

definition wait_for_native_seeding :: "gateway_env \<Rightarrow> network \<Rightarrow> runtime \<Rightarrow> runtime" where
  "wait_for_native_seeding E N rt = rt\<lparr>rt_broker := wait_for_initial_snapshot E N (rt_broker rt)\<rparr>"

text \<open>One broker position of the seeding loop: an option becomes a position of the book, a future a
  reconcile of the hedge.\<close>

definition seed_option :: "date_time \<Rightarrow> broker_position \<Rightarrow> position option" where
  "seed_option now bp =
     (let c = bp_contract bp
      in case (c_right c, c_strike c) of
           (Some r, Some k) \<Rightarrow>
             if fgt (c_multiplier c) fzero then
               Some \<lparr>p_product = c_symbol c, p_strike = k, p_expiry = c_expiry c, p_right = r,
                     p_quantity = bp_quantity bp, p_avg_fill_price = fdiv (bp_avg_cost bp) (c_multiplier c),
                     p_fill_time = now, p_multiplier = c_multiplier c, p_delta = fzero, p_gamma = fzero,
                     p_theta = fzero, p_vega = fzero, p_current_price = fzero\<rparr>
             else None
         | _ \<Rightarrow> None)"

definition hedge_multiplier :: "contract \<Rightarrow> f64" where
  "hedge_multiplier c = (if fgt (c_multiplier c) fzero then c_multiplier c else lit 25000)"

definition seed_future :: "broker_position \<Rightarrow> (string \<times> int \<times> f64) option" where
  "seed_future bp =
     (let c = bp_contract bp
      in if bp_quantity bp = 0 then None
         else Some (c_symbol c, bp_quantity bp, fdiv (bp_avg_cost bp) (hedge_multiplier c)))"

definition seed_position ::
  "date_time \<Rightarrow> string list \<Rightarrow> broker_position \<Rightarrow> position list \<times> (string \<times> int \<times> f64) list \<Rightarrow>
   position list \<times> (string \<times> int \<times> f64) list" where
  "seed_position now products bp acc =
     (if c_symbol (bp_contract bp) \<notin> set products then acc
      else
        (case c_kind (bp_contract bp) of
           OptionKind \<Rightarrow>
             (case seed_option now bp of None \<Rightarrow> acc | Some p \<Rightarrow> (fst acc @ [p], snd acc))
         | Future \<Rightarrow>
             (case seed_future bp of None \<Rightarrow> acc | Some s \<Rightarrow> (fst acc, snd acc @ [s]))))"

definition apply_hedge_seed :: "string \<times> int \<times> f64 \<Rightarrow> hedge_fanout \<Rightarrow> hedge_fanout" where
  "apply_hedge_seed seed fo =
     (let (product, qty, avg) = seed
      in update_product product (\<lambda>m. fst (reconcile_with_position qty avg m)) fo)"

definition seed_positions_from_broker :: "date_time \<Rightarrow> runtime \<Rightarrow> runtime" where
  "seed_positions_from_broker now rt =
     (let products = registry_products (registry (rt_portfolio rt));
          (to_insert, hedge_seeds) = fold (seed_position now products) (broker_positions (rt_broker rt)) ([], [])
      in rt\<lparr>rt_portfolio := replace_positions to_insert (rt_portfolio rt),
            rt_hedge := fold apply_hedge_seed hedge_seeds (rt_hedge rt)\<rparr>)"

text \<open>\<open>Runtime::new\<close>.\<close>

definition runtime_new ::
  "gateway_env \<Rightarrow> network \<Rightarrow> connect_io \<Rightarrow> daemon_config \<Rightarrow> runtime_mode \<Rightarrow> sentinel_files \<Rightarrow> naive_date \<Rightarrow>
   date_time \<Rightarrow> runtime_error + runtime" where
  "runtime_new E N io cfg mode dir today now =
     and_then (runtime_construct cfg mode dir) (\<lambda>rt.
       let (r, rt1) = runtime_connect E io now rt
       in and_then r (\<lambda>_.
         Inr (seed_positions_from_broker now
               (resolve_hedge_contracts E N today (wait_for_native_seeding E N rt1)))))"

definition with_market_view :: "runtime \<Rightarrow> (market_view \<Rightarrow> 'r) \<Rightarrow> 'r" where
  "with_market_view rt f = f (md_view (rt_market_data rt))"

definition runtime_shutdown :: "int \<Rightarrow> runtime \<Rightarrow> runtime" where
  "runtime_shutdown now rt = rt\<lparr>rt_broker := broker_disconnect now (rt_broker rt)\<rparr>"

section \<open>Lemmas\<close>

lemma for_product_update:
  assumes "\<And>m. hc_product (mg_cfg (f m)) = hc_product (mg_cfg m)"
  shows "for_product (update_product p f fo) q =
     (if q = p then map_option f (for_product fo q) else for_product fo q)"
  by (induction fo) (auto simp: for_product_def assms)

lemma update_product_idle:
  "(\<And>m. m \<in> set fo \<Longrightarrow> f m = m) \<Longrightarrow> update_product p f fo = fo"
  by (induction fo) auto

text \<open>The seeding loop in one step: the options in order, and the futures in order.\<close>

definition seeded_option :: "date_time \<Rightarrow> string list \<Rightarrow> broker_position \<Rightarrow> position option" where
  "seeded_option now products bp =
     (if c_symbol (bp_contract bp) \<in> set products \<and> c_kind (bp_contract bp) = OptionKind
      then seed_option now bp else None)"

definition seeded_future :: "string list \<Rightarrow> broker_position \<Rightarrow> (string \<times> int \<times> f64) option" where
  "seeded_future products bp =
     (if c_symbol (bp_contract bp) \<in> set products \<and> c_kind (bp_contract bp) = Future
      then seed_future bp else None)"

lemma seeding_loop:
  "fold (seed_position now products) bps acc =
     (fst acc @ List.map_filter (seeded_option now products) bps,
      snd acc @ List.map_filter (seeded_future products) bps)"
proof (induction bps arbitrary: acc)
  case Nil
  then show ?case by (simp add: map_filter_simps)
next
  case (Cons bp bps)
  then show ?case
    by (cases "c_kind (bp_contract bp)")
      (auto simp: seed_position_def seeded_option_def seeded_future_def map_filter_simps split: option.split)
qed

lemma seeded_state:
  "rt_portfolio (seed_positions_from_broker now rt) =
     replace_positions (List.map_filter (seeded_option now (registry_products (registry (rt_portfolio rt))))
        (broker_positions (rt_broker rt))) (rt_portfolio rt)"
  "rt_hedge (seed_positions_from_broker now rt) =
     fold apply_hedge_seed (List.map_filter (seeded_future (registry_products (registry (rt_portfolio rt))))
        (broker_positions (rt_broker rt))) (rt_hedge rt)"
  "rt_broker (seed_positions_from_broker now rt) = rt_broker rt"
  "rt_market_data (seed_positions_from_broker now rt) = rt_market_data rt"
  by (simp_all add: seed_positions_from_broker_def Let_def seeding_loop)

lemma apply_hedge_seed_qty:
  "map_option mgr_hedge_qty (for_product (apply_hedge_seed (p, n, avg) fo) q) =
     (if q = p then map_option (\<lambda>_. n) (for_product fo q) else map_option mgr_hedge_qty (for_product fo q))"
proof -
  have "hc_product (mg_cfg (fst (reconcile_with_position n avg m))) = hc_product (mg_cfg m)"
    "mgr_hedge_qty (fst (reconcile_with_position n avg m)) = n" for m
    by (simp_all add: reconcile_with_position_def mgr_hedge_qty_def hedge_replace_def)
  then show ?thesis
    by (simp add: apply_hedge_seed_def for_product_update option.map_comp comp_def cong: map_option_cong)
qed

lemma hedge_seeds_qty:
  "map_option mgr_hedge_qty (for_product (fold apply_hedge_seed seeds fo) q) =
     map_option (\<lambda>m. last (mgr_hedge_qty m # map (\<lambda>(p, n, a). n) (filter (\<lambda>(p, n, a). p = q) seeds)))
       (for_product fo q)"
proof (induction seeds arbitrary: fo)
  case (Cons s seeds)
  obtain p n a where s: "s = (p, n, a)" by (cases s)
  show ?case
    using Cons.IH [of "apply_hedge_seed s fo"] apply_hedge_seed_qty [of p n a fo q] s
    by (cases "for_product fo q"; cases "for_product (apply_hedge_seed s fo) q") (auto split: if_splits)
qed simp

section \<open>Properties\<close>

text \<open>What boot books for a broker position, if it books it: the key, the quantity and the price per
  unit.\<close>

definition booked :: "string list \<Rightarrow> broker_position \<Rightarrow> (position_key \<times> int \<times> f64) option" where
  "booked products bp =
     (let c = bp_contract bp
      in if c_symbol c \<in> set products \<and> c_kind c = OptionKind \<and> fgt (c_multiplier c) fzero
         then (case (c_right c, c_strike c) of
                 (Some r, Some k) \<Rightarrow>
                   Some (make_key (c_symbol c) k (c_expiry c) r, bp_quantity bp, fdiv (bp_avg_cost bp) (c_multiplier c))
               | _ \<Rightarrow> None)
         else None)"

definition pos_entry :: "position \<Rightarrow> position_key \<times> int \<times> f64" where
  "pos_entry p = (pos_key p, p_quantity p, p_avg_fill_price p)"

lemma seeded_option_booked: "map_option pos_entry (seeded_option now products bp) = booked products bp"
  by (auto simp: seeded_option_def seed_option_def booked_def pos_entry_def pos_key_def Let_def split: option.split)

lemma map_filter_entries:
  "map pos_entry (List.map_filter (seeded_option now products) bps) = List.map_filter (booked products) bps"
proof (induction bps)
  case (Cons bp bps)
  then show ?case
    using seeded_option_booked [of now products bp]
    by (cases "seeded_option now products bp"; cases "booked products bp") (auto simp: map_filter_simps)
qed (simp add: map_filter_simps)

text \<open>The index of a rebuilt book points at the last entry of each key.\<close>

lemma index_of_last:
  "map_option ((!) ps) (hm_get (index_of ps) k) =
     (if filter (\<lambda>p. pos_key p = k) ps = [] then None else Some (last (filter (\<lambda>p. pos_key p = k) ps)))"
proof (induction ps rule: rev_induct)
  case Nil
  then show ?case by (simp add: index_of_def hm_simps)
next
  case (snoc p ps)
  have "map_option ((!) (ps @ [p])) (hm_get (index_of ps) k) = map_option ((!) ps) (hm_get (index_of ps) k)"
    using index_of_get(1) [of ps k] by (cases "hm_get (index_of ps) k") (simp_all add: nth_append)
  then show ?case using snoc.IH by (auto simp: index_of_snoc hm_simps)
qed

lemma entries_of_key:
  "filter (\<lambda>e. fst e = k) (map pos_entry ps) = map pos_entry (filter (\<lambda>p. pos_key p = k) ps)"
  by (simp add: filter_map comp_def pos_entry_def)

text \<open>C37. Boot restores the books from the broker, entry by entry. After seeding the positions of the
  book are exactly the broker's option positions in registered products that have a right, a
  strike and a positive multiplier, in the broker's order, each with its key, its quantity and
  its average cost per unit; the daily accounting is kept. Positions of the same contract, as
  two accounts report them, are not merged: each stays an entry of its own, and a look-up by
  contract finds only the last of them. The hedge of every registered product is the quantity
  of the last of its non-zero futures positions, or unchanged when there is none, so a product
  with two futures months is hedged by the one the broker lists last.\<close>

theorem seeding_matches_broker:
  assumes "rt' = seed_positions_from_broker now rt" "products = registry_products (registry (rt_portfolio rt))"
    and "entries = List.map_filter (booked products) (broker_positions (rt_broker rt))"
  shows "map pos_entry (positions (rt_portfolio rt')) = entries \<and>
   map_option pos_entry (get_position (rt_portfolio rt') p k e r) =
     (if filter (\<lambda>x. fst x = make_key p k e r) entries = [] then None
      else Some (last (filter (\<lambda>x. fst x = make_key p k e r) entries))) \<and>
   fills_today (rt_portfolio rt') = fills_today (rt_portfolio rt) \<and>
   realized_pnl_persisted (rt_portfolio rt') = realized_pnl_persisted (rt_portfolio rt) \<and>
   (product \<in> set products \<longrightarrow>
    map_option mgr_hedge_qty (for_product (rt_hedge rt') product) =
      map_option (\<lambda>m. last (mgr_hedge_qty m #
          map bp_quantity (filter (\<lambda>bp. c_symbol (bp_contract bp) = product \<and>
              c_kind (bp_contract bp) = Future \<and> bp_quantity bp \<noteq> 0) (broker_positions (rt_broker rt)))))
        (for_product (rt_hedge rt) product))"
proof (intro conjI impI)
  let ?pos = "List.map_filter (seeded_option now products) (broker_positions (rt_broker rt))"
  have s: "rt_portfolio rt' = replace_positions ?pos (rt_portfolio rt)"
    by (simp add: assms(1,2) seeded_state)
  have e: "map pos_entry ?pos = entries" by (simp add: assms(3) map_filter_entries)
  show "map pos_entry (positions (rt_portfolio rt')) = entries"
    by (simp add: s e replace_positions_def rebuild_index_def)
  show "fills_today (rt_portfolio rt') = fills_today (rt_portfolio rt)"
    "realized_pnl_persisted (rt_portfolio rt') = realized_pnl_persisted (rt_portfolio rt)"
    by (simp_all add: s replace_positions_def rebuild_index_def)
  have g: "get_position (rt_portfolio rt') p k e r = map_option ((!) ?pos) (hm_get (index_of ?pos) (make_key p k e r))"
    by (simp add: s get_position_def replace_positions_def rebuild_index_def)
  show "map_option pos_entry (get_position (rt_portfolio rt') p k e r) =
     (if filter (\<lambda>x. fst x = make_key p k e r) entries = [] then None
      else Some (last (filter (\<lambda>x. fst x = make_key p k e r) entries)))"
    unfolding g index_of_last e [symmetric] entries_of_key by (simp add: last_map)
next
  assume p: "product \<in> set products"
  have "map (\<lambda>(p, n, a). n) (filter (\<lambda>(p, n, a). p = product) (List.map_filter (seeded_future products) bps)) =
      map bp_quantity (filter (\<lambda>bp. c_symbol (bp_contract bp) = product \<and>
              c_kind (bp_contract bp) = Future \<and> bp_quantity bp \<noteq> 0) bps)" for bps
  proof (induction bps)
    case (Cons bp bps)
    then show ?case using p by (auto simp: map_filter_simps seeded_future_def seed_future_def Let_def)
  qed (simp add: map_filter_simps)
  then show "map_option mgr_hedge_qty (for_product (rt_hedge rt') product) =
      map_option (\<lambda>m. last (mgr_hedge_qty m #
          map bp_quantity (filter (\<lambda>bp. c_symbol (bp_contract bp) = product \<and>
              c_kind (bp_contract bp) = Future \<and> bp_quantity bp \<noteq> 0) (broker_positions (rt_broker rt)))))
        (for_product (rt_hedge rt) product)"
    unfolding assms(1,2) by (simp add: seeded_state hedge_seeds_qty cong: map_option_cong)
qed

definition demo_config :: daemon_config where
  "demo_config =
     \<lparr>dc_broker = \<lparr>bk_kind = ''ibkr'',
        bk_ibkr = Some \<lparr>ib_gateway = \<lparr>gs_host = ''127.0.0.1'', gs_port = 4002\<rparr>, ib_client_id = 0, ib_account = ''DU1''\<rparr>\<rparr>,
      dc_risk = \<lparr>rk_daily_pnl_halt_pct = Some (lit (1 / 20)), rk_max_daily_loss = None, rk_margin_kill_pct = lit (7 / 10),
        rk_delta_kill = lit 5, rk_vega_kill = fzero, rk_theta_kill = lit (- 500)\<rparr>,
      dc_constraints = \<lparr>cs_capital = lit 200000, cs_margin_ceiling_pct = lit (1 / 2), cs_delta_ceiling = lit 3,
        cs_theta_floor = lit (- 200), cs_effective_delta_gating = True, cs_margin_escape_enabled = False\<rparr>,
      dc_products = [\<lparr>pc_name = ''HG'', pc_multiplier = lit 25000, pc_default_iv = lit (3 / 10),
        pc_quote_range_low = - 5, pc_quote_range_high = 5, pc_strike_increment = lit (1 / 20), pc_enabled = True\<rparr>],
      dc_quoting = \<lparr>qs_tick_size = lit (5 / 10000), qs_min_edge_ticks = 2, qs_max_strike_offset_usd = default_max_strike_offset,
        qs_gtd_lifetime_s = default_gtd, qs_gtd_refresh_lead_s = default_gtd_lead, qs_dead_band_ticks = default_dead_band,
        qs_min_send_interval_ms = default_min_send\<rparr>,
      dc_hedging = \<lparr>hs_enabled = True, hs_mode = ''execute'', hs_tolerance_deltas = lit (1 / 2), hs_rebalance_on_fill = True,
        hs_rebalance_cadence_sec = lit 30, hs_include_in_daily_pnl = True, hs_flatten_on_halt = True, hs_ioc_tick_offset = 2,
        hs_hedge_tick_size = lit (5 / 10000), hs_hedge_lockout_days = 30\<rparr>,
      dc_snapshot = snapshot_section_default, dc_runtime = runtime_section_default\<rparr>"

definition demo_month :: contract where
  "demo_month = demo_option\<lparr>c_instrument_id := 77, c_kind := Future, c_symbol := ''HG'', c_strike := None, c_right := None\<rparr>"

definition demo_rt :: runtime where
  "demo_rt =
     \<lparr>rt_mode = LiveMode, rt_config = demo_config,
      rt_broker = demo_broker\<lparr>nb_state := broker_state_default\<lparr>bs_positions :=
         [((''DU1'', 42), \<lparr>bp_contract = demo_option, bp_quantity = - 3, bp_avg_cost = lit 1000, bp_realized_pnl = fzero,
             bp_unrealized_pnl = fzero\<rparr>),
          ((''DU1'', 77), \<lparr>bp_contract = demo_month, bp_quantity = 2, bp_avg_cost = lit 150000, bp_realized_pnl = fzero,
             bp_unrealized_pnl = fzero\<rparr>)]\<rparr>\<rparr>,
      rt_portfolio = portfolio_new (build_registry demo_config), rt_risk = monitor_new (build_risk_config demo_config),
      rt_constraint = checker_new (build_constraint_config demo_config (hd (dc_products demo_config))),
      rt_hedge = build_hedge_fanout demo_config, rt_oms = book_new, rt_market_data = md_new, rt_account = account_zero,
      rt_sentinels = no_sentinels\<rparr>"

text \<open>The same option in two accounts, and one future: two entries, of which a look-up sees the
  second.\<close>

definition demo_two_accounts :: runtime where
  "demo_two_accounts = demo_rt\<lparr>rt_broker := demo_broker\<lparr>nb_state := broker_state_default\<lparr>bs_positions :=
     [((''DU1'', 42), \<lparr>bp_contract = demo_option, bp_quantity = - 3, bp_avg_cost = lit 1000, bp_realized_pnl = fzero,
         bp_unrealized_pnl = fzero\<rparr>),
      ((''DU2'', 42), \<lparr>bp_contract = demo_option, bp_quantity = 5, bp_avg_cost = lit 1000, bp_realized_pnl = fzero,
         bp_unrealized_pnl = fzero\<rparr>),
      ((''DU1'', 77), \<lparr>bp_contract = demo_month, bp_quantity = 2, bp_avg_cost = lit 150000, bp_realized_pnl = fzero,
         bp_unrealized_pnl = fzero\<rparr>)]\<rparr>\<rparr>\<rparr>"

theorem seeding_matches_broker_witness:
  "map p_quantity (positions (rt_portfolio (seed_positions_from_broker 0 demo_two_accounts))) = [- 3, 5] \<and>
   map_option p_quantity (get_position (rt_portfolio (seed_positions_from_broker 0 demo_two_accounts))
     ''HG'' (the (c_strike demo_option)) (c_expiry demo_option) (the (c_right demo_option))) = Some 5 \<and>
   map_option mgr_hedge_qty (for_product (rt_hedge (seed_positions_from_broker 0 demo_two_accounts)) ''HG'') = Some 2"
proof -
  let ?rt = demo_two_accounts and ?rt' = "seed_positions_from_broker 0 demo_two_accounts"
  let ?k = "make_key ''HG'' (Fin 6) 20599 Call" and ?a = "fdiv (lit 1000) (Fin 25000)"
  have products: "registry_products (registry (rt_portfolio ?rt)) = [''HG'']"
    by (simp add: demo_two_accounts_def demo_rt_def demo_config_def build_registry_def registry_products_def
        registry_register_def portfolio_new_def registry_new_def hm_new_def hm_insert_def)
  have "[(?k, - 3, ?a), (?k, 5, ?a)] = List.map_filter (booked [''HG'']) (broker_positions (rt_broker ?rt))"
    by (simp add: demo_two_accounts_def broker_positions_def hm_values_def map_filter_simps booked_def
        demo_option_def demo_month_def)
  note seeded = seeding_matches_broker [OF refl products [symmetric] this, of 0 "''HG''" "Fin 6" 20599 Call "''HG''"]
  have q: "map p_quantity ps = map (fst \<circ> snd) (map pos_entry ps)" for ps
    by (simp add: pos_entry_def)
  have "map p_quantity (positions (rt_portfolio ?rt')) = [- 3, 5]"
    unfolding q using seeded by simp
  moreover have "map_option p_quantity (get_position (rt_portfolio ?rt') ''HG'' (Fin 6) 20599 Call) = Some 5"
    using seeded by (auto simp: pos_entry_def)
  moreover have "map_option mgr_hedge_qty (for_product (rt_hedge ?rt') ''HG'') = Some 2"
  proof -
    have "filter (\<lambda>bp. c_symbol (bp_contract bp) = ''HG'' \<and> c_kind (bp_contract bp) = Future \<and> bp_quantity bp \<noteq> 0)
        (broker_positions (rt_broker ?rt)) = [broker_positions (rt_broker ?rt) ! 2]"
      by (simp add: demo_two_accounts_def broker_positions_def hm_values_def demo_option_def demo_month_def)
    moreover have "bp_quantity (broker_positions (rt_broker ?rt) ! 2) = 2"
      by (simp add: demo_two_accounts_def broker_positions_def hm_values_def)
    moreover have "for_product (rt_hedge ?rt) ''HG'' \<noteq> None"
      by (simp add: demo_two_accounts_def demo_rt_def demo_config_def build_hedge_fanout_def for_product_def
          hedge_manager_new_def Let_def)
    ultimately show ?thesis using seeded by auto
  qed
  ultimately show ?thesis by (simp add: demo_option_def)
qed

text \<open>Which accepted configurations start: validation admits exactly those whose construction can
  still fail in two ways, an \<open>ilink\<close> broker, which is not implemented, and no enabled product.\<close>

theorem accepted_config_starts:
  assumes "config_load from_slice content = Inr cfg"
  shows "(\<exists>rt. runtime_construct cfg mode dir = Inr rt) \<longleftrightarrow>
     bk_kind (dc_broker cfg) = ''ibkr'' \<and> (\<exists>p \<in> set (dc_products cfg). pc_enabled p)"
proof -
  have v: "validate cfg = Inr ()" using assms by (auto simp: config_load_ok)
  have "find pc_enabled (dc_products cfg) = None \<longleftrightarrow> \<not> (\<exists>p \<in> set (dc_products cfg). pc_enabled p)"
    by (auto simp: find_None_iff)
  with v show ?thesis
    by (auto simp: validate_ok runtime_construct_def build_broker_def Let_def split: option.splits)
qed

theorem accepted_config_starts_witness:
  "(\<exists>rt. runtime_construct demo_config LiveMode no_sentinels = Inr rt) \<and>
   config_load (\<lambda>_. Inr demo_config) (Inr ()) = Inr demo_config"
proof -
  have "validate demo_config = Inr ()"
    by (simp add: validate_ok demo_config_def fle_def lit_def) code_simp
  then have l: "config_load (\<lambda>_. Inr demo_config) (Inr ()) = Inr demo_config"
    by (simp add: config_load_def)
  show ?thesis
    using accepted_config_starts [OF l, of LiveMode no_sentinels] l by (simp add: demo_config_def)
qed

end
