(* ===== verification/Daemon_Tasks.thy ===== *)
theory Daemon_Tasks
  imports Daemon_Runtime Span
begin

text \<open>
  The tasks of the broker daemon (\<open>corsair_broker/src/tasks.rs\<close>): one definition per stream pump and
  per turn of a periodic task, over the state of \<open>Daemon_Runtime\<close>. A pump handles one event; a
  frame that its receiver has missed is gone, and does nothing here. A part of a handler between
  two awaits is a definition of its own where other tasks can run in between. The publication of
  the snapshot file is not modelled.
\<close>

section \<open>Kill: cancelling what rests\<close>

definition cancel_each :: "gateway_env \<Rightarrow> network \<Rightarrow> order_id list \<Rightarrow> native_broker \<Rightarrow> native_broker" where
  "cancel_each E N oids nb = fold (\<lambda>oid nb. snd (gateway_cancel_order E N oid nb)) oids nb"

definition cancel_all_resting :: "gateway_env \<Rightarrow> network \<Rightarrow> runtime \<Rightarrow> runtime" where
  "cancel_all_resting E N rt =
     (let opens = broker_open_orders (rt_broker rt);
          actionable = map oo_order_id (filter (\<lambda>op. 0 < oo_remaining_qty op) opens)
      in if actionable = [] then rt
         else rt\<lparr>rt_broker := cancel_each E N actionable (rt_broker rt)\<rparr>)"

section \<open>Hedge orders\<close>

definition hedge_limit_price :: "bool \<Rightarrow> f64 \<Rightarrow> int \<Rightarrow> f64 \<Rightarrow> f64" where
  "hedge_limit_price is_buy f ioc_offset hedge_tick =
     (let offset = fmul (of_i ioc_offset) hedge_tick
      in if is_buy then fadd f offset else fmax (fsub f offset) hedge_tick)"

definition hedge_order_req ::
  "runtime \<Rightarrow> contract \<Rightarrow> bool \<Rightarrow> int \<Rightarrow> string \<Rightarrow> f64 \<Rightarrow> place_order_req" where
  "hedge_order_req rt c is_buy qty reason lmt =
     \<lparr>po_contract = c, po_side = (if is_buy then Buy else Sell), po_qty = qty, po_order_type = Limit,
      po_price = Some lmt, po_tif = Ioc, po_gtd_until_utc = None,
      po_client_order_ref = ''corsair_hedge_'' @ reason,
      po_account = map_option ib_account (bk_ibkr (dc_broker (rt_config rt)))\<rparr>"

definition place_hedge_order ::
  "gateway_env \<Rightarrow> network \<Rightarrow> string \<Rightarrow> bool \<Rightarrow> int \<Rightarrow> string \<Rightarrow> runtime \<Rightarrow> runtime" where
  "place_hedge_order E N product is_buy qty reason rt =
     (case for_product (rt_hedge rt) product of
        None \<Rightarrow> rt
      | Some mgr \<Rightarrow>
          (case mg_contract mgr of
             None \<Rightarrow> rt
           | Some c \<Rightarrow>
               let f = (case md_underlying_price (rt_market_data rt) product of Some p \<Rightarrow> p | None \<Rightarrow> fzero)
               in if fle f fzero then rt
                  else
                    let lmt = hedge_limit_price is_buy f (hc_ioc_tick_offset (mg_cfg mgr)) (hc_hedge_tick_size (mg_cfg mgr))
                    in rt\<lparr>rt_broker :=
                         snd (gateway_place_order E N (hedge_order_req rt c is_buy qty reason lmt) (rt_broker rt))\<rparr>))"

definition execute_hedge_action ::
  "gateway_env \<Rightarrow> network \<Rightarrow> string \<Rightarrow> hedge_action \<Rightarrow> runtime \<Rightarrow> runtime" where
  "execute_hedge_action E N product action rt =
     (case action of
        Place is_buy qty reason _ _ \<Rightarrow>
          (if rt_mode rt = LiveMode then place_hedge_order E N product is_buy qty reason rt else rt)
      | _ \<Rightarrow> rt)"

section \<open>Fills\<close>

text \<open>The hedge is offered the fill first, one product after the other.\<close>

fun offer_to_hedge :: "fill \<Rightarrow> string list \<Rightarrow> hedge_fanout \<Rightarrow> hedge_fanout \<times> bool" where
  "offer_to_hedge f [] fo = (fo, False)"
| "offer_to_hedge f (pr # prs) fo =
     (case for_product fo pr of
        None \<Rightarrow> offer_to_hedge f prs fo
      | Some mgr \<Rightarrow>
          let fo1 = update_product pr (\<lambda>m. fst (apply_broker_fill f m)) fo
          in if snd (apply_broker_fill f mgr) then (fo1, True) else offer_to_hedge f prs fo1)"

text \<open>The registered option of an instrument, searched product by product.\<close>

fun find_option ::
  "market_data_state \<Rightarrow> instrument_id \<Rightarrow> string list \<Rightarrow> (string \<times> f64 \<times> naive_date \<times> right) option" where
  "find_option md iid [] = None"
| "find_option md iid (pr # prs) =
     (case find (\<lambda>t. ot_instrument_id t = Some iid) (options_for_product md pr) of
        Some t \<Rightarrow> Some (pr, ot_strike t, ot_expiry t, ot_right t)
      | None \<Rightarrow> find_option md iid prs)"

definition signed_fill_qty :: "fill \<Rightarrow> int" where
  "signed_fill_qty f =
     (case f_side f of Buy \<Rightarrow> wrap_i32 (f_qty f) | Sell \<Rightarrow> wrap_i32 (- wrap_i32 (f_qty f)))"

text \<open>Booking, up to the first await: the product of a booked fill and whether the halt fired.\<close>

definition book_option_fill :: "date_time \<Rightarrow> fill \<Rightarrow> runtime \<Rightarrow> runtime \<times> (string \<times> bool) option" where
  "book_option_fill now f rt =
     (case find_option (rt_market_data rt) (f_instrument_id f) (registry_products (registry (rt_portfolio rt))) of
        None \<Rightarrow> (rt, None)
      | Some (product, strike, expiry, r) \<Rightarrow>
          let (p, _) = add_fill now product strike expiry r (signed_fill_qty f) (f_price f) fzero fzero (rt_portfolio rt);
              (risk, halt) = check_daily_pnl_only now p (md_view (rt_market_data rt)) (rt_risk rt)
          in (rt\<lparr>rt_portfolio := p, rt_risk := risk\<rparr>,
              Some (product, case halt of Killed _ \<Rightarrow> True | _ \<Rightarrow> False)))"

definition rebalance_after_fill :: "string \<Rightarrow> runtime \<Rightarrow> runtime \<times> hedge_action option" where
  "rebalance_after_fill product rt =
     (case for_product (rt_hedge rt) product of
        None \<Rightarrow> (rt, None)
      | Some mgr \<Rightarrow>
          (rt\<lparr>rt_hedge := update_product product (\<lambda>m. fst (rebalance_on_fill (rt_portfolio rt) m)) (rt_hedge rt)\<rparr>,
           Some (snd (rebalance_on_fill (rt_portfolio rt) mgr))))"

definition handle_fill :: "gateway_env \<Rightarrow> network \<Rightarrow> date_time \<Rightarrow> fill \<Rightarrow> runtime \<Rightarrow> runtime" where
  "handle_fill E N now f rt =
     (let (fo, taken) = offer_to_hedge f (map (\<lambda>m. hc_product (mg_cfg m)) (rt_hedge rt)) (rt_hedge rt);
          rt0 = rt\<lparr>rt_hedge := fo\<rparr>
      in if taken then rt0
         else
           (case book_option_fill now f rt0 of
              (rt1, None) \<Rightarrow> rt1
            | (rt1, Some (product, killed)) \<Rightarrow>
                let rt2 = (if killed then cancel_all_resting E N rt1 else rt1);
                    (rt3, action) = rebalance_after_fill product rt2
                in (case action of
                      None \<Rightarrow> rt3
                    | Some a \<Rightarrow> execute_hedge_action E N product a rt3)))"

section \<open>Statuses, ticks and connection events\<close>

definition handle_status :: "order_status_update \<Rightarrow> runtime \<Rightarrow> runtime" where
  "handle_status u rt = rt\<lparr>rt_oms := fst (apply_status (su_order_id u) (su_status u) (rt_oms rt))\<rparr>"

definition tick_size_or_zero :: "tick \<Rightarrow> int" where
  "tick_size_or_zero t = (case t_size t of Some n \<Rightarrow> n | None \<Rightarrow> 0)"

definition handle_tick :: "tick \<Rightarrow> runtime \<Rightarrow> runtime" where
  "handle_tick t rt =
     (let md = rt_market_data rt
      in case (t_kind t, t_price t) of
           (BidTick, Some p) \<Rightarrow>
             rt\<lparr>rt_market_data := update_bid (t_instrument_id t) p (tick_size_or_zero t) (t_timestamp_ns t) md\<rparr>
         | (AskTick, Some p) \<Rightarrow>
             rt\<lparr>rt_market_data := update_ask (t_instrument_id t) p (tick_size_or_zero t) (t_timestamp_ns t) md\<rparr>
         | (LastTick, Some p) \<Rightarrow>
             rt\<lparr>rt_market_data := update_last (t_instrument_id t) p (t_timestamp_ns t) md\<rparr>
         | _ \<Rightarrow> rt)"

definition handle_error :: "broker_error \<Rightarrow> runtime \<Rightarrow> runtime" where
  "handle_error e rt = rt"

definition handle_connection :: "connection_event \<Rightarrow> runtime \<Rightarrow> runtime" where
  "handle_connection ev rt =
     (if ce_state ev = Connected then rt\<lparr>rt_risk := fst (clear_disconnect_kill (rt_risk rt))\<rparr> else rt)"

section \<open>Periodic tasks\<close>

definition periodic_greek_refresh :: "libm \<Rightarrow> date_time \<Rightarrow> runtime \<Rightarrow> runtime" where
  "periodic_greek_refresh M now rt =
     rt\<lparr>rt_portfolio := refresh_greeks M now (md_view (rt_market_data rt)) (rt_portfolio rt)\<rparr>"

definition product_hedge_qty :: "runtime \<Rightarrow> string \<Rightarrow> int" where
  "product_hedge_qty rt product =
     (if cs_effective_delta_gating (dc_constraints (rt_config rt))
      then hedge_qty_for_product (rt_hedge rt) product else 0)"

definition worst_step :: "runtime \<Rightarrow> f64 \<times> f64 \<times> f64 \<Rightarrow> string \<times> portfolio_greeks \<Rightarrow> f64 \<times> f64 \<times> f64" where
  "worst_step rt worst gp =
     (let (worst_delta, worst_theta, worst_vega) = worst;
          (product, g) = gp;
          d = fadd (pg_net_delta g) (of_i (product_hedge_qty rt product))
      in (if fgt (fabs d) (fabs worst_delta) then d else worst_delta,
          if flt (pg_net_theta g) worst_theta then pg_net_theta g else worst_theta,
          if fgt (fabs (pg_net_vega g)) (fabs worst_vega) then pg_net_vega g else worst_vega))"

definition worst_per_product :: "aggregate_result \<Rightarrow> runtime \<Rightarrow> f64 \<times> f64 \<times> f64" where
  "worst_per_product agg rt = foldl (worst_step rt) (fzero, fzero, fzero) (ag_per_product agg)"

definition risk_check :: "date_time \<Rightarrow> runtime \<Rightarrow> runtime \<times> risk_check_outcome" where
  "risk_check now rt =
     (let p = rt_portfolio rt;
          (worst_delta, worst_theta, worst_vega) = worst_per_product (aggregate p) rt;
          (risk, dir, outcome) = check now p (as_maintenance_margin (rt_account rt)) worst_delta worst_theta
             worst_vega (md_view (rt_market_data rt)) (rt_sentinels rt) (rt_risk rt)
      in (rt\<lparr>rt_risk := risk, rt_sentinels := dir\<rparr>, outcome))"

definition periodic_risk_check :: "gateway_env \<Rightarrow> network \<Rightarrow> date_time \<Rightarrow> runtime \<Rightarrow> runtime" where
  "periodic_risk_check E N now rt =
     (case risk_check now rt of
        (rt1, Killed _) \<Rightarrow> cancel_all_resting E N rt1
      | (rt1, _) \<Rightarrow> rt1)"

definition reconcile_hedge :: "broker_position \<Rightarrow> hedge_fanout \<Rightarrow> hedge_fanout" where
  "reconcile_hedge bp fo =
     (let c = bp_contract bp
      in if c_kind c \<noteq> Future then fo
         else apply_hedge_seed (c_symbol c, bp_quantity bp, fdiv (bp_avg_cost bp) (hedge_multiplier c)) fo)"

definition rebalance_product ::
  "portfolio_state \<Rightarrow> int \<Rightarrow> string \<times> f64 \<Rightarrow> hedge_fanout \<times> (string \<times> hedge_action) list \<Rightarrow>
   hedge_fanout \<times> (string \<times> hedge_action) list" where
  "rebalance_product p now_ns target acc =
     (let (product, forward) = target; (fo, actions) = acc
      in case for_product fo product of
           None \<Rightarrow> acc
         | Some mgr \<Rightarrow>
             (update_product product (\<lambda>m. fst (rebalance_periodic p forward now_ns m)) fo,
              actions @ [(product, snd (rebalance_periodic p forward now_ns mgr))]))"

text \<open>The decision of a turn of \<open>periodic_hedge\<close>, whose fourth turns reconcile first; the orders are
  placed one after the other.\<close>

definition hedge_decisions :: "int \<Rightarrow> int \<Rightarrow> runtime \<Rightarrow> runtime \<times> (string \<times> hedge_action) list" where
  "hedge_decisions tick_count now_ns rt =
     (let fo = (if tick_count mod 4 = 0
                then fold reconcile_hedge (broker_positions (rt_broker rt)) (rt_hedge rt) else rt_hedge rt);
          forward_of = (\<lambda>prod. case md_underlying_price (rt_market_data rt) prod of Some f \<Rightarrow> f | None \<Rightarrow> fzero);
          targets = map (\<lambda>prod. (prod, forward_of prod)) (registry_products (registry (rt_portfolio rt)));
          (fo1, actions) = fold (rebalance_product (rt_portfolio rt) now_ns) targets (fo, [])
      in (rt\<lparr>rt_hedge := fo1\<rparr>, actions))"

definition periodic_hedge :: "gateway_env \<Rightarrow> network \<Rightarrow> int \<Rightarrow> int \<Rightarrow> runtime \<Rightarrow> runtime" where
  "periodic_hedge E N tick_count now_ns rt =
     (let (rt1, actions) = hedge_decisions tick_count now_ns rt
      in fold (\<lambda>(product, action). execute_hedge_action E N product action) actions rt1)"

text \<open>One sample of the rollover task: the hour and the date of the US/Central clock, and the last
  day it fired.\<close>

definition daily_halt_rollover ::
  "int \<Rightarrow> naive_date \<Rightarrow> naive_date option \<times> runtime \<Rightarrow> naive_date option \<times> runtime" where
  "daily_halt_rollover hour today st =
     (let (last_fired_day, rt) = st
      in if 17 \<le> hour \<and> last_fired_day \<noteq> Some today
         then (Some today, rt\<lparr>rt_risk := fst (clear_daily_halt (rt_risk rt))\<rparr>)
         else st)"

section \<open>Account poll\<close>

definition margin_tte :: "date_time \<Rightarrow> naive_date \<Rightarrow> f64" where
  "margin_tte now expiry =
     fdiv (of_i (trunc (of_int ((expiry * 86400 + 16 * 3600) * 10 ^ 9 - now) / 10 ^ 9)))
       (fmul (lit 365) (lit 86400))"

definition span_entry :: "date_time \<Rightarrow> product_registry \<Rightarrow> position \<Rightarrow> span_position option" where
  "span_entry now reg pos =
     (let t = margin_tte now (p_expiry pos)
      in if fle t fzero then None
         else Some \<lparr>sp_strike = p_strike pos, sp_right = right_as_char (p_right pos), sp_tte = t,
                    sp_iv = (case registry_get reg (p_product pos) of
                               Some info \<Rightarrow> pi_default_iv info | None \<Rightarrow> lit (3 / 10)),
                    sp_qty = p_quantity pos\<rparr>)"

definition group_position ::
  "date_time \<Rightarrow> product_registry \<Rightarrow> position \<Rightarrow> (string, span_position list) hmap \<Rightarrow> (string, span_position list) hmap" where
  "group_position now reg pos groups =
     (case span_entry now reg pos of
        None \<Rightarrow> groups
      | Some e \<Rightarrow>
          hm_insert (p_product pos)
            ((case hm_get groups (p_product pos) of Some es \<Rightarrow> es | None \<Rightarrow> []) @ [e]) groups)"

definition margin_span_config :: "product_info \<Rightarrow> span_config" where
  "margin_span_config info =
     \<lparr>sc_up_scan_pct = lit (1 / 20), sc_down_scan_pct = lit (1 / 20), sc_vol_scan_pct = lit (1 / 4),
      sc_extreme_mult = lit 2, sc_extreme_cover = lit (35 / 100), sc_short_option_minimum = lit 50,
      sc_multiplier = pi_multiplier info\<rparr>"

definition compute_raw_synthetic_margin :: "libm \<Rightarrow> date_time \<Rightarrow> runtime \<Rightarrow> f64" where
  "compute_raw_synthetic_margin M now rt =
     (let p = rt_portfolio rt; reg = registry p
      in if position_count p = 0 then fzero
         else
           foldl (\<lambda>acc (product, entries).
               case md_underlying_price (rt_market_data rt) product of
                 None \<Rightarrow> acc
               | Some f \<Rightarrow>
                   (case registry_get reg product of
                      None \<Rightarrow> acc
                    | Some info \<Rightarrow>
                        fadd acc (pm_total_margin (portfolio_margin M f entries (margin_span_config info)))))
             fzero (fold (group_position now reg) (positions p) hm_new))"

definition periodic_account_poll :: "libm \<Rightarrow> date_time \<Rightarrow> runtime \<Rightarrow> runtime" where
  "periodic_account_poll M now rt =
     (let snap = broker_account_values now (rt_broker rt);
          ibkr_actual = as_maintenance_margin snap;
          rt1 = rt\<lparr>rt_account := snap\<rparr>
      in if fgt ibkr_actual fzero then
           let raw = compute_raw_synthetic_margin M now rt1
           in if fgt raw fzero
              then rt1\<lparr>rt_constraint := fst (update_cached_margin ibkr_actual raw now (rt_constraint rt1))\<rparr>
              else rt1
         else rt1)"

section \<open>What a task leaves alone\<close>

text \<open>An update of the adapter only.\<close>

lemma execute_hedge_frame:
  "rt_portfolio (execute_hedge_action E N product a rt) = rt_portfolio rt"
  "rt_risk (execute_hedge_action E N product a rt) = rt_risk rt"
  "rt_market_data (execute_hedge_action E N product a rt) = rt_market_data rt"
  "rt_hedge (execute_hedge_action E N product a rt) = rt_hedge rt"
  by (cases a; simp add: execute_hedge_action_def place_hedge_order_def Let_def split: option.split)+

lemma cancel_all_frame:
  "rt_portfolio (cancel_all_resting E N rt) = rt_portfolio rt" "rt_risk (cancel_all_resting E N rt) = rt_risk rt"
  "rt_market_data (cancel_all_resting E N rt) = rt_market_data rt" "rt_hedge (cancel_all_resting E N rt) = rt_hedge rt"
  by (simp_all add: cancel_all_resting_def Let_def)

lemma kill_cancels_none:
  assumes "gateway_ok (rt_broker rt)"
  shows "cancel_all_resting E N rt = rt"
proof -
  have "oo_remaining_qty op = 0" if "op \<in> set (broker_open_orders (rt_broker rt))" for op
    using assms that by (auto simp: gateway_ok_def broker_open_orders_def cache_ok_def hm.elems_get cached_order_ok_def)
  then have "filter (\<lambda>op. 0 < oo_remaining_qty op) (broker_open_orders (rt_broker rt)) = []"
    by (simp add: filter_empty_conv)
  then show ?thesis by (simp add: cancel_all_resting_def)
qed

section \<open>The limits of the risk check\<close>

lemma worst_fold:
  assumes "foldl (worst_step rt) (wd, wt, wv) gs = (wd', wt', wv')" "wd \<noteq> NaN" "wt \<noteq> NaN" "wv \<noteq> NaN"
  shows "fle (fabs wd) (fabs wd') \<and> fle wt' wt \<and> fle (fabs wv) (fabs wv') \<and>
     (\<forall>(product, g) \<in> set gs.
        (let d = fadd (pg_net_delta g) (of_i (product_hedge_qty rt product)) in d \<noteq> NaN \<longrightarrow> fle (fabs d) (fabs wd')) \<and>
        (pg_net_theta g \<noteq> NaN \<longrightarrow> fle wt' (pg_net_theta g)) \<and>
        (pg_net_vega g \<noteq> NaN \<longrightarrow> fle (fabs (pg_net_vega g)) (fabs wv')))"
  using assms
proof (induction gs arbitrary: wd wt wv)
  case (Cons pg gs)
  obtain product g where pg: "pg = (product, g)" by (cases pg)
  obtain wd1 wt1 wv1 where w1: "worst_step rt (wd, wt, wv) pg = (wd1, wt1, wv1)" by (metis prod.exhaust)
  let ?d = "fadd (pg_net_delta g) (of_i (product_hedge_qty rt product))"
  have grow: "fle (fabs u) (fabs (if fgt (fabs x) (fabs u) then x else u))"
    "x \<noteq> NaN \<Longrightarrow> fle (fabs x) (fabs (if fgt (fabs x) (fabs u) then x else u))" if "u \<noteq> NaN" for u x
    using that not_flt_iff [of "fabs u" "fabs x"] flt_imp_fle by auto
  have shrink: "fle (if flt x u then x else u) u" "x \<noteq> NaN \<Longrightarrow> fle (if flt x u then x else u) x" if "u \<noteq> NaN" for u x
    using that not_flt_iff [of x u] flt_not_nan [of x u] flt_imp_fle by auto
  have e: "wd1 = (if fgt (fabs ?d) (fabs wd) then ?d else wd)" "wt1 = (if flt (pg_net_theta g) wt then pg_net_theta g else wt)"
    "wv1 = (if fgt (fabs (pg_net_vega g)) (fabs wv) then pg_net_vega g else wv)"
    using w1 pg by (simp_all add: worst_step_def Let_def)
  have one: "fle (fabs wd) (fabs wd1)" "?d \<noteq> NaN \<Longrightarrow> fle (fabs ?d) (fabs wd1)"
    "fle wt1 wt" "pg_net_theta g \<noteq> NaN \<Longrightarrow> fle wt1 (pg_net_theta g)"
    "fle (fabs wv) (fabs wv1)" "pg_net_vega g \<noteq> NaN \<Longrightarrow> fle (fabs (pg_net_vega g)) (fabs wv1)"
    unfolding e using Cons.prems(2-4) grow shrink by auto
  have nn: "wd1 \<noteq> NaN" "wt1 \<noteq> NaN" "wv1 \<noteq> NaN" using one(1,3,5) fle_not_nan fabs_not_nan by metis+
  have fold1: "foldl (worst_step rt) (wd1, wt1, wv1) gs = (wd', wt', wv')" using Cons.prems(1) w1 by simp
  have ih: "fle (fabs wd1) (fabs wd')" "fle wt' wt1" "fle (fabs wv1) (fabs wv')"
    "\<forall>(product, g) \<in> set gs.
        (let d = fadd (pg_net_delta g) (of_i (product_hedge_qty rt product)) in d \<noteq> NaN \<longrightarrow> fle (fabs d) (fabs wd')) \<and>
        (pg_net_theta g \<noteq> NaN \<longrightarrow> fle wt' (pg_net_theta g)) \<and>
        (pg_net_vega g \<noteq> NaN \<longrightarrow> fle (fabs (pg_net_vega g)) (fabs wv'))"
    using Cons.IH [OF fold1 nn] by blast+
  have "fle (fabs wd) (fabs wd')" "fle wt' wt" "fle (fabs wv) (fabs wv')"
    "?d \<noteq> NaN \<Longrightarrow> fle (fabs ?d) (fabs wd')" "pg_net_theta g \<noteq> NaN \<Longrightarrow> fle wt' (pg_net_theta g)"
    "pg_net_vega g \<noteq> NaN \<Longrightarrow> fle (fabs (pg_net_vega g)) (fabs wv')"
    using one ih(1-3) fle_trans by blast+
  then show ?case using ih(4) pg by (simp add: Let_def)
qed simp

lemma check_healthyD:
  assumes "check now p margin wd wt wv mk d m = (m', d', Healthy)"
  shows "\<not> fgt (fabs wd) (rc_delta_kill (rm_cfg m)) \<and>
     \<not> (fgt (rc_vega_kill (rm_cfg m)) fzero \<and> fgt (fabs wv) (rc_vega_kill (rm_cfg m))) \<and>
     \<not> (flt (rc_theta_kill (rm_cfg m)) fzero \<and> flt wt (rc_theta_kill (rm_cfg m))) \<and>
     \<not> fgt margin (fmul (rc_capital (rm_cfg m)) (rc_margin_kill_pct (rm_cfg m)))"
  using assms by (auto simp: check_def fire_def Let_def split: option.splits prod.splits if_splits)

lemma above_limit: "fgt x limit \<Longrightarrow> (x \<noteq> NaN \<Longrightarrow> fle x w) \<Longrightarrow> fgt w limit"
  using flt_fle_trans flt_not_nan by blast

section \<open>Properties\<close>

text \<open>C38. A healthy risk check speaks for every product: when the periodic check finds the book healthy,
  no product that has a position exceeds the delta limit with its hedge, or the vega or theta
  limit where one is set, and the maintenance margin is within its limit; the worst-of loop
  over the products hides no breach.\<close>

theorem healthy_covers_every_product:
  assumes "risk_check now rt = (rt', Healthy)" "pos \<in> set (positions (rt_portfolio rt))"
  shows "\<not> fgt (fabs (fadd (delta_for_product (rt_portfolio rt) (p_product pos))
            (of_i (product_hedge_qty rt (p_product pos))))) (rc_delta_kill (rm_cfg (rt_risk rt))) \<and>
     \<not> (fgt (rc_vega_kill (rm_cfg (rt_risk rt))) fzero \<and>
        fgt (fabs (vega_for_product (rt_portfolio rt) (p_product pos))) (rc_vega_kill (rm_cfg (rt_risk rt)))) \<and>
     \<not> (flt (rc_theta_kill (rm_cfg (rt_risk rt))) fzero \<and>
        flt (theta_for_product (rt_portfolio rt) (p_product pos)) (rc_theta_kill (rm_cfg (rt_risk rt)))) \<and>
     \<not> fgt (as_maintenance_margin (rt_account rt))
        (fmul (rc_capital (rm_cfg (rt_risk rt))) (rc_margin_kill_pct (rm_cfg (rt_risk rt))))"
proof -
  let ?p = "rt_portfolio rt" and ?q = "p_product pos" and ?init = "\<lparr>ag_total = portfolio_greeks_default, ag_per_product = hm_new\<rparr>"
  obtain wd wt wv where w: "worst_per_product (aggregate ?p) rt = (wd, wt, wv)" by (metis prod.exhaust)
  obtain m' d' where c: "check now ?p (as_maintenance_margin (rt_account rt)) wd wt wv (md_view (rt_market_data rt))
      (rt_sentinels rt) (rt_risk rt) = (m', d', Healthy)"
    using assms(1) w by (auto simp: risk_check_def Let_def split: prod.splits)
  have "hm_get (ag_per_product (aggregate ?p)) ?q \<noteq> None"
    using assms(2) aggregate_product_dom [of ?init "positions ?p" ?q] by (auto simp: aggregate_def)
  then obtain g where g: "hm_get (ag_per_product (aggregate ?p)) ?q = Some g" by blast
  note match = aggregate_entry_matches [OF g]
  have acc: "fadd (pg_net_delta g) (of_i n) = fadd (delta_for_product ?p ?q) (of_i n)"
    "flt (pg_net_theta g) l = flt (theta_for_product ?p ?q) l" "fabs (pg_net_vega g) = fabs (vega_for_product ?p ?q)" for n l
    by (rule total_matches_add [OF match(1)] total_matches_flt [OF match(2)] total_matches_abs [OF match(3)])+
  have "(?q, g) \<in> set (ag_per_product (aggregate ?p))" using g by (simp add: hm_get_def map_of_SomeD)
  then have "fadd (pg_net_delta g) (of_i (product_hedge_qty rt ?q)) \<noteq> NaN \<Longrightarrow>
        fle (fabs (fadd (pg_net_delta g) (of_i (product_hedge_qty rt ?q)))) (fabs wd)"
    "pg_net_theta g \<noteq> NaN \<Longrightarrow> fle wt (pg_net_theta g)" "pg_net_vega g \<noteq> NaN \<Longrightarrow> fle (fabs (pg_net_vega g)) (fabs wv)"
    using worst_fold [of rt fzero fzero fzero, OF w [unfolded worst_per_product_def]] by (auto simp: Let_def)
  then have "fgt (fabs (fadd (delta_for_product ?p ?q) (of_i (product_hedge_qty rt ?q)))) l \<Longrightarrow> fgt (fabs wd) l"
    "flt (theta_for_product ?p ?q) l \<Longrightarrow> flt wt l" "fgt (fabs (vega_for_product ?p ?q)) l \<Longrightarrow> fgt (fabs wv) l" for l
    unfolding acc [symmetric] using above_limit flt_not_nan fle_flt_trans fabs_not_nan by blast+
  then show ?thesis using check_healthyD [OF c] by blast
qed

definition demo_pos :: position where
  "demo_pos = \<lparr>p_product = ''HG'', p_strike = Fin 6, p_expiry = 20600, p_right = Call, p_quantity = - 3,
     p_avg_fill_price = lit (1 / 25), p_fill_time = 0, p_multiplier = Fin 25000, p_delta = fzero, p_gamma = fzero,
     p_theta = fzero, p_vega = fzero, p_current_price = fzero\<rparr>"

definition demo_booked :: runtime where
  "demo_booked = demo_rt\<lparr>rt_portfolio := replace_positions [demo_pos] (rt_portfolio demo_rt)\<rparr>"

lemma demo_book:
  "positions (rt_portfolio demo_booked) = [demo_pos]" "realized_pnl_persisted (rt_portfolio demo_booked) = fzero"
  "rt_market_data demo_booked = md_new" "rt_account demo_booked = account_zero"
  "rt_sentinels demo_booked = no_sentinels" "rt_risk demo_booked = monitor_new (build_risk_config demo_config)"
  "rt_config demo_booked = demo_config" "rt_hedge demo_booked = build_hedge_fanout demo_config"
  by (simp_all add: demo_booked_def demo_rt_def replace_positions_def rebuild_index_def portfolio_new_def)

lemma demo_flat: "fmul fzero (of_i (- 3)) = NZero" "fmul fzero (Fin (- 3)) = NZero"
  by (simp_all add: fmul_def signed_zero_def)

lemma demo_hedge_flat: "product_hedge_qty demo_booked ''HG'' = 0"
  by (simp add: product_hedge_qty_def demo_book demo_config_def build_hedge_fanout_def hedge_qty_for_product_def
      for_product_def hedge_manager_new_def mgr_hedge_qty_def hedge_state_new_def Let_def)

lemma demo_worst: "worst_per_product (aggregate (rt_portfolio demo_booked)) demo_booked = (fzero, fzero, fzero)"
proof -
  have "ag_per_product (aggregate (rt_portfolio demo_booked)) =
      [(''HG'', greeks_add (- 3) fzero fzero fzero fzero portfolio_greeks_default)]"
    by (simp add: aggregate_def demo_book aggregate_step_def Let_def hm_get_def hm_new_def hm_insert_def demo_pos_def)
  then show ?thesis
    by (simp add: worst_per_product_def worst_step_def Let_def demo_hedge_flat greeks_add_def demo_flat
        portfolio_greeks_default_def)
qed

lemma demo_booked_healthy: "snd (risk_check 0 demo_booked) = Healthy"
proof -
  have "daily_pnl_of (rt_portfolio demo_booked) (md_view md_new) = fzero"
    by (simp add: daily_pnl_of_def demo_book compute_mtm_pnl_def mtm_step_def demo_pos_def
        md_view_def md_current_price_def md_option_def md_new_def hm_simps)
  moreover have "first_breach (build_risk_config demo_config) fzero fzero fzero fzero fzero 0 = None"
    by code_simp
  ultimately show ?thesis
    by (simp add: risk_check_def demo_worst demo_book check_no_sentinel monitor_new_def account_zero_def split_beta)
qed

theorem healthy_covers_every_product_witness:
  "\<not> fgt (fabs (fadd (delta_for_product (rt_portfolio demo_booked) ''HG'')
        (of_i (product_hedge_qty demo_booked ''HG'')))) (Fin 5)"
proof -
  have c: "risk_check 0 demo_booked = (fst (risk_check 0 demo_booked), Healthy)"
    using demo_booked_healthy by (metis prod.collapse)
  have p: "demo_pos \<in> set (positions (rt_portfolio demo_booked))" "p_product demo_pos = ''HG''"
    by (simp_all add: demo_booked_def replace_positions_def rebuild_index_def demo_pos_def)
  have "rc_delta_kill (rm_cfg (rt_risk demo_booked)) = Fin 5"
    using lit_int [of 5] by (simp add: demo_booked_def demo_rt_def monitor_new_def build_risk_config_def demo_config_def)
  then show ?thesis using healthy_covers_every_product [OF c p(1)] p(2) by simp
qed

section \<open>Routing of fills\<close>

abbreviation product_of :: "hedge_manager \<Rightarrow> string" where
  "product_of m \<equiv> hc_product (mg_cfg m)"

abbreviation accepts :: "fill \<Rightarrow> hedge_manager \<Rightarrow> bool" where
  "accepts f m \<equiv> snd (apply_broker_fill f m)"

lemma apply_refused: "\<not> accepts f m \<Longrightarrow> fst (apply_broker_fill f m) = m"
  by (auto simp: apply_broker_fill_def Let_def split: option.splits if_splits)

lemma for_product_at:
  assumes "distinct (map product_of (pre @ m # post))"
  shows "for_product (pre @ m # post) (product_of m) = Some m"
    and "update_product (product_of m) g (pre @ m # post) = pre @ g m # post"
  using assms by (induction pre) (auto simp: for_product_def)

lemma offer_split:
  assumes "distinct (map product_of (pre @ suf))" "\<forall>m \<in> set pre. \<not> accepts f m"
  shows "if \<exists>m \<in> set suf. accepts f m
     then \<exists>us m vs. pre @ suf = us @ m # vs \<and> (\<forall>x \<in> set us. \<not> accepts f x) \<and> accepts f m \<and>
            offer_to_hedge f (map product_of suf) (pre @ suf) = (us @ fst (apply_broker_fill f m) # vs, True)
     else offer_to_hedge f (map product_of suf) (pre @ suf) = (pre @ suf, False)"
  using assms
proof (induction suf arbitrary: pre)
  case (Cons m suf)
  note at = for_product_at [OF Cons.prems(1)]
  show ?case
  proof (cases "accepts f m")
    case True
    then show ?thesis using at Cons.prems(2) by auto
  next
    case False
    then have step: "offer_to_hedge f (map product_of (m # suf)) (pre @ m # suf) =
        offer_to_hedge f (map product_of suf) (pre @ m # suf)"
      using at by (simp add: Let_def apply_refused)
    have "distinct (map product_of ((pre @ [m]) @ suf))" "\<forall>x \<in> set (pre @ [m]). \<not> accepts f x"
      using Cons.prems False by auto
    from Cons.IH [OF this] have ih: "if \<exists>m \<in> set suf. accepts f m
      then \<exists>us m' vs. pre @ m # suf = us @ m' # vs \<and> (\<forall>x \<in> set us. \<not> accepts f x) \<and> accepts f m' \<and>
             offer_to_hedge f (map product_of suf) (pre @ m # suf) = (us @ fst (apply_broker_fill f m') # vs, True)
      else offer_to_hedge f (map product_of suf) (pre @ m # suf) = (pre @ m # suf, False)"
      by (simp only: append_assoc append_Cons append_Nil)
    have "(\<exists>x \<in> set (m # suf). accepts f x) \<longleftrightarrow> (\<exists>x \<in> set suf. accepts f x)" using False by simp
    then show ?thesis unfolding step using ih by presburger
  qed
qed simp

text \<open>Every part of a fill's handling after the booking keeps the book, the market data and the
  product registry, and whether a manager accepts a fill.\<close>

lemma rebalance_keeps:
  "mg_cfg (fst (rebalance_on_fill p m)) = mg_cfg m" "mg_contract (fst (rebalance_on_fill p m)) = mg_contract m"
  "mg_processed (fst (rebalance_on_fill p m)) = mg_processed m"
  by (auto simp: rebalance_on_fill_def maybe_rebalance_def rebalance_def Let_def split: hedge_mode.split)

lemma accepts_cong:
  "mg_cfg m' = mg_cfg m \<Longrightarrow> mg_contract m' = mg_contract m \<Longrightarrow> mg_processed m' = mg_processed m \<Longrightarrow>
   accepts f m' \<longleftrightarrow> accepts f m"
  by (simp add: apply_broker_fill_def Let_def split: option.split)

lemma update_accepts:
  assumes "\<And>m. mg_cfg (g m) = mg_cfg m \<and> mg_contract (g m) = mg_contract m \<and> mg_processed (g m) = mg_processed m"
  shows "(\<exists>m \<in> set (update_product product g fo). accepts f m) \<longleftrightarrow> (\<exists>m \<in> set fo. accepts f m)"
    and "map product_of (update_product product g fo) = map product_of fo"
proof -
  have "accepts f (g m) \<longleftrightarrow> accepts f m" for m using assms [of m] by (intro accepts_cong) auto
  then show "(\<exists>m \<in> set (update_product product g fo). accepts f m) \<longleftrightarrow> (\<exists>m \<in> set fo. accepts f m)"
    by (induction fo) auto
  show "map product_of (update_product product g fo) = map product_of fo"
    using assms by (induction fo) auto
qed

lemma rebalance_after_fill_keeps:
  assumes "rebalance_after_fill product rt = (rt', action)"
  shows "rt_portfolio rt' = rt_portfolio rt" "rt_market_data rt' = rt_market_data rt"
    "map product_of (rt_hedge rt') = map product_of (rt_hedge rt)"
    "(\<exists>m \<in> set (rt_hedge rt'). accepts f m) \<longleftrightarrow> (\<exists>m \<in> set (rt_hedge rt). accepts f m)"
proof -
  have cases: "rt' = rt \<or> rt' = rt\<lparr>rt_hedge := update_product product (\<lambda>m. fst (rebalance_on_fill (rt_portfolio rt) m)) (rt_hedge rt)\<rparr>"
    using assms by (auto simp: rebalance_after_fill_def split: option.splits)
  note up = update_accepts [where g = "\<lambda>m. fst (rebalance_on_fill (rt_portfolio rt) m)",
      OF conjI [OF rebalance_keeps(1) conjI [OF rebalance_keeps(2,3)]]]
  from cases show "rt_portfolio rt' = rt_portfolio rt" by (elim disjE) simp_all
  from cases show "rt_market_data rt' = rt_market_data rt" by (elim disjE) simp_all
  from cases show "map product_of (rt_hedge rt') = map product_of (rt_hedge rt)" by (elim disjE) (simp_all add: up)
  from cases show "(\<exists>m \<in> set (rt_hedge rt'). accepts f m) \<longleftrightarrow> (\<exists>m \<in> set (rt_hedge rt). accepts f m)"
    by (elim disjE) (simp_all add: up)
qed

lemma signed_fill_qty_range: "in_i32 (signed_fill_qty f)"
  by (simp add: signed_fill_qty_def split: side.split)

lemma option_fill_effect:
  assumes "distinct (map product_of (rt_hedge rt))" "\<not> (\<exists>m \<in> set (rt_hedge rt). accepts f m)"
  shows "case find_option (rt_market_data rt) (f_instrument_id f) (registry_products (registry (rt_portfolio rt))) of
      None \<Rightarrow> handle_fill E N now f rt = rt
    | Some (product, strike, expiry, r) \<Rightarrow>
        rt_portfolio (handle_fill E N now f rt) =
          fst (add_fill now product strike expiry r (signed_fill_qty f) (f_price f) fzero fzero (rt_portfolio rt)) \<and>
        rt_market_data (handle_fill E N now f rt) = rt_market_data rt \<and>
        map product_of (rt_hedge (handle_fill E N now f rt)) = map product_of (rt_hedge rt) \<and>
        (\<forall>f'. (\<exists>m \<in> set (rt_hedge (handle_fill E N now f rt)). accepts f' m) \<longleftrightarrow>
              (\<exists>m \<in> set (rt_hedge rt). accepts f' m))"
proof -
  let ?found = "find_option (rt_market_data rt) (f_instrument_id f) (registry_products (registry (rt_portfolio rt)))"
  have offer: "offer_to_hedge f (map product_of (rt_hedge rt)) (rt_hedge rt) = (rt_hedge rt, False)"
    using offer_split [of "[]" "rt_hedge rt" f] assms by simp
  show ?thesis
  proof (cases ?found)
    case None
    with offer show ?thesis by (simp add: handle_fill_def book_option_fill_def)
  next
    case (Some x)
    obtain product strike expiry r where x: "x = (product, strike, expiry, r)" by (cases x)
    let ?p = "fst (add_fill now product strike expiry r (signed_fill_qty f) (f_price f) fzero fzero (rt_portfolio rt))"
    obtain risk halt where c: "check_daily_pnl_only now ?p (md_view (rt_market_data rt)) (rt_risk rt) = (risk, halt)"
      by fastforce
    obtain halted where b: "book_option_fill now f rt = (rt\<lparr>rt_portfolio := ?p, rt_risk := risk\<rparr>, Some (product, halted))"
      using Some x c by (simp add: book_option_fill_def split_beta)
    define rt2 where "rt2 = (if halted then cancel_all_resting E N (rt\<lparr>rt_portfolio := ?p, rt_risk := risk\<rparr>)
      else rt\<lparr>rt_portfolio := ?p, rt_risk := risk\<rparr>)"
    have two: "rt_portfolio rt2 = ?p" "rt_market_data rt2 = rt_market_data rt" "rt_hedge rt2 = rt_hedge rt"
      by (simp_all add: rt2_def cancel_all_frame)
    obtain rt3 action where r3: "rebalance_after_fill product rt2 = (rt3, action)" by fastforce
    note three = rebalance_after_fill_keeps [OF r3, unfolded two]
    have "handle_fill E N now f rt = (case action of None \<Rightarrow> rt3 | Some a \<Rightarrow> execute_hedge_action E N product a rt3)"
      using offer b r3 by (simp add: handle_fill_def rt2_def)
    then show ?thesis using three Some x by (cases action) (simp_all add: execute_hedge_frame)
  qed
qed

text \<open>C39. A fill is routed once. With one manager per product, a fill that a hedge manager accepts
  changes only the first such manager, as \<open>apply_broker_fill\<close> says; any other fill adds its
  signed quantity to exactly one key of the book, that of the option registered under its
  instrument; and a fill that neither knows changes nothing at all.\<close>

theorem fills_routed_once:
  assumes "distinct (map product_of (rt_hedge rt))" "port_inv (rt_portfolio rt)"
  shows "((\<exists>m \<in> set (rt_hedge rt). accepts f m) \<longrightarrow>
      (\<exists>us m vs. rt_hedge rt = us @ m # vs \<and> (\<forall>x \<in> set us. \<not> accepts f x) \<and> accepts f m \<and>
         handle_fill E N now f rt = rt\<lparr>rt_hedge := us @ fst (apply_broker_fill f m) # vs\<rparr>)) \<and>
     (\<not> (\<exists>m \<in> set (rt_hedge rt). accepts f m) \<longrightarrow>
      (case find_option (rt_market_data rt) (f_instrument_id f) (registry_products (registry (rt_portfolio rt))) of
         None \<Rightarrow> handle_fill E N now f rt = rt
       | Some (product, strike, expiry, r) \<Rightarrow>
           abs_qty (rt_portfolio (handle_fill E N now f rt)) =
             (abs_qty (rt_portfolio rt))(make_key product strike expiry r :=
                wrap_i32 (abs_qty (rt_portfolio rt) (make_key product strike expiry r) + signed_fill_qty f))))"
proof (intro conjI impI)
  assume "\<exists>m \<in> set (rt_hedge rt). accepts f m"
  then obtain us m vs where "rt_hedge rt = us @ m # vs" "\<forall>x \<in> set us. \<not> accepts f x" "accepts f m"
    "offer_to_hedge f (map product_of (rt_hedge rt)) (rt_hedge rt) = (us @ fst (apply_broker_fill f m) # vs, True)"
    using offer_split [of "[]" "rt_hedge rt" f] assms(1) by auto
  then show "\<exists>us m vs. rt_hedge rt = us @ m # vs \<and> (\<forall>x \<in> set us. \<not> accepts f x) \<and> accepts f m \<and>
      handle_fill E N now f rt = rt\<lparr>rt_hedge := us @ fst (apply_broker_fill f m) # vs\<rparr>"
    by (intro exI [of _ us] exI [of _ m] exI [of _ vs]) (simp add: handle_fill_def)
next
  assume "\<not> (\<exists>m \<in> set (rt_hedge rt). accepts f m)"
  from option_fill_effect [OF assms(1) this, of E N now]
  show "case find_option (rt_market_data rt) (f_instrument_id f) (registry_products (registry (rt_portfolio rt))) of
      None \<Rightarrow> handle_fill E N now f rt = rt
    | Some (product, strike, expiry, r) \<Rightarrow>
        abs_qty (rt_portfolio (handle_fill E N now f rt)) =
          (abs_qty (rt_portfolio rt))(make_key product strike expiry r :=
             wrap_i32 (abs_qty (rt_portfolio rt) (make_key product strike expiry r) + signed_fill_qty f))"
    using add_fill_abs [OF assms(2) signed_fill_qty_range] by (auto split: option.split)
qed

definition demo_listed :: runtime where
  "demo_listed = demo_booked\<lparr>rt_market_data := register_option ''HG'' (Fin 6) 20600 Call 42 md_new\<rparr>"

definition demo_sale :: fill where
  "demo_sale = \<lparr>f_exec_id = ''e1'', f_order_id = 7, f_instrument_id = 42, f_side = Sell, f_qty = 2,
     f_price = lit (1 / 25), f_timestamp_ns = 0, f_commission = None\<rparr>"

lemma demo_unhedged: "\<not> (\<exists>m \<in> set (rt_hedge demo_listed). accepts demo_sale m)" "distinct (map product_of (rt_hedge demo_listed))"
  by (simp_all add: demo_listed_def demo_book demo_config_def build_hedge_fanout_def hedge_manager_new_def Let_def
      apply_broker_fill_def)

lemma demo_found:
  "find_option (rt_market_data demo_listed) (f_instrument_id demo_sale)
     (registry_products (registry (rt_portfolio demo_listed))) = Some (''HG'', Fin 6, 20600, Call)"
proof -
  have "registry (rt_portfolio demo_listed) = build_registry demo_config"
    by (simp add: demo_listed_def demo_booked_def demo_rt_def replace_positions_def rebuild_index_def portfolio_new_def)
  then have "registry_products (registry (rt_portfolio demo_listed)) = [''HG'']"
    by (simp add: demo_config_def build_registry_def registry_products_def registry_register_def registry_new_def
        hm_new_def hm_insert_def)
  then show ?thesis
    by (simp add: demo_listed_def demo_sale_def register_option_def Let_def options_for_product_def md_new_def hm_get_def
        hm_new_def hm_insert_def option_key_of_def option_tick_new_def)
qed

lemma demo_listed_inv: "port_inv (rt_portfolio demo_listed)"
  unfolding demo_listed_def demo_booked_def
  by (simp, rule replace_positions_inv) (simp_all add: demo_pos_def in_i32_def)

lemma demo_listed_qty: "abs_qty (rt_portfolio demo_listed) (make_key ''HG'' (Fin 6) 20600 Call) = - 3"
  by (simp add: demo_listed_def abs_qty_def demo_book pos_key_def demo_pos_def)

lemma demo_sale_qty: "signed_fill_qty demo_sale = - 2"
  by (simp add: signed_fill_qty_def demo_sale_def wrap_i32_def)

definition silent_network :: network where
  "silent_network = \<lparr>nw_fault = \<lambda>_. None, nw_turns = \<lambda>_. []\<rparr>"

theorem fills_routed_once_witness:
  "abs_qty (rt_portfolio (handle_fill demo_gateway_env silent_network 0 demo_sale demo_listed))
     (make_key ''HG'' (Fin 6) 20600 Call) = - 5"
  using fills_routed_once [OF demo_unhedged(2) demo_listed_inv, of demo_sale demo_gateway_env silent_network 0]
    demo_unhedged(1)
  by (simp add: demo_found demo_listed_qty demo_sale_qty wrap_i32_def)

text \<open>An option execution that is delivered twice is booked twice: unlike the hedge, which remembers
  execution ids, the option path never looks at the id of a fill, so a redelivery moves the
  position again.\<close>

theorem redelivered_option_fill_counts_twice:
  assumes "distinct (map product_of (rt_hedge rt))" "port_inv (rt_portfolio rt)"
    and "\<not> (\<exists>m \<in> set (rt_hedge rt). accepts f m)"
    and "find_option (rt_market_data rt) (f_instrument_id f) (registry_products (registry (rt_portfolio rt))) =
      Some (product, strike, expiry, r)"
  shows "abs_qty (rt_portfolio (handle_fill E N now' f (handle_fill E N now f rt))) (make_key product strike expiry r) =
     wrap_i32 (abs_qty (rt_portfolio rt) (make_key product strike expiry r) + 2 * signed_fill_qty f)"
proof -
  let ?rt1 = "handle_fill E N now f rt" and ?q = "signed_fill_qty f"
  have one: "rt_portfolio ?rt1 = fst (add_fill now product strike expiry r ?q (f_price f) fzero fzero (rt_portfolio rt))"
    "rt_market_data ?rt1 = rt_market_data rt" "map product_of (rt_hedge ?rt1) = map product_of (rt_hedge rt)"
    "\<not> (\<exists>m \<in> set (rt_hedge ?rt1). accepts f m)"
    using option_fill_effect [OF assms(1,3), of E N now] assms(3,4) by auto
  have inv: "port_inv (rt_portfolio ?rt1)" unfolding one(1) by (rule add_fill_inv [OF assms(2) signed_fill_qty_range])
  have d: "distinct (map product_of (rt_hedge ?rt1))" using one(3) assms(1) by simp
  have found: "find_option (rt_market_data ?rt1) (f_instrument_id f) (registry_products (registry (rt_portfolio ?rt1))) =
      Some (product, strike, expiry, r)"
    using assms(4) by (simp add: one(1,2))
  have two: "rt_portfolio (handle_fill E N now' f ?rt1) =
      fst (add_fill now' product strike expiry r ?q (f_price f) fzero fzero (rt_portfolio ?rt1))"
    using option_fill_effect [OF d one(4), of E N now'] found by simp
  let ?k = "make_key product strike expiry r"
  have "abs_qty (rt_portfolio (handle_fill E N now' f ?rt1)) ?k = wrap_i32 (abs_qty (rt_portfolio ?rt1) ?k + ?q)"
    unfolding two add_fill_abs [OF inv signed_fill_qty_range] by simp
  moreover have "abs_qty (rt_portfolio ?rt1) ?k = wrap_i32 (abs_qty (rt_portfolio rt) ?k + ?q)"
    unfolding one(1) add_fill_abs [OF assms(2) signed_fill_qty_range] by simp
  ultimately show ?thesis by (simp only: wrap_i32_add_left add.assoc mult_2)
qed

theorem redelivered_option_fill_counts_twice_witness:
  "abs_qty (rt_portfolio (handle_fill demo_gateway_env silent_network 1 demo_sale
      (handle_fill demo_gateway_env silent_network 0 demo_sale demo_listed))) (make_key ''HG'' (Fin 6) 20600 Call) = - 7"
  using redelivered_option_fill_counts_twice [OF demo_unhedged(2) demo_listed_inv demo_unhedged(1) demo_found]
  by (simp add: demo_listed_qty demo_sale_qty wrap_i32_def)

section \<open>The rollover\<close>

text \<open>A run of the rollover task over its samples, each an hour and a date, with the days on which it
  fired.\<close>

fun rollover_run :: "(int \<times> naive_date) list \<Rightarrow> naive_date option \<times> runtime \<Rightarrow> naive_date list" where
  "rollover_run [] st = []"
| "rollover_run ((hour, today) # samples) st =
     (let st' = daily_halt_rollover hour today st
      in (if fst st' = fst st then [] else [today]) @ rollover_run samples st')"

definition rollover_due :: "(int \<times> naive_date) list \<Rightarrow> naive_date set" where
  "rollover_due samples = {d. \<exists>h. 17 \<le> h \<and> (h, d) \<in> set samples}"

lemma rollover_run_days:
  assumes "sorted (map snd samples)" "\<forall>last. fst st = Some last \<longrightarrow> (\<forall>s \<in> set samples. last \<le> snd s)"
  shows "set (rollover_run samples st) = rollover_due samples - {d. fst st = Some d} \<and>
     sorted_wrt (<) (rollover_run samples st)"
  using assms
proof (induction samples st rule: rollover_run.induct)
  case (2 hour today samples st)
  obtain last rt where st: "st = (last, rt)" by (cases st)
  let ?st' = "daily_halt_rollover hour today st"
  have p: "\<forall>last. fst ?st' = Some last \<longrightarrow> (\<forall>s \<in> set samples. last \<le> snd s)"
    using "2.prems" st by (auto simp: daily_halt_rollover_def)
  have so: "sorted (map snd samples)" using "2.prems"(1) by simp
  have ih: "set (rollover_run samples ?st') = rollover_due samples - {d. fst ?st' = Some d}"
    "sorted_wrt (<) (rollover_run samples ?st')"
    using "2.IH" [OF refl so p] by auto
  have due: "rollover_due ((hour, today) # samples) = (if 17 \<le> hour then insert today (rollover_due samples) else rollover_due samples)"
    by (auto simp: rollover_due_def)
  have later: "today \<le> d" if "d \<in> rollover_due samples" for d
    using that "2.prems"(1) by (auto simp: rollover_due_def)
  have early: "l \<le> today" if "last = Some l" for l using that "2.prems"(2) st by auto
  show ?case
  proof (cases "17 \<le> hour \<and> last \<noteq> Some today")
    case True
    then have r: "rollover_run ((hour, today) # samples) st = today # rollover_run samples ?st'" "fst ?st' = Some today"
      using st by (auto simp: daily_halt_rollover_def)
    have gone: "last \<noteq> Some d" if "d \<in> insert today (rollover_due samples)" for d
      using that early [of d] later [of d] True by auto
    have after: "today < d" if "d \<in> set (rollover_run samples ?st')" for d
      using that ih(1) r(2) later [of d] by auto
    show ?thesis unfolding r(1) due using ih r(2) gone after True st by auto
  next
    case False
    then have "rollover_run ((hour, today) # samples) st = rollover_run samples ?st'" "fst ?st' = last"
      using st by (auto simp: daily_halt_rollover_def)
    then show ?thesis using ih due False st by auto
  qed
qed (simp add: rollover_due_def)

lemma clear_daily_idem: "fst (clear_daily_halt (fst (clear_daily_halt m))) = fst (clear_daily_halt m)"
  by (auto simp: clear_daily_halt_def split: option.split)

definition rollover_sample :: "int \<times> naive_date \<Rightarrow> naive_date option \<times> runtime \<Rightarrow> naive_date option \<times> runtime" where
  "rollover_sample s st = daily_halt_rollover (fst s) (snd s) st"

lemma rollover_run_state:
  "rt_risk (snd (fold rollover_sample samples st)) =
     (if rollover_run samples st = [] then rt_risk (snd st) else fst (clear_daily_halt (rt_risk (snd st))))"
proof (induction samples arbitrary: st)
  case (Cons s samples)
  obtain hour today where s: "s = (hour, today)" by (cases s)
  obtain last rt where st: "st = (last, rt)" by (cases st)
  show ?case
    using Cons.IH [of "daily_halt_rollover hour today st"] s st clear_daily_idem [of "rt_risk rt"]
    by (auto simp: rollover_sample_def daily_halt_rollover_def Let_def split: if_splits)
qed simp

text \<open>The rollover fires once a day: over any samples of the clock that do not go back to an earlier
  date, from a fresh start, the days on which it fires are exactly those with a sample at or
  past 17:00, each once and in order; and the run clears the risk monitor's daily halt exactly
  when there is such a day.\<close>

theorem rollover_fires_once_per_day:
  assumes "sorted (map snd samples)"
  shows "set (rollover_run samples (None, rt)) = rollover_due samples \<and>
     distinct (rollover_run samples (None, rt)) \<and> sorted (rollover_run samples (None, rt)) \<and>
     rt_risk (snd (fold rollover_sample samples (None, rt))) =
       (if rollover_due samples = {} then rt_risk rt else fst (clear_daily_halt (rt_risk rt)))"
  using rollover_run_days [OF assms, of "(None, rt)"] rollover_run_state [of samples "(None, rt)"]
    strict_sorted_iff [of "rollover_run samples (None, rt)"]
  by auto

theorem rollover_fires_once_per_day_witness:
  "set (rollover_run [(16, 20600), (17, 20600), (18, 20600), (9, 20601), (17, 20601)] (None, demo_rt)) =
     rollover_due [(16, 20600), (17, 20600), (18, 20600), (9, 20601), (17, 20601)]"
  using rollover_fires_once_per_day
    [of "[(16, 20600), (17, 20600), (18, 20600), (9, 20601), (17, 20601)]" demo_rt] by simp

end
