(* ===== verification/Wire.thy ===== *)
theory Wire
  imports Trader Broker_Api "HOL-Library.Monad_Syntax"
begin

text \<open>
  The messages between the two processes as they travel (\<open>corsair_broker/src/ipc.rs\<close>,
  \<open>corsair_broker/src/vol_surface.rs\<close>, \<open>corsair_trader/src/messages.rs\<close>): what the derived
  serializers write and what the derived deserializers accept. A message body is a map from field
  names to values; the msgpack bytes of a map are left to the third-party codec, which is a pair of
  parameters where bytes matter. A derived deserializer ignores unknown fields, fails on a missing
  field without a default, and converts an integer to a float where a float is asked for.
\<close>

section \<open>Values\<close>

datatype wire =
    WNil
  | WBool bool
  | WInt int
  | WFloat f64
  | WStr string
  | WSeq "wire list"
  | WMap "(string \<times> wire) list"

type_synonym wire_map = "(string \<times> wire) list"

definition w_f64 :: "f64 option \<Rightarrow> wire" where
  "w_f64 x = (case x of Some v \<Rightarrow> WFloat v | None \<Rightarrow> WNil)"

definition w_int :: "int option \<Rightarrow> wire" where
  "w_int x = (case x of Some v \<Rightarrow> WInt v | None \<Rightarrow> WNil)"

definition w_str :: "string option \<Rightarrow> wire" where
  "w_str x = (case x of Some v \<Rightarrow> WStr v | None \<Rightarrow> WNil)"

text \<open>Reading one value as a type.\<close>

fun as_f64 :: "wire \<Rightarrow> f64 option" where
  "as_f64 (WFloat x) = Some x"
| "as_f64 (WInt n) = Some (of_i n)"
| "as_f64 _ = None"

fun as_str :: "wire \<Rightarrow> string option" where
  "as_str (WStr s) = Some s"
| "as_str _ = None"

fun as_bool :: "wire \<Rightarrow> bool option" where
  "as_bool (WBool b) = Some b"
| "as_bool _ = None"

fun as_int_in :: "int \<Rightarrow> int \<Rightarrow> wire \<Rightarrow> int option" where
  "as_int_in lo hi (WInt n) = (if lo \<le> n \<and> n < hi then Some n else None)"
| "as_int_in lo hi _ = None"

definition as_u64_field :: "wire \<Rightarrow> int option" where
  "as_u64_field = as_int_in 0 (2 ^ 64)"

definition as_u32_field :: "wire \<Rightarrow> int option" where
  "as_u32_field = as_int_in 0 (2 ^ 32)"

definition as_i32_field :: "wire \<Rightarrow> int option" where
  "as_i32_field = as_int_in (- (2 ^ 31)) (2 ^ 31)"

definition as_i64_field :: "wire \<Rightarrow> int option" where
  "as_i64_field = as_int_in (- (2 ^ 63)) (2 ^ 63)"

text \<open>Reading one field of a map: required, with a default, or optional.\<close>

definition required :: "(wire \<Rightarrow> 'a option) \<Rightarrow> string \<Rightarrow> wire_map \<Rightarrow> 'a option" where
  "required rd name m = (case map_of m name of Some v \<Rightarrow> rd v | None \<Rightarrow> None)"

definition with_default :: "'a \<Rightarrow> (wire \<Rightarrow> 'a option) \<Rightarrow> string \<Rightarrow> wire_map \<Rightarrow> 'a option" where
  "with_default d rd name m = (case map_of m name of Some v \<Rightarrow> rd v | None \<Rightarrow> Some d)"

definition nullable :: "(wire \<Rightarrow> 'a option) \<Rightarrow> wire \<Rightarrow> 'a option option" where
  "nullable rd v = (if v = WNil then Some None else map_option Some (rd v))"

definition optional :: "(wire \<Rightarrow> 'a option) \<Rightarrow> string \<Rightarrow> wire_map \<Rightarrow> 'a option option" where
  "optional rd = with_default None (nullable rd)"

lemmas field_simps = required_def with_default_def nullable_def optional_def
  as_u64_field_def as_u32_field_def as_i32_field_def as_i64_field_def w_f64_def w_int_def w_str_def

section \<open>Commands: what the trader writes\<close>

definition place_order_wire :: "place_order \<Rightarrow> wire_map" where
  "place_order_wire p =
     [(''type'', WStr ''place_order''), (''ts_ns'', WInt (pl_ts_ns p)), (''strike'', WFloat (pl_strike p)),
      (''expiry'', WStr (pl_expiry p)), (''right'', WStr (pl_right p)), (''side'', WStr (pl_side p)),
      (''qty'', WInt (pl_qty p)), (''price'', WFloat (pl_price p)), (''orderRef'', WStr (pl_order_ref p))]"

definition cancel_order_wire :: "cancel_order \<Rightarrow> wire_map" where
  "cancel_order_wire c =
     [(''type'', WStr ''cancel_order''), (''ts_ns'', WInt (cn_ts_ns c)), (''orderId'', WInt (cn_order_id c))]"

fun command_wire :: "trader_command \<Rightarrow> wire_map" where
  "command_wire (PlaceOrder p) = place_order_wire p"
| "command_wire (CancelOrder c) = cancel_order_wire c"

section \<open>Commands: what the broker accepts\<close>

record place_order_cmd =
  poc_instrument_id :: int
  poc_side :: string
  poc_qty :: int
  poc_price :: f64
  poc_order_type :: string
  poc_tif :: string
  poc_gtd_seconds :: "int option"
  poc_client_order_ref :: "string option"

definition default_order_type :: string where
  "default_order_type = ''limit''"

definition default_tif :: string where
  "default_tif = ''GTD''"

definition decode_place_order :: "wire_map \<Rightarrow> place_order_cmd option" where
  "decode_place_order m =
     do { _ \<leftarrow> required as_str ''type'' m;
          instrument_id \<leftarrow> required as_u64_field ''instrument_id'' m;
          side \<leftarrow> required as_str ''side'' m;
          qty \<leftarrow> required as_u32_field ''qty'' m;
          price \<leftarrow> required as_f64 ''price'' m;
          order_type \<leftarrow> with_default default_order_type as_str ''order_type'' m;
          tif \<leftarrow> with_default default_tif as_str ''tif'' m;
          gtd_seconds \<leftarrow> optional as_u32_field ''gtd_seconds'' m;
          client_order_ref \<leftarrow> optional as_str ''client_order_ref'' m;
          Some \<lparr>poc_instrument_id = instrument_id, poc_side = side, poc_qty = qty, poc_price = price,
                poc_order_type = order_type, poc_tif = tif, poc_gtd_seconds = gtd_seconds,
                poc_client_order_ref = client_order_ref\<rparr> }"

record cancel_order_cmd =
  coc_order_id :: int

definition decode_cancel_order :: "wire_map \<Rightarrow> cancel_order_cmd option" where
  "decode_cancel_order m =
     do { _ \<leftarrow> required as_str ''type'' m;
          order_id \<leftarrow> required as_u64_field ''order_id'' m;
          Some \<lparr>coc_order_id = order_id\<rparr> }"

record modify_order_cmd =
  moc_order_id :: int
  moc_price :: "f64 option"
  moc_qty :: "int option"
  moc_gtd_seconds :: "int option"

definition decode_modify_order :: "wire_map \<Rightarrow> modify_order_cmd option" where
  "decode_modify_order m =
     do { _ \<leftarrow> required as_str ''type'' m;
          order_id \<leftarrow> required as_u64_field ''order_id'' m;
          price \<leftarrow> optional as_f64 ''price'' m;
          qty \<leftarrow> optional as_u32_field ''qty'' m;
          gtd_seconds \<leftarrow> optional as_u32_field ''gtd_seconds'' m;
          Some \<lparr>moc_order_id = order_id, moc_price = price, moc_qty = qty, moc_gtd_seconds = gtd_seconds\<rparr> }"

section \<open>Events: what the broker writes\<close>

definition side_text :: "side \<Rightarrow> string" where
  "side_text s = (case s of Buy \<Rightarrow> ''BUY'' | Sell \<Rightarrow> ''SELL'')"

definition fill_wire :: "fill \<Rightarrow> wire_map" where
  "fill_wire f =
     [(''type'', WStr ''fill''), (''exec_id'', WStr (f_exec_id f)), (''order_id'', WInt (f_order_id f)),
      (''instrument_id'', WInt (f_instrument_id f)), (''side'', WStr (side_text (f_side f))),
      (''qty'', WInt (f_qty f)), (''price'', WFloat (f_price f)),
      (''timestamp_ns'', WInt (f_timestamp_ns f)), (''commission'', w_f64 (f_commission f))]"

text \<open>The status and the state are printed by their derived \<open>Debug\<close>, the name of the variant.\<close>

fun status_text :: "order_status \<Rightarrow> string" where
  "status_text PendingSubmit = ''PendingSubmit''"
| "status_text Submitted = ''Submitted''"
| "status_text Filled = ''Filled''"
| "status_text Cancelled = ''Cancelled''"
| "status_text Rejected = ''Rejected''"
| "status_text PendingCancelStatus = ''PendingCancel''"
| "status_text Inactive = ''Inactive''"

definition order_status_wire :: "order_status_update \<Rightarrow> wire_map" where
  "order_status_wire u =
     [(''type'', WStr ''order_status''), (''order_id'', WInt (su_order_id u)),
      (''status'', WStr (status_text (su_status u))), (''filled_qty'', WInt (su_filled_qty u)),
      (''remaining_qty'', WInt (su_remaining_qty u)), (''avg_fill_price'', WFloat (su_avg_fill_price u)),
      (''last_fill_price'', w_f64 (su_last_fill_price u)), (''timestamp_ns'', WInt (su_timestamp_ns u)),
      (''reject_reason'', w_str (su_reject_reason u))]"


fun state_text :: "connection_state \<Rightarrow> string" where
  "state_text Disconnected = ''Disconnected''"
| "state_text Connecting = ''Connecting''"
| "state_text Connected = ''Connected''"
| "state_text LostConnection = ''LostConnection''"
| "state_text Reconnecting = ''Reconnecting''"
| "state_text Closed = ''Closed''"

definition connection_wire :: "connection_event \<Rightarrow> wire_map" where
  "connection_wire ev =
     [(''type'', WStr ''connection''), (''state'', WStr (state_text (ce_state ev))),
      (''reason'', w_str (ce_reason ev)), (''timestamp_ns'', WInt (ce_timestamp_ns ev))]"

record consolidated_tick =
  ct_expiry :: string
  ct_right :: string
  ct_strike :: f64
  ct_bid :: "f64 option"
  ct_ask :: "f64 option"
  ct_bid_size :: "int option"
  ct_ask_size :: "int option"

definition tick_wire :: "int \<Rightarrow> consolidated_tick \<Rightarrow> wire_map" where
  "tick_wire ts_ns e =
     [(''type'', WStr ''tick''), (''strike'', WFloat (ct_strike e)), (''expiry'', WStr (ct_expiry e)),
      (''right'', WStr (ct_right e)), (''bid'', w_f64 (ct_bid e)), (''ask'', w_f64 (ct_ask e)),
      (''bid_size'', w_int (ct_bid_size e)), (''ask_size'', w_int (ct_ask_size e)), (''ts_ns'', WInt ts_ns)]"

definition risk_state_wire :: "int \<Rightarrow> risk_state_msg \<Rightarrow> wire_map" where
  "risk_state_wire ts_ns r =
     [(''type'', WStr ''risk_state''), (''ts_ns'', WInt ts_ns), (''margin_usd'', WFloat (rk_margin_usd r)),
      (''margin_pct'', WFloat (rk_margin_pct r)), (''options_delta'', WFloat (rk_options_delta r)),
      (''hedge_delta'', WInt (rk_hedge_delta r)), (''effective_delta'', WFloat (rk_effective_delta r)),
      (''theta'', WFloat (rk_theta r)), (''vega'', WFloat (rk_vega r)), (''gamma'', WFloat (rk_gamma r)),
      (''total_contracts'', WInt (rk_total_contracts r)), (''n_positions'', WInt (rk_n_positions r))]"

record vol_surface_event =
  vo_expiry :: string
  vo_side :: string
  vo_forward :: f64
  vo_alpha :: f64
  vo_beta :: f64
  vo_rho :: f64
  vo_nu :: f64
  vo_rmse :: f64
  vo_n_points :: int

definition vol_surface_wire :: "int \<Rightarrow> vol_surface_event \<Rightarrow> wire_map" where
  "vol_surface_wire ts_ns v =
     [(''type'', WStr ''vol_surface''), (''expiry'', WStr (vo_expiry v)), (''side'', WStr (vo_side v)),
      (''forward'', WFloat (vo_forward v)),
      (''params'', WMap [(''model'', WStr ''sabr''), (''alpha'', WFloat (vo_alpha v)),
         (''beta'', WFloat (vo_beta v)), (''rho'', WFloat (vo_rho v)), (''nu'', WFloat (vo_nu v))]),
      (''rmse'', WFloat (vo_rmse v)), (''n_points'', WInt (vo_n_points v)), (''ts_ns'', WInt ts_ns)]"

definition vol_surface_failed_wire :: "int \<Rightarrow> string \<Rightarrow> string \<Rightarrow> int \<Rightarrow> wire_map" where
  "vol_surface_failed_wire ts_ns expiry reason n_strikes =
     [(''type'', WStr ''vol_surface_failed''), (''expiry'', WStr expiry), (''reason'', WStr reason),
      (''n_strikes'', WInt n_strikes), (''ts_ns'', WInt ts_ns)]"

section \<open>Events: what the trader accepts\<close>

text \<open>The trader keeps all fields but the type and the time as a JSON value, which has no number
  for a NaN or an infinity, and reads the fields of the message from it.\<close>

fun json :: "wire \<Rightarrow> wire" where
  "json (WFloat x) = (if is_finite x then WFloat x else WNil)"
| "json (WSeq xs) = WSeq (map json xs)"
| "json (WMap m) = WMap (map (\<lambda>(k, v). (k, json v)) m)"
| "json v = v"

record generic_msg =
  gm_type :: string
  gm_ts_ns :: "int option"
  gm_extra :: wire_map

definition decode_generic :: "wire_map \<Rightarrow> generic_msg option" where
  "decode_generic m =
     do { ty \<leftarrow> required as_str ''type'' m;
          ts_ns \<leftarrow> optional as_u64_field ''ts_ns'' m;
          Some \<lparr>gm_type = ty, gm_ts_ns = ts_ns,
                gm_extra = map (\<lambda>(k, v). (k, json v)) (filter (\<lambda>(k, _). k \<noteq> ''type'' \<and> k \<noteq> ''ts_ns'') m)\<rparr> }"

definition decode_tick :: "wire_map \<Rightarrow> tick_msg option" where
  "decode_tick m =
     do { strike \<leftarrow> required as_f64 ''strike'' m;
          expiry \<leftarrow> required as_str ''expiry'' m;
          rt \<leftarrow> required as_str ''right'' m;
          bid \<leftarrow> optional as_f64 ''bid'' m;
          ask \<leftarrow> optional as_f64 ''ask'' m;
          bid_size \<leftarrow> optional as_i32_field ''bid_size'' m;
          ask_size \<leftarrow> optional as_i32_field ''ask_size'' m;
          ts_ns \<leftarrow> optional as_u64_field ''ts_ns'' m;
          Some \<lparr>tm_strike = strike, tm_expiry = expiry, tm_right = rt, tm_bid = bid, tm_ask = ask,
                tm_bid_size = bid_size, tm_ask_size = ask_size, tm_ts_ns = ts_ns\<rparr> }"

definition decode_vol_params :: "wire \<Rightarrow> vol_params option" where
  "decode_vol_params v =
     (case v of
        WMap m \<Rightarrow>
          do { model \<leftarrow> required as_str ''model'' m;
               a \<leftarrow> optional as_f64 ''a'' m;
               b \<leftarrow> optional as_f64 ''b'' m;
               rho \<leftarrow> optional as_f64 ''rho'' m;
               vm \<leftarrow> optional as_f64 ''m'' m;
               sigma \<leftarrow> optional as_f64 ''sigma'' m;
               alpha \<leftarrow> optional as_f64 ''alpha'' m;
               beta \<leftarrow> optional as_f64 ''beta'' m;
               nu \<leftarrow> optional as_f64 ''nu'' m;
               Some \<lparr>vp_model = model, vp_a = a, vp_b = b, vp_rho = rho, vp_m = vm, vp_sigma = sigma,
                     vp_alpha = alpha, vp_beta = beta, vp_nu = nu\<rparr> }
      | _ \<Rightarrow> None)"

definition decode_vol_surface :: "wire_map \<Rightarrow> vol_surface_msg option" where
  "decode_vol_surface m =
     do { expiry \<leftarrow> required as_str ''expiry'' m;
          sd \<leftarrow> required as_str ''side'' m;
          forward \<leftarrow> required as_f64 ''forward'' m;
          params \<leftarrow> required decode_vol_params ''params'' m;
          Some \<lparr>vm_expiry = expiry, vm_side = sd, vm_forward = forward, vm_params = params\<rparr> }"

definition decode_risk_state :: "wire_map \<Rightarrow> risk_state_msg option" where
  "decode_risk_state m =
     do { margin_usd \<leftarrow> required as_f64 ''margin_usd'' m;
          margin_pct \<leftarrow> required as_f64 ''margin_pct'' m;
          options_delta \<leftarrow> required as_f64 ''options_delta'' m;
          hedge_delta \<leftarrow> required as_i64_field ''hedge_delta'' m;
          effective_delta \<leftarrow> required as_f64 ''effective_delta'' m;
          theta \<leftarrow> required as_f64 ''theta'' m;
          vega \<leftarrow> required as_f64 ''vega'' m;
          gamma \<leftarrow> required as_f64 ''gamma'' m;
          total_contracts \<leftarrow> required as_i64_field ''total_contracts'' m;
          n_positions \<leftarrow> required as_i64_field ''n_positions'' m;
          Some \<lparr>rk_margin_usd = margin_usd, rk_margin_pct = margin_pct, rk_options_delta = options_delta,
                rk_hedge_delta = hedge_delta, rk_effective_delta = effective_delta, rk_theta = theta,
                rk_vega = vega, rk_gamma = gamma, rk_total_contracts = total_contracts,
                rk_n_positions = n_positions\<rparr> }"

definition decode_place_ack :: "wire_map \<Rightarrow> place_ack_msg option" where
  "decode_place_ack m =
     do { oid \<leftarrow> required as_i64_field ''orderId'' m;
          strike \<leftarrow> required as_f64 ''strike'' m;
          expiry \<leftarrow> required as_str ''expiry'' m;
          rt \<leftarrow> required as_str ''right'' m;
          sd \<leftarrow> required as_str ''side'' m;
          price \<leftarrow> required as_f64 ''price'' m;
          Some \<lparr>pa_order_id = oid, pa_strike = strike, pa_expiry = expiry, pa_right = rt, pa_side = sd,
                pa_price = price\<rparr> }"

definition decode_order_ack :: "wire_map \<Rightarrow> order_ack_msg option" where
  "decode_order_ack m =
     do { oid \<leftarrow> optional as_i64_field ''orderId'' m;
          status \<leftarrow> optional as_str ''status'' m;
          sd \<leftarrow> optional as_str ''side'' m;
          lmt_price \<leftarrow> optional as_f64 ''lmtPrice'' m;
          order_ref \<leftarrow> optional as_str ''orderRef'' m;
          Some \<lparr>oa_order_id = oid, oa_status = status, oa_side = sd, oa_lmt_price = lmt_price,
                oa_order_ref = order_ref\<rparr> }"

text \<open>\<open>extra.get(name).and_then(..)\<close>: an absent field and one of another type are the same.\<close>

definition peek :: "(wire \<Rightarrow> 'a option) \<Rightarrow> string \<Rightarrow> wire_map \<Rightarrow> 'a option" where
  "peek rd name m = required rd name m"

definition decode_hello :: "wire_map \<Rightarrow> hello_config option" where
  "decode_hello m =
     (case map_of m ''config'' of
        Some (WMap c) \<Rightarrow>
          Some \<lparr>he_min_edge_ticks = peek as_i64_field ''min_edge_ticks'' c, he_tick_size = peek as_f64 ''tick_size'' c,
                he_delta_ceiling = peek as_f64 ''delta_ceiling'' c, he_delta_kill = peek as_f64 ''delta_kill'' c,
                he_margin_ceiling_pct = peek as_f64 ''margin_ceiling_pct'' c\<rparr>
      | _ \<Rightarrow> None)"

definition payload :: "('a \<Rightarrow> trader_event) \<Rightarrow> 'a option \<Rightarrow> trader_event" where
  "payload f x = (case x of Some v \<Rightarrow> f v | None \<Rightarrow> EvBadPayload)"

definition event_of :: "string \<Rightarrow> wire_map \<Rightarrow> trader_event" where
  "event_of ty m =
     (if ty = ''tick'' then payload EvTick (decode_tick m)
      else if ty = ''underlying_tick'' then payload EvUnderlying (required as_f64 ''price'' m)
      else if ty = ''vol_surface'' then payload EvVolSurface (decode_vol_surface m)
      else if ty = ''risk_state'' then payload EvRiskState (decode_risk_state m)
      else if ty = ''place_ack'' then payload EvPlaceAck (decode_place_ack m)
      else if ty = ''order_ack'' then payload EvOrderAck (decode_order_ack m)
      else if ty = ''kill'' then EvKill (peek as_str ''source'' m) (peek as_str ''reason'' m)
      else if ty = ''resume'' then EvResume (peek as_str ''source'' m)
      else if ty = ''weekend_pause'' then EvWeekendPause (peek as_bool ''paused'' m)
      else if ty = ''hello'' then EvHello (decode_hello m)
      else EvOther)"

definition trader_decode :: "wire_map \<Rightarrow> (int option \<times> trader_event) option" where
  "trader_decode m =
     do { g \<leftarrow> decode_generic m;
          Some (gm_ts_ns g, event_of (gm_type g) (gm_extra g)) }"


section \<open>Lemmas\<close>

lemma json_optional:
  "json (w_f64 x) = w_f64 (case x of Some v \<Rightarrow> if is_finite v then Some v else None | None \<Rightarrow> None)"
  "json (w_int n) = w_int n"
  by (auto simp: w_f64_def w_int_def split: option.split)

definition json_f64 :: "f64 option \<Rightarrow> f64 option" where
  "json_f64 x = (case x of Some v \<Rightarrow> if is_finite v then Some v else None | None \<Rightarrow> None)"

lemma json_f64_finite: "(\<And>v. x = Some v \<Longrightarrow> is_finite v) \<Longrightarrow> json_f64 x = x"
  by (auto simp: json_f64_def split: option.split)

lemma optional_values:
  "map_of m name = Some (w_f64 x) \<Longrightarrow> optional as_f64 name m = Some x"
  "map_of m name = Some (w_int n) \<Longrightarrow> (\<And>k. n = Some k \<Longrightarrow> - (2 ^ 31) \<le> k \<and> k < 2 ^ 31) \<Longrightarrow>
   optional as_i32_field name m = Some n"
  "map_of m name = None \<Longrightarrow> optional rd name m = Some None"
  by (auto simp: field_simps optional_def split: option.splits)

text \<open>No command of the trader has the fields the broker requires.\<close>

lemma trader_commands_lack_fields:
  "decode_place_order (place_order_wire p) = None"
  "decode_cancel_order (cancel_order_wire c) = None"
  by (simp_all add: decode_place_order_def place_order_wire_def decode_cancel_order_def
      cancel_order_wire_def required_def)

lemma generic_decodes:
  assumes "m = (''type'', WStr ty) # fs" "map_of fs ''ts_ns'' = Some (WInt ts)" "0 \<le> ts" "ts < 2 ^ 64"
  shows "trader_decode m = Some (Some ts, event_of ty
     (map (\<lambda>(k, v). (k, json v)) (filter (\<lambda>(k, _). k \<noteq> ''type'' \<and> k \<noteq> ''ts_ns'') fs)))"
  using assms by (simp add: trader_decode_def decode_generic_def field_simps optional_def)

definition tick_of_wire :: "consolidated_tick \<Rightarrow> tick_msg" where
  "tick_of_wire e =
     \<lparr>tm_strike = ct_strike e, tm_expiry = ct_expiry e, tm_right = ct_right e, tm_bid = json_f64 (ct_bid e),
      tm_ask = json_f64 (ct_ask e), tm_bid_size = ct_bid_size e, tm_ask_size = ct_ask_size e, tm_ts_ns = None\<rparr>"

lemma tick_round_trip:
  assumes "is_finite (ct_strike e)" "0 \<le> ts" "ts < 2 ^ 64"
    and "\<And>n. ct_bid_size e = Some n \<Longrightarrow> - (2 ^ 31) \<le> n \<and> n < 2 ^ 31"
    and "\<And>n. ct_ask_size e = Some n \<Longrightarrow> - (2 ^ 31) \<le> n \<and> n < 2 ^ 31"
  shows "trader_decode (tick_wire ts e) = Some (Some ts, EvTick (tick_of_wire e))"
proof -
  let ?m = "[(''strike'', WFloat (ct_strike e)), (''expiry'', WStr (ct_expiry e)), (''right'', WStr (ct_right e)),
     (''bid'', w_f64 (json_f64 (ct_bid e))), (''ask'', w_f64 (json_f64 (ct_ask e))),
     (''bid_size'', w_int (ct_bid_size e)), (''ask_size'', w_int (ct_ask_size e))]"
  have "trader_decode (tick_wire ts e) = Some (Some ts, event_of ''tick'' ?m)"
    using assms(1-3) by (subst generic_decodes [OF tick_wire_def])
      (simp_all add: json_optional json_f64_def)
  moreover have "decode_tick ?m = Some (tick_of_wire e)"
    using assms(4,5) by (simp add: decode_tick_def tick_of_wire_def optional_values)
      (simp add: required_def)
  ultimately show ?thesis by (simp add: event_of_def payload_def)
qed

lemma risk_state_round_trip:
  assumes "0 \<le> ts" "ts < 2 ^ 64" "is_finite (rk_margin_usd r)" "is_finite (rk_margin_pct r)"
    "is_finite (rk_options_delta r)" "is_finite (rk_effective_delta r)" "is_finite (rk_theta r)"
    "is_finite (rk_vega r)" "is_finite (rk_gamma r)"
    "- (2 ^ 63) \<le> rk_hedge_delta r" "rk_hedge_delta r < 2 ^ 63"
    "- (2 ^ 63) \<le> rk_total_contracts r" "rk_total_contracts r < 2 ^ 63"
    "- (2 ^ 63) \<le> rk_n_positions r" "rk_n_positions r < 2 ^ 63"
  shows "trader_decode (risk_state_wire ts r) = Some (Some ts, EvRiskState r)"
proof -
  let ?m = "[(''margin_usd'', WFloat (rk_margin_usd r)),
      (''margin_pct'', WFloat (rk_margin_pct r)), (''options_delta'', WFloat (rk_options_delta r)),
      (''hedge_delta'', WInt (rk_hedge_delta r)), (''effective_delta'', WFloat (rk_effective_delta r)),
      (''theta'', WFloat (rk_theta r)), (''vega'', WFloat (rk_vega r)), (''gamma'', WFloat (rk_gamma r)),
      (''total_contracts'', WInt (rk_total_contracts r)), (''n_positions'', WInt (rk_n_positions r))]"
  have "trader_decode (risk_state_wire ts r) = Some (Some ts, event_of ''risk_state'' ?m)"
    using assms(1-9) by (subst generic_decodes [OF risk_state_wire_def]) simp_all
  moreover have "decode_risk_state ?m = Some r"
    using assms(10-) by (simp add: decode_risk_state_def field_simps)
  ultimately show ?thesis by (simp add: event_of_def payload_def)
qed

definition surface_of_wire :: "vol_surface_event \<Rightarrow> vol_surface_msg" where
  "surface_of_wire v =
     \<lparr>vm_expiry = vo_expiry v, vm_side = vo_side v, vm_forward = vo_forward v,
      vm_params = \<lparr>vp_model = ''sabr'', vp_a = None, vp_b = None, vp_rho = json_f64 (Some (vo_rho v)), vp_m = None,
        vp_sigma = None, vp_alpha = json_f64 (Some (vo_alpha v)), vp_beta = json_f64 (Some (vo_beta v)),
        vp_nu = json_f64 (Some (vo_nu v))\<rparr>\<rparr>"

lemma vol_surface_round_trip:
  assumes "0 \<le> ts" "ts < 2 ^ 64" "is_finite (vo_forward v)"
  shows "trader_decode (vol_surface_wire ts v) = Some (Some ts, EvVolSurface (surface_of_wire v))"
  using assms
  by (subst generic_decodes [OF vol_surface_wire_def])
    (simp_all add: event_of_def payload_def decode_vol_surface_def decode_vol_params_def field_simps
      optional_def surface_of_wire_def json_f64_def)

text \<open>A surface event that the trader does not accept changes nothing; the others are of types the
  trader does not know.\<close>

lemma other_events_ignored:
  "trader_decode (fill_wire f) = Some (None, EvOther)"
  "trader_decode (order_status_wire u) = Some (None, EvOther)"
  "trader_decode (connection_wire ev) = Some (None, EvOther)"
  by (simp_all add: fill_wire_def order_status_wire_def connection_wire_def trader_decode_def decode_generic_def
      required_def optional_def with_default_def event_of_def)

end
