(* ===== verification/Daemon_Ipc.thy ===== *)
theory Daemon_Ipc
  imports Daemon_Tasks Wire
begin

text \<open>
  The bridge between the broker daemon and the trader (\<open>corsair_broker/src/ipc.rs\<close>): the dispatch of
  the trader's commands, the forwarding of fills, statuses, connection events and ticks, and the
  risk state published every second. The state is the runtime of \<open>Daemon_Runtime\<close>, the cache of
  consolidated ticks and the events ring of \<open>Shm_Ring\<close>. Parameters are the msgpack codec and the
  formats of \<open>chrono\<close> and of \<open>{:.3}\<close>. Starting the tasks and the reader of the ring are not modelled
  here (\<open>Shm_Ring.command_pump_poll\<close> is the reader).
\<close>

section \<open>Parameters and configuration\<close>

record ipc_env =
  ie_unpack :: "byte list \<Rightarrow> wire_map option"
  ie_pack :: "wire_map \<Rightarrow> byte list option"
  ie_yymm :: "date_time \<Rightarrow> string"
  ie_day_text :: "naive_date \<Rightarrow> string"
  ie_ymd :: "naive_date \<Rightarrow> string"
  ie_strike_text :: "f64 \<Rightarrow> string"

record ipc_config =
  ip_base_path :: string
  ip_capacity :: int

definition ipc_config_default :: ipc_config where
  "ipc_config_default = \<lparr>ip_base_path = ''/app/data/corsair_ipc'', ip_capacity = 2 ^ 20\<rparr>"

text \<open>\<open>extract_type\<close> of the command pump, whose kind is unknown without an answer.\<close>

definition extract_kind :: "ipc_env \<Rightarrow> byte list \<Rightarrow> string option" where
  "extract_kind I body =
     Option.bind (ie_unpack I body) (\<lambda>m. Option.bind (optional as_str ''type'' m) (\<lambda>ty. ty))"

section \<open>Commands\<close>

definition option_contract ::
  "ipc_env \<Rightarrow> date_time \<Rightarrow> instrument_id \<Rightarrow> string \<times> f64 \<times> naive_date \<times> right \<Rightarrow> contract" where
  "option_contract I now iid found =
     (let (product, strike, expiry, rt) = found
      in \<lparr>c_instrument_id = iid, c_kind = OptionKind, c_symbol = ''HXE'' @ ie_yymm I now,
          c_local_symbol = product @ ie_day_text I expiry @ [right_as_char rt] @ ie_strike_text I strike,
          c_expiry = expiry, c_strike = Some strike, c_right = Some rt, c_multiplier = lit 25000,
          c_exchange = Comex, c_currency = Usd\<rparr>)"

definition command_side :: "string \<Rightarrow> side" where
  "command_side s = (if s = ''BUY'' then Buy else Sell)"

definition command_order_type :: "string \<Rightarrow> order_type" where
  "command_order_type s = (if s = ''market'' then Market else Limit)"

definition command_tif :: "string \<Rightarrow> time_in_force" where
  "command_tif s =
     (if s = ''IOC'' then Ioc else if s = ''DAY'' then Day else if s = ''GTC'' then Gtc else Gtd)"

definition seconds_from :: "date_time \<Rightarrow> int \<Rightarrow> date_time" where
  "seconds_from now s = now + s * 10 ^ 9"

definition command_order ::
  "daemon_config \<Rightarrow> date_time \<Rightarrow> place_order_cmd \<Rightarrow> contract \<Rightarrow> place_order_req" where
  "command_order cfg now cmd c =
     (let tif = command_tif (poc_tif cmd)
      in \<lparr>po_contract = c, po_side = command_side (poc_side cmd), po_qty = poc_qty cmd,
          po_order_type = command_order_type (poc_order_type cmd), po_price = Some (poc_price cmd), po_tif = tif,
          po_gtd_until_utc = (if tif = Gtd
             then Some (seconds_from now (case poc_gtd_seconds cmd of Some s \<Rightarrow> s | None \<Rightarrow> 30)) else None),
          po_client_order_ref = (case poc_client_order_ref cmd of Some r \<Rightarrow> r | None \<Rightarrow> []),
          po_account = Some (case bk_ibkr (dc_broker cfg) of Some ib \<Rightarrow> ib_account ib | None \<Rightarrow> [])\<rparr>)"

definition handle_place ::
  "gateway_env \<Rightarrow> network \<Rightarrow> ipc_env \<Rightarrow> date_time \<Rightarrow> byte list \<Rightarrow> runtime \<Rightarrow> runtime" where
  "handle_place E N I now body rt =
     (case Option.bind (ie_unpack I body) decode_place_order of
        None \<Rightarrow> rt
      | Some cmd \<Rightarrow>
          if rt_mode rt = ShadowMode then rt
          else
            (case find_option (rt_market_data rt) (poc_instrument_id cmd)
                    (registry_products (registry (rt_portfolio rt))) of
               None \<Rightarrow> rt
             | Some found \<Rightarrow>
                 let c = option_contract I now (poc_instrument_id cmd) found
                 in rt\<lparr>rt_broker :=
                      snd (gateway_place_order E N (command_order (rt_config rt) now cmd c) (rt_broker rt))\<rparr>))"

definition handle_cancel ::
  "gateway_env \<Rightarrow> network \<Rightarrow> ipc_env \<Rightarrow> byte list \<Rightarrow> runtime \<Rightarrow> runtime" where
  "handle_cancel E N I body rt =
     (case Option.bind (ie_unpack I body) decode_cancel_order of
        None \<Rightarrow> rt
      | Some cmd \<Rightarrow>
          if rt_mode rt = ShadowMode then rt
          else rt\<lparr>rt_broker := snd (gateway_cancel_order E N (coc_order_id cmd) (rt_broker rt))\<rparr>)"

definition handle_modify ::
  "gateway_env \<Rightarrow> network \<Rightarrow> ipc_env \<Rightarrow> date_time \<Rightarrow> byte list \<Rightarrow> runtime \<Rightarrow> runtime" where
  "handle_modify E N I now body rt =
     (case Option.bind (ie_unpack I body) decode_modify_order of
        None \<Rightarrow> rt
      | Some cmd \<Rightarrow>
          if rt_mode rt = ShadowMode then rt
          else
            let req = \<lparr>mo_price = moc_price cmd, mo_qty = moc_qty cmd,
                       mo_gtd_until_utc = map_option (seconds_from now) (moc_gtd_seconds cmd)\<rparr>
            in rt\<lparr>rt_broker := snd (gateway_modify_order E N (moc_order_id cmd) req (rt_broker rt))\<rparr>)"

definition dispatch_command ::
  "gateway_env \<Rightarrow> network \<Rightarrow> ipc_env \<Rightarrow> date_time \<Rightarrow> server_command \<Rightarrow> runtime \<Rightarrow> runtime" where
  "dispatch_command E N I now cmd rt =
     (if sc_kind cmd = ''place_order'' then handle_place E N I now (sc_body cmd) rt
      else if sc_kind cmd = ''cancel_order'' then handle_cancel E N I (sc_body cmd) rt
      else if sc_kind cmd = ''modify_order'' then handle_modify E N I now (sc_body cmd) rt
      else rt)"

section \<open>Events\<close>

text \<open>A message that does not encode is not sent; one that finds the ring full is dropped.\<close>

definition publish_event :: "ipc_env \<Rightarrow> wire_map \<Rightarrow> ring \<Rightarrow> ring" where
  "publish_event I m g = (case ie_pack I m of Some body \<Rightarrow> fst (shm_publish body g) | None \<Rightarrow> g)"

definition forward_fill :: "ipc_env \<Rightarrow> fill \<Rightarrow> ring \<Rightarrow> ring" where
  "forward_fill I f g = publish_event I (fill_wire f) g"

definition forward_status :: "ipc_env \<Rightarrow> order_status_update \<Rightarrow> ring \<Rightarrow> ring" where
  "forward_status I u g = publish_event I (order_status_wire u) g"

definition forward_connection :: "ipc_env \<Rightarrow> connection_event \<Rightarrow> ring \<Rightarrow> ring" where
  "forward_connection I ev g = publish_event I (connection_wire ev) g"

section \<open>Ticks\<close>

type_synonym tick_cache = "(instrument_id, consolidated_tick) hmap"

definition consumable :: "tick_kind \<Rightarrow> bool" where
  "consumable k \<longleftrightarrow> k \<in> {BidTick, AskTick, BidSizeTick, AskSizeTick}"

definition fresh_tick :: "ipc_env \<Rightarrow> option_meta \<Rightarrow> consolidated_tick" where
  "fresh_tick I meta =
     \<lparr>ct_expiry = ie_ymd I (om_expiry meta), ct_right = (case om_right meta of Call \<Rightarrow> ''C'' | Put \<Rightarrow> ''P''),
      ct_strike = om_strike meta, ct_bid = None, ct_ask = None, ct_bid_size = None, ct_ask_size = None\<rparr>"

definition size_as_i32 :: "tick \<Rightarrow> int option" where
  "size_as_i32 t = map_option wrap_i32 (t_size t)"

definition merge_tick :: "tick \<Rightarrow> consolidated_tick \<Rightarrow> consolidated_tick" where
  "merge_tick t e =
     (case t_kind t of
        BidTick \<Rightarrow> e\<lparr>ct_bid := t_price t\<rparr>
      | AskTick \<Rightarrow> e\<lparr>ct_ask := t_price t\<rparr>
      | BidSizeTick \<Rightarrow> e\<lparr>ct_bid_size := size_as_i32 t\<rparr>
      | AskSizeTick \<Rightarrow> e\<lparr>ct_ask_size := size_as_i32 t\<rparr>
      | _ \<Rightarrow> e)"

text \<open>The entry a tick leads to, if it is one the trader consumes on a registered option.\<close>

definition consolidate :: "ipc_env \<Rightarrow> market_data_state \<Rightarrow> tick \<Rightarrow> tick_cache \<Rightarrow> consolidated_tick option" where
  "consolidate I md t cache =
     (if \<not> consumable (t_kind t) then None
      else
        (case md_option_meta md (t_instrument_id t) of
           None \<Rightarrow> None
         | Some meta \<Rightarrow>
             Some (merge_tick t (case hm_get cache (t_instrument_id t) of
                                   Some e \<Rightarrow> e | None \<Rightarrow> fresh_tick I meta))))"

text \<open>The publisher closure of the fast path, and the pump of adapters without one.\<close>

definition publish_tick ::
  "ipc_env \<Rightarrow> market_data_state \<Rightarrow> tick \<Rightarrow> tick_cache \<times> ring \<Rightarrow> tick_cache \<times> ring" where
  "publish_tick I md t st =
     (case consolidate I md t (fst st) of
        None \<Rightarrow> st
      | Some e \<Rightarrow>
          (hm_insert (t_instrument_id t) e (fst st),
           publish_event I (tick_wire (t_timestamp_ns t) e) (snd st)))"

definition forward_tick ::
  "ipc_env \<Rightarrow> market_data_state \<Rightarrow> tick \<Rightarrow> tick_cache \<times> ring \<Rightarrow> tick_cache \<times> ring" where
  "forward_tick I md t st =
     (if t_kind t = LastTick \<or> t_kind t = VolumeTick then st
      else
        (case md_option_meta md (t_instrument_id t) of
           None \<Rightarrow> st
         | Some meta \<Rightarrow>
             let (cache, g) = st;
                 e = merge_tick t (case hm_get cache (t_instrument_id t) of
                                     Some e \<Rightarrow> e | None \<Rightarrow> fresh_tick I meta)
             in (hm_insert (t_instrument_id t) e cache, publish_event I (tick_wire (t_timestamp_ns t) e) g)))"

text \<open>The native adapter always takes the publisher.\<close>

definition install_tick_fastpath :: "runtime \<Rightarrow> runtime" where
  "install_tick_fastpath rt = rt\<lparr>rt_broker := set_tick_publisher (rt_broker rt)\<rparr>"

section \<open>Risk state\<close>

text \<open>The maintenance margin is what the adapter answers within the time limit, and zero
  otherwise.\<close>

definition risk_state ::
  "date_time \<Rightarrow> bool \<Rightarrow> runtime \<Rightarrow> risk_state_msg" where
  "risk_state now in_time rt =
     (let p = rt_portfolio rt;
          tot = ag_total (aggregate p);
          options_delta = pg_net_delta tot;
          hedge_delta = wrap_i32 (sum_list (map mgr_hedge_qty (rt_hedge rt)));
          margin_usd = (if in_time then as_maintenance_margin (broker_account_values now (rt_broker rt)) else fzero);
          capital = cs_capital (dc_constraints (rt_config rt))
      in \<lparr>rk_margin_usd = margin_usd,
          rk_margin_pct = (if fgt capital fzero then fdiv margin_usd capital else fzero),
          rk_options_delta = options_delta, rk_hedge_delta = hedge_delta,
          rk_effective_delta = fadd options_delta (of_i hedge_delta), rk_theta = pg_net_theta tot,
          rk_vega = pg_net_vega tot, rk_gamma = pg_net_gamma tot,
          rk_total_contracts = sum_list (map (\<lambda>pos. wrap_i32 \<bar>p_quantity pos\<bar>) (positions p)),
          rk_n_positions = pg_gross_positions tot\<rparr>)"

definition periodic_risk_state ::
  "ipc_env \<Rightarrow> date_time \<Rightarrow> int \<Rightarrow> bool \<Rightarrow> runtime \<Rightarrow> ring \<Rightarrow> ring" where
  "periodic_risk_state I now now_ns in_time rt g =
     publish_event I (risk_state_wire now_ns (risk_state now in_time rt)) g"


section \<open>Lemmas\<close>

lemma fold_idle: "\<forall>x \<in> set xs. f x s = s \<Longrightarrow> fold f xs s = s"
  by (induction xs) simp_all

lemma trader_command_ignored:
  assumes "ie_unpack I (sc_body cmd) = Some (command_wire c)"
  shows "dispatch_command E N I now cmd rt = rt"
proof -
  have "decode_place_order (cancel_order_wire cn) = None" "decode_modify_order (cancel_order_wire cn) = None"
    "decode_cancel_order (place_order_wire p) = None" "decode_modify_order (place_order_wire p) = None" for cn p
    by (simp_all add: decode_place_order_def decode_cancel_order_def decode_modify_order_def place_order_wire_def
        cancel_order_wire_def required_def)
  then show ?thesis using assms trader_commands_lack_fields
    by (cases c) (simp_all add: dispatch_command_def handle_place_def handle_cancel_def handle_modify_def)
qed

lemma shadow_ignores_commands: "rt_mode rt = ShadowMode \<Longrightarrow> dispatch_command E N I now cmd rt = rt"
  by (auto simp: dispatch_command_def handle_place_def handle_cancel_def handle_modify_def split: option.split)

lemma dispatch_frame:
  "rt_market_data (dispatch_command E N I now cmd rt) = rt_market_data rt"
  "rt_portfolio (dispatch_command E N I now cmd rt) = rt_portfolio rt"
  "rt_hedge (dispatch_command E N I now cmd rt) = rt_hedge rt"
  "rt_risk (dispatch_command E N I now cmd rt) = rt_risk rt"
  "rt_config (dispatch_command E N I now cmd rt) = rt_config rt"
  "rt_mode (dispatch_command E N I now cmd rt) = rt_mode rt"
  by (auto simp: dispatch_command_def handle_place_def handle_cancel_def handle_modify_def Let_def
      split: option.split)

lemma forward_tick_is_publish_tick: "forward_tick I md t st = publish_tick I md t st"
  by (cases "t_kind t")
    (auto simp: forward_tick_def publish_tick_def consolidate_def consumable_def Let_def split: option.split prod.split)

text \<open>The last tick of one kind on an instrument.\<close>

definition last_tick :: "tick_kind \<Rightarrow> instrument_id \<Rightarrow> tick list \<Rightarrow> tick option" where
  "last_tick k iid ts = find (\<lambda>t. t_kind t = k \<and> t_instrument_id t = iid) (rev ts)"

definition latest_quote :: "ipc_env \<Rightarrow> option_meta \<Rightarrow> instrument_id \<Rightarrow> tick list \<Rightarrow> consolidated_tick" where
  "latest_quote I meta iid ts =
     (fresh_tick I meta)
       \<lparr>ct_bid := Option.bind (last_tick BidTick iid ts) t_price,
        ct_ask := Option.bind (last_tick AskTick iid ts) t_price,
        ct_bid_size := Option.bind (last_tick BidSizeTick iid ts) size_as_i32,
        ct_ask_size := Option.bind (last_tick AskSizeTick iid ts) size_as_i32\<rparr>"

lemma last_tick_snoc:
  "last_tick k iid (ts @ [t]) = (if t_kind t = k \<and> t_instrument_id t = iid then Some t else last_tick k iid ts)"
  by (simp add: last_tick_def)

lemma latest_quote_snoc:
  assumes "consumable (t_kind t)" "t_instrument_id t = iid"
  shows "latest_quote I meta iid (ts @ [t]) = merge_tick t (latest_quote I meta iid ts)"
  using assms by (cases "t_kind t") (simp_all add: latest_quote_def merge_tick_def last_tick_snoc consumable_def)

lemma latest_quote_skip:
  "\<not> (consumable (t_kind t) \<and> t_instrument_id t = iid) \<Longrightarrow>
   latest_quote I meta iid (ts @ [t]) = latest_quote I meta iid ts"
  by (auto simp: latest_quote_def last_tick_snoc consumable_def)

lemma latest_quote_nil: "latest_quote I meta iid [] = fresh_tick I meta"
  by (simp add: latest_quote_def last_tick_def fresh_tick_def)

text \<open>The cache holds, for every instrument with a consumable tick, its latest quote.\<close>

lemma tick_cache_latest:
  assumes "md_option_meta md iid = Some meta"
  shows "(case hm_get (fst (fold (publish_tick I md) ts (hm_new, g))) iid of
            Some e \<Rightarrow> e | None \<Rightarrow> fresh_tick I meta) = latest_quote I meta iid ts"
proof (induction ts rule: rev_induct)
  case Nil
  then show ?case by (simp add: latest_quote_nil hm_get_def hm_new_def)
next
  case (snoc t ts)
  show ?case
  proof (cases "consumable (t_kind t) \<and> t_instrument_id t = iid")
    case True
    define st where "st = fold (publish_tick I md) ts (hm_new, g)"
    have "consolidate I md t (fst st) = Some (merge_tick t (latest_quote I meta iid ts))"
      using True assms snoc.IH by (simp add: consolidate_def st_def)
    then have "hm_get (fst (publish_tick I md t st)) iid = Some (merge_tick t (latest_quote I meta iid ts))"
      using True by (simp add: publish_tick_def hm.get_insert)
    then show ?thesis using True by (simp add: latest_quote_snoc flip: st_def)
  next
    case False
    have "hm_get (fst (publish_tick I md t st)) iid = hm_get (fst st) iid" for st
      using False by (auto simp: publish_tick_def consolidate_def hm.get_insert split: option.split)
    with snoc.IH False show ?thesis by (simp add: latest_quote_skip)
  qed
qed

section \<open>Properties\<close>

text \<open>C20. No order or cancellation of the trader reaches the gateway: whatever commands wait in the
  ring, the pump delivers them all and the dispatcher leaves the daemon as it was, because the
  trader's messages carry neither the instrument number nor the order number under the names
  the broker requires. The codec is only assumed to read each body as the map it was made from.\<close>

theorem trader_commands_never_parse:
  assumes "shm_frames.pending g bodies"
    and "\<forall>body \<in> set bodies. \<exists>c. ie_unpack I body = Some (command_wire c)"
  shows "map sc_body (snd (command_pump_poll (extract_kind I) g)) = bodies \<and>
         fold (dispatch_command E N I now) (snd (command_pump_poll (extract_kind I) g)) rt = rt"
proof -
  let ?cmds = "snd (command_pump_poll (extract_kind I) g)"
  have b: "map sc_body ?cmds = bodies" using poll_delivers [OF assms(1)] by simp
  have "\<forall>cmd \<in> set ?cmds. dispatch_command E N I now cmd rt = rt"
  proof
    fix cmd assume "cmd \<in> set ?cmds"
    then have "sc_body cmd \<in> set bodies" unfolding b [symmetric] by simp
    with assms(2) trader_command_ignored show "dispatch_command E N I now cmd rt = rt" by blast
  qed
  then have "fold (dispatch_command E N I now) ?cmds rt = rt" by (rule fold_idle)
  with b show ?thesis by simp
qed

definition demo_cancel :: trader_command where
  "demo_cancel = CancelOrder \<lparr>cn_ts_ns = 0, cn_order_id = 7\<rparr>"

definition demo_ipc :: ipc_env where
  "demo_ipc =
     \<lparr>ie_unpack = (\<lambda>body. if body = [1] then Some (command_wire demo_cancel) else None), ie_pack = (\<lambda>m. Some [1]),
      ie_yymm = (\<lambda>now. ''2606''), ie_day_text = (\<lambda>d. ''2026-06-25''), ie_ymd = (\<lambda>d. ''20260625''),
      ie_strike_text = (\<lambda>k. ''6.000'')\<rparr>"

theorem trader_commands_never_parse_witness:
  "fold (dispatch_command demo_gateway_env silent_network demo_ipc 0)
     (snd (command_pump_poll (extract_kind demo_ipc) (fst (shm_publish [1] (create_owner 64))))) demo_rt = demo_rt \<and>
   rt_mode demo_rt = LiveMode"
proof -
  have a: "ring_ok (create_owner 64)" "written (create_owner 64) = 0" "queued (create_owner 64) = []"
    "rg_capacity (create_owner 64) = 64"
    using create_owner_ok [of 64] by simp_all
  have lf: "length (pack_frame [1]) = 5" by (simp add: pack_frame_def)
  have w: "written (create_owner 64) + length (pack_frame [1]) < 2 ^ 64" using a lf by simp
  have acc: "snd (shm_publish [1] (create_owner 64))"
    using write_frame_queue [OF a(1) w] a lf by (simp add: shm_publish_def Let_def)
  have "shm_frames.pending (fst (shm_publish [1] (create_owner 64))) ([] @ [[1]])"
    using publish_accepts [OF create_owner_pending [of 64], of "[1]"] a acc lf
    by (simp add: max_frame_bytes_def)
  from trader_commands_never_parse [of _ "[] @ [[1]]" demo_ipc, OF this]
  show ?thesis by (simp add: demo_ipc_def demo_rt_def) blast
qed

text \<open>C21. Every tick the trader is sent carries the whole quote: after any ticks, a bid, ask or size
  on a registered option with a finite strike is decoded by the trader as a tick of that option
  whose sides are the latest prices and sizes received, a price that is no finite number as
  missing.\<close>

theorem ticks_reach_trader:
  assumes "md_option_meta md (t_instrument_id t) = Some meta" "consumable (t_kind t)"
    and "is_finite (om_strike meta)" "0 \<le> t_timestamp_ns t" "t_timestamp_ns t < 2 ^ 64"
  shows "\<exists>e. consolidate I md t (fst (fold (publish_tick I md) ts (hm_new, g))) = Some e \<and>
     trader_decode (tick_wire (t_timestamp_ns t) e) =
       Some (Some (t_timestamp_ns t), EvTick (tick_of_wire (latest_quote I meta (t_instrument_id t) (ts @ [t]))))"
proof -
  let ?e = "latest_quote I meta (t_instrument_id t) (ts @ [t])"
  have c: "consolidate I md t (fst (fold (publish_tick I md) ts (hm_new, g))) = Some ?e"
    using assms(1,2) tick_cache_latest [OF assms(1), of I ts g]
    by (simp add: consolidate_def latest_quote_snoc)
  have "- (2 ^ 31) \<le> n \<and> n < 2 ^ 31" if n: "Option.bind x size_as_i32 = Some n" for n x
  proof -
    obtain k where "n = wrap_i32 k"
      using n by (auto simp: size_as_i32_def bind_eq_Some_conv)
    then show ?thesis using in_i32_wrap [of k] by (simp add: in_i32_def)
  qed
  then have "trader_decode (tick_wire (t_timestamp_ns t) ?e) = Some (Some (t_timestamp_ns t), EvTick (tick_of_wire ?e))"
    using assms(3-5) by (intro tick_round_trip) (simp_all add: latest_quote_def fresh_tick_def)
  with c show ?thesis by blast
qed

definition demo_bid_tick :: tick where
  "demo_bid_tick = \<lparr>t_instrument_id = 42, t_kind = BidTick, t_price = Some (lit (1 / 25)), t_size = Some 5, t_timestamp_ns = 1\<rparr>"

theorem ticks_reach_trader_witness:
  "\<exists>tm. trader_decode (tick_wire 2 (the (consolidate demo_ipc (rt_market_data demo_listed)
        (demo_bid_tick\<lparr>t_kind := AskTick, t_timestamp_ns := 2\<rparr>)
        (fst (fold (publish_tick demo_ipc (rt_market_data demo_listed)) [demo_bid_tick] (hm_new, create_owner 64)))))) =
      Some (Some 2, EvTick tm) \<and> tm_bid tm = json_f64 (Some (lit (1 / 25))) \<and> tm_ask tm = json_f64 (Some (lit (1 / 25)))"
proof -
  let ?md = "rt_market_data demo_listed"
  let ?t = "demo_bid_tick\<lparr>t_kind := AskTick, t_timestamp_ns := 2\<rparr>"
  have m: "md_option_meta ?md (t_instrument_id ?t) =
      Some \<lparr>om_product = ''HG'', om_strike = Fin 6, om_expiry = 20600, om_right = Call\<rparr>"
    by (simp add: md_option_meta_def demo_listed_def demo_bid_tick_def register_option_def Let_def md_new_def
        hm.get_insert hm_get_def hm_new_def hm_insert_def option_key_of_def option_tick_new_def)
  have "\<exists>e. consolidate demo_ipc ?md ?t (fst (fold (publish_tick demo_ipc ?md) [demo_bid_tick] (hm_new, create_owner 64))) = Some e \<and>
     trader_decode (tick_wire (t_timestamp_ns ?t) e) =
       Some (Some (t_timestamp_ns ?t), EvTick (tick_of_wire (latest_quote demo_ipc
          \<lparr>om_product = ''HG'', om_strike = Fin 6, om_expiry = 20600, om_right = Call\<rparr> (t_instrument_id ?t) ([demo_bid_tick] @ [?t]))))"
    by (rule ticks_reach_trader [OF m]) (simp_all add: consumable_def demo_bid_tick_def)
  then show ?thesis
    by (auto simp: tick_of_wire_def latest_quote_def last_tick_def demo_bid_tick_def)
qed

text \<open>A kill at the daemon does not stop the orders of the trader: what a command does at the
  gateway does not depend on the kill switch, the gates, the hedge, the order book, the account
  or the kill files.\<close>

theorem commands_ignore_kill:
  "rt_broker (dispatch_command E N I now cmd
       (rt\<lparr>rt_risk := risk, rt_constraint := con, rt_hedge := fo, rt_oms := ob, rt_account := acct,
           rt_sentinels := dir\<rparr>)) =
     rt_broker (dispatch_command E N I now cmd rt)"
  by (auto simp: dispatch_command_def handle_place_def handle_cancel_def handle_modify_def Let_def
      split: option.split)

end
