(* ===== verification/Daemon_Feed.thy ===== *)
theory Daemon_Feed
  imports Daemon_Tasks Float_Bounds
begin

text \<open>
  The market data subscriptions of the daemon at boot (\<open>corsair_broker/src/subscriptions.rs\<close>) and the
  order in which the daemon starts (\<open>corsair_broker/src/main.rs\<close>): the front-month future of each
  enabled product is resolved and subscribed, its first price gives the strikes, and every option
  is qualified, registered and subscribed. The loop over the strikes may run forever and is a
  partial function. The wait for the first price is given what the other tasks do to the state
  between two of its looks, one entry per look until the deadline.
\<close>

section \<open>Strikes\<close>

definition round_to_increment :: "f64 \<Rightarrow> f64 \<Rightarrow> f64" where
  "round_to_increment v increment =
     (if fle increment fzero then v else fmul (fround (fdiv v increment)) increment)"

partial_function (option) strike_loop :: "f64 \<Rightarrow> f64 \<Rightarrow> f64 \<Rightarrow> f64 list option" where
  "strike_loop inc limit k =
     (if fle k limit
      then Option.bind (strike_loop inc limit (fadd k inc)) (\<lambda>ks. Some (round_to_increment k inc # ks))
      else Some [])"

definition generate_strikes :: "f64 \<Rightarrow> product_config \<Rightarrow> f64 list option" where
  "generate_strikes atm p =
     (let inc = pc_strike_increment p;
          lo = fmul (of_i (pc_quote_range_low p)) inc;
          hi = fmul (of_i (pc_quote_range_high p)) inc
      in strike_loop inc (fadd (fadd atm hi) (lit (1 / 10 ^ 9))) (fadd atm lo))"

section \<open>Contracts and subscriptions\<close>

datatype feed_error = FeBroker broker_error | FeEmptyChain string

definition resolve_underlying ::
  "gateway_env \<Rightarrow> network \<Rightarrow> naive_date \<Rightarrow> string \<Rightarrow> runtime \<Rightarrow> (feed_error + contract) \<times> runtime" where
  "resolve_underlying E N today symbol rt =
     (let q = \<lparr>cq_symbol = symbol, cq_exchange = Comex, cq_currency = Usd, cq_kind = Some Future,
               cq_min_expiry = Some today\<rparr>;
          (r, nb) = list_chain E N q (rt_broker rt);
          rt1 = rt\<lparr>rt_broker := nb\<rparr>
      in case r of
           Inl e \<Rightarrow> (Inl (FeBroker e), rt1)
         | Inr chain \<Rightarrow>
             (case sort_key c_expiry chain of
                [] \<Rightarrow> (Inl (FeEmptyChain symbol), rt1)
              | c # _ \<Rightarrow> (Inr c, rt1)))"

definition subscribe_instrument ::
  "gateway_env \<Rightarrow> network \<Rightarrow> instrument_id \<Rightarrow> string \<Rightarrow> runtime \<Rightarrow> (feed_error + unit) \<times> runtime" where
  "subscribe_instrument E N iid tag rt =
     (let (r, nb) = subscribe_ticks E (nw_fault N (rt_broker rt))
            \<lparr>ts_instrument_id = iid, ts_tick_by_tick = False, ts_consumer_tag = Some tag\<rparr> (rt_broker rt)
      in (case r of Inl e \<Rightarrow> Inl (FeBroker e) | Inr _ \<Rightarrow> Inr (), rt\<lparr>rt_broker := nb\<rparr>))"

fun wait_for_underlying :: "string \<Rightarrow> (runtime \<Rightarrow> runtime) list \<Rightarrow> runtime \<Rightarrow> f64 option \<times> runtime" where
  "wait_for_underlying product [] rt = (None, rt)"
| "wait_for_underlying product (others # looks) rt =
     (case md_underlying_price (rt_market_data rt) product of
        Some p \<Rightarrow> if fgt p fzero then (Some p, rt) else wait_for_underlying product looks (others rt)
      | None \<Rightarrow> wait_for_underlying product looks (others rt))"

definition pick_option_expiry :: "runtime \<Rightarrow> string \<Rightarrow> contract \<Rightarrow> naive_date" where
  "pick_option_expiry rt product underlying =
     (case positions_for_product (rt_portfolio rt) product of
        pos # _ \<Rightarrow> p_expiry pos
      | [] \<Rightarrow> c_expiry underlying)"

definition option_symbol_for :: "product_config \<Rightarrow> string" where
  "option_symbol_for p = (if pc_name p = ''HG'' then ''HXE'' else pc_name p)"

text \<open>The consumer tag prints the option; its text is a parameter.\<close>

definition qualify_and_subscribe ::
  "gateway_env \<Rightarrow> network \<Rightarrow> (f64 \<Rightarrow> naive_date \<Rightarrow> right \<Rightarrow> string) \<Rightarrow> product_config \<Rightarrow> f64 \<Rightarrow> naive_date \<Rightarrow> right \<Rightarrow>
   runtime \<Rightarrow> (feed_error + unit) \<times> runtime" where
  "qualify_and_subscribe E N tag p strike expiry r rt =
     (let q = \<lparr>oq_symbol = option_symbol_for p, oq_expiry = expiry, oq_strike = strike, oq_right = r,
               oq_exchange = Comex, oq_currency = Usd, oq_multiplier = pc_multiplier p\<rparr>;
          (res, nb) = qualify_option E N q (rt_broker rt);
          rt1 = rt\<lparr>rt_broker := nb\<rparr>
      in case res of
           Inl e \<Rightarrow> (Inl (FeBroker e), rt1)
         | Inr c \<Rightarrow>
             subscribe_instrument E N (c_instrument_id c) (tag strike expiry r)
               (rt1\<lparr>rt_market_data := register_option (pc_name p) strike expiry r (c_instrument_id c) (rt_market_data rt1)\<rparr>))"

definition subscribe_options ::
  "gateway_env \<Rightarrow> network \<Rightarrow> (f64 \<Rightarrow> naive_date \<Rightarrow> right \<Rightarrow> string) \<Rightarrow> product_config \<Rightarrow> naive_date \<Rightarrow> f64 list \<Rightarrow>
   runtime \<Rightarrow> runtime" where
  "subscribe_options E N tag p expiry strikes rt =
     fold (\<lambda>strike rt. fold (\<lambda>r rt. snd (qualify_and_subscribe E N tag p strike expiry r rt)) [Call, Put] rt) strikes rt"

text \<open>One product. The outer \<open>None\<close> is a loop over the strikes that does not end.\<close>

definition subscribe_product ::
  "gateway_env \<Rightarrow> network \<Rightarrow> (f64 \<Rightarrow> naive_date \<Rightarrow> right \<Rightarrow> string) \<Rightarrow> naive_date \<Rightarrow> (runtime \<Rightarrow> runtime) list \<Rightarrow>
   product_config \<Rightarrow> runtime \<Rightarrow> ((feed_error + unit) \<times> runtime) option" where
  "subscribe_product E N tag today looks p rt =
     (case resolve_underlying E N today (pc_name p) rt of
        (Inl e, rt1) \<Rightarrow> Some (Inl e, rt1)
      | (Inr underlying, rt1) \<Rightarrow>
          let rt2 = rt1\<lparr>rt_market_data := register_underlying (pc_name p) (c_instrument_id underlying) (rt_market_data rt1)\<rparr>
          in (case subscribe_instrument E N (c_instrument_id underlying) ''underlying'' rt2 of
                (Inl e, rt3) \<Rightarrow> Some (Inl e, rt3)
              | (Inr _, rt3) \<Rightarrow>
                  (case wait_for_underlying (pc_name p) looks rt3 of
                     (None, rt4) \<Rightarrow> Some (Inr (), rt4)
                   | (Some price, rt4) \<Rightarrow>
                       (case generate_strikes (round_to_increment price (pc_strike_increment p)) p of
                          None \<Rightarrow> None
                        | Some strikes \<Rightarrow>
                            Some (Inr (), subscribe_options E N tag p
                              (pick_option_expiry rt4 (pc_name p) underlying) strikes rt4)))))"

text \<open>Every enabled product in order; a failure of one is only logged.\<close>

definition subscribe_market_data ::
  "gateway_env \<Rightarrow> network \<Rightarrow> (f64 \<Rightarrow> naive_date \<Rightarrow> right \<Rightarrow> string) \<Rightarrow> naive_date \<Rightarrow> (runtime \<Rightarrow> runtime) list \<Rightarrow>
   runtime \<Rightarrow> runtime option" where
  "subscribe_market_data E N tag today looks rt =
     fold (\<lambda>p acc. Option.bind acc (\<lambda>rt. map_option snd (subscribe_product E N tag today looks p rt)))
       (filter pc_enabled (dc_products (rt_config rt))) (Some rt)"

text \<open>\<open>main\<close>: the runtime boots, then the subscriptions run; the bridge to the trader starts only when
  the environment asks for it.\<close>

definition ipc_enabled :: "string option \<Rightarrow> bool" where
  "ipc_enabled var = (case var of Some v \<Rightarrow> v = ''1'' \<or> map to_ascii_uppercase v = ''TRUE'' | None \<Rightarrow> False)"

definition daemon_boot ::
  "gateway_env \<Rightarrow> network \<Rightarrow> connect_io \<Rightarrow> daemon_config \<Rightarrow> string option \<Rightarrow> sentinel_files \<Rightarrow> naive_date \<Rightarrow>
   date_time \<Rightarrow> (f64 \<Rightarrow> naive_date \<Rightarrow> right \<Rightarrow> string) \<Rightarrow> (runtime \<Rightarrow> runtime) list \<Rightarrow> runtime_error + runtime option" where
  "daemon_boot E N io cfg shadow_var dir today now tag looks =
     and_then (runtime_new E N io cfg (runtime_mode_from_env shadow_var) dir today now)
       (\<lambda>rt. Inr (subscribe_market_data E N tag today looks rt))"

section \<open>The strikes lie on the grid\<close>

text \<open>An increment of a listed product: between a thousandth and four.\<close>

definition strike_step :: "f64 \<Rightarrow> bool" where
  "strike_step inc \<longleftrightarrow> is_finite inc \<and> 1 / 2 ^ 10 \<le> val inc \<and> val inc \<le> 4"

lemma strike_stepD:
  assumes "strike_step inc"
  shows "is_finite inc" "0 < val inc" "\<not> fle inc fzero" "1 / 2 ^ 10 \<le> val inc" "val inc \<le> 4"
  using assms by (auto simp: strike_step_def)

lemma round_on_grid:
  assumes "strike_step inc" "is_finite k" "\<bar>val k - of_int t * val inc\<bar> \<le> 300 * ulp" "\<bar>t\<bar> \<le> 2 ^ 20 + 200"
  shows "val (round_to_increment k inc) = val (fmul (of_i t) inc)"
proof -
  note inc = strike_stepD [OF assms(1)]
  have "\<bar>val k / val inc - of_int t\<bar> = \<bar>val k - of_int t * val inc\<bar> / val inc"
    using abs_scaled [OF inc(2), of "val k" "of_int t"] inc(2) by (simp add: field_simps abs_minus_commute)
  also have "\<dots> \<le> 300 * ulp / (1 / 2 ^ 10)"
    by (rule frac_le) (use assms(3) inc in \<open>auto simp: ulp_def\<close>)
  finally have q: "\<bar>val k / val inc - of_int t\<bar> \<le> 1 / 2 ^ 20" by (simp add: ulp_def)
  have "\<bar>of_int t :: rat\<bar> \<le> of_int (2 ^ 20 + 200)" unfolding of_int_abs [symmetric] of_int_le_iff using assms(4) .
  then have t: "\<bar>of_int t :: rat\<bar> \<le> 1048776" by simp
  have near: "\<bar>r - u\<bar> \<le> 1 / 2 ^ 20 \<Longrightarrow> \<bar>u\<bar> \<le> 1048776 \<Longrightarrow> \<bar>r\<bar> \<le> 2 ^ 21" for r u :: rat
    unfolding abs_le_iff by simp
  have "\<bar>val k / val inc\<bar> \<le> 2 ^ 21" by (rule near [OF q t])
  then have d: "is_finite (fdiv k inc)" "\<bar>val (fdiv k inc) - val k / val inc\<bar> \<le> 1 / 2 ^ 32"
    using fdiv_abs_error [of k inc] assms(2) inc by auto
  have "\<bar>val (fdiv k inc) - of_int t\<bar> < 1 / 2" using q d(2) unfolding abs_le_iff abs_less_iff by auto
  from fround_near_int [OF d(1) this] show ?thesis
    using inc assms(4) by (simp add: round_to_increment_def val_fmul)
qed

text \<open>The loop at the \<open>j\<close>-th grid point.\<close>

lemma strike_loop_on_grid:
  assumes inc: "strike_step inc" and limit: "is_finite limit"
    and lim: "\<bar>val limit - (of_int (m + high) * val inc + 1 / 10 ^ 9)\<bar> \<le> 6 * ulp"
    and m: "\<bar>of_int m * val inc\<bar> \<le> 2 ^ 10" "\<bar>m\<bar> \<le> 2 ^ 20" and b: "- 100 \<le> low" "high \<le> 100"
  shows "low \<le> j \<Longrightarrow> j \<le> max low (high + 1) \<Longrightarrow> is_finite k \<Longrightarrow>
    \<bar>val k - of_int (m + j) * val inc\<bar> \<le> of_int (j - low + 3) * ulp \<Longrightarrow>
    low \<le> 100 \<Longrightarrow>
    \<exists>ks. strike_loop inc limit k = Some ks \<and>
      map val ks = map (\<lambda>j. val (fmul (of_i (m + j)) inc)) [j..high]"
proof (induction "nat (high + 1 - j)" arbitrary: j k)
  case 0
  note i = strike_stepD [OF inc]
  have "of_int (m + high) * val inc + val inc \<le> of_int (m + j) * val inc"
    using 0 mult_right_mono [of "of_int (m + high + 1)" "of_int (m + j)" "val inc"] i(2)
    by (simp add: algebra_simps)
  moreover have "of_int (j - low + 3) * ulp \<le> 210 * ulp"
    using 0 b by (intro mult_right_mono) (auto simp: ulp_def)
  ultimately have "val limit < val k"
    using lim 0 i(4) unfolding abs_le_iff by (simp add: ulp_def)
  then show ?case using 0 limit by (simp add: strike_loop.simps [of inc limit k])
next
  case (Suc n)
  note i = strike_stepD [OF inc]
  have jh: "j \<le> high" using Suc(2) by linarith
  have le: "of_int (m + j) * val inc \<le> of_int (m + high) * val inc"
    using jh i(2) by (intro mult_right_mono) auto
  have ej: "of_int (j - low + 3) * ulp \<le> 210 * ulp"
    using Suc b jh by (intro mult_right_mono) (auto simp: ulp_def)
  have kl: "fle k limit"
    using lim Suc.prems(3,4) le ej limit unfolding abs_le_iff by (simp add: ulp_def)
  have jb: "\<bar>j\<bar> \<le> 100" using jh b Suc.prems by linarith
  have "\<bar>of_int j * val inc\<bar> \<le> 100 * 4"
    unfolding abs_mult using jb i by (intro mult_mono) auto
  then have "\<bar>val k + val inc\<bar> \<le> 2 ^ 11"
    using m(1) ej Suc.prems(4) i unfolding abs_le_iff by (simp add: ulp_def algebra_simps)
  from fadd_ulp [OF Suc.prems(3) i(1) this]
  have f: "is_finite (fadd k inc)" "\<bar>val (fadd k inc) - (val k + val inc)\<bar> \<le> ulp" by auto
  have "\<bar>val (fadd k inc) - of_int (m + (j + 1)) * val inc\<bar> \<le> of_int (j + 1 - low + 3) * ulp"
    using f(2) Suc.prems(4) unfolding abs_le_iff by (simp add: algebra_simps)
  moreover have n: "n = nat (high + 1 - (j + 1))" using Suc.hyps(2) by linarith
  ultimately obtain ks where ks: "strike_loop inc limit (fadd k inc) = Some ks"
    "map val ks = map (\<lambda>j. val (fmul (of_i (m + j)) inc)) [j + 1..high]"
    using Suc.hyps(1) [OF n _ _ f(1)] Suc.prems(1,5) jh by auto
  have "val (round_to_increment k inc) = val (fmul (of_i (m + j)) inc)"
    by (rule round_on_grid [OF inc Suc.prems(3)])
      (use Suc.prems(4) ej m(2) jb in \<open>auto simp: ulp_def\<close>)
  with ks kl jh show ?case by (simp add: strike_loop.simps [of inc limit k] upto_rec1)
qed

text \<open>C25. The float loop of \<open>generate_strikes\<close> ends and yields exactly the integer grid: for a positive
  price up to a thousand, an increment between a thousandth and four and a quoting range within a
  hundred steps, there is a strike index \<open>m\<close> nearest to the price such that the strikes are the
  increment times \<open>m + low, \<dots>, m + high\<close>, one per step, none lost or repeated to rounding in the
  accumulating \<open>k += inc\<close>.\<close>

theorem strikes_are_the_grid:
  assumes inc: "strike_step (pc_strike_increment p)"
    and price: "is_finite price" "0 < val price" "val price \<le> 1000"
    and range: "- 100 \<le> pc_quote_range_low p" "pc_quote_range_low p \<le> 100"
      "- 100 \<le> pc_quote_range_high p" "pc_quote_range_high p \<le> 100"
  shows "\<exists>m ks. generate_strikes (round_to_increment price (pc_strike_increment p)) p = Some ks \<and>
    \<bar>of_int m * val (pc_strike_increment p) - val price\<bar> \<le> (1 / 2 + 1 / 2 ^ 32) * val (pc_strike_increment p) \<and>
    map val ks = map (\<lambda>j. val (fmul (of_i (m + j)) (pc_strike_increment p)))
      [pc_quote_range_low p..pc_quote_range_high p]"
proof -
  define inc where "inc = pc_strike_increment p"
  define low where "low = pc_quote_range_low p"
  define high where "high = pc_quote_range_high p"
  have step: "strike_step inc" using inc by (simp add: inc_def)
  note i = strike_stepD [OF step]
  have bound: "\<bar>low\<bar> \<le> 100" "\<bar>high\<bar> \<le> 100" using range by (auto simp: low_def high_def abs_le_iff)
  have "val price / val inc \<le> 1000 / (1 / 2 ^ 10)" by (rule frac_le) (use price i in auto)
  then have q: "0 < val price / val inc" "val price / val inc \<le> 1024000" using price i by auto
  then have "\<bar>val price / val inc\<bar> \<le> 2 ^ 21" by simp
  then have d: "is_finite (fdiv price inc)" "\<bar>val (fdiv price inc) - val price / val inc\<bar> \<le> 1 / 2 ^ 32"
    using fdiv_abs_error [of price inc] price i by auto
  obtain m where m: "is_finite (fround (fdiv price inc))" "val (fround (fdiv price inc)) = of_int m"
    "\<bar>of_int m - val (fdiv price inc)\<bar> \<le> 1 / 2"
    using fround_int [OF d(1)] by blast
  have mq: "\<bar>of_int m - val price / val inc\<bar> \<le> 1 / 2 + 1 / 2 ^ 32" using m(3) d(2) unfolding abs_le_iff by linarith
  have "\<bar>of_int m * val inc - val price\<bar> = \<bar>of_int m - val price / val inc\<bar> * val inc"
    using abs_scaled [OF i(2), of "val price" "of_int m"] by (simp add: abs_minus_commute)
  then have near: "\<bar>of_int m * val inc - val price\<bar> \<le> (1 / 2 + 1 / 2 ^ 32) * val inc"
    using mq i(2) by (simp add: mult_right_mono)
  have "(1 / 2 + 1 / 2 ^ 32) * val inc \<le> (1 / 2 + 1 / 2 ^ 32) * 4" using i(5) by (intro mult_left_mono) auto
  then have mi: "\<bar>of_int m * val inc\<bar> \<le> 2 ^ 10" using near price unfolding abs_le_iff by simp
  have small: "\<bar>u - r\<bar> \<le> 1 / 2 + 1 / 2 ^ 32 \<Longrightarrow> 0 < r \<Longrightarrow> r \<le> 1024000 \<Longrightarrow> \<bar>u\<bar> \<le> 2 ^ 20" for r u :: rat
    unfolding abs_le_iff by auto
  have "\<bar>of_int m :: rat\<bar> \<le> of_int (2 ^ 20)" using small [OF mq q] by simp
  then have mb: "\<bar>m\<bar> \<le> 2 ^ 20" unfolding of_int_abs [symmetric] of_int_le_iff .
  define atm where "atm = round_to_increment price inc"
  have atm: "is_finite atm" "\<bar>val atm - of_int m * val inc\<bar> \<le> ulp"
    using fmul_ulp [OF m(1) i(1)] mi i(3) by (auto simp: atm_def round_to_increment_def m(2))
  have off: "is_finite (fmul (of_i t) inc) \<and> \<bar>val (fmul (of_i t) inc) - of_int t * val inc\<bar> \<le> ulp \<and>
      \<bar>of_int t * val inc\<bar> \<le> 400"
    if t: "\<bar>t\<bar> \<le> 100" for t
  proof -
    have "\<bar>of_int t * val inc\<bar> \<le> 100 * 4" unfolding abs_mult using t i by (intro mult_mono) auto
    then show ?thesis using fmul_ulp [of "of_i t" inc] i(1) t by auto
  qed
  define lo where "lo = fmul (of_i low) inc"
  define hi where "hi = fmul (of_i high) inc"
  have lo: "is_finite lo" "\<bar>val lo - of_int low * val inc\<bar> \<le> ulp" "\<bar>of_int low * val inc\<bar> \<le> 400"
    using off [OF bound(1)] by (auto simp: lo_def)
  have hi: "is_finite hi" "\<bar>val hi - of_int high * val inc\<bar> \<le> ulp" "\<bar>of_int high * val inc\<bar> \<le> 400"
    using off [OF bound(2)] by (auto simp: hi_def)
  have nano: "is_finite (lit (1 / 10 ^ 9)) \<and> \<bar>val (lit (1 / 10 ^ 9)) - 1 / 10 ^ 9\<bar> \<le> ulp"
    unfolding lit_def by (rule rnd_ulp) simp
  define eps where "eps = lit (1 / 10 ^ 9)"
  have eps: "is_finite eps" "\<bar>val eps - 1 / 10 ^ 9\<bar> \<le> ulp" using nano by (auto simp: eps_def)
  have "\<bar>val atm + val lo\<bar> \<le> 2 ^ 11" using atm(2) lo(2,3) mi unfolding abs_le_iff by (simp add: ulp_def)
  from fadd_ulp [OF atm(1) lo(1) this]
  have k0: "is_finite (fadd atm lo)" "\<bar>val (fadd atm lo) - (val atm + val lo)\<bar> \<le> ulp" by auto
  have "\<bar>val atm + val hi\<bar> \<le> 2 ^ 11" using atm(2) hi(2,3) mi unfolding abs_le_iff by (simp add: ulp_def)
  from fadd_ulp [OF atm(1) hi(1) this]
  have top: "is_finite (fadd atm hi)" "\<bar>val (fadd atm hi) - (val atm + val hi)\<bar> \<le> ulp" by auto
  have "\<bar>val (fadd atm hi) + val eps\<bar> \<le> 2 ^ 11"
    using top(2) atm(2) hi(2,3) mi eps(2) unfolding abs_le_iff by (simp add: ulp_def)
  from fadd_ulp [OF top(1) eps(1) this]
  have limit: "is_finite (fadd (fadd atm hi) eps)"
    "\<bar>val (fadd (fadd atm hi) eps) - (val (fadd atm hi) + val eps)\<bar> \<le> ulp" by auto
  have lim: "\<bar>val (fadd (fadd atm hi) eps) - (of_int (m + high) * val inc + 1 / 10 ^ 9)\<bar> \<le> 6 * ulp"
    using limit(2) top(2) atm(2) hi(2) eps(2) unfolding abs_le_iff by (simp add: ulp_def algebra_simps)
  have start: "\<bar>val (fadd atm lo) - of_int (m + low) * val inc\<bar> \<le> of_int (low - low + 3) * ulp"
    using k0(2) atm(2) lo(2) unfolding abs_le_iff by (simp add: algebra_simps)
  have "\<exists>ks. strike_loop inc (fadd (fadd atm hi) eps) (fadd atm lo) = Some ks \<and>
      map val ks = map (\<lambda>j. val (fmul (of_i (m + j)) inc)) [low..high]"
    by (rule strike_loop_on_grid [where low = low and j = low, OF step limit(1) lim mi mb])
      (use bound k0(1) start in \<open>auto simp: abs_le_iff\<close>)
  then show ?thesis
    using near unfolding generate_strikes_def Let_def
    unfolding inc_def [symmetric] low_def [symmetric] high_def [symmetric]
      atm_def [symmetric] lo_def [symmetric] hi_def [symmetric] eps_def [symmetric] by blast
qed


text \<open>Applied to a quarter-dollar increment around five, two steps either side.\<close>

definition demo_feed_product :: product_config where
  "demo_feed_product =
     \<lparr>pc_name = ''HG'', pc_multiplier = Fin 25000, pc_default_iv = Fin (1 / 4), pc_quote_range_low = - 2,
      pc_quote_range_high = 2, pc_strike_increment = Fin (1 / 4), pc_enabled = True\<rparr>"

lemma strikes_are_the_grid_witness:
  "\<exists>m ks. generate_strikes (round_to_increment (Fin 5) (pc_strike_increment demo_feed_product)) demo_feed_product = Some ks \<and>
    \<bar>of_int m * val (pc_strike_increment demo_feed_product) - val (Fin 5)\<bar>
      \<le> (1 / 2 + 1 / 2 ^ 32) * val (pc_strike_increment demo_feed_product) \<and>
    map val ks = map (\<lambda>j. val (fmul (of_i (m + j)) (pc_strike_increment demo_feed_product)))
      [pc_quote_range_low demo_feed_product..pc_quote_range_high demo_feed_product]"
  by (rule strikes_are_the_grid) (simp_all add: demo_feed_product_def strike_step_def)

section \<open>An increment of zero\<close>

lemma fadd_fzero_rep: "is_finite k \<Longrightarrow> rep (val k) \<Longrightarrow> is_finite (fadd k fzero) \<and> val (fadd k fzero) = val k"
  by (auto simp: fadd_finite rnd_exact)

lemma fle_val_left: "is_finite a \<Longrightarrow> is_finite b \<Longrightarrow> val a = val b \<Longrightarrow> fle a c = fle b c"
  by (cases a; cases b; cases c) (auto simp: fle_def)

lemma strike_loop_stuck:
  "strike_loop inc limit k = Some ks \<Longrightarrow>
   inc = fzero \<longrightarrow> is_finite k \<longrightarrow> rep (val k) \<longrightarrow> \<not> fle k limit"
proof (erule strike_loop.raw_induct [rotated], intro impI notI)
  fix loop :: "f64 \<Rightarrow> f64 \<Rightarrow> f64 \<Rightarrow> f64 list option" and inc limit k y
  assume ih: "\<And>i l k y. loop i l k = Some y \<Longrightarrow> i = fzero \<longrightarrow> is_finite k \<longrightarrow> rep (val k) \<longrightarrow> \<not> fle k l"
    and body: "(if fle k limit then Option.bind (loop inc limit (fadd k inc)) (\<lambda>ks. Some (round_to_increment k inc # ks))
                else Some []) = Some y"
    and prems: "inc = fzero" "is_finite k" "rep (val k)" and le: "fle k limit"
  have next_k: "is_finite (fadd k inc)" "val (fadd k inc) = val k" using fadd_fzero_rep prems by auto
  from body le obtain ks where "loop inc limit (fadd k inc) = Some ks" by (auto split: bind_splits)
  from ih [OF this] next_k prems have "\<not> fle (fadd k inc) limit" by simp
  then show False using le fle_val_left [OF next_k(1) prems(2) next_k(2)] by simp
qed

lemma zero_increment_loops:
  assumes inc: "pc_strike_increment p = fzero" and atm: "is_finite atm" "rep (val atm)"
    and range: "in_i32 (pc_quote_range_low p)" "in_i32 (pc_quote_range_high p)"
  shows "generate_strikes atm p = None"
proof -
  define lo where "lo = fadd atm (fmul (of_i (pc_quote_range_low p)) fzero)"
  define hi where "hi = fadd atm (fmul (of_i (pc_quote_range_high p)) fzero)"
  define eps where "eps = lit (1 / 10 ^ 9)"
  have flat: "is_finite (fadd atm (fmul (of_i n) fzero)) \<and> val (fadd atm (fmul (of_i n) fzero)) = val atm"
    if "in_i32 n" for n
    using atm that by (auto simp: fadd_finite fmul_finite rnd_exact)
  have lo: "is_finite lo" "val lo = val atm" using flat [OF range(1)] by (auto simp: lo_def)
  have hi: "is_finite hi" "val hi = val atm" using flat [OF range(2)] by (auto simp: hi_def)
  have "is_finite eps \<and> \<bar>val eps - 1 / 10 ^ 9\<bar> \<le> ulp"
    unfolding eps_def lit_def by (rule rnd_ulp) simp
  then have eps: "is_finite eps" "0 < val eps" by (auto simp: ulp_def abs_if split: if_splits)
  have "fle (rnd (val atm)) (rnd (val hi + val eps))" by (rule rnd_mono) (use hi eps in simp)
  then have "fle (Fin (val atm)) (fadd hi eps)" using hi eps atm by (auto simp: fadd_finite rnd_exact)
  then have "fle lo (fadd hi eps)" using fle_val_left [of lo "Fin (val atm)"] lo by simp
  then have "strike_loop fzero (fadd hi eps) lo \<noteq> Some ks" for ks
    using strike_loop_stuck [of fzero "fadd hi eps" lo ks] lo atm(2) by auto
  then have "strike_loop fzero (fadd hi eps) lo = None" by (cases "strike_loop fzero (fadd hi eps) lo") auto
  then show ?thesis
    unfolding generate_strikes_def Let_def inc lo_def [symmetric] hi_def [symmetric] eps_def [symmetric] .
qed

definition with_zero_increments :: "daemon_config \<Rightarrow> daemon_config" where
  "with_zero_increments cfg = cfg\<lparr>dc_products := map (pc_strike_increment_update (\<lambda>_. fzero)) (dc_products cfg)\<rparr>"

text \<open>A strike increment of zero hangs the boot: validation never looks at the increment, so an
  accepted configuration stays accepted with every increment zero, and then the loop of
  \<open>generate_strikes\<close> never ends for any of its products, at any finite price.\<close>

theorem zero_increment_never_ends:
  assumes "validate cfg = Inr ()" "is_finite price" "rep (val price)"
    and "\<And>p. p \<in> set (dc_products cfg) \<Longrightarrow> in_i32 (pc_quote_range_low p) \<and> in_i32 (pc_quote_range_high p)"
  shows "validate (with_zero_increments cfg) = Inr () \<and>
    (\<forall>p \<in> set (dc_products (with_zero_increments cfg)).
      generate_strikes (round_to_increment price (pc_strike_increment p)) p = None)"
proof (intro conjI ballI)
  show "validate (with_zero_increments cfg) = Inr ()"
    using assms(1) by (auto simp: validate_ok with_zero_increments_def)
  fix p
  assume "p \<in> set (dc_products (with_zero_increments cfg))"
  then show "generate_strikes (round_to_increment price (pc_strike_increment p)) p = None"
    using assms(2-4) by (auto simp: with_zero_increments_def round_to_increment_def intro!: zero_increment_loops)
qed

text \<open>Applied to a configuration of one product.\<close>

lemma zero_increment_never_ends_witness:
  "validate (with_zero_increments demo_config) = Inr () \<and>
   (\<forall>p \<in> set (dc_products (with_zero_increments demo_config)).
      generate_strikes (round_to_increment (Fin 5) (pc_strike_increment p)) p = None)"
proof -
  have v: "validate demo_config = Inr ()"
    using lit_int [of 200000] lit_int [of 25000] by (simp add: validate_ok demo_config_def)
  have r: "is_finite (Fin 5)" "rep (val (Fin 5))" using rep_of_int [of 5] by simp_all
  have i: "in_i32 (pc_quote_range_low p) \<and> in_i32 (pc_quote_range_high p)" if "p \<in> set (dc_products demo_config)" for p
    using that by (auto simp: demo_config_def in_i32_def)
  show ?thesis using zero_increment_never_ends [OF v r i] by blast
qed

section \<open>No subscription\<close>

text \<open>Qualifying a contract can only fail, so a product resolves nothing.\<close>

lemma resolve_underlying_fails:
  assumes "gateway_ok (rt_broker rt)"
  obtains e nb where "resolve_underlying E N today symbol rt = (Inl e, rt\<lparr>rt_broker := nb\<rparr>)" "gateway_ok nb"
  using list_chain_fails [OF assms] unfolding resolve_underlying_def Let_def
  by (metis (no_types, lifting) old.prod.case old.sum.simps(5) case_prod_conv)

lemma subscribe_product_fails:
  assumes "gateway_ok (rt_broker rt)"
  obtains e nb where "subscribe_product E N tag today looks p rt = Some (Inl e, rt\<lparr>rt_broker := nb\<rparr>)" "gateway_ok nb"
proof -
  obtain e nb where "resolve_underlying E N today (pc_name p) rt = (Inl e, rt\<lparr>rt_broker := nb\<rparr>)" "gateway_ok nb"
    using resolve_underlying_fails [OF assms] .
  then show ?thesis using that by (simp add: subscribe_product_def)
qed

lemma subscribe_market_data_idle:
  assumes "gateway_ok (rt_broker rt)"
  shows "\<exists>nb. subscribe_market_data E N tag today looks rt = Some (rt\<lparr>rt_broker := nb\<rparr>) \<and> gateway_ok nb"
proof -
  have "\<exists>nb. fold (\<lambda>p acc. Option.bind acc (\<lambda>rt. map_option snd (subscribe_product E N tag today looks p rt))) ps
      (Some rt) = Some (rt\<lparr>rt_broker := nb\<rparr>) \<and> gateway_ok nb" if "gateway_ok (rt_broker rt)" for ps rt
    using that
  proof (induction ps arbitrary: rt)
    case Nil
    then show ?case by (auto intro!: exI [of _ "rt_broker rt"])
  next
    case (Cons p ps)
    obtain e nb where "subscribe_product E N tag today looks p rt = Some (Inl e, rt\<lparr>rt_broker := nb\<rparr>)" "gateway_ok nb"
      using subscribe_product_fails [OF Cons.prems] .
    then show ?case using Cons.IH [of "rt\<lparr>rt_broker := nb\<rparr>"] by simp
  qed
  then show ?thesis using assms by (simp add: subscribe_market_data_def)
qed

end
