(* ===== verification/Vol_Surface.thy ===== *)
theory Vol_Surface
  imports Daemon_Ipc Calibrate Float_Bounds
begin

text \<open>
  The periodic fit of the volatility surface (\<open>corsair_broker/src/vol_surface.rs\<close>): per product the
  two-sided quotes of its options are turned into implied volatilities, grouped by expiry and
  calibrated, and each fit or failure is published to the trader. The clock is read once per
  product for the time to expiry and once per event for its stamp; both readings are arguments.
\<close>

section \<open>The chain of a product\<close>

type_synonym smile = "(f64 \<times> f64 \<times> f64) list"

definition surface_tte :: "date_time \<Rightarrow> naive_date \<Rightarrow> f64 option" where
  "surface_tte now expiry =
     (let secs = of_i (trunc (of_int ((expiry * 86400 + 20 * 3600) * 10 ^ 9 - now) / 10 ^ 9))
      in if fle secs fzero then None
         else Some (fdiv secs (fmul (fmul (lit (36525 / 100)) (lit 24)) (lit 3600))))"

definition right_text :: "right \<Rightarrow> string" where
  "right_text r = (case r of Call \<Rightarrow> ''C'' | Put \<Rightarrow> ''P'')"

text \<open>The volatility of one option at a mid price, when it is in range.\<close>

definition surface_iv :: "trader_libm \<Rightarrow> f64 \<Rightarrow> f64 \<Rightarrow> f64 \<Rightarrow> f64 \<Rightarrow> right \<Rightarrow> f64 option" where
  "surface_iv M m forward strike tte r =
     (case implied_vol M m forward strike tte fzero (right_text r) of
        Some v \<Rightarrow> if fgt v (lit (1 / 1000)) \<and> flt v (lit 5) then Some v else None
      | None \<Rightarrow> None)"

text \<open>The \<open>?\<close> on a missing mid price returns from the function, not from the iteration.\<close>

fun chain_loop ::
  "ipc_env \<Rightarrow> trader_libm \<Rightarrow> date_time \<Rightarrow> f64 \<Rightarrow> option_tick list \<Rightarrow> (string, smile) hmap \<Rightarrow>
   (string, smile) hmap option" where
  "chain_loop I M now forward [] acc = Some acc"
| "chain_loop I M now forward (opt # opts) acc =
     (case mid opt of
        None \<Rightarrow> None
      | Some m \<Rightarrow>
          if fle m fzero then chain_loop I M now forward opts acc
          else
            (case surface_tte now (ot_expiry opt) of
               None \<Rightarrow> chain_loop I M now forward opts acc
             | Some tte \<Rightarrow>
                 (case surface_iv M m forward (ot_strike opt) tte (ot_right opt) of
                    None \<Rightarrow> chain_loop I M now forward opts acc
                  | Some iv \<Rightarrow>
                      let e = ie_ymd I (ot_expiry opt);
                          old = (case hm_get acc e of Some smile \<Rightarrow> smile | None \<Rightarrow> [])
                      in chain_loop I M now forward opts
                           (hm_insert e (old @ [(ot_strike opt, iv, tte)]) acc))))"

definition snapshot_chain ::
  "ipc_env \<Rightarrow> trader_libm \<Rightarrow> date_time \<Rightarrow> market_data_state \<Rightarrow> string \<Rightarrow> (f64 \<times> (string, smile) hmap) option" where
  "snapshot_chain I M now md product =
     (case md_underlying_price md product of
        None \<Rightarrow> None
      | Some forward \<Rightarrow>
          if fle forward fzero then None
          else (case chain_loop I M now forward (options_for_product md product) hm_new of
                  None \<Rightarrow> None
                | Some by_expiry \<Rightarrow> if hm_len by_expiry = 0 then None else Some (forward, by_expiry)))"

section \<open>Fit and publish\<close>

datatype surface_outcome = NoSurface | SurfaceFit vol_surface_event | SurfaceFailed string nat

definition fit_expiry :: "trader_libm \<Rightarrow> f64 \<Rightarrow> string \<Rightarrow> smile \<Rightarrow> surface_outcome" where
  "fit_expiry M forward expiry_str smile =
     (if length smile < 3 then SurfaceFailed ''too_few_strikes'' (length smile)
      else
        let tte = snd (snd (hd smile)) in
        if \<not> fgt tte fzero then NoSurface
        else
          (case calibrate_sabr M forward tte (map fst smile) (map (\<lambda>(_, iv, _). iv) smile) None
                  (lit (1 / 2)) (lit (5 / 100)) of
             Some f \<Rightarrow>
               SurfaceFit \<lparr>vo_expiry = expiry_str, vo_side = ''BOTH'', vo_forward = forward, vo_alpha = sf_alpha f,
                 vo_beta = sf_beta f, vo_rho = sf_rho f, vo_nu = sf_nu f, vo_rmse = sf_rmse f,
                 vo_n_points = int (sf_n_points f)\<rparr>
           | None \<Rightarrow> SurfaceFailed ''fit_rejected'' (length smile)))"

text \<open>A failure that cannot be encoded is published as an empty frame.\<close>

definition publish_outcome :: "ipc_env \<Rightarrow> int \<Rightarrow> string \<Rightarrow> surface_outcome \<Rightarrow> ring \<Rightarrow> ring" where
  "publish_outcome I ts_ns expiry_str out g =
     (case out of
        NoSurface \<Rightarrow> g
      | SurfaceFit ev \<Rightarrow> publish_event I (vol_surface_wire ts_ns ev) g
      | SurfaceFailed reason n \<Rightarrow>
          fst (shm_publish (case ie_pack I (vol_surface_failed_wire ts_ns expiry_str reason (int n)) of
                              Some body \<Rightarrow> body | None \<Rightarrow> []) g))"

definition product_surfaces ::
  "ipc_env \<Rightarrow> trader_libm \<Rightarrow> date_time \<Rightarrow> runtime \<Rightarrow> string \<Rightarrow> (string \<times> surface_outcome) list" where
  "product_surfaces I M now rt product =
     (case snapshot_chain I M now (rt_market_data rt) product of
        None \<Rightarrow> []
      | Some (forward, groups) \<Rightarrow> map (\<lambda>(e, smile). (e, fit_expiry M forward e smile)) groups)"

definition fit_and_publish ::
  "ipc_env \<Rightarrow> trader_libm \<Rightarrow> (string \<Rightarrow> date_time) \<Rightarrow> (string \<Rightarrow> string \<Rightarrow> int) \<Rightarrow> runtime \<Rightarrow> ring \<Rightarrow> ring" where
  "fit_and_publish I M now stamp rt g =
     fold (\<lambda>product g.
         fold (\<lambda>(e, out) g. publish_outcome I (stamp product e) e out g)
           (product_surfaces I M (now product) rt product) g)
       (registry_products (registry (rt_portfolio rt))) g"

section \<open>Lemmas\<close>

text \<open>What the loop groups: options with a positive mid, a positive time to expiry and a volatility in
  range, in the order of the chain.\<close>

definition surface_point ::
  "trader_libm \<Rightarrow> date_time \<Rightarrow> f64 \<Rightarrow> option_tick \<Rightarrow> (f64 \<times> f64 \<times> f64) option" where
  "surface_point M now forward opt =
     (case mid opt of
        None \<Rightarrow> None
      | Some m \<Rightarrow>
          if fle m fzero then None
          else (case surface_tte now (ot_expiry opt) of
                  None \<Rightarrow> None
                | Some tte \<Rightarrow> map_option (\<lambda>iv. (ot_strike opt, iv, tte))
                               (surface_iv M m forward (ot_strike opt) tte (ot_right opt))))"

definition expiry_smile ::
  "ipc_env \<Rightarrow> trader_libm \<Rightarrow> date_time \<Rightarrow> f64 \<Rightarrow> option_tick list \<Rightarrow> string \<Rightarrow> smile" where
  "expiry_smile I M now forward opts e =
     List.map_filter (surface_point M now forward) (filter (\<lambda>opt. ie_ymd I (ot_expiry opt) = e) opts)"

lemma chain_loop_step:
  "chain_loop I M now forward (opt # opts) acc =
     (if mid opt = None then None
      else chain_loop I M now forward opts
        (case surface_point M now forward opt of
           None \<Rightarrow> acc
         | Some pt \<Rightarrow> hm_insert (ie_ymd I (ot_expiry opt))
             ((case hm_get acc (ie_ymd I (ot_expiry opt)) of Some smile \<Rightarrow> smile | None \<Rightarrow> []) @ [pt]) acc))"
  by (simp add: surface_point_def Let_def split: option.split)

lemma chain_loop_none: "chain_loop I M now forward opts acc = None \<longleftrightarrow> (\<exists>opt \<in> set opts. mid opt = None)"
  by (induction opts arbitrary: acc) (auto simp: chain_loop_step simp del: chain_loop.simps(2))

lemma chain_loop_groups:
  "chain_loop I M now forward opts acc = Some groups \<Longrightarrow> hm_ok acc \<Longrightarrow>
   hm_ok groups \<and> (\<forall>e. (case hm_get groups e of Some smile \<Rightarrow> smile | None \<Rightarrow> []) =
     (case hm_get acc e of Some smile \<Rightarrow> smile | None \<Rightarrow> []) @ expiry_smile I M now forward opts e)"
proof (induction opts arbitrary: acc)
  case Nil
  then show ?case by (simp add: expiry_smile_def map_filter_simps)
next
  case (Cons opt opts)
  let ?e = "ie_ymd I (ot_expiry opt)"
  define acc' where "acc' = (case surface_point M now forward opt of
      None \<Rightarrow> acc
    | Some pt \<Rightarrow> hm_insert ?e ((case hm_get acc ?e of Some smile \<Rightarrow> smile | None \<Rightarrow> []) @ [pt]) acc)"
  have loop: "chain_loop I M now forward opts acc' = Some groups"
    using Cons.prems(1) unfolding chain_loop_step acc'_def by (auto split: if_splits)
  have ok: "hm_ok acc'" using Cons.prems(2) by (auto simp: acc'_def hm.ok_insert split: option.split)
  show ?case
    using Cons.IH [OF loop ok] Cons.prems(2)
    by (auto simp: acc'_def expiry_smile_def map_filter_simps hm.get_insert split: option.splits)
qed


lemma chain_loop_nonempty:
  "chain_loop I M now forward opts acc = Some groups \<Longrightarrow> \<forall>e. hm_get acc e \<noteq> Some [] \<Longrightarrow> \<forall>e. hm_get groups e \<noteq> Some []"
proof (induction opts arbitrary: acc)
  case (Cons opt opts)
  let ?e = "ie_ymd I (ot_expiry opt)"
  define acc' where "acc' = (case surface_point M now forward opt of
      None \<Rightarrow> acc
    | Some pt \<Rightarrow> hm_insert ?e ((case hm_get acc ?e of Some smile \<Rightarrow> smile | None \<Rightarrow> []) @ [pt]) acc)"
  have loop: "chain_loop I M now forward opts acc' = Some groups"
    using Cons.prems(1) unfolding chain_loop_step acc'_def by (simp split: if_splits)
  have "\<forall>e. hm_get acc' e \<noteq> Some []"
    using Cons.prems(2) unfolding acc'_def by (cases "surface_point M now forward opt") (simp_all add: hm.get_insert)
  with Cons.IH [OF loop] show ?case by blast
qed simp

lemma chain_loop_exact:
  assumes "chain_loop I M now forward opts hm_new = Some groups"
  shows "hm_ok groups \<and> (\<forall>e. hm_get groups e =
     (let smile = expiry_smile I M now forward opts e in if smile = [] then None else Some smile))"
proof -
  have ok: "hm_ok groups"
    and g: "(case hm_get groups e of Some smile \<Rightarrow> smile | None \<Rightarrow> []) = expiry_smile I M now forward opts e" for e
    using chain_loop_groups [OF assms hm.ok_new] by (simp_all add: hm.get_new)
  have ne: "hm_get groups e \<noteq> Some []" for e
    using chain_loop_nonempty [OF assms] by (simp add: hm.get_new)
  have "hm_get groups e =
     (let smile = expiry_smile I M now forward opts e in if smile = [] then None else Some smile)" for e
    using g [of e] ne [of e] by (cases "hm_get groups e") (auto simp: Let_def)
  with ok show ?thesis by blast
qed

lemma underlying_positive: "md_underlying_price md product = Some p \<Longrightarrow> fgt p fzero"
  by (auto simp: md_underlying_price_def split: option.splits if_splits)

lemma snapshot_chain_some:
  assumes "snapshot_chain I M now md product = Some (forward, groups)"
  shows "md_underlying_price md product = Some forward \<and> fgt forward fzero \<and>
    chain_loop I M now forward (options_for_product md product) hm_new = Some groups"
  using assms underlying_positive by (auto simp: snapshot_chain_def split: option.splits if_splits)

text \<open>What one cycle fits is exactly the usable chain grouped by expiry: each group holds, in the
  order of the chain and one point per option, the strike, volatility and time to expiry of the
  options with a positive mid, an expiry to come and a volatility in range. There is nothing to
  fit only if the underlying has no price, some option has no two-sided quote, or no option of
  the product is usable.\<close>

theorem chain_is_grouped_by_expiry:
  "case snapshot_chain I M now md product of
     Some (forward, groups) \<Rightarrow>
       md_underlying_price md product = Some forward \<and> hm_ok groups \<and>
       \<not> (\<exists>opt \<in> set (options_for_product md product). mid opt = None) \<and>
       (\<forall>e. hm_get groups e =
          (let smile = expiry_smile I M now forward (options_for_product md product) e
           in if smile = [] then None else Some smile))
   | None \<Rightarrow>
       (case md_underlying_price md product of
          None \<Rightarrow> True
        | Some forward \<Rightarrow>
            (\<exists>opt \<in> set (options_for_product md product). mid opt = None) \<or>
            (\<forall>e. expiry_smile I M now forward (options_for_product md product) e = []))"
proof (cases "snapshot_chain I M now md product")
  case (Some fg)
  obtain forward groups where fg: "fg = (forward, groups)" by fastforce
  have c: "md_underlying_price md product = Some forward"
    "chain_loop I M now forward (options_for_product md product) hm_new = Some groups"
    using snapshot_chain_some Some fg by blast+
  moreover have "\<not> (\<exists>opt \<in> set (options_for_product md product). mid opt = None)"
    using c(2) chain_loop_none [of I M now forward "options_for_product md product" hm_new] by simp
  ultimately show ?thesis using chain_loop_exact [OF c(2)] Some fg by simp
next
  case None
  have "(\<exists>opt \<in> set (options_for_product md product). mid opt = None) \<or>
      (\<forall>e. expiry_smile I M now forward (options_for_product md product) e = [])"
    if u: "md_underlying_price md product = Some forward" for forward
  proof (cases "chain_loop I M now forward (options_for_product md product) hm_new")
    case (Some groups)
    have "\<not> fle forward fzero" using underlying_positive [OF u] by (simp add: fle_def)
    then have "groups = []"
      using None u Some by (auto simp: snapshot_chain_def hm_len_def split: if_splits)
    then have "hm_get groups e = None" for e by (simp add: hm_get_def)
    then show ?thesis using chain_loop_exact [OF Some] unfolding Let_def by (metis option.distinct(1))
  qed (use chain_loop_none in blast)
  then show ?thesis using None by (simp split: option.split)
qed

text \<open>One option without a two-sided quote silences its product: the function that takes the chain
  returns at the first missing mid price instead of skipping the option, so when every product has
  such an option a cycle publishes nothing, neither a surface nor a failure.\<close>

theorem one_dark_quote_silences_product:
  assumes "\<forall>product \<in> set (registry_products (registry (rt_portfolio rt))).
     \<exists>opt \<in> set (options_for_product (rt_market_data rt) product). mid opt = None"
  shows "fit_and_publish I M now stamp rt g = g"
proof -
  have "product_surfaces I M (now product) rt product = []"
    if "product \<in> set (registry_products (registry (rt_portfolio rt)))" for product
  proof -
    have "chain_loop I M (now product) forward (options_for_product (rt_market_data rt) product) hm_new = None" for forward
      using assms that unfolding chain_loop_none by blast
    then show ?thesis by (simp add: product_surfaces_def snapshot_chain_def split: option.split)
  qed
  then show ?thesis unfolding fit_and_publish_def by (intro fold_idle) auto
qed

text \<open>Whatever an expiry is fitted to, the event says BOTH for the side.\<close>

lemma fit_expiry_fit:
  assumes "fit_expiry M forward e smile = SurfaceFit ev"
  obtains f tte where "calibrate_sabr M forward tte (map fst smile) (map (\<lambda>(_, iv, _). iv) smile) None
      (lit (1 / 2)) (lit (5 / 100)) = Some f" "fgt tte fzero" "tte = snd (snd (hd smile))" "3 \<le> length smile"
    "ev = \<lparr>vo_expiry = e, vo_side = ''BOTH'', vo_forward = forward, vo_alpha = sf_alpha f,
                 vo_beta = sf_beta f, vo_rho = sf_rho f, vo_nu = sf_nu f, vo_rmse = sf_rmse f,
                 vo_n_points = int (sf_n_points f)\<rparr>"
  using assms unfolding fit_expiry_def Let_def by (auto split: if_splits option.splits)

lemma sabr_fit_points:
  "calibrate_sabr M f t strikes ivs w beta max_rmse = Some fit \<Longrightarrow> sf_n_points fit = length strikes \<and> sf_beta fit = beta"
  by (auto simp: calibrate_sabr_def Let_def split: if_splits option.splits)

text \<open>The upper bound of alpha depends on the smile: five times the first estimate, or ten.\<close>

definition alpha_bound :: "trader_libm \<Rightarrow> vol_surface_event \<Rightarrow> smile \<Rightarrow> f64" where
  "alpha_bound M ev smile =
     fmax (lit 10)
       (fmul (sabr_alpha_0 M (vo_forward ev) (map fst smile) (map (\<lambda>(_, iv, _). iv) smile) (vo_beta ev)) (lit 5))"

text \<open>C23. Every surface a cycle publishes for a product whose options all have a positive strike is
  usable: it is fitted to at least three options of its expiry at a positive forward; alpha, rho
  and nu all lie between their lower and their upper bound of the calibration (for alpha 0.0001
  and the larger of ten and five times the first estimate, for rho -0.999 and 0.999, for nu
  0.0001 and 5); its error is not above one twentieth; and it covers both sides under the name
  BOTH.\<close>

theorem published_surfaces_are_bounded:
  assumes "(e, SurfaceFit ev) \<in> set (product_surfaces I M now rt product)"
    and "\<forall>opt \<in> set (options_for_product (rt_market_data rt) product). fgt (ot_strike opt) fzero"
    and "smile = expiry_smile I M now (vo_forward ev) (options_for_product (rt_market_data rt) product) e"
  shows "vo_expiry ev = e \<and> vo_side ev = ''BOTH'' \<and> fgt (vo_forward ev) fzero \<and> vo_beta ev = lit (1 / 2) \<and>
     vo_n_points ev = int (length smile) \<and> 3 \<le> vo_n_points ev \<and>
     fle (lit (1 / 10000)) (vo_alpha ev) \<and> fle (vo_alpha ev) (alpha_bound M ev smile) \<and>
     fle (lit (- 999 / 1000)) (vo_rho ev) \<and> fle (vo_rho ev) (lit (999 / 1000)) \<and>
     fle (lit (1 / 10000)) (vo_nu ev) \<and> fle (vo_nu ev) (lit 5) \<and> \<not> fgt (vo_rmse ev) (lit (5 / 100))"
proof -
  let ?opts = "options_for_product (rt_market_data rt) product"
  obtain forward groups sm where snap: "snapshot_chain I M now (rt_market_data rt) product = Some (forward, groups)"
    and smile: "(e, sm) \<in> set groups" and fit: "fit_expiry M forward e sm = SurfaceFit ev"
  proof (cases "snapshot_chain I M now (rt_market_data rt) product")
    case None
    then show ?thesis using assms(1) by (simp add: product_surfaces_def)
  next
    case (Some fg)
    obtain forward groups where fg: "fg = (forward, groups)" by fastforce
    obtain smile where "(e, smile) \<in> set groups" "SurfaceFit ev = fit_expiry M forward e smile"
      using assms(1) unfolding product_surfaces_def Some fg by auto
    with that [of forward groups smile] show ?thesis using Some fg by simp
  qed
  note c = snapshot_chain_some [OF snap]
  have ok: "hm_ok groups" and get: "hm_get groups e =
     (let smile = expiry_smile I M now forward ?opts e in if smile = [] then None else Some smile)"
    using chain_loop_exact c by blast+
  have "hm_get groups e = Some sm" using ok smile by (simp add: hm_ok_def hm_get_def)
  with get have sm: "sm = expiry_smile I M now forward ?opts e" by (auto simp: Let_def split: if_splits)
  obtain f tte where cal: "calibrate_sabr M forward tte (map fst sm) (map (\<lambda>(_, iv, _). iv) sm) None
      (lit (1 / 2)) (lit (5 / 100)) = Some f" and tte: "fgt tte fzero" and len: "3 \<le> length sm"
    and ev: "ev = \<lparr>vo_expiry = e, vo_side = ''BOTH'', vo_forward = forward, vo_alpha = sf_alpha f,
                 vo_beta = sf_beta f, vo_rho = sf_rho f, vo_nu = sf_nu f, vo_rmse = sf_rmse f,
                 vo_n_points = int (sf_n_points f)\<rparr>"
    using fit_expiry_fit [OF fit] by metis
  have fwd: "forward \<noteq> NaN" "fgt forward fzero" using c flt_not_nan by blast+
  have pos: "fgt k fzero" if "k \<in> set (map fst sm)" for k
    using that assms(2) unfolding sm expiry_smile_def surface_point_def
    by (auto simp: List.map_filter_def split: option.splits if_splits)
  have "\<exists>k \<in> set (map fst sm). fgt k fzero" using pos len by (cases sm) auto
  moreover have "tte \<noteq> NaN" using tte flt_not_nan by blast
  ultimately show ?thesis
    using sabr_fit_bounds [OF cal _ _ fwd(1)] sabr_fit_points [OF cal] fwd(2) len assms(3)
    unfolding ev by (simp add: sm alpha_bound_def)
qed


text \<open>Applied to three calls above the forward, with functions that make the price a step in the volatility.\<close>

definition demo_surface_libm :: trader_libm where
  "demo_surface_libm =
     \<lparr>m_ln = \<lambda>_. fneg fone, m_exp = \<lambda>_. fone, m_sqrt = \<lambda>_. fzero,
      m_cdf = \<lambda>x. if fgt x fzero then Fin (p2 1021) else Fin (- 1 / 2),
      m_powf = \<lambda>x y. x, m_powi = \<lambda>x n. x\<rparr>"

definition demo_call :: "rat \<Rightarrow> option_tick" where
  "demo_call k = (option_tick_new (Fin k) 1000 Call)\<lparr>ot_bid := Fin ((k - 6) / 2 - 1 / 4), ot_ask := Fin ((k - 6) / 2 + 1 / 4)\<rparr>"

definition demo_now :: date_time where
  "demo_now = ((1000 * 86400 + 20 * 3600) - 31557600) * 10 ^ 9"

lemma demo_tte: "surface_tte demo_now 1000 = Some fone"
  by code_simp

lemma demo_price_low:
  "fmul fone (fsub (fmul (Fin 6) (Fin (- 1 / 2))) (fmul (Fin 8) (Fin (- 1 / 2)))) = Fin 1"
  "fmul fone (fsub (fmul (Fin 6) (Fin (- 1 / 2))) (fmul (Fin 9) (Fin (- 1 / 2)))) = Fin (3 / 2)"
  "fmul fone (fsub (fmul (Fin 6) (Fin (- 1 / 2))) (fmul (Fin 10) (Fin (- 1 / 2)))) = Fin 2"
  by code_simp+

lemma demo_price_high:
  assumes "8 \<le> k"
  shows "fmul fone (fsub (fmul (Fin 6) (Fin (p2 1021))) (fmul (Fin k) (Fin (p2 1021)))) = NInf"
proof -
  have "rep (6 * p2 1021)"
    unfolding rep_def
  proof (intro exI conjI)
    show "6 * p2 1021 = of_int (6 * 2 ^ 50) * p2 971"
      using p2_add [of 50 971] p2_of_int [of 50] by simp
  qed simp_all
  then have six: "fmul (Fin 6) (Fin (p2 1021)) = Fin (6 * p2 1021)" by (simp add: fmul_finite rnd_exact)
  have "p2 1024 = 8 * p2 1021" using p2_add [of 3 1021] p2_of_int [of 3] by simp
  then have "p2 1024 \<le> k * p2 1021" using assms by simp
  then have "rnd (k * p2 1021) = PInf" by (rule rnd_huge)
  moreover have "k * p2 1021 \<noteq> 0" using assms by simp
  ultimately have "fmul (Fin k) (Fin (p2 1021)) = PInf" by (simp add: fmul_finite)
  with six show ?thesis by (simp add: fsub_def fmul_def signed_inf_def)
qed

text \<open>The volatility one percent prices each of the calls at its mid price, and five prices none of them.\<close>

lemma small_sigma: "is_finite (lit (1 / 100)) \<and> 1 / 200 < val (lit (1 / 100)) \<and> val (lit (1 / 100)) < 1 / 50"
proof -
  have "is_finite (lit (1 / 100)) \<and> \<bar>val (lit (1 / 100)) - 1 / 100\<bar> \<le> ulp" 
    unfolding lit_def by (rule rnd_ulp) simp
  then show ?thesis by (auto simp: ulp_def abs_if split: if_splits)
qed

lemma demo_d1:
  "fdiv (fadd (fneg fone) (fmul (fmul (fmul (lit (1 / 2)) (lit 5)) (lit 5)) fone)) (fmul (lit 5) fzero) = PInf"
  by code_simp

lemma demo_d1_low:
  defines "s \<equiv> lit (1 / 100)"
  shows "fdiv (fadd (Fin (- 1)) (fmul (fmul (fmul (Fin (1 / 2)) s) s) fone)) (fmul s fzero) = NInf"
proof -
  have s: "is_finite s" "1 / 200 < val s" "val s < 1 / 50" using small_sigma by (auto simp: s_def)
  have "\<bar>1 / 2 * val s\<bar> \<le> 2 ^ 11" using s by simp
  from fmul_ulp [of "Fin (1 / 2)" s] this s
  have a: "is_finite (fmul (Fin (1 / 2)) s)" "\<bar>val (fmul (Fin (1 / 2)) s) - val s / 2\<bar> \<le> ulp" by auto
  have a2: "0 \<le> val (fmul (Fin (1 / 2)) s)" "val (fmul (Fin (1 / 2)) s) \<le> 1 / 10"
    using a(2) s by (auto simp: ulp_def abs_if split: if_splits)
  define x where "x = fmul (Fin (1 / 2)) s"
  have x: "is_finite x" "0 \<le> val x" "val x \<le> 1 / 10" using a(1) a2 by (auto simp: x_def)
  have p: "val x * val s \<le> 1 / 10 * (1 / 50)"
    by (rule mult_mono) (use x s in auto)
  have p0: "0 \<le> val x * val s" using x s by simp
  define y where "y = fmul x s"
  have "\<bar>val x * val s\<bar> \<le> 2 ^ 11" using p p0 by simp
  from fmul_ulp [OF x(1) s(1) this] have y: "is_finite y" "\<bar>val y - val x * val s\<bar> \<le> ulp" by (auto simp: y_def)
  have y2: "- (1 / 10) \<le> val y" "val y \<le> 1 / 10" using y(2) p p0 by (auto simp: ulp_def abs_if split: if_splits)
  define z where "z = fmul y fone"
  have "\<bar>val y * val fone\<bar> \<le> 2 ^ 11" using y2 by simp
  from fmul_ulp [OF y(1) _ this] have z: "is_finite z" "\<bar>val z - val y\<bar> \<le> ulp" by (auto simp: z_def)
  have z2: "- (1 / 5) \<le> val z" "val z \<le> 1 / 5" using z(2) y2 by (auto simp: ulp_def abs_if split: if_splits)
  define w where "w = fadd (Fin (- 1)) z"
  have "\<bar>val (Fin (- 1)) + val z\<bar> \<le> 2 ^ 11" using z2 by simp
  from fadd_ulp [OF _ z(1) this] have w: "is_finite w" "\<bar>val w - (- 1 + val z)\<bar> \<le> ulp" by (auto simp: w_def)
  have w2: "val w < 0" using w(2) z2 by (auto simp: ulp_def abs_if split: if_splits)
  have "neg_bit w" using w2 w(1) by (cases w) auto
  moreover have "fmul s fzero = Fin 0" using s by (cases s) (simp_all add: fmul_finite signed_zero_def)
  ultimately have "fdiv w (fmul s fzero) = NInf" using w(1) w2 by (auto simp: fdiv_def signed_inf_def)
  then show ?thesis unfolding w_def z_def y_def x_def .
qed


lemma demo_prices:
  assumes "0 < k"
  shows "black76_price_text demo_surface_libm (Fin 6) (Fin k) fone (lit (1 / 100)) fzero ''C'' =
      fmul fone (fsub (fmul (Fin 6) (Fin (- 1 / 2))) (fmul (Fin k) (Fin (- 1 / 2))))"
    and "black76_price_text demo_surface_libm (Fin 6) (Fin k) fone (lit 5) fzero ''C'' =
      fmul fone (fsub (fmul (Fin 6) (Fin (p2 1021))) (fmul (Fin k) (Fin (p2 1021))))"
proof -
  have call: "is_call_text ''C''" by (simp add: is_call_text_def to_ascii_uppercase_def)
  have z: "fmul (lit (1 / 100)) fzero = fzero"
    using small_sigma by (cases "lit (1 / 100)") (simp_all add: fmul_finite signed_zero_def)
  have n: "\<not> fle (lit (1 / 100)) fzero" using small_sigma by simp
  have d2: "fsub NInf (fmul (lit (1 / 100)) fzero) = NInf" unfolding z by (simp add: fsub_def)
  have five: "lit 5 = Fin 5" using lit_int [of 5] by simp
  have d2': "fsub PInf (fmul (lit 5) fzero) = PInf" unfolding five by (simp add: fsub_def fmul_def signed_zero_def)
  show "black76_price_text demo_surface_libm (Fin 6) (Fin k) fone (lit (1 / 100)) fzero ''C'' =
      fmul fone (fsub (fmul (Fin 6) (Fin (- 1 / 2))) (fmul (Fin k) (Fin (- 1 / 2))))"
    unfolding black76_price_text_def black76_price_inner_def demo_surface_libm_def Let_def
    using assms call n by (simp add: demo_d1_low d2 del: One_nat_def)
  show "black76_price_text demo_surface_libm (Fin 6) (Fin k) fone (lit 5) fzero ''C'' =
      fmul fone (fsub (fmul (Fin 6) (Fin (p2 1021))) (fmul (Fin k) (Fin (p2 1021))))"
    unfolding black76_price_text_def black76_price_inner_def demo_surface_libm_def Let_def
    using assms call demo_d1 d2' five by simp
qed

lemma brent_exact_start:
  assumes "f a = Fin 0" "f b = NInf" "0 < n" "\<not> flt (fabs (fsub a b)) xtol"
  shows "brent f a b xtol n = Some a"
proof -
  obtain m where "n = Suc m" using assms(3) by (cases n) auto
  then show ?thesis using assms by (simp add: brent_def Let_def order_bracket_def fmul_def feq_def fle_def)
qed


lemma tiny_lit:
  assumes "1 / 10 ^ 10 \<le> q" "q \<le> 1"
  shows "is_finite (lit q) \<and> 0 < val (lit q) \<and> val (lit q) < 2"
proof -
  have "is_finite (lit q) \<and> \<bar>val (lit q) - q\<bar> \<le> ulp"
    unfolding lit_def by (rule rnd_ulp) (use assms in simp)
  then show ?thesis using assms by (auto simp: ulp_def abs_if split: if_splits)
qed

lemma demo_tolerance: "\<not> flt (fabs (fsub (lit (1 / 100)) (lit 5))) (lit (1 / 10 ^ 6))"
proof -
  have five: "lit 5 = Fin 5" using lit_int [of 5] by simp
  have t: "is_finite (lit (1 / 10 ^ 6))" "val (lit (1 / 10 ^ 6)) < 2" using tiny_lit [of "1 / 10 ^ 6"] by simp_all
  have "\<bar>val (lit (1 / 100)) + val (Fin (- 5))\<bar> \<le> 2 ^ 11" using small_sigma by simp
  from fadd_ulp [OF _ _ this] small_sigma
  have d: "is_finite (fsub (lit (1 / 100)) (lit 5))"
    "\<bar>val (fsub (lit (1 / 100)) (lit 5)) - (val (lit (1 / 100)) - 5)\<bar> \<le> ulp"
    unfolding five fsub_def by auto
  then have "val (fsub (lit (1 / 100)) (lit 5)) < - 2" using small_sigma by (auto simp: ulp_def abs_if split: if_splits)
  then have "2 < val (fabs (fsub (lit (1 / 100)) (lit 5)))" by simp
  then show ?thesis using d(1) t by simp
qed

lemma demo_vol:
  assumes "(k, p) \<in> {(8, 1), (9, 3 / 2), (10, 2)}"
  shows "implied_vol demo_surface_libm (Fin p) (Fin 6) (Fin k) fone fzero ''C'' = Some (lit (1 / 100))"
proof -
  let ?price = "\<lambda>sigma. black76_price_text demo_surface_libm (Fin 6) (Fin k) fone sigma fzero ''C''"
  let ?f = "\<lambda>sigma. fsub (?price sigma) (Fin p)"
  have k: "8 \<le> k" "0 < p" using assms by auto
  have "?price (lit (1 / 100)) = Fin p" using assms demo_prices(1) [of k] demo_price_low k by auto
  then have f1: "?f (lit (1 / 100)) = Fin 0" using k by (simp add: fsub_def)
  have "?price (lit 5) = NInf" using demo_prices(2) [of k] demo_price_high k by auto
  then have f2: "?f (lit 5) = NInf" using k by (simp add: fsub_def)
  have b: "brent ?f (lit (1 / 100)) (lit 5) (lit (1 / 10 ^ 6)) 100 = Some (lit (1 / 100))"
    by (rule brent_exact_start [OF f1 f2 _ demo_tolerance]) simp
  have call: "is_call_text ''C''" by (simp add: is_call_text_def to_ascii_uppercase_def)
  have "fsub (Fin 6) (Fin k) \<in> {Fin (- 2), Fin (- 3), Fin (- 4)}"
    using assms rnd_exact [OF rep_of_int, of "- 2"] rnd_exact [OF rep_of_int, of "- 3"] rnd_exact [OF rep_of_int, of "- 4"]
    by (auto simp: fsub_def)
  then have i: "fmax (fsub (Fin 6) (Fin k)) fzero = fzero" by (auto simp: fmax_def)
  have m: "fmul (m_exp demo_surface_libm (fmul (fneg fzero) fone)) fzero = fzero"
    by (simp add: demo_surface_libm_def fmul_finite signed_zero_def)
  have eps: "is_finite (lit (1 / 10 ^ 10))" "0 < val (lit (1 / 10 ^ 10))" using tiny_lit [of "1 / 10 ^ 10"] by simp_all
  have "fle (fsub fzero (lit (1 / 10 ^ 10))) fzero"
    using eps rnd_nonpos [of "- val (lit (1 / 10 ^ 10))"] by (cases "lit (1 / 10 ^ 10)") (auto simp: fsub_def)
  then have "\<not> flt (Fin p) (fsub fzero (lit (1 / 10 ^ 10)))"
    using k fle_flt_trans [of "fsub fzero (lit (1 / 10 ^ 10))" fzero "Fin p"] flt_asym by (metis flt_finite is_finite.simps(1) val.simps(1))
  then show ?thesis
    using k unfolding implied_vol_def Let_def if_P [OF call] i m b by simp
qed

definition demo_smile_md :: market_data_state where
  "demo_smile_md = md_new\<lparr>md_underlying := [(''HG'', Fin 6)],
     md_options := map (\<lambda>k. (\<lparr>ok_product = ''HG'', ok_strike_key = k * 10000, ok_expiry = 1000, ok_right = Call\<rparr>, demo_call (of_int k))) [8, 9, 10]\<rparr>"


lemma demo_point:
  assumes "k \<in> {8, 9, 10}"
  shows "surface_point demo_surface_libm demo_now (Fin 6) (demo_call k) = Some (Fin k, lit (1 / 100), fone)"
proof -
  have m: "mid (demo_call 8) = Some (Fin 1)" "mid (demo_call 9) = Some (Fin (3 / 2))" "mid (demo_call 10) = Some (Fin 2)"
    by code_simp+
  obtain p where p: "mid (demo_call k) = Some (Fin p)" "(k, p) \<in> {(8, 1), (9, 3 / 2), (10, 2)}"
  proof -
    consider "k = 8" | "k = 9" | "k = 10" using assms by auto
    then show ?thesis
    proof cases
      case 1
      then show ?thesis using m(1) that [of 1] by simp
    next
      case 2
      then show ?thesis using m(2) that [of "3 / 2"] by simp
    next
      case 3
      then show ?thesis using m(3) that [of 2] by simp
    qed
  qed
  have "is_finite (lit (1 / 1000)) \<and> \<bar>val (lit (1 / 1000)) - 1 / 1000\<bar> \<le> ulp"
    unfolding lit_def by (rule rnd_ulp) simp
  then have "flt (lit (1 / 1000)) (lit (1 / 100))"
    using small_sigma by (auto simp: ulp_def abs_if split: if_splits)
  moreover have "flt (lit (1 / 100)) (lit 5)" using small_sigma lit_int [of 5] by simp
  ultimately have "surface_iv demo_surface_libm (Fin p) (Fin 6) (Fin k) fone Call = Some (lit (1 / 100))"
    unfolding surface_iv_def right_text_def by (simp add: demo_vol [OF p(2)])
  moreover have "\<not> fle (Fin p) fzero" using p(2) by auto
  ultimately show ?thesis
    unfolding surface_point_def p(1) by (simp add: demo_call_def option_tick_new_def demo_tte)
qed

lemma calibrate_zero_error:
  assumes "\<And>x. m_sqrt M x = fzero" "3 \<le> length strikes" "length ivs = length strikes"
    and "fgt t fzero" "fgt f fzero" "\<not> fgt fzero max_rmse"
  shows "\<exists>fit. calibrate_sabr M f t strikes ivs w beta max_rmse = Some fit"
proof -
  have n: "\<not> fle t fzero" "\<not> fle f fzero" using assms(4,5) by (simp_all add: fle_def)
  let ?rs = "map (\<lambda>guess. lm_solve M (sabr_residual M f t beta strikes ivs (fit_weights w (length strikes))) guess
      sabr_lower (sabr_upper (sabr_alpha_0 M f strikes ivs beta)) 200)
      (sabr_guesses (sabr_alpha_0 M f strikes ivs beta))"
  have "?rs \<noteq> []" by (simp add: sabr_guesses_def)
  then obtain best where b: "best_result ?rs = Some best" using best_result_some by blast
  have "fit_rmse M best = fzero" by (simp add: fit_rmse_def assms(1))
  then show ?thesis using assms(2,3,6) n b unfolding calibrate_sabr_def Let_def by simp
qed

lemma demo_surfaces:
  "\<exists>ev. (''20260625'', SurfaceFit ev) \<in>
     set (product_surfaces demo_ipc demo_surface_libm demo_now (demo_rt\<lparr>rt_market_data := demo_smile_md\<rparr>) ''HG'')"
proof -
  let ?opts = "[demo_call 8, demo_call 9, demo_call 10]"
  let ?smile = "[(Fin 8, lit (1 / 100), fone), (Fin 9, lit (1 / 100), fone), (Fin 10, lit (1 / 100), fone)]"
  have u: "md_underlying_price demo_smile_md ''HG'' = Some (Fin 6)"
    by (simp add: md_underlying_price_def demo_smile_md_def hm_get_def)
  have o1: "options_for_product demo_smile_md ''HG'' = ?opts"
    by (simp add: options_for_product_def demo_smile_md_def)
  have d: "ie_ymd demo_ipc d = ''20260625''" for d by (simp add: demo_ipc_def)
  have mids: "mid (demo_call 8) \<noteq> None" "mid (demo_call 9) \<noteq> None" "mid (demo_call 10) \<noteq> None"
    by code_simp+
  have c: "chain_loop demo_ipc demo_surface_libm demo_now (Fin 6) ?opts hm_new = Some [(''20260625'', ?smile)]"
    by (simp add: chain_loop_step demo_point mids d hm_get_def hm_insert_def hm_new_def del: chain_loop.simps(2))
  obtain fit where fit: "calibrate_sabr demo_surface_libm (Fin 6) fone [Fin 8, Fin 9, Fin 10]
      [lit (1 / 100), lit (1 / 100), lit (1 / 100)] None (Fin (1 / 2)) (lit (1 / 20)) = Some fit"
  proof -
    have "\<not> fgt fzero (lit (1 / 20))" using tiny_lit [of "1 / 20"] by simp
    then show ?thesis
      using calibrate_zero_error [of demo_surface_libm "[Fin 8, Fin 9, Fin 10]"
          "[lit (1 / 100), lit (1 / 100), lit (1 / 100)]" fone "Fin 6" "lit (1 / 20)" None "Fin (1 / 2)"] that
      by (auto simp: demo_surface_libm_def)
  qed
  have "\<exists>ev. fit_expiry demo_surface_libm (Fin 6) ''20260625'' ?smile = SurfaceFit ev"
    unfolding fit_expiry_def Let_def by (simp add: fit del: One_nat_def)
  then obtain ev where "fit_expiry demo_surface_libm (Fin 6) ''20260625'' ?smile = SurfaceFit ev" by blast
  moreover have "snapshot_chain demo_ipc demo_surface_libm demo_now demo_smile_md ''HG'' =
      Some (Fin 6, [(''20260625'', ?smile)])"
    unfolding snapshot_chain_def u o1 option.case c by (simp add: hm_len_def)
  ultimately show ?thesis
    by (intro exI [of _ ev]) (simp add: product_surfaces_def)
qed

theorem published_surfaces_are_bounded_witness:
  "\<exists>ev. (''20260625'', SurfaceFit ev) \<in>
       set (product_surfaces demo_ipc demo_surface_libm demo_now (demo_rt\<lparr>rt_market_data := demo_smile_md\<rparr>) ''HG'') \<and>
     vo_side ev = ''BOTH'' \<and> 3 \<le> vo_n_points ev \<and> fle (vo_nu ev) (lit 5) \<and>
     fle (vo_alpha ev) (alpha_bound demo_surface_libm ev
       (expiry_smile demo_ipc demo_surface_libm demo_now (vo_forward ev)
         (options_for_product demo_smile_md ''HG'') ''20260625''))"
proof -
  obtain ev where ev: "(''20260625'', SurfaceFit ev) \<in>
       set (product_surfaces demo_ipc demo_surface_libm demo_now (demo_rt\<lparr>rt_market_data := demo_smile_md\<rparr>) ''HG'')"
    using demo_surfaces by blast
  have "\<forall>opt \<in> set (options_for_product (rt_market_data (demo_rt\<lparr>rt_market_data := demo_smile_md\<rparr>)) ''HG'').
      fgt (ot_strike opt) fzero"
    by (simp add: options_for_product_def demo_smile_md_def demo_call_def option_tick_new_def)
  from published_surfaces_are_bounded [OF ev this refl] ev show ?thesis by auto
qed

text \<open>Applied to a chain with one option that has never been quoted.\<close>

theorem one_dark_quote_silences_product_witness:
  "fit_and_publish demo_ipc demo_surface_libm (\<lambda>_. demo_now) (\<lambda>_ _. 0)
     (demo_rt\<lparr>rt_market_data := demo_smile_md\<lparr>md_options :=
        (\<lparr>ok_product = ''HG'', ok_strike_key = 110000, ok_expiry = 1000, ok_right = Call\<rparr>,
         option_tick_new (Fin 11) 1000 Call) # md_options demo_smile_md\<rparr>\<rparr>) g = g"
proof (rule one_dark_quote_silences_product)
  have "registry_products (registry (rt_portfolio demo_rt)) = [''HG'']"
    by (simp add: demo_rt_def demo_config_def build_registry_def registry_products_def registry_register_def
        portfolio_new_def registry_new_def hm_new_def hm_insert_def)
  then show "\<forall>product \<in> set (registry_products (registry (rt_portfolio (demo_rt\<lparr>rt_market_data := demo_smile_md\<lparr>md_options :=
        (\<lparr>ok_product = ''HG'', ok_strike_key = 110000, ok_expiry = 1000, ok_right = Call\<rparr>,
         option_tick_new (Fin 11) 1000 Call) # md_options demo_smile_md\<rparr>\<rparr>)))).
     \<exists>opt \<in> set (options_for_product (rt_market_data (demo_rt\<lparr>rt_market_data := demo_smile_md\<lparr>md_options :=
        (\<lparr>ok_product = ''HG'', ok_strike_key = 110000, ok_expiry = 1000, ok_right = Call\<rparr>,
         option_tick_new (Fin 11) 1000 Call) # md_options demo_smile_md\<rparr>\<rparr>)) product). mid opt = None"
    by (simp add: options_for_product_def mid_def option_tick_new_def)
qed

end
