(* ===== verification/Process_Pair.thy ===== *)
theory Process_Pair
  imports Vol_Surface
begin

text \<open>
  The two processes together: everything the daemon publishes, as the events the trader receives.
  The codec between them is a parameter, and what one side packs the other side reads back.
\<close>

section \<open>Publications\<close>

datatype publication =
    PubFill fill
  | PubStatus order_status_update
  | PubConnection connection_event
  | PubTick int consolidated_tick
  | PubRiskState int risk_state_msg
  | PubSurface int vol_surface_event
  | PubSurfaceFailed int string string nat

fun publication_wire :: "publication \<Rightarrow> wire_map" where
  "publication_wire (PubFill f) = fill_wire f"
| "publication_wire (PubStatus u) = order_status_wire u"
| "publication_wire (PubConnection ev) = connection_wire ev"
| "publication_wire (PubTick ts e) = tick_wire ts e"
| "publication_wire (PubRiskState ts r) = risk_state_wire ts r"
| "publication_wire (PubSurface ts ev) = vol_surface_wire ts ev"
| "publication_wire (PubSurfaceFailed ts e reason n) = vol_surface_failed_wire ts e reason (int n)"

text \<open>
  What the daemon publishes, by the code that builds each publication. A tick is the entry the
  tick publisher makes of an incoming tick and its cache, the cache being what earlier ticks
  left in it; a surface or a failure is an outcome of the surface fit for some product, on any
  state of the daemon and at any time. Fills, statuses, connection events and risk states are
  not restricted.
\<close>

inductive tick_cache_reached :: "ipc_env \<Rightarrow> tick_cache \<Rightarrow> bool" for I where
  empty: "tick_cache_reached I hm_new"
| tick: "tick_cache_reached I cache \<Longrightarrow> tick_cache_reached I (fst (publish_tick I md t (cache, g)))"

inductive daemon_publishes :: "ipc_env \<Rightarrow> trader_libm \<Rightarrow> publication \<Rightarrow> bool" for I M where
  fill: "daemon_publishes I M (PubFill f)"
| status: "daemon_publishes I M (PubStatus u)"
| connection: "daemon_publishes I M (PubConnection c)"
| risk: "daemon_publishes I M (PubRiskState ts r)"
| tick: "tick_cache_reached I cache \<Longrightarrow> consolidate I md t cache = Some e \<Longrightarrow>
    daemon_publishes I M (PubTick (t_timestamp_ns t) e)"
| surface: "(e, SurfaceFit ev) \<in> set (product_surfaces I M now rt product) \<Longrightarrow>
    daemon_publishes I M (PubSurface ts ev)"
| failure: "(e, SurfaceFailed reason n) \<in> set (product_surfaces I M now rt product) \<Longrightarrow>
    daemon_publishes I M (PubSurfaceFailed ts e reason n)"

inductive_cases daemon_publishes_tickE: "daemon_publishes I M (PubTick ts e)"
inductive_cases daemon_publishes_surfaceE: "daemon_publishes I M (PubSurface ts ev)"

text \<open>A tick of the daemon carries the right of an option.\<close>

lemma consolidate_right:
  assumes "consolidate I md t cache = Some e"
    and "\<And>iid c. hm_get cache iid = Some c \<Longrightarrow> ct_right c \<in> {''C'', ''P''}"
  shows "ct_right e \<in> {''C'', ''P''}"
proof -
  have m: "ct_right (merge_tick t c) = ct_right c" for c
    by (simp add: merge_tick_def split: tick_kind.split)
  obtain c where e: "e = merge_tick t c"
    and c: "hm_get cache (t_instrument_id t) = Some c \<or> (\<exists>meta. c = fresh_tick I meta)"
    using assms(1) by (auto simp: consolidate_def split: if_splits option.splits)
  have "ct_right (fresh_tick I meta) \<in> {''C'', ''P''}" for meta
    by (simp add: fresh_tick_def split: right.split)
  with c assms(2) have "ct_right c \<in> {''C'', ''P''}" by blast
  then show ?thesis by (simp only: e m)
qed

lemma tick_cache_rights:
  "tick_cache_reached I cache \<Longrightarrow> hm_get cache iid = Some c \<Longrightarrow> ct_right c \<in> {''C'', ''P''}"
proof (induction arbitrary: iid c rule: tick_cache_reached.induct)
  case empty
  then show ?case by (simp add: hm.get_new)
next
  case (tick cache md t g)
  have "ct_right e \<in> {''C'', ''P''}" if "consolidate I md t cache = Some e" for e
    using consolidate_right [OF that] tick.IH by blast
  with tick show ?case
    by (auto simp: publish_tick_def hm.get_insert split: option.splits if_splits)
qed

lemma published_tick_right: "daemon_publishes I M (PubTick ts e) \<Longrightarrow> ct_right e \<in> {''C'', ''P''}"
proof (erule daemon_publishes_tickE)
  fix cache md t
  assume c: "tick_cache_reached I cache" and e: "consolidate I md t cache = Some e"
  show "ct_right e \<in> {''C'', ''P''}" by (rule consolidate_right [OF e tick_cache_rights [OF c]])
qed

text \<open>A surface of the daemon is for both sides, because that is what the fit writes into it.\<close>

lemma published_surface_side: "daemon_publishes I M (PubSurface ts ev) \<Longrightarrow> vo_side ev = ''BOTH''"
proof (erule daemon_publishes_surfaceE)
  fix e now rt product
  assume "(e, SurfaceFit ev) \<in> set (product_surfaces I M now rt product)"
  then obtain forward smile where "fit_expiry M forward e smile = SurfaceFit ev"
    by (auto simp: product_surfaces_def split: option.splits)
  then show ?thesis by (auto elim: fit_expiry_fit)
qed

section \<open>The trader's inputs\<close>

datatype trader_input = Message clocks "byte list" | Staleness clocks

fun trader_turn :: "trader_env \<Rightarrow> trader_input \<Rightarrow> trader \<Rightarrow> panic + trader" where
  "trader_turn E (Message ck body) tr = process_event E ck body tr"
| "trader_turn E (Staleness ck) tr = staleness_check E ck tr"

fun trader_run :: "trader_env \<Rightarrow> trader_input list \<Rightarrow> trader \<Rightarrow> panic + trader" where
  "trader_run E [] tr = Inr tr"
| "trader_run E (i # is) tr = and_then (trader_turn E i tr) (trader_run E is)"

text \<open>An event that leaves the two sides without a surface: ticks and acknowledgements name one of the
  sides, a surface neither.\<close>

fun sideless :: "trader_event \<Rightarrow> bool" where
  "sideless (EvVolSurface v) \<longleftrightarrow> first_upper (vm_side v) \<notin> {''C'', ''P''}"
| "sideless (EvTick t) \<longleftrightarrow> first_upper (tm_right t) \<in> {''C'', ''P''}"
| "sideless (EvPlaceAck p) \<longleftrightarrow> first_upper (pa_right p) \<in> {''C'', ''P''}"
| "sideless _ \<longleftrightarrow> True"

definition no_side_surface :: "trader_state \<Rightarrow> bool" where
  "no_side_surface s \<longleftrightarrow>
     (\<forall>e. hm_get (ts_vol_surfaces s) (e, ''C'') = None \<and> hm_get (ts_vol_surfaces s) (e, ''P'') = None) \<and>
     (\<forall>(k, ord) \<in> set (ts_our_orders s). fst (snd (snd k)) \<in> {''C'', ''P''})"

lemma no_side_lookup: "no_side_surface s \<Longrightarrow> r \<in> {''C'', ''P''} \<Longrightarrow> lookup_surface e r s = None"
  by (auto simp: no_side_surface_def lookup_surface_def)

lemma decide_without_surface:
  "lookup_surface (tm_expiry t) (first_upper (tm_right t)) s = None \<Longrightarrow>
   \<exists>c'. decide_on_tick E now_utc now t s c = Inr (c', [])"
  by (auto simp: decide_on_tick_def price_and_quote_def Let_def split: prod.splits)

lemma no_side_cong:
  "no_side_surface s \<Longrightarrow> ts_vol_surfaces s' = ts_vol_surfaces s \<Longrightarrow> set (ts_our_orders s') \<subseteq> set (ts_our_orders s) \<Longrightarrow>
   no_side_surface s'"
  by (auto simp: no_side_surface_def)

lemma no_side_order:
  "no_side_surface s \<Longrightarrow> fst (snd (snd k)) \<in> {''C'', ''P''} \<Longrightarrow> ts_vol_surfaces s' = ts_vol_surfaces s \<Longrightarrow>
   ts_our_orders s' = hm_insert k ord (ts_our_orders s) \<Longrightarrow> no_side_surface s'"
  unfolding no_side_surface_def using set_hm_insert [of k ord "ts_our_orders s"] by auto

lemma apply_event_no_side:
  assumes "no_side_surface s" "sideless ev"
  shows "no_side_surface (apply_event ck ev s)"
proof (cases ev)
  case (EvVolSurface v)
  then show ?thesis using assms by (auto simp: no_side_surface_def apply_vol_surface_def hm.get_insert)
next
  case (EvPlaceAck p)
  show ?thesis
  proof (cases "ack_key p")
    case None
    then show ?thesis using assms EvPlaceAck by (simp add: apply_place_ack_def)
  next
    case (Some key)
    then have "fst (snd (snd key)) \<in> {''C'', ''P''}"
      using assms(2) EvPlaceAck by (auto simp: ack_key_def split: if_splits)
    then show ?thesis
      using EvPlaceAck Some no_side_order [OF assms(1)] by (simp add: apply_place_ack_def Let_def)
  qed
next
  case (EvOrderAck a)
  have "set (ts_our_orders (apply_order_ack a s)) \<subseteq> set (ts_our_orders s)"
    "ts_vol_surfaces (apply_order_ack a s) = ts_vol_surfaces s"
    by (auto simp: apply_order_ack_def dest: subsetD [OF set_hm_remove] split: option.splits)
  then show ?thesis using EvOrderAck no_side_cong [OF assms(1)] by simp
next
  case (EvHello h)
  then show ?thesis using assms by (cases h) (simp_all add: apply_hello_def no_side_surface_def)
qed (use assms in \<open>simp_all add: no_side_surface_def apply_risk_state_def\<close>)

lemma on_tick_no_side:
  assumes "no_side_surface (tr_state tr)" "first_upper (tm_right t) \<in> {''C'', ''P''}"
  shows "\<exists>tr'. on_tick E ck t tr = Inr tr' \<and> tr_ring tr' = tr_ring tr \<and> no_side_surface (tr_state tr')"
proof -
  let ?s = "store_option t (tr_state tr)"
  have s: "no_side_surface ?s" using assms(1) by (simp add: store_option_def no_side_surface_def)
  obtain c where "decide_on_tick E (ck_utc ck) (ck_mono ck) t ?s (tr_counters tr) = Inr (c, [])"
    using decide_without_surface [OF no_side_lookup [OF s assms(2)]] by blast
  then show ?thesis using s by (simp add: on_tick_def tick_decide_def Let_def and_then_def)
qed

lemma process_event_no_side:
  assumes "no_side_surface (tr_state tr)" "\<And>em ev. te_decode E body = Some (em, ev) \<Longrightarrow> sideless ev"
  shows "\<exists>tr'. process_event E ck body tr = Inr tr' \<and> tr_ring tr' = tr_ring tr \<and> no_side_surface (tr_state tr')"
proof -
  obtain tr1 ev where r: "receive E ck body tr = (tr1, ev)" by fastforce
  have "tr_ring tr1 = tr_ring tr \<and> ts_vol_surfaces (tr_state tr1) = ts_vol_surfaces (tr_state tr) \<and>
      ts_our_orders (tr_state tr1) = ts_our_orders (tr_state tr)"
    using r by (auto simp: receive_def split: option.splits)
  then have tr1: "tr_ring tr1 = tr_ring tr" "no_side_surface (tr_state tr1)"
    using no_side_cong [OF assms(1)] by simp_all
  have ev: "sideless ev" 
    using r assms(2) by (auto simp: receive_def split: option.splits trader_event.splits)
  show ?thesis
  proof (cases "\<exists>t. ev = EvTick t")
    case True
    then obtain t where t: "ev = EvTick t" by blast
    with ev tr1 on_tick_no_side [of tr1 t E ck] show ?thesis by (simp add: process_event_def r)
  next
    case False
    then have "process_event E ck body tr = Inr (tr1\<lparr>tr_state := apply_event ck ev (tr_state tr1)\<rparr>)"
      by (cases ev) (simp_all add: process_event_def r)
    with tr1 apply_event_no_side [OF tr1(2) ev] show ?thesis by simp
  qed
qed

lemma collect_none: "(\<And>x. x \<in> set xs \<Longrightarrow> f x = Inr None) \<Longrightarrow> collect f xs = Inr []"
  by (induction xs) (simp_all add: and_then_def)

lemma staleness_no_side:
  assumes "no_side_surface (tr_state tr)"
  shows "staleness_check E ck tr = Inr tr"
proof -
  have "stale_order E (ck_utc ck) (tr_state tr) k ord = Inr None" if "(k, ord) \<in> set (ts_our_orders (tr_state tr))" for k ord
  proof -
    obtain strike expiry r sc where k: "k = (strike, expiry, r, sc)" by (cases k) auto
    have "lookup_surface expiry r (tr_state tr) = None"
      by (rule no_side_lookup [OF assms]) (use assms that k in \<open>auto simp: no_side_surface_def\<close>)
    then show ?thesis by (simp add: stale_order_def k split: option.split)
  qed
  then have "stale_scan E (ck_utc ck) (tr_state tr) = Inr []"
    unfolding stale_scan_def by (intro collect_none) auto
  then show ?thesis by (simp add: staleness_check_def and_then_def stale_cancel_def)
qed

lemma trader_run_no_side:
  assumes "\<And>ck body em ev. Message ck body \<in> set is \<Longrightarrow> te_decode E body = Some (em, ev) \<Longrightarrow> sideless ev"
    and "no_side_surface (tr_state tr)"
  shows "\<exists>tr'. trader_run E is tr = Inr tr' \<and> tr_ring tr' = tr_ring tr"
  using assms
proof (induction "is" arbitrary: tr)
  case (Cons i "is")
  have "\<exists>tr'. trader_turn E i tr = Inr tr' \<and> tr_ring tr' = tr_ring tr \<and> no_side_surface (tr_state tr')"
  proof (cases i)
    case (Message ck body)
    have "sideless ev" if "te_decode E body = Some (em, ev)" for em ev
      using Cons.prems(1) [OF _ that, of ck] Message by simp
    from process_event_no_side [OF Cons.prems(2) this] show ?thesis using Message by simp
  next
    case (Staleness ck)
    then show ?thesis using staleness_no_side [OF Cons.prems(2)] Cons.prems(2) by simp
  qed
  then obtain tr1 where t: "trader_turn E i tr = Inr tr1" "tr_ring tr1 = tr_ring tr" "no_side_surface (tr_state tr1)"
    by blast
  have "\<exists>tr'. trader_run E is tr1 = Inr tr' \<and> tr_ring tr' = tr_ring tr1"
    by (rule Cons.IH) (use Cons.prems(1) t(3) in auto)
  with t show ?case by (simp add: and_then_def)
qed simp


text \<open>What a publication of the daemon is to the trader.\<close>

lemma decoded_event:
  assumes "trader_decode m = Some (em, ev)" "map_of m ''type'' = Some (WStr ty)"
  shows "ev = event_of ty (map (\<lambda>(k, v). (k, json v)) (filter (\<lambda>(k, _). k \<noteq> ''type'' \<and> k \<noteq> ''ts_ns'') m))"
  using assms by (auto simp: trader_decode_def decode_generic_def required_def split: Option.bind_splits)

lemma decode_tick_right: "decode_tick m = Some t \<Longrightarrow> map_of m ''right'' = Some (WStr r) \<Longrightarrow> tm_right t = r"
  by (auto simp: decode_tick_def required_def split: Option.bind_splits)

lemma decode_vol_surface_side: "decode_vol_surface m = Some v \<Longrightarrow> map_of m ''side'' = Some (WStr r) \<Longrightarrow> vm_side v = r"
  by (auto simp: decode_vol_surface_def required_def split: Option.bind_splits)

lemma first_upper_sides: "first_upper ''C'' = ''C''" "first_upper ''P'' = ''P''" "first_upper ''BOTH'' = ''B''"
  by code_simp+

lemma publication_sideless:
  assumes "trader_decode (publication_wire pub) = Some (em, ev)" "daemon_publishes I M pub"
  shows "sideless ev"
proof (cases pub)
  case (PubFill f)
  then show ?thesis using assms(1) by (simp add: other_events_ignored)
next
  case (PubStatus u)
  then show ?thesis using assms(1) by (simp add: other_events_ignored)
next
  case (PubConnection c)
  then show ?thesis using assms(1) by (simp add: other_events_ignored)
next
  case (PubTick ts e)
  let ?m = "map (\<lambda>(k, v). (k, json v)) (filter (\<lambda>(k, _). k \<noteq> ''type'' \<and> k \<noteq> ''ts_ns'') (tick_wire ts e))"
  have ev: "ev = payload EvTick (decode_tick ?m)"
    using decoded_event [of "tick_wire ts e" em ev "''tick''"] assms(1) PubTick by (simp add: event_of_def tick_wire_def)
  have "map_of ?m ''right'' = Some (WStr (ct_right e))" by (simp add: tick_wire_def)
  then have "first_upper (tm_right t) \<in> {''C'', ''P''}" if "decode_tick ?m = Some t" for t
    using decode_tick_right [OF that] published_tick_right assms(2) PubTick first_upper_sides by fastforce
  then show ?thesis unfolding ev by (cases "decode_tick ?m") (simp_all add: payload_def)
next
  case (PubRiskState ts r)
  let ?m = "map (\<lambda>(k, v). (k, json v)) (filter (\<lambda>(k, _). k \<noteq> ''type'' \<and> k \<noteq> ''ts_ns'') (risk_state_wire ts r))"
  have "ev = payload EvRiskState (decode_risk_state ?m)"
    using decoded_event [of "risk_state_wire ts r" em ev "''risk_state''"] assms(1) PubRiskState
    by (simp add: event_of_def risk_state_wire_def)
  then show ?thesis by (cases "decode_risk_state ?m") (simp_all add: payload_def)
next
  case (PubSurface ts v)
  let ?m = "map (\<lambda>(k, v). (k, json v)) (filter (\<lambda>(k, _). k \<noteq> ''type'' \<and> k \<noteq> ''ts_ns'') (vol_surface_wire ts v))"
  have ev: "ev = payload EvVolSurface (decode_vol_surface ?m)"
    using decoded_event [of "vol_surface_wire ts v" em ev "''vol_surface''"] assms(1) PubSurface
    by (simp add: event_of_def vol_surface_wire_def)
  have "map_of ?m ''side'' = Some (WStr (vo_side v))" by (simp add: vol_surface_wire_def)
  then have "first_upper (vm_side w) \<notin> {''C'', ''P''}" if "decode_vol_surface ?m = Some w" for w
    using decode_vol_surface_side [OF that] published_surface_side assms(2) PubSurface first_upper_sides by fastforce
  then show ?thesis unfolding ev by (cases "decode_vol_surface ?m") (simp_all add: payload_def)
next
  case (PubSurfaceFailed ts e reason n)
  have "ev = EvOther"
    using decoded_event [of "vol_surface_failed_wire ts e reason (int n)" em ev "''vol_surface_failed''"] assms(1)
      PubSurfaceFailed by (simp add: event_of_def vol_surface_failed_wire_def)
  then show ?thesis by simp
qed

section \<open>Properties\<close>

text \<open>An event that brings no surface: anything but a surface, provided that ticks and
  acknowledgements name one of the two sides.\<close>

fun brings_no_surface :: "trader_event \<Rightarrow> bool" where
  "brings_no_surface (EvVolSurface v) \<longleftrightarrow> False"
| "brings_no_surface (EvTick t) \<longleftrightarrow> first_upper (tm_right t) \<in> {''C'', ''P''}"
| "brings_no_surface (EvPlaceAck p) \<longleftrightarrow> first_upper (pa_right p) \<in> {''C'', ''P''}"
| "brings_no_surface _ \<longleftrightarrow> True"

lemma no_surface_sideless: "brings_no_surface ev \<Longrightarrow> sideless ev"
  by (cases ev) auto

text \<open>C16. The surfaces the daemon publishes never price a quote. The fit writes BOTH into the side of
  every surface, the trader files a surface under the first letter of its side, and it prices a
  call or a put only under C or P. So take a fresh trader whose only source of surfaces is the
  daemon: every body it decodes is either a publication of the daemon, built by the daemon's
  own fit and tick publisher on any state, or an event that is no surface, where a tick or an
  acknowledgement from elsewhere names the side C or P. Whatever the order of the messages,
  whatever the bodies that do not decode, and however the staleness checks fall in between,
  the trader never panics and never writes a command.\<close>

theorem daemon_surfaces_never_quote:
  assumes "\<And>ck body em ev. Message ck body \<in> set is \<Longrightarrow> te_decode E body = Some (em, ev) \<Longrightarrow>
      brings_no_surface ev \<or>
      (\<exists>pub. daemon_publishes I M pub \<and> trader_decode (publication_wire pub) = Some (em, ev))"
  shows "\<exists>tr'. trader_run E is \<lparr>tr_state = trader_new, tr_counters = counters_default, tr_ring = g\<rparr> = Inr tr' \<and>
     tr_ring tr' = g"
proof -
  have "no_side_surface trader_new" by (simp add: no_side_surface_def trader_new_def hm_new_def hm_get_def)
  moreover have "sideless ev" if "Message ck body \<in> set is" "te_decode E body = Some (em, ev)" for ck body em ev
    using assms [OF that] publication_sideless no_surface_sideless by blast
  ultimately show ?thesis
    using trader_run_no_side [of "is" E "\<lparr>tr_state = trader_new, tr_counters = counters_default, tr_ring = g\<rparr>"] by simp
qed

text \<open>Applied to a fresh trader that is sent an underlying price, a surface the daemon fits to three
  calls, and a tick, with a staleness check before the last; the surface is decoded and stored.\<close>

definition demo_pair_env :: "vol_surface_event \<Rightarrow> trader_env" where
  "demo_pair_env ev = demo_trader_env\<lparr>te_decode := \<lambda>body.
     if body = [1] then Some (None, EvUnderlying (Fin 6))
     else if body = [2] then trader_decode (publication_wire (PubSurface 0 ev))
     else Some (None, EvTick demo_tick)\<rparr>"

lemma published_forward_finite:
  assumes "(e, SurfaceFit ev) \<in> set (product_surfaces I M now rt product)"
    "md_underlying_price (rt_market_data rt) product = Some (Fin q)"
  shows "vo_forward ev = Fin q"
proof -
  obtain fg where snap: "snapshot_chain I M now (rt_market_data rt) product = Some fg"
    using assms(1) by (cases "snapshot_chain I M now (rt_market_data rt) product") (simp_all add: product_surfaces_def)
  obtain smile where fit: "fit_expiry M (fst fg) e smile = SurfaceFit ev"
    using assms(1) snap by (cases fg) (auto simp: product_surfaces_def)
  have "vo_forward ev = fst fg" using fit by (auto elim: fit_expiry_fit)
  moreover have "fst fg = Fin q" using snapshot_chain_some [of I M now _ product "fst fg" "snd fg"] snap assms(2) by simp
  ultimately show ?thesis by simp
qed

theorem daemon_surfaces_never_quote_witness:
  "\<exists>ev. (''20260625'', SurfaceFit ev) \<in>
       set (product_surfaces demo_ipc demo_surface_libm demo_now (demo_rt\<lparr>rt_market_data := demo_smile_md\<rparr>) ''HG'') \<and>
     te_decode (demo_pair_env ev) [2] = Some (Some 0, EvVolSurface (surface_of_wire ev)) \<and>
     (\<exists>tr'. trader_run (demo_pair_env ev)
         [Message demo_clocks [1], Message demo_clocks [2], Staleness demo_clocks, Message demo_clocks [3]]
         \<lparr>tr_state = trader_new, tr_counters = counters_default, tr_ring = create_owner 64\<rparr> = Inr tr' \<and>
       tr_ring tr' = create_owner 64)"
proof -
  let ?is = "[Message demo_clocks [1], Message demo_clocks [2], Staleness demo_clocks, Message demo_clocks [3]]"
  obtain sev where sev: "(''20260625'', SurfaceFit sev) \<in>
       set (product_surfaces demo_ipc demo_surface_libm demo_now (demo_rt\<lparr>rt_market_data := demo_smile_md\<rparr>) ''HG'')"
    using demo_surfaces by blast
  have "md_underlying_price demo_smile_md ''HG'' = Some (Fin 6)"
    by (simp add: md_underlying_price_def demo_smile_md_def hm_get_def)
  then have "vo_forward sev = Fin 6" using published_forward_finite [OF sev] by simp
  then have wire: "trader_decode (vol_surface_wire 0 sev) = Some (Some 0, EvVolSurface (surface_of_wire sev))"
    using vol_surface_round_trip [of 0 sev] by simp
  have right: "brings_no_surface (EvTick demo_tick)" by code_simp
  have "brings_no_surface ev \<or> (\<exists>pub. daemon_publishes demo_ipc demo_surface_libm pub \<and>
      trader_decode (publication_wire pub) = Some (em, ev))"
    if "Message ck body \<in> set ?is" and d: "te_decode (demo_pair_env sev) body = Some (em, ev)" for ck body em ev
  proof (cases "body = [2]")
    case True
    then have "trader_decode (publication_wire (PubSurface 0 sev)) = Some (em, ev)"
      using d by (simp add: demo_pair_env_def)
    then show ?thesis using daemon_publishes.surface [OF sev] by blast
  next
    case False
    then show ?thesis using that right by (auto simp: demo_pair_env_def)
  qed
  note run = daemon_surfaces_never_quote [of ?is "demo_pair_env sev" demo_ipc demo_surface_libm "create_owner 64", OF this]
  show ?thesis using sev wire run by (intro exI [of _ sev]) (simp add: demo_pair_env_def)
qed

end
