(* ===== verification/Daemon_System.thy ===== *)
theory Daemon_System
  imports Daemon_Feed Daemon_Ipc
begin

text \<open>
  The daemon as a whole: every task of \<open>corsair_broker\<close> and every step of the gateway adapter as one
  step relation over the shared runtime, from the state \<open>Runtime::new\<close> constructs. The properties say
  what no interleaving of them can do: receive a market data point, place an order, or trade in
  shadow mode.
\<close>

section \<open>Steps\<close>

text \<open>One iteration of a task, and one command of the trader.\<close>

datatype daemon_turn =
    FillTurn date_time fill
  | StatusTurn order_status_update
  | TickTurn tick
  | ErrorTurn broker_error
  | ConnectionTurn connection_event
  | GreekTurn date_time
  | RiskTurn date_time
  | HedgeTurn int int
  | RolloverTurn int naive_date "naive_date option"
  | AccountTurn date_time
  | PlaceTurn date_time "byte list"
  | CancelTurn "byte list"
  | ModifyTurn date_time "byte list"

fun run_turn :: "gateway_env \<Rightarrow> network \<Rightarrow> libm \<Rightarrow> ipc_env \<Rightarrow> daemon_turn \<Rightarrow> runtime \<Rightarrow> runtime" where
  "run_turn E N M I (FillTurn now f) rt = handle_fill E N now f rt"
| "run_turn E N M I (StatusTurn u) rt = handle_status u rt"
| "run_turn E N M I (TickTurn t) rt = handle_tick t rt"
| "run_turn E N M I (ErrorTurn e) rt = handle_error e rt"
| "run_turn E N M I (ConnectionTurn ev) rt = handle_connection ev rt"
| "run_turn E N M I (GreekTurn now) rt = periodic_greek_refresh M now rt"
| "run_turn E N M I (RiskTurn now) rt = periodic_risk_check E N now rt"
| "run_turn E N M I (HedgeTurn n now) rt = periodic_hedge E N n now rt"
| "run_turn E N M I (RolloverTurn hour today last_day) rt = snd (daily_halt_rollover hour today (last_day, rt))"
| "run_turn E N M I (AccountTurn now) rt = periodic_account_poll M now rt"
| "run_turn E N M I (PlaceTurn now body) rt = handle_place E N I now body rt"
| "run_turn E N M I (CancelTurn body) rt = handle_cancel E N I body rt"
| "run_turn E N M I (ModifyTurn now body) rt = handle_modify E N I now body rt"

text \<open>A turn that may place an order; the other commands only name an existing one.\<close>

fun names_order :: "daemon_turn \<Rightarrow> bool" where
  "names_order (CancelTurn body) \<longleftrightarrow> True"
| "names_order (ModifyTurn now body) \<longleftrightarrow> True"
| "names_order _ \<longleftrightarrow> False"

text \<open>The gateway connects, receives, dispatches and disconnects as \<open>broker_step\<close> says; \<open>resolve\<close>, \<open>seed\<close>
  and \<open>subscribe\<close> are the rest of the boot.\<close>

inductive daemon_step :: "gateway_env \<Rightarrow> network \<Rightarrow> libm \<Rightarrow> ipc_env \<Rightarrow> runtime \<Rightarrow> runtime \<Rightarrow> bool" for E N M I where
  gateway: "broker_step E (rt_broker rt) nb \<Longrightarrow> daemon_step E N M I rt (rt\<lparr>rt_broker := nb\<rparr>)"
| resolve: "daemon_step E N M I rt (resolve_hedge_contracts E N today rt)"
| seed: "daemon_step E N M I rt (seed_positions_from_broker now rt)"
| subscribe: "subscribe_market_data E N tag today looks rt = Some rt' \<Longrightarrow> daemon_step E N M I rt rt'"
| turn: "daemon_step E N M I rt (run_turn E N M I t rt)"

inductive daemon_reachable :: "gateway_env \<Rightarrow> network \<Rightarrow> libm \<Rightarrow> ipc_env \<Rightarrow> runtime \<Rightarrow> runtime \<Rightarrow> bool" for E N M I rt0 where
  start: "daemon_reachable E N M I rt0 rt0"
| step: "daemon_reachable E N M I rt0 rt \<Longrightarrow> daemon_step E N M I rt rt' \<Longrightarrow> daemon_reachable E N M I rt0 rt'"

section \<open>What is never known\<close>

definition unhedged :: "hedge_fanout \<Rightarrow> bool" where
  "unhedged fo \<longleftrightarrow> (\<forall>m \<in> set fo. mg_contract m = None)"

text \<open>The adapter answers no listing, no market data is registered and no hedge has a contract.\<close>

definition blind :: "runtime \<Rightarrow> bool" where
  "blind rt \<longleftrightarrow> gateway_ok (rt_broker rt) \<and> rt_market_data rt = md_new \<and> unhedged (rt_hedge rt)"

lemma md_new_empty [simp]:
  "md_underlying_price md_new product = None" "options_for_product md_new product = []"
  "find_option md_new iid products = None" "md_option_meta md_new iid = None"
proof -
  show "find_option md_new iid products = None"
    by (induction products) (simp_all add: options_for_product_def md_new_def hm_new_def)
qed (simp_all add: md_underlying_price_def options_for_product_def md_option_meta_def md_new_def hm_get_def hm_new_def)

lemma md_new_updates [simp]:
  "update_bid iid price n ts md_new = md_new" "update_ask iid price n ts md_new = md_new"
  "update_last iid price ts md_new = md_new"
  by (simp_all add: update_bid_def update_ask_def update_last_def md_new_def hm_get_def hm_new_def)

lemma unhedged_update:
  "unhedged fo \<Longrightarrow> (\<And>m. mg_contract (f m) = mg_contract m) \<Longrightarrow> unhedged (update_product p f fo)"
  by (induction fo) (auto simp: unhedged_def)

lemma unhedged_for_product: "unhedged fo \<Longrightarrow> for_product fo p = Some m \<Longrightarrow> mg_contract m = None"
  by (auto simp: unhedged_def for_product_def find_Some_iff)


lemma hedge_contract_frames:
  "mg_contract (fst (rebalance_on_fill p m)) = mg_contract m"
  "mg_contract (fst (rebalance_periodic p fwd now m)) = mg_contract m"
  "mg_contract (fst (reconcile_with_position q avg m)) = mg_contract m"
proof -
  have r: "mg_contract (fst (rebalance p tol reason fwd m)) = mg_contract m" for tol reason fwd m
    by (simp add: rebalance_def Let_def split: hedge_mode.split)
  have mr: "mg_contract (fst (maybe_rebalance p reason fwd m)) = mg_contract m" for reason fwd m
    by (simp add: maybe_rebalance_def r)
  show "mg_contract (fst (rebalance_on_fill p m)) = mg_contract m" by (simp add: rebalance_on_fill_def mr)
  show "mg_contract (fst (rebalance_periodic p fwd now m)) = mg_contract m"
    by (simp add: rebalance_periodic_def Let_def mr)
  show "mg_contract (fst (reconcile_with_position q avg m)) = mg_contract m"
    by (simp add: reconcile_with_position_def)
qed

lemma unhedged_action:
  assumes "unhedged (rt_hedge rt)"
  shows "execute_hedge_action E N product a rt = rt"
  using assms
  by (cases a) (auto simp: execute_hedge_action_def place_hedge_order_def dest: unhedged_for_product split: option.split)

lemma unhedged_actions: "unhedged (rt_hedge rt) \<Longrightarrow>
    fold (\<lambda>(product, a). execute_hedge_action E N product a) actions rt = rt"
  by (induction actions) (auto simp: unhedged_action)

lemma unhedged_fold:
  assumes "\<And>x fo. unhedged fo \<Longrightarrow> unhedged (f x fo)"
  shows "unhedged fo \<Longrightarrow> unhedged (fold f xs fo)"
  by (induction xs arbitrary: fo) (simp_all add: assms)

lemma unhedged_seed: "unhedged fo \<Longrightarrow> unhedged (apply_hedge_seed seed fo)"
  by (cases seed) (simp add: apply_hedge_seed_def unhedged_update hedge_contract_frames)

lemma unhedged_reconcile: "unhedged fo \<Longrightarrow> unhedged (reconcile_hedge bp fo)"
  by (simp add: reconcile_hedge_def Let_def unhedged_seed)

lemma unhedged_offer: "unhedged fo \<Longrightarrow> offer_to_hedge f prs fo = (fo, False)"
proof (induction prs)
  case (Cons pr prs)
  have idle: "apply_broker_fill f m = (m, False)" if "m \<in> set fo" for m
    using that Cons.prems by (auto simp: unhedged_def apply_broker_fill_def)
  have "update_product pr (\<lambda>m. fst (apply_broker_fill f m)) fo = fo"
    by (rule update_product_idle) (simp add: idle)
  moreover have "snd (apply_broker_fill f mgr) = False" if "for_product fo pr = Some mgr" for mgr
    using idle that by (auto simp: for_product_def find_Some_iff)
  ultimately show ?case using Cons by (simp add: Let_def split: option.split)
qed simp

lemma unhedged_rebalance:
  "unhedged (fst acc) \<Longrightarrow> unhedged (fst (rebalance_product p now target acc))"
  by (cases target; cases acc) (simp add: rebalance_product_def Let_def unhedged_update hedge_contract_frames split: option.split)

lemma unhedged_rebalances:
  "unhedged (fst acc) \<Longrightarrow> unhedged (fst (fold (rebalance_product p now) targets acc))"
  by (induction targets arbitrary: acc) (simp_all add: unhedged_rebalance)

lemma hedge_decisions_frame:
  "rt_broker (fst (hedge_decisions n now rt)) = rt_broker rt" "rt_market_data (fst (hedge_decisions n now rt)) = rt_market_data rt"
  "rt_mode (fst (hedge_decisions n now rt)) = rt_mode rt"
  "unhedged (rt_hedge rt) \<Longrightarrow> unhedged (rt_hedge (fst (hedge_decisions n now rt)))"
proof -
  show "rt_broker (fst (hedge_decisions n now rt)) = rt_broker rt" "rt_market_data (fst (hedge_decisions n now rt)) = rt_market_data rt"
    "rt_mode (fst (hedge_decisions n now rt)) = rt_mode rt"
    by (simp_all add: hedge_decisions_def Let_def split: prod.split)
  assume u: "unhedged (rt_hedge rt)"
  then have "unhedged (if n mod 4 = 0 then fold reconcile_hedge (broker_positions (rt_broker rt)) (rt_hedge rt) else rt_hedge rt)"
    by (simp add: unhedged_fold unhedged_reconcile)
  from unhedged_rebalances [of "(_, [])", simplified, OF this]
  show "unhedged (rt_hedge (fst (hedge_decisions n now rt)))"
    by (simp add: hedge_decisions_def Let_def split_def)
qed

lemma risk_check_frame:
  "rt_broker (fst (risk_check now rt)) = rt_broker rt" "rt_market_data (fst (risk_check now rt)) = rt_market_data rt"
  "rt_hedge (fst (risk_check now rt)) = rt_hedge rt" "rt_mode (fst (risk_check now rt)) = rt_mode rt"
  by (simp_all add: risk_check_def Let_def split: prod.split)

lemma account_frame:
  "rt_broker (periodic_account_poll M now rt) = rt_broker rt"
  "rt_market_data (periodic_account_poll M now rt) = rt_market_data rt"
  "rt_hedge (periodic_account_poll M now rt) = rt_hedge rt" "rt_mode (periodic_account_poll M now rt) = rt_mode rt"
  by (simp_all add: periodic_account_poll_def Let_def)

lemma risk_turn_frame:
  assumes "gateway_ok (rt_broker rt)"
  shows "periodic_risk_check E N now rt = fst (risk_check now rt)"
proof -
  obtain rt1 out where r: "risk_check now rt = (rt1, out)" by fastforce
  then have "gateway_ok (rt_broker rt1)" using risk_check_frame(1) [of now rt] assms by simp
  then show ?thesis by (simp add: periodic_risk_check_def r kill_cancels_none split: risk_check_outcome.split)
qed

text \<open>A blind daemon stays blind, and only the commands that name an order reach its broker.\<close>

lemma blind_turn:
  assumes b: "blind rt" and n: "\<not> names_order t"
  shows "rt_broker (run_turn E N M I t rt) = rt_broker rt \<and> blind (run_turn E N M I t rt)"
proof -
  have g: "gateway_ok (rt_broker rt)" and md: "rt_market_data rt = md_new" and u: "unhedged (rt_hedge rt)"
    using b by (auto simp: blind_def)
  show ?thesis
  proof (cases t)
    case (FillTurn now f)
    then show ?thesis using g md u by (simp add: handle_fill_def unhedged_offer book_option_fill_def blind_def)
  next
    case (TickTurn t)
    then show ?thesis using g md u
      by (simp add: handle_tick_def Let_def blind_def split: tick_kind.split option.split)
  next
    case (RiskTurn now)
    then show ?thesis using g md u by (simp add: risk_turn_frame risk_check_frame blind_def)
  next
    case (HedgeTurn k now)
    obtain rt1 actions where h: "hedge_decisions k now rt = (rt1, actions)" by fastforce
    have "rt_broker rt1 = rt_broker rt" "rt_market_data rt1 = rt_market_data rt" "unhedged (rt_hedge rt1)"
      using hedge_decisions_frame [where n = k and now = now and rt = rt] u h by auto
    then show ?thesis using HedgeTurn g md h by (simp add: periodic_hedge_def unhedged_actions blind_def)
  next
    case (RolloverTurn hour today last_day)
    then show ?thesis using g md u by (simp add: daily_halt_rollover_def blind_def)
  next
    case (AccountTurn now)
    then show ?thesis using g md u by (simp add: account_frame blind_def)
  next
    case (PlaceTurn now body)
    then have "run_turn E N M I t rt = rt"
      using md by (auto simp: handle_place_def split: option.split)
    then show ?thesis using b by simp
  qed (use g md u n in \<open>simp_all add: handle_status_def handle_error_def handle_connection_def
      periodic_greek_refresh_def blind_def\<close>)
qed

lemma blind_named:
  assumes "blind rt" "names_order t"
  shows "blind (run_turn E N M I t rt)"
  using assms
  by (cases t) (auto simp: blind_def handle_cancel_def handle_modify_def Let_def gateway_ok_orders split: option.split)


lemma resolve_fails:
  assumes "gateway_ok (rt_broker rt)"
  obtains nb where "resolve_hedge_contract E N today target rt = rt\<lparr>rt_broker := nb\<rparr>" "gateway_ok nb"
proof -
  obtain symbol days where t: "target = (symbol, days)" by fastforce
  obtain e nb where "list_chain E N \<lparr>cq_symbol = symbol, cq_exchange = Comex, cq_currency = Usd, cq_kind = Some Future,
      cq_min_expiry = Some (today + days)\<rparr> (rt_broker rt) = (Inl e, nb)" "gateway_ok nb"
    using list_chain_fails [OF assms] by blast
  then show ?thesis using that by (simp add: resolve_hedge_contract_def Let_def t)
qed

lemma resolves_fail:
  "gateway_ok (rt_broker rt) \<Longrightarrow> \<exists>nb. fold (resolve_hedge_contract E N today) targets rt = rt\<lparr>rt_broker := nb\<rparr> \<and> gateway_ok nb"
proof (induction targets arbitrary: rt)
  case Nil
  then show ?case by (auto intro!: exI [of _ "rt_broker rt"])
next
  case (Cons target targets)
  obtain nb where nb: "resolve_hedge_contract E N today target rt = rt\<lparr>rt_broker := nb\<rparr>" "gateway_ok nb"
    using resolve_fails [OF Cons.prems] .
  with Cons.IH [of "rt\<lparr>rt_broker := nb\<rparr>"] show ?case by simp
qed

lemma seed_frame:
  "rt_broker (seed_positions_from_broker now rt) = rt_broker rt"
  "rt_market_data (seed_positions_from_broker now rt) = rt_market_data rt"
  "rt_mode (seed_positions_from_broker now rt) = rt_mode rt"
  "unhedged (rt_hedge rt) \<Longrightarrow> unhedged (rt_hedge (seed_positions_from_broker now rt))"
  by (simp_all add: seed_positions_from_broker_def Let_def unhedged_fold unhedged_seed split: prod.split)

lemma blind_step:
  assumes "daemon_step E N M I rt rt'" "blind rt"
  shows "blind rt'"
  using assms
proof (induction rule: daemon_step.induct)
  case (gateway rt nb)
  then show ?case by (auto simp: blind_def intro: gateway_ok_step)
next
  case (resolve rt today)
  then obtain nb where "resolve_hedge_contracts E N today rt = rt\<lparr>rt_broker := nb\<rparr>" "gateway_ok nb"
    using resolves_fail unfolding resolve_hedge_contracts_def blind_def by blast
  then show ?case using resolve by (simp add: blind_def)
next
  case (seed rt now)
  then show ?case by (simp add: blind_def seed_frame)
next
  case (subscribe tag today looks rt rt')
  then obtain nb where "subscribe_market_data E N tag today looks rt = Some (rt\<lparr>rt_broker := nb\<rparr>)" "gateway_ok nb"
    using subscribe_market_data_idle unfolding blind_def by blast
  then show ?case using subscribe by (simp add: blind_def)
next
  case (turn rt t)
  then show ?case by (cases "names_order t") (simp_all add: blind_named blind_turn)
qed

lemma blind_reachable: "daemon_reachable E N M I rt0 rt \<Longrightarrow> blind rt0 \<Longrightarrow> blind rt"
  by (induction rule: daemon_reachable.induct) (auto intro: blind_step)

lemma blind_construct:
  assumes "runtime_construct cfg mode dir = Inr rt"
  shows "blind rt \<and> rt_mode rt = mode"
proof -
  obtain nb primary where nb: "build_broker cfg = Inr nb" and p: "find pc_enabled (dc_products cfg) = Some primary"
    using assms by (auto simp: runtime_construct_def and_then_def split: sum.splits option.splits)
  have "gateway_ok nb"
    using nb gateway_ok_new by (auto simp: build_broker_def Let_def split: if_splits option.splits)
  moreover have "unhedged (build_hedge_fanout cfg)"
    by (auto simp: unhedged_def build_hedge_fanout_def Let_def hedge_manager_new_def)
  ultimately show ?thesis
    using assms by (auto simp: runtime_construct_def nb p blind_def)
qed

section \<open>Properties\<close>

text \<open>C17. The daemon never receives a quote and never places an order. From the state \<open>Runtime::new\<close>
  constructs, whatever the gateway answers and however the boot, the tasks and the trader's
  commands interleave, no instrument is ever registered for market data, no hedge has a contract,
  and no turn but the commands that name an order touches the broker. The cause is that the end of
  a listing is never decoded, so no contract is ever resolved.\<close>

theorem daemon_never_places_orders:
  assumes "runtime_construct cfg mode dir = Inr rt0" "daemon_reachable E N M I rt0 rt"
  shows "rt_market_data rt = md_new \<and> unhedged (rt_hedge rt) \<and> (names_order t \<or> rt_broker (run_turn E N M I t rt) = rt_broker rt)"
proof -
  have "blind rt" using blind_reachable [OF assms(2)] blind_construct [OF assms(1)] by blast
  then show ?thesis using blind_turn [of rt t E N M I] unfolding blind_def by blast
qed

text \<open>Shadow mode.\<close>

lemma mode_turn: "rt_mode (run_turn E N M I t rt) = rt_mode rt"
proof -
  have act: "rt_mode (execute_hedge_action E N product a rt) = rt_mode rt" for product a rt
    by (cases a) (simp_all add: execute_hedge_action_def place_hedge_order_def Let_def split: option.split)
  have acts: "rt_mode (fold (\<lambda>(product, a). execute_hedge_action E N product a) xs rt) = rt_mode rt" for xs rt
    by (induction xs arbitrary: rt) (auto simp: act)
  have canc: "rt_mode (cancel_all_resting E N rt) = rt_mode rt" for rt by (simp add: cancel_all_resting_def Let_def)
  show ?thesis
  proof (cases t)
    case (FillTurn now f)
    then show ?thesis
      by (simp add: handle_fill_def book_option_fill_def rebalance_after_fill_def Let_def act canc
          split: prod.split option.split)
  next
    case (RiskTurn now)
    then show ?thesis using risk_check_frame(4) [of now rt]
      by (auto simp: periodic_risk_check_def canc split: prod.split risk_check_outcome.split)
  next
    case (HedgeTurn k now)
    then show ?thesis using hedge_decisions_frame(3) [where n = k and now = now and rt = rt]
      by (auto simp: periodic_hedge_def acts split: prod.split)
  qed (simp_all add: handle_status_def handle_tick_def handle_error_def handle_connection_def
      periodic_greek_refresh_def daily_halt_rollover_def account_frame handle_place_def handle_cancel_def
      handle_modify_def Let_def split: tick_kind.split option.split)
qed

lemma shadow_turn:
  assumes g: "gateway_ok (rt_broker rt)" and s: "rt_mode rt = ShadowMode"
  shows "rt_broker (run_turn E N M I t rt) = rt_broker rt"
proof -
  have act: "execute_hedge_action E N product a rt = rt" if "rt_mode rt = ShadowMode" for product a rt
    using that by (cases a) (simp_all add: execute_hedge_action_def)
  have acts: "fold (\<lambda>(product, a). execute_hedge_action E N product a) xs rt = rt" if "rt_mode rt = ShadowMode" for xs rt
    using that by (induction xs) (auto simp: act)
  show ?thesis
  proof (cases t)
    case (FillTurn now f)
    then show ?thesis using g s
      by (simp add: handle_fill_def book_option_fill_def rebalance_after_fill_def Let_def act kill_cancels_none
          split: prod.split option.split)
  next
    case (RiskTurn now)
    then show ?thesis using g by (simp add: risk_turn_frame risk_check_frame)
  next
    case (HedgeTurn k now)
    obtain rt1 actions where h: "hedge_decisions k now rt = (rt1, actions)" by fastforce
    have "rt_broker rt1 = rt_broker rt" "rt_mode rt1 = ShadowMode"
      using hedge_decisions_frame(1,3) [where n = k and now = now and rt = rt] s h by auto
    then show ?thesis using HedgeTurn h by (simp add: periodic_hedge_def acts)
  qed (use s in \<open>simp_all add: handle_status_def handle_tick_def handle_error_def handle_connection_def
      periodic_greek_refresh_def daily_halt_rollover_def account_frame handle_place_def handle_cancel_def
      handle_modify_def Let_def split: tick_kind.split option.split\<close>)
qed


lemma shadow_step:
  assumes "daemon_step E N M I rt rt'" "gateway_ok (rt_broker rt) \<and> rt_mode rt = ShadowMode"
  shows "gateway_ok (rt_broker rt') \<and> rt_mode rt' = ShadowMode"
  using assms
proof (induction rule: daemon_step.induct)
  case (gateway rt nb)
  then show ?case by (auto intro: gateway_ok_step)
next
  case (resolve rt today)
  then obtain nb where "resolve_hedge_contracts E N today rt = rt\<lparr>rt_broker := nb\<rparr>" "gateway_ok nb"
    using resolves_fail unfolding resolve_hedge_contracts_def by blast
  then show ?case using resolve by simp
next
  case (seed rt now)
  then show ?case by (simp add: seed_frame)
next
  case (subscribe tag today looks rt rt')
  then obtain nb where "subscribe_market_data E N tag today looks rt = Some (rt\<lparr>rt_broker := nb\<rparr>)" "gateway_ok nb"
    using subscribe_market_data_idle by blast
  then show ?case using subscribe by simp
next
  case (turn rt t)
  then show ?case by (simp add: shadow_turn mode_turn)
qed

lemma shadow_reachable:
  "daemon_reachable E N M I rt0 rt \<Longrightarrow> gateway_ok (rt_broker rt0) \<and> rt_mode rt0 = ShadowMode \<Longrightarrow>
   gateway_ok (rt_broker rt) \<and> rt_mode rt = ShadowMode"
  by (induction rule: daemon_reachable.induct) (auto dest: shadow_step)

text \<open>C18. Shadow mode never trades: from any state of a daemon in shadow mode, with whatever positions,
  contracts, market data and kills, no task and no command of the trader, in any order and with
  whatever the gateway does in between, changes the broker or its outgoing stream.\<close>

theorem shadow_mode_never_trades:
  assumes "rt_mode rt0 = ShadowMode" "gateway_ok (rt_broker rt0)" "daemon_reachable E N M I rt0 rt"
  shows "rt_broker (run_turn E N M I t rt) = rt_broker rt"
  using shadow_turn shadow_reachable [OF assms(3)] assms(1,2) by blast

text \<open>Applied to the demo daemon.\<close>

lemma demo_constructs: "\<exists>rt. runtime_construct demo_config mode no_sentinels = Inr rt"
  by (simp add: runtime_construct_def build_broker_def demo_config_def Let_def and_then_def)

theorem daemon_never_places_orders_witness:
  "\<exists>rt0. runtime_construct demo_config LiveMode no_sentinels = Inr rt0 \<and>
     rt_market_data (run_turn demo_gateway_env silent_network demo_libm demo_ipc (TickTurn demo_bid_tick) rt0) = md_new \<and>
     rt_broker (run_turn demo_gateway_env silent_network demo_libm demo_ipc (HedgeTurn 4 0)
        (run_turn demo_gateway_env silent_network demo_libm demo_ipc (TickTurn demo_bid_tick) rt0)) =
     rt_broker (run_turn demo_gateway_env silent_network demo_libm demo_ipc (TickTurn demo_bid_tick) rt0)"
proof -
  obtain rt0 where c: "runtime_construct demo_config LiveMode no_sentinels = Inr rt0" using demo_constructs by blast
  have r: "daemon_reachable demo_gateway_env silent_network demo_libm demo_ipc rt0
      (run_turn demo_gateway_env silent_network demo_libm demo_ipc (TickTurn demo_bid_tick) rt0)"
    by (rule daemon_reachable.step [OF daemon_reachable.start daemon_step.turn])
  show ?thesis using daemon_never_places_orders [OF c r, of "HedgeTurn 4 0"] c by auto
qed

theorem shadow_mode_never_trades_witness:
  "rt_broker (run_turn demo_gateway_env silent_network demo_libm demo_ipc (CancelTurn [1]) (demo_listed\<lparr>rt_mode := ShadowMode,
       rt_broker := demo_broker\<rparr>)) = demo_broker"
proof -
  have "gateway_ok (rt_broker (demo_listed\<lparr>rt_mode := ShadowMode, rt_broker := demo_broker\<rparr>))"
    by (simp add: demo_broker_def gateway_ok_new)
  from shadow_mode_never_trades [OF _ this daemon_reachable.start, of demo_gateway_env silent_network demo_libm demo_ipc "CancelTurn [1]"]
  show ?thesis by simp
qed

end
