(* ===== verification/Daemon_Types.thy ===== *)
theory Daemon_Types
  imports Daemon_System
begin

text \<open>
  The types of the daemon's state. The model keeps a 32-bit quantity as an integer and an index as
  a natural number, so that staying in range is a fact to prove: here, for the position book, the
  hedges and the cached broker positions, along every run of the daemon.
\<close>

section \<open>Well-typed states\<close>

definition book_typed :: "portfolio_state \<Rightarrow> bool" where
  "book_typed s \<longleftrightarrow>
     (\<forall>p \<in> set (positions s). in_i32 (p_quantity p)) \<and>
     (\<forall>k i. hm_get (pindex s) k = Some i \<longrightarrow> i < length (positions s))"

definition hedge_typed :: "hedge_manager \<Rightarrow> bool" where
  "hedge_typed m \<longleftrightarrow> in_i32 (hedge_qty (mg_state m))"

definition hedges_typed :: "hedge_fanout \<Rightarrow> bool" where
  "hedges_typed fo \<longleftrightarrow> (\<forall>m \<in> set fo. hedge_typed m)"

definition runtime_typed :: "runtime \<Rightarrow> bool" where
  "runtime_typed rt \<longleftrightarrow>
     book_typed (rt_portfolio rt) \<and> hedges_typed (rt_hedge rt) \<and> gateway_ok (rt_broker rt)"

section \<open>The book\<close>

lemma book_typed_at: "book_typed s \<Longrightarrow> hm_get (pindex s) k = Some i \<Longrightarrow> i < length (positions s)"
  by (simp add: book_typed_def)

lemma book_typed_rebuilt: "(\<forall>p \<in> set ps. in_i32 (p_quantity p)) \<Longrightarrow> book_typed (replace_positions ps s)"
  by (auto simp: book_typed_def replace_positions_def rebuild_index_def dest: index_of_get(1))

lemma book_typed_new: "book_typed (portfolio_new r)"
  by (simp add: book_typed_def portfolio_new_def hm_simps)

lemma book_typed_cong:
  "positions s' = positions s \<Longrightarrow> pindex s' = pindex s \<Longrightarrow> book_typed s' = book_typed s"
  by (simp add: book_typed_def)

lemma book_typed_accounting [simp]: "book_typed (record_fill_accounting q a b s) = book_typed s"
  by (rule book_typed_cong) simp_all

lemma book_typed_refresh: "book_typed s \<Longrightarrow> book_typed (refresh_greeks M now mk s)"
  by (auto simp: book_typed_def refresh_greeks_def refresh_position_frame)

lemma book_typed_fill:
  assumes "book_typed s" "in_i32 q"
  shows "book_typed (fst (add_fill now p k e r q px a b s))"
proof (cases "q = 0")
  case True
  then show ?thesis using assms by (simp add: add_fill_zero)
next
  case False
  show ?thesis
  proof (cases "hm_get (pindex s) (make_key p k e r)")
    case None
    have "hm_get (hm_insert key (length (positions s)) (pindex s)) k' = Some i \<Longrightarrow> i < Suc (length (positions s))" for key k' i
      using assms(1) by (auto simp: hm_simps book_typed_def less_Suc_eq split: if_splits)
    then show ?thesis using None False assms by (auto simp: add_fill_def Let_def book_typed_def)
  next
    case (Some i)
    have i: "i < length (positions s)" by (rule book_typed_at [OF assms(1) Some])
    let ?ps = "take i (positions s) @ drop (Suc i) (positions s)"
    have close: "book_typed (rebuild_index (s\<lparr>positions := ?ps\<rparr>))"
      using book_typed_rebuilt [of ?ps s] assms(1)
      by (auto simp: replace_positions_def book_typed_def dest: in_set_takeD in_set_dropD)
    have merge: "book_typed (s\<lparr>positions := (positions s)[i := x]\<rparr>)" if "in_i32 (p_quantity x)" for x
      using assms(1) that set_update_subset_insert [of "positions s" i x] by (auto simp: book_typed_def)
    show ?thesis using Some False close merge by (simp add: add_fill_def Let_def)
  qed
qed

section \<open>The hedges\<close>

lemma hedge_typed_ops:
  assumes "hedge_typed m"
  shows "hedge_typed (fst (rebalance_on_fill p m))" "hedge_typed (fst (rebalance_periodic p fwd now m))"
    "in_i32 q \<Longrightarrow> hedge_typed (fst (reconcile_with_position q avg m))" "hedge_typed (fst (apply_broker_fill f m))"
  using assms
  by (auto simp: hedge_typed_def rebalance_on_fill_def rebalance_periodic_def Let_def maybe_rebalance_frame rebalance_frame
      reconcile_with_position_def hedge_replace_def apply_broker_fill_def hedge_apply_fill_qty split: option.split)

lemma hedges_typed_update:
  "hedges_typed fo \<Longrightarrow> (\<And>m. hedge_typed m \<Longrightarrow> hedge_typed (f m)) \<Longrightarrow> hedges_typed (update_product pr f fo)"
  by (induction fo) (auto simp: hedges_typed_def)

lemma hedges_typed_fold:
  assumes "\<And>x fo. x \<in> set xs \<Longrightarrow> hedges_typed fo \<Longrightarrow> hedges_typed (f x fo)"
  shows "hedges_typed fo \<Longrightarrow> hedges_typed (fold f xs fo)"
  using assms by (induction xs arbitrary: fo) simp_all

lemma hedges_typed_seed: "hedges_typed fo \<Longrightarrow> in_i32 (fst (snd seed)) \<Longrightarrow> hedges_typed (apply_hedge_seed seed fo)"
  by (cases seed) (simp add: apply_hedge_seed_def hedges_typed_update hedge_typed_ops)

lemma hedges_typed_reconcile: "hedges_typed fo \<Longrightarrow> in_i32 (bp_quantity bp) \<Longrightarrow> hedges_typed (reconcile_hedge bp fo)"
  by (simp add: reconcile_hedge_def Let_def hedges_typed_seed)

lemma hedges_typed_offer: "hedges_typed fo \<Longrightarrow> hedges_typed (fst (offer_to_hedge f prs fo))"
  by (induction prs arbitrary: fo) (simp_all add: Let_def hedges_typed_update hedge_typed_ops split: option.split)

lemma hedges_typed_rebalances:
  "hedges_typed (fst acc) \<Longrightarrow> hedges_typed (fst (fold (rebalance_product p now) targets acc))"
proof (induction targets arbitrary: acc)
  case (Cons target targets)
  have "hedges_typed (fst (rebalance_product p now target acc))"
    using Cons.prems by (cases target; cases acc)
      (simp add: rebalance_product_def Let_def hedges_typed_update hedge_typed_ops split: option.split)
  then show ?case using Cons.IH by simp
qed simp

section \<open>The turns\<close>

text \<open>A turn that changes only the broker keeps the types as long as the broker keeps its own.\<close>

lemma runtime_typed_broker:
  "runtime_typed rt \<Longrightarrow> gateway_ok nb \<Longrightarrow> runtime_typed (rt\<lparr>rt_broker := nb\<rparr>)"
  by (simp add: runtime_typed_def)

lemma runtime_typed_cong:
  "rt_portfolio rt' = rt_portfolio rt \<Longrightarrow> rt_hedge rt' = rt_hedge rt \<Longrightarrow> rt_broker rt' = rt_broker rt \<Longrightarrow>
   runtime_typed rt' = runtime_typed rt"
  by (simp add: runtime_typed_def)

lemma runtime_typed_action: "runtime_typed rt \<Longrightarrow> runtime_typed (execute_hedge_action E N product a rt)"
  by (cases a) (auto simp: execute_hedge_action_def place_hedge_order_def Let_def
      intro: runtime_typed_broker gateway_ok_place simp: runtime_typed_def split: option.split)

lemma runtime_typed_actions:
  "runtime_typed rt \<Longrightarrow> runtime_typed (fold (\<lambda>(product, a). execute_hedge_action E N product a) actions rt)"
  by (induction actions arbitrary: rt) (auto simp: runtime_typed_action)

lemma runtime_typed_booked:
  assumes "runtime_typed rt" "book_option_fill now f rt = (rt1, out)"
  shows "runtime_typed rt1"
proof -
  have "book_typed (fst (add_fill now p k e r (signed_fill_qty f) px a b (rt_portfolio rt)))" for p k e r px a b
    using assms(1) by (intro book_typed_fill signed_fill_qty_range) (simp add: runtime_typed_def)
  then show ?thesis
    using assms by (auto simp: book_option_fill_def runtime_typed_def split: option.splits prod.splits) (metis fst_conv)
qed

lemma runtime_typed_rebalanced:
  "runtime_typed rt \<Longrightarrow> runtime_typed (fst (rebalance_after_fill product rt))"
  by (simp add: rebalance_after_fill_def runtime_typed_def hedges_typed_update hedge_typed_ops split: option.split)

lemma runtime_typed_fill:
  assumes "runtime_typed rt"
  shows "runtime_typed (handle_fill E N now f rt)"
proof -
  obtain fo taken where o: "offer_to_hedge f (map (\<lambda>m. hc_product (mg_cfg m)) (rt_hedge rt)) (rt_hedge rt) = (fo, taken)"
    by fastforce
  have "hedges_typed fo"
    using hedges_typed_offer [of "rt_hedge rt"] o assms by (metis fst_conv runtime_typed_def)
  then have t0: "runtime_typed (rt\<lparr>rt_hedge := fo\<rparr>)" using assms by (simp add: runtime_typed_def)
  obtain rt1 out where b: "book_option_fill now f (rt\<lparr>rt_hedge := fo\<rparr>) = (rt1, out)" by fastforce
  have t1: "runtime_typed rt1" by (rule runtime_typed_booked [OF t0 b])
  then have c: "cancel_all_resting E N rt1 = rt1" by (simp add: kill_cancels_none runtime_typed_def)
  show ?thesis
  proof (cases "taken \<or> out = None")
    case True
    then show ?thesis using o b t0 t1 by (auto simp: handle_fill_def Let_def)
  next
    case False
    then obtain product killed where out: "out = Some (product, killed)" by auto
    obtain rt3 action where r: "rebalance_after_fill product rt1 = (rt3, action)" by fastforce
    have "runtime_typed rt3" using runtime_typed_rebalanced [OF t1, of product] r by simp
    then show ?thesis using o b out r c False runtime_typed_action
      by (simp add: handle_fill_def Let_def split: option.split)
  qed
qed

lemma runtime_typed_hedge:
  assumes "runtime_typed rt"
  shows "runtime_typed (periodic_hedge E N n now rt)"
proof -
  obtain rt1 actions where h: "hedge_decisions n now rt = (rt1, actions)" by fastforce
  have "in_i32 (bp_quantity bp)" if "bp \<in> set (broker_positions (rt_broker rt))" for bp
    using assms that typed_positions_cached by (auto simp: runtime_typed_def gateway_ok_def)
  then have "hedges_typed (if n mod 4 = 0 then fold reconcile_hedge (broker_positions (rt_broker rt)) (rt_hedge rt) else rt_hedge rt)"
    using assms by (auto simp: runtime_typed_def intro!: hedges_typed_fold hedges_typed_reconcile)
  from hedges_typed_rebalances [of "(_, [])", simplified, OF this]
  have "runtime_typed (fst (hedge_decisions n now rt))"
    using assms by (simp add: hedge_decisions_def Let_def split_def runtime_typed_def)
  then show ?thesis using h runtime_typed_actions by (simp add: periodic_hedge_def)
qed

lemma risk_check_portfolio: "rt_portfolio (fst (risk_check now rt)) = rt_portfolio rt"
  by (simp add: risk_check_def Let_def split: prod.split)

lemma account_portfolio: "rt_portfolio (periodic_account_poll M now rt) = rt_portfolio rt"
  by (simp add: periodic_account_poll_def Let_def)

lemma runtime_typed_turn:
  assumes t: "runtime_typed rt"
  shows "runtime_typed (run_turn E N M I turn rt)"
proof (cases turn)
  case (FillTurn now f)
  then show ?thesis by (simp add: runtime_typed_fill t)
next
  case (TickTurn tk)
  have "rt_portfolio (handle_tick tk rt) = rt_portfolio rt" "rt_hedge (handle_tick tk rt) = rt_hedge rt"
    "rt_broker (handle_tick tk rt) = rt_broker rt"
    by (simp_all add: handle_tick_def Let_def split: tick_kind.split option.split)
  then show ?thesis using TickTurn t by (simp add: runtime_typed_cong [of "handle_tick tk rt" rt])
next
  case (GreekTurn now)
  then show ?thesis using t by (simp add: periodic_greek_refresh_def runtime_typed_def book_typed_refresh)
next
  case (RiskTurn now)
  have "gateway_ok (rt_broker rt)" using t by (simp add: runtime_typed_def)
  then show ?thesis using RiskTurn t
    by (simp add: risk_turn_frame runtime_typed_cong [of "fst (risk_check now rt)" rt] risk_check_frame risk_check_portfolio)
next
  case (HedgeTurn n now)
  then show ?thesis by (simp add: runtime_typed_hedge t)
next
  case (RolloverTurn hour today last_day)
  then show ?thesis using t by (simp add: daily_halt_rollover_def runtime_typed_def)
next
  case (AccountTurn now)
  then show ?thesis using t
    by (simp add: runtime_typed_cong [of "periodic_account_poll M now rt" rt] account_frame account_portfolio)
next
  case (PlaceTurn now body)
  then show ?thesis using t gateway_ok_place
    by (auto simp: handle_place_def Let_def runtime_typed_def split: option.split)
next
  case (CancelTurn body)
  then show ?thesis using t gateway_ok_orders
    by (auto simp: handle_cancel_def runtime_typed_def split: option.split)
next
  case (ModifyTurn now body)
  then show ?thesis using t gateway_ok_orders
    by (auto simp: handle_modify_def Let_def runtime_typed_def split: option.split)
qed (use t in \<open>auto simp: handle_status_def handle_error_def handle_connection_def runtime_typed_def\<close>)

section \<open>The boot\<close>

definition seeds_typed :: "position list \<times> (string \<times> int \<times> f64) list \<Rightarrow> bool" where
  "seeds_typed acc \<longleftrightarrow> (\<forall>p \<in> set (fst acc). in_i32 (p_quantity p)) \<and> (\<forall>s \<in> set (snd acc). in_i32 (fst (snd s)))"

lemma seed_position_typed:
  "in_i32 (bp_quantity bp) \<Longrightarrow> seeds_typed acc \<Longrightarrow> seeds_typed (seed_position now products bp acc)"
  by (auto simp: seed_position_def seed_option_def seed_future_def seeds_typed_def Let_def
      split: contract_kind.split option.splits if_splits)

lemma seed_positions_typed:
  "(\<And>bp. bp \<in> set bps \<Longrightarrow> in_i32 (bp_quantity bp)) \<Longrightarrow> seeds_typed acc \<Longrightarrow>
   seeds_typed (fold (seed_position now products) bps acc)"
  by (induction bps arbitrary: acc) (simp_all add: seed_position_typed)

lemma runtime_typed_seed:
  assumes "runtime_typed rt"
  shows "runtime_typed (seed_positions_from_broker now rt)"
proof -
  let ?products = "registry_products (registry (rt_portfolio rt))"
  obtain ps hs where f: "fold (seed_position now ?products) (broker_positions (rt_broker rt)) ([], []) = (ps, hs)" by fastforce
  have "in_i32 (bp_quantity bp)" if "bp \<in> set (broker_positions (rt_broker rt))" for bp
    using assms that typed_positions_cached by (auto simp: runtime_typed_def gateway_ok_def)
  then have st: "seeds_typed (ps, hs)"
    using seed_positions_typed [of "broker_positions (rt_broker rt)" "([], [])" now ?products]
    unfolding f by (simp add: seeds_typed_def)
  then have "book_typed (replace_positions ps (rt_portfolio rt))" by (intro book_typed_rebuilt) (simp add: seeds_typed_def)
  moreover have "hedges_typed (fold apply_hedge_seed hs (rt_hedge rt))"
    using assms st by (intro hedges_typed_fold hedges_typed_seed) (auto simp: runtime_typed_def seeds_typed_def)
  ultimately show ?thesis using assms by (simp add: seed_positions_from_broker_def Let_def f runtime_typed_def)
qed

lemma runtime_typed_step:
  assumes "daemon_step E N M I rt rt'" "runtime_typed rt"
  shows "runtime_typed rt'"
  using assms
proof (induction rule: daemon_step.induct)
  case (gateway rt nb)
  then show ?case by (auto simp: runtime_typed_def intro: gateway_ok_step)
next
  case (resolve rt today)
  then obtain nb where "resolve_hedge_contracts E N today rt = rt\<lparr>rt_broker := nb\<rparr>" "gateway_ok nb"
    using resolves_fail unfolding resolve_hedge_contracts_def runtime_typed_def by blast
  then show ?case using resolve by (simp add: runtime_typed_broker)
next
  case (seed rt now)
  then show ?case by (simp add: runtime_typed_seed)
next
  case (subscribe tag today looks rt rt')
  then obtain nb where "subscribe_market_data E N tag today looks rt = Some (rt\<lparr>rt_broker := nb\<rparr>)" "gateway_ok nb"
    using subscribe_market_data_idle unfolding runtime_typed_def by blast
  then show ?case using subscribe by (simp add: runtime_typed_broker)
next
  case (turn rt t)
  then show ?case by (simp add: runtime_typed_turn)
qed

section \<open>Properties\<close>

text \<open>C19. The daemon keeps its types: from any state in which every position, every hedge and every
  cached broker position is a 32-bit integer and every entry of the book's index points into its
  vector, the same holds after any boot steps, task turns, trader commands and gateway steps, in any
  order and whatever the gateway sends. So a quantity never leaves its type, however large the
  fills, and indexing the book never panics.\<close>

theorem daemon_keeps_types:
  assumes "daemon_reachable E N M I rt0 rt" "runtime_typed rt0"
  shows "runtime_typed rt"
  using assms by (induction rule: daemon_reachable.induct) (auto intro: runtime_typed_step)

text \<open>Applied to the state the daemon starts in, after a fill and a reconciling hedge turn.\<close>

lemma runtime_construct_typed:
  assumes "runtime_construct cfg mode dir = Inr rt"
  shows "runtime_typed rt"
proof -
  have "gateway_ok (rt_broker rt)" using blind_construct [OF assms] by (simp add: blind_def)
  moreover have "hedges_typed (build_hedge_fanout cfg)"
    by (auto simp: hedges_typed_def hedge_typed_def build_hedge_fanout_def Let_def hedge_manager_new_def
        hedge_state_new_def in_i32_def)
  ultimately show ?thesis
    using assms book_typed_new
    by (auto simp: runtime_construct_def and_then_def runtime_typed_def split: sum.splits option.splits)
qed

theorem daemon_keeps_types_witness:
  "\<exists>rt0. runtime_construct demo_config LiveMode no_sentinels = Inr rt0 \<and>
     runtime_typed (run_turn demo_gateway_env silent_network demo_libm demo_ipc (HedgeTurn 4 0)
       (run_turn demo_gateway_env silent_network demo_libm demo_ipc (FillTurn 0 demo_sale) rt0))"
proof -
  obtain rt0 where c: "runtime_construct demo_config LiveMode no_sentinels = Inr rt0" using demo_constructs by blast
  have "daemon_reachable demo_gateway_env silent_network demo_libm demo_ipc rt0
      (run_turn demo_gateway_env silent_network demo_libm demo_ipc (HedgeTurn 4 0)
        (run_turn demo_gateway_env silent_network demo_libm demo_ipc (FillTurn 0 demo_sale) rt0))"
    by (meson daemon_reachable.start daemon_reachable.step daemon_step.turn)
  from daemon_keeps_types [OF this runtime_construct_typed [OF c]] c show ?thesis by blast
qed

end
