(* ===== verification/Lock_Order.thy ===== *)
theory Lock_Order
  imports Prelude
begin

text \<open>
  The locks of the daemon: each task of \<open>corsair_broker\<close> as the sequence of locks it takes and drops in
  one iteration (\<open>tasks.rs\<close>, \<open>ipc.rs\<close>, \<open>vol_surface.rs\<close>, \<open>subscriptions.rs\<close>), and their
  interleaving. A guard lives to the end of its block, so the locks of a block nest; every early
  return of a task is an argument of its sequence. The locks inside the gateway adapter are not part
  of the model. A waiting task may be any thread of the runtime. The tasks as written never
  deadlock, because whoever holds two locks holds the portfolio or waits for a lock that is always
  released; a place command breaks the order and can deadlock with the Greek refresh.
\<close>

section \<open>Locks and programs\<close>

datatype lock =
    PortfolioLock | MarketDataLock | RiskLock | HedgeLock | OmsLock | AccountLock | ConstraintLock
  | SnapshotLock | BrokerLock | TickCacheLock | RingLock

datatype lock_op = Acquire lock | Release lock

definition hold :: "lock \<Rightarrow> lock_op list \<Rightarrow> lock_op list" where
  "hold l inner = Acquire l # inner @ [Release l]"

text \<open>Helpers the tasks call.\<close>

definition cancel_all_locks :: "lock_op list" where
  "cancel_all_locks = hold BrokerLock []"

datatype hedge_path = NoContract | NoPrice | Ordered

definition place_hedge_locks :: "hedge_path \<Rightarrow> lock_op list" where
  "place_hedge_locks path =
     hold HedgeLock [] @
     (case path of NoContract \<Rightarrow> [] | NoPrice \<Rightarrow> hold MarketDataLock []
      | Ordered \<Rightarrow> hold MarketDataLock [] @ hold BrokerLock [])"

text \<open>Effective delta gating looks up the hedge once per product.\<close>

definition worst_locks :: "nat \<Rightarrow> lock_op list" where
  "worst_locks n = concat (replicate n (hold HedgeLock []))"

text \<open>The handlers: how a fill ends, and how often the loops run, are arguments.\<close>

datatype fill_path = TakenByHedge | Unregistered | Booked bool "hedge_path option"

definition fill_locks :: "fill_path \<Rightarrow> lock_op list" where
  "fill_locks path =
     hold HedgeLock [] @
     (case path of
        TakenByHedge \<Rightarrow> []
      | Unregistered \<Rightarrow> hold PortfolioLock [] @ hold MarketDataLock []
      | Booked killed placed \<Rightarrow>
          hold PortfolioLock [] @ hold MarketDataLock [] @ hold PortfolioLock [] @
          hold PortfolioLock (hold MarketDataLock (hold RiskLock [])) @
          (if killed then cancel_all_locks else []) @
          hold PortfolioLock (hold HedgeLock []) @
          (case placed of None \<Rightarrow> [] | Some p \<Rightarrow> place_hedge_locks p))"

definition status_locks :: "lock_op list" where
  "status_locks = hold OmsLock []"

definition tick_locks :: "lock_op list" where
  "tick_locks = hold MarketDataLock []"

definition connection_locks :: "lock_op list" where
  "connection_locks = hold RiskLock []"

definition greek_locks :: "lock_op list" where
  "greek_locks = hold PortfolioLock (hold MarketDataLock [])"

definition risk_locks :: "nat \<Rightarrow> bool \<Rightarrow> lock_op list" where
  "risk_locks n killed =
     hold PortfolioLock (hold MarketDataLock (hold RiskLock (worst_locks n @ hold AccountLock []))) @
     (if killed then cancel_all_locks else [])"

definition hedge_locks :: "bool option \<Rightarrow> hedge_path list \<Rightarrow> lock_op list" where
  "hedge_locks reconcile orders =
     (case reconcile of None \<Rightarrow> []
      | Some answered \<Rightarrow> hold BrokerLock [] @ (if answered then hold HedgeLock [] else [])) @
     hold PortfolioLock (hold MarketDataLock []) @ hold PortfolioLock (hold HedgeLock []) @
     concat (map place_hedge_locks orders)"

definition snapshot_locks :: "lock_op list" where
  "snapshot_locks =
     hold AccountLock (hold ConstraintLock []) @
     hold PortfolioLock (hold RiskLock (hold HedgeLock (hold MarketDataLock (hold SnapshotLock []))))"

definition rollover_locks :: "lock_op list" where
  "rollover_locks = hold RiskLock []"

definition account_locks :: "bool option \<Rightarrow> bool \<Rightarrow> lock_op list" where
  "account_locks margin calibrated =
     hold BrokerLock [] @
     (case margin of None \<Rightarrow> []
      | Some positive \<Rightarrow>
          hold AccountLock [] @
          (if positive
           then hold PortfolioLock (hold MarketDataLock []) @ (if calibrated then hold ConstraintLock [] else [])
           else []))"

definition subscription_locks :: "nat \<Rightarrow> nat \<Rightarrow> lock_op list" where
  "subscription_locks polls options =
     hold BrokerLock [] @ hold MarketDataLock [] @ hold BrokerLock [] @
     concat (replicate polls (hold MarketDataLock [])) @ hold PortfolioLock [] @
     concat (replicate options (hold BrokerLock [] @ hold MarketDataLock [] @ hold BrokerLock []))"

definition risk_state_locks :: "lock_op list" where
  "risk_state_locks = hold PortfolioLock [] @ hold HedgeLock [] @ hold BrokerLock [] @ hold RingLock []"

text \<open>The publisher of the fast path, and the forwarding task that replaces it; both stop when the
  instrument is unknown.\<close>

definition publisher_locks :: "bool \<Rightarrow> lock_op list" where
  "publisher_locks known =
     hold MarketDataLock [] @ (if known then hold TickCacheLock (hold RingLock []) else [])"

definition forward_tick_locks :: "bool \<Rightarrow> lock_op list" where
  "forward_tick_locks known = hold MarketDataLock [] @ (if known then hold RingLock [] else [])"

definition forward_event_locks :: "lock_op list" where
  "forward_event_locks = hold RingLock []"

text \<open>The surfaces: the number of events published for each product.\<close>

definition surface_locks :: "nat list \<Rightarrow> lock_op list" where
  "surface_locks events =
     hold PortfolioLock [] @
     concat (map (\<lambda>n. hold MarketDataLock [] @ concat (replicate n (hold RingLock []))) events)"

definition order_command_locks :: "lock_op list" where
  "order_command_locks = hold BrokerLock []"

text \<open>A place command: the guard of the market data is still held while the portfolio is locked for the
  list of products.\<close>

definition place_command_locks :: "bool \<Rightarrow> lock_op list" where
  "place_command_locks found =
     hold MarketDataLock (hold PortfolioLock []) @ (if found then hold BrokerLock [] else [])"

inductive task_program :: "lock_op list \<Rightarrow> bool" where
  "task_program (fill_locks path)"
| "task_program status_locks"
| "task_program tick_locks"
| "task_program connection_locks"
| "task_program greek_locks"
| "task_program (risk_locks n killed)"
| "task_program (hedge_locks reconcile orders)"
| "task_program snapshot_locks"
| "task_program rollover_locks"
| "task_program (account_locks margin calibrated)"
| "task_program risk_state_locks"
| "task_program (subscription_locks polls options)"
| "task_program (publisher_locks known)"
| "task_program (forward_tick_locks known)"
| "task_program forward_event_locks"
| "task_program (surface_locks events)"
| "task_program order_command_locks"

section \<open>Interleaving\<close>

text \<open>A thread: the locks it holds and the rest of its iteration. A thread between two iterations may
  begin any program.\<close>

record thread =
  th_held :: "lock list"
  th_rest :: "lock_op list"

definition lock_free :: "lock \<Rightarrow> thread list \<Rightarrow> bool" where
  "lock_free l ts \<longleftrightarrow> (\<forall>t \<in> set ts. l \<notin> set (th_held t))"

definition can_move :: "thread list \<Rightarrow> nat \<Rightarrow> bool" where
  "can_move ts i \<longleftrightarrow>
     (case th_rest (ts ! i) of [] \<Rightarrow> False | Acquire l # _ \<Rightarrow> lock_free l ts | Release l # _ \<Rightarrow> True)"

definition move :: "thread \<Rightarrow> thread" where
  "move t =
     (case th_rest t of
        [] \<Rightarrow> t
      | Acquire l # rest \<Rightarrow> \<lparr>th_held = l # th_held t, th_rest = rest\<rparr>
      | Release l # rest \<Rightarrow> \<lparr>th_held = filter (\<lambda>k. k \<noteq> l) (th_held t), th_rest = rest\<rparr>)"

inductive lock_step :: "(lock_op list \<Rightarrow> bool) \<Rightarrow> thread list \<Rightarrow> thread list \<Rightarrow> bool" for P where
  begin_program: "i < length ts \<Longrightarrow> th_rest (ts ! i) = [] \<Longrightarrow> P prog \<Longrightarrow>
     lock_step P ts (ts[i := (ts ! i)\<lparr>th_rest := prog\<rparr>])"
| move_thread: "i < length ts \<Longrightarrow> can_move ts i \<Longrightarrow> lock_step P ts (ts[i := move (ts ! i)])"

inductive lock_reachable :: "(lock_op list \<Rightarrow> bool) \<Rightarrow> thread list \<Rightarrow> bool" for P where
  idle: "lock_reachable P (replicate n \<lparr>th_held = [], th_rest = []\<rparr>)"
| step: "lock_reachable P ts \<Longrightarrow> lock_step P ts ts' \<Longrightarrow> lock_reachable P ts'"

text \<open>A deadlock: some thread is in the middle of an iteration, and no such thread can move.\<close>

definition deadlocked :: "thread list \<Rightarrow> bool" where
  "deadlocked ts \<longleftrightarrow> (\<exists>t \<in> set ts. th_rest t \<noteq> []) \<and> (\<forall>i < length ts. \<not> can_move ts i)"

section \<open>The discipline the tasks keep\<close>

definition last_lock :: "lock \<Rightarrow> bool" where
  "last_lock l \<longleftrightarrow> l = ConstraintLock \<or> l = RingLock"

text \<open>A lock may be taken by a thread that holds nothing, by one that holds the portfolio, or as the
  last one.\<close>

definition may_take :: "lock list \<Rightarrow> lock \<Rightarrow> bool" where
  "may_take held l \<longleftrightarrow>
     l \<notin> set held \<and> (\<forall>k \<in> set held. \<not> last_lock k) \<and>
     (held = [] \<or> last_lock l \<or> PortfolioLock \<in> set held)"

fun disciplined :: "lock list \<Rightarrow> lock_op list \<Rightarrow> bool" where
  "disciplined held [] \<longleftrightarrow> held = []"
| "disciplined held (Acquire l # rest) \<longleftrightarrow> may_take held l \<and> disciplined (l # held) rest"
| "disciplined held (Release l # rest) \<longleftrightarrow> disciplined (filter (\<lambda>k. k \<noteq> l) held) rest"

lemma disciplined_hold [simp]:
  "l \<notin> set held \<Longrightarrow>
   disciplined held (hold l inner @ rest) \<longleftrightarrow>
     may_take held l \<and> disciplined (l # held) (inner @ Release l # rest)"
  by (simp add: hold_def)

lemma disciplined_hold_last [simp]:
  "l \<notin> set held \<Longrightarrow>
   disciplined held (hold l inner) \<longleftrightarrow>
     may_take held l \<and> disciplined (l # held) (inner @ [Release l])"
  by (simp add: hold_def)

lemma disciplined_concat:
  assumes "\<And>p rest. p \<in> set ps \<Longrightarrow> disciplined held rest \<Longrightarrow> disciplined held (p @ rest)"
    and "disciplined held rest"
  shows "disciplined held (concat ps @ rest)"
  using assms by (induction ps) auto

lemmas lock_discipline =
  may_take_def last_lock_def cancel_all_locks_def place_hedge_locks_def worst_locks_def

lemma disciplined_place_hedge:
  "disciplined [] rest \<Longrightarrow> disciplined [] (place_hedge_locks path @ rest)"
  by (cases path) (simp_all add: lock_discipline)

lemma disciplined_cancel_all: "disciplined [] rest \<Longrightarrow> disciplined [] (cancel_all_locks @ rest)"
  by (simp add: lock_discipline)

lemma disciplined_worst:
  assumes "disciplined [RiskLock, MarketDataLock, PortfolioLock] rest"
  shows "disciplined [RiskLock, MarketDataLock, PortfolioLock] (worst_locks n @ rest)"
  unfolding worst_locks_def
  by (rule disciplined_concat) (auto simp: lock_discipline assms split: if_splits)

lemma fill_disciplined: "disciplined [] (fill_locks path)"
  using disciplined_place_hedge [of "[]"] disciplined_cancel_all
  by (auto simp: fill_locks_def lock_discipline split: fill_path.split option.split)

lemma hedge_disciplined: "disciplined [] (hedge_locks reconcile orders)"
proof -
  have "disciplined [] (concat (map place_hedge_locks orders) @ [])"
    by (rule disciplined_concat) (auto simp: disciplined_place_hedge)
  then show ?thesis
    by (auto simp: hedge_locks_def lock_discipline split: option.split)
qed

lemma risk_disciplined: "disciplined [] (risk_locks n killed)"
  by (auto simp: risk_locks_def hold_def may_take_def last_lock_def cancel_all_locks_def
      intro!: disciplined_worst)

lemma surface_disciplined: "disciplined [] (surface_locks events)"
proof -
  have "disciplined [] (concat (replicate n (hold RingLock [])) @ rest)" if "disciplined [] rest" for n rest
    by (rule disciplined_concat) (use that in \<open>auto simp: lock_discipline split: if_splits\<close>)
  then have "disciplined [] (concat (map (\<lambda>n. hold MarketDataLock [] @ concat (replicate n (hold RingLock []))) events) @ [])"
    by (intro disciplined_concat) (auto simp: lock_discipline)
  then show ?thesis
    by (simp add: surface_locks_def lock_discipline)
qed

lemma subscription_disciplined: "disciplined [] (subscription_locks polls options)"
proof -
  have a: "disciplined [] (concat (replicate n (hold MarketDataLock [])) @ rest)" if "disciplined [] rest" for n rest
    by (rule disciplined_concat) (use that in \<open>auto simp: lock_discipline split: if_splits\<close>)
  have "disciplined [] (concat (replicate options (hold BrokerLock [] @ hold MarketDataLock [] @ hold BrokerLock [])) @ [])"
    by (rule disciplined_concat) (auto simp: lock_discipline split: if_splits)
  then show ?thesis
    by (auto simp: subscription_locks_def lock_discipline intro!: a)
qed

lemma tasks_disciplined: "task_program prog \<Longrightarrow> disciplined [] prog"
  by (induction rule: task_program.induct)
    (auto simp: fill_disciplined hedge_disciplined risk_disciplined surface_disciplined subscription_disciplined
      status_locks_def tick_locks_def connection_locks_def greek_locks_def snapshot_locks_def
      rollover_locks_def account_locks_def risk_state_locks_def publisher_locks_def
      forward_tick_locks_def forward_event_locks_def order_command_locks_def may_take_def last_lock_def
      split: option.split)

section \<open>No deadlock\<close>

text \<open>Every thread is disciplined and no lock is held twice.\<close>

definition locks_ok :: "thread list \<Rightarrow> bool" where
  "locks_ok ts \<longleftrightarrow>
     (\<forall>t \<in> set ts. disciplined (th_held t) (th_rest t)) \<and>
     (\<forall>i < length ts. \<forall>j < length ts. i \<noteq> j \<longrightarrow> set (th_held (ts ! i)) \<inter> set (th_held (ts ! j)) = {})"

lemma move_disciplined:
  "disciplined (th_held t) (th_rest t) \<Longrightarrow> disciplined (th_held (move t)) (th_rest (move t))"
  by (auto simp: move_def split: list.split lock_op.split)

lemma move_takes:
  "set (th_held (move t)) \<subseteq>
     set (th_held t) \<union> (case th_rest t of Acquire l # _ \<Rightarrow> {l} | _ \<Rightarrow> {})"
  by (auto simp: move_def split: list.split lock_op.split)

lemma move_takes_free:
  assumes "can_move ts i" and "j < length ts" and "j \<noteq> i"
    and "set (th_held (ts ! i)) \<inter> set (th_held (ts ! j)) = {}"
  shows "set (th_held (move (ts ! i))) \<inter> set (th_held (ts ! j)) = {}"
  using assms move_takes [of "ts ! i"]
  by (auto simp: can_move_def lock_free_def split: list.splits lock_op.splits)

lemma locks_ok_update:
  assumes "locks_ok ts" and "i < length ts" and "disciplined (th_held t) (th_rest t)"
    and "\<And>j. j < length ts \<Longrightarrow> j \<noteq> i \<Longrightarrow> set (th_held t) \<inter> set (th_held (ts ! j)) = {}"
  shows "locks_ok (ts[i := t])"
  unfolding locks_ok_def
proof (intro conjI ballI allI impI)
  fix u
  assume "u \<in> set (ts[i := t])"
  then show "disciplined (th_held u) (th_rest u)"
    using assms(1,3) set_update_subset_insert [of ts i t] by (auto simp: locks_ok_def)
next
  fix a b
  assume ab: "a < length (ts[i := t])" "b < length (ts[i := t])" "a \<noteq> b"
  show "set (th_held (ts[i := t] ! a)) \<inter> set (th_held (ts[i := t] ! b)) = {}"
    using ab assms(1,4) [unfolded locks_ok_def] by (cases "a = i"; cases "b = i") (auto simp: nth_list_update)
qed

lemma reachable_locks_ok:
  assumes "lock_reachable task_program ts"
  shows "locks_ok ts"
  using assms
proof (induction rule: lock_reachable.induct)
  case (idle n)
  then show ?case by (auto simp: locks_ok_def)
next
  case (step ts ts')
  from step.hyps(2) show ?case
  proof cases
    case (begin_program i prog)
    have "disciplined (th_held (ts ! i)) (th_rest (ts ! i))"
      using step.IH nth_mem [OF begin_program(2)] by (simp only: locks_ok_def)
    then have "th_held (ts ! i) = []" using begin_program by simp
    then show ?thesis
      unfolding begin_program(1) using begin_program step.IH
      by (intro locks_ok_update) (auto simp: tasks_disciplined)
  next
    case (move_thread i)
    have "disciplined (th_held (ts ! i)) (th_rest (ts ! i))" using step.IH move_thread by (auto simp: locks_ok_def)
    then show ?thesis
      unfolding move_thread(1) using move_thread step.IH
      by (intro locks_ok_update move_disciplined move_takes_free) (auto simp: locks_ok_def)
  qed
qed

text \<open>A thread that holds a lock and cannot move waits for a lock that another one holds.\<close>

lemma stuck_holder:
  assumes ok: "locks_ok ts" and i: "i < length ts" and stuck: "\<not> can_move ts i"
    and held: "th_held (ts ! i) \<noteq> []"
  obtains l j where "may_take (th_held (ts ! i)) l" and "j < length ts" and "j \<noteq> i"
    and "l \<in> set (th_held (ts ! j))"
proof -
  have d: "disciplined (th_held (ts ! i)) (th_rest (ts ! i))" using ok i by (auto simp: locks_ok_def)
  obtain l rest where "th_rest (ts ! i) = Acquire l # rest"
    using d held stuck by (auto simp: can_move_def split: list.splits lock_op.splits)
  then have take: "may_take (th_held (ts ! i)) l" and "\<not> lock_free l ts"
    using d stuck by (auto simp: can_move_def)
  then obtain u where "u \<in> set ts" and u: "l \<in> set (th_held u)" by (auto simp: lock_free_def)
  then obtain j where j: "j < length ts" "ts ! j = u" by (auto simp: in_set_conv_nth)
  have "j \<noteq> i" using take u j by (auto simp: may_take_def)
  then show thesis using that take j u by blast
qed

lemma stuck_holds_no_last:
  assumes "locks_ok ts" and "\<And>i. i < length ts \<Longrightarrow> \<not> can_move ts i" and "i < length ts"
    and "l \<in> set (th_held (ts ! i))"
  shows "\<not> last_lock l"
proof -
  have "th_held (ts ! i) \<noteq> []" using assms(4) by auto
  then obtain k j where "may_take (th_held (ts ! i)) k" and "j < length ts"
    using stuck_holder assms(1-3) by metis
  then show ?thesis using assms(4) by (auto simp: may_take_def)
qed

lemma stuck_holds_portfolio:
  assumes ok: "locks_ok ts" and stuck: "\<And>i. i < length ts \<Longrightarrow> \<not> can_move ts i" and i: "i < length ts"
    and held: "th_held (ts ! i) \<noteq> []"
  obtains j where "j < length ts" and "j \<noteq> i" and "PortfolioLock \<in> set (th_held (ts ! i))"
    and "th_held (ts ! j) \<noteq> []"
proof -
  obtain l j where l: "may_take (th_held (ts ! i)) l" "j < length ts" "j \<noteq> i" "l \<in> set (th_held (ts ! j))"
    using stuck_holder [OF ok i stuck [OF i] held] by blast
  then have "\<not> last_lock l" using stuck_holds_no_last [OF ok stuck] by blast
  then have "PortfolioLock \<in> set (th_held (ts ! i))" using l held by (auto simp: may_take_def)
  moreover have "th_held (ts ! j) \<noteq> []" using l by auto
  ultimately show thesis using that l by blast
qed

lemma nothing_held_when_stuck:
  assumes ok: "locks_ok ts" and stuck: "\<And>i. i < length ts \<Longrightarrow> \<not> can_move ts i" and i: "i < length ts"
  shows "th_held (ts ! i) = []"
proof (rule ccontr)
  assume "th_held (ts ! i) \<noteq> []"
  then obtain j where j: "j < length ts" "j \<noteq> i" "PortfolioLock \<in> set (th_held (ts ! i))" "th_held (ts ! j) \<noteq> []"
    using stuck_holds_portfolio [OF ok stuck i] by blast
  then have "PortfolioLock \<in> set (th_held (ts ! j))" using stuck_holds_portfolio [OF ok stuck j(1)] by blast
  then show False using j i ok by (auto simp: locks_ok_def)
qed

text \<open>C27. Deadlock freedom of the tasks: however many threads run the daemon's tasks and however their
  steps interleave, as long as some task is in the middle of an iteration one of them can go on. Place
  commands of the trader are not among these tasks.\<close>

theorem tasks_never_deadlock:
  assumes "lock_reachable task_program ts"
  shows "\<not> deadlocked ts"
proof
  assume d: "deadlocked ts"
  have ok: "locks_ok ts" using assms by (rule reachable_locks_ok)
  have stuck: "\<And>i. i < length ts \<Longrightarrow> \<not> can_move ts i" using d by (simp add: deadlocked_def)
  have free: "lock_free l ts" for l
    using nothing_held_when_stuck [OF ok stuck] by (auto simp: lock_free_def in_set_conv_nth)
  obtain i where i: "i < length ts" "th_rest (ts ! i) \<noteq> []"
    using d by (auto simp: deadlocked_def in_set_conv_nth)
  then show False
    using stuck [OF i(1)] free by (auto simp: can_move_def split: list.splits lock_op.splits)
qed

lemma refresh_starts:
  assumes "P greek_locks"
  shows "lock_reachable P [move \<lparr>th_held = [], th_rest = greek_locks\<rparr>, \<lparr>th_held = [], th_rest = []\<rparr>]"
proof -
  let ?i = "\<lparr>th_held = [], th_rest = []\<rparr>"
  let ?g = "\<lparr>th_held = [], th_rest = greek_locks\<rparr>"
  have "lock_reachable P [?i, ?i]" using lock_reachable.idle [of P 2] by (simp add: numeral_2_eq_2)
  moreover have "lock_step P [?i, ?i] [?g, ?i]"
    using begin_program [of 0 "[?i, ?i]" P greek_locks] assms by simp
  moreover have "lock_step P [?g, ?i] [move ?g, ?i]"
    using move_thread [of 0 "[?g, ?i]" P]
    by (simp add: can_move_def lock_free_def greek_locks_def hold_def)
  ultimately show ?thesis by (meson lock_reachable.step)
qed

lemma tasks_never_deadlock_witness:
  "\<not> deadlocked [move \<lparr>th_held = [], th_rest = greek_locks\<rparr>, \<lparr>th_held = [], th_rest = []\<rparr>]"
  by (rule tasks_never_deadlock [OF refresh_starts]) (simp add: task_program.intros)

section \<open>A place command can deadlock\<close>

text \<open>The Greek refresh has the portfolio and waits for the market data; the place command has the
  market data and waits for the portfolio.\<close>

definition refresh_waits :: thread where
  "refresh_waits = move \<lparr>th_held = [], th_rest = greek_locks\<rparr>"

definition place_waits :: thread where
  "place_waits = move \<lparr>th_held = [], th_rest = place_command_locks True\<rparr>"

text \<open>C28. A deadlock: two threads, one in the periodic Greek refresh and one handling a place command,
  reach a state in which neither can go on, because the handler takes the market data before the
  portfolio and every other task takes them in the opposite order.\<close>

theorem place_command_can_deadlock:
  "lock_reachable (\<lambda>prog. task_program prog \<or> prog = place_command_locks True) [refresh_waits, place_waits] \<and>
   deadlocked [refresh_waits, place_waits]"
proof
  let ?P = "\<lambda>prog. task_program prog \<or> prog = place_command_locks True"
  let ?i = "\<lparr>th_held = [], th_rest = []\<rparr>"
  let ?p = "\<lparr>th_held = [], th_rest = place_command_locks True\<rparr>"
  have "lock_reachable ?P [refresh_waits, ?i]"
    unfolding refresh_waits_def by (rule refresh_starts) (simp add: task_program.intros)
  moreover have "lock_step ?P [refresh_waits, ?i] [refresh_waits, ?p]"
    using begin_program [of 1 "[refresh_waits, ?i]" ?P "place_command_locks True"] by simp
  moreover have "lock_step ?P [refresh_waits, ?p] [refresh_waits, place_waits]"
    using move_thread [of 1 "[refresh_waits, ?p]" ?P]
    by (simp add: refresh_waits_def place_waits_def can_move_def lock_free_def move_def greek_locks_def
        place_command_locks_def hold_def)
  ultimately show "lock_reachable ?P [refresh_waits, place_waits]" by (meson lock_reachable.step)
  show "deadlocked [refresh_waits, place_waits]"
    by (auto simp: deadlocked_def refresh_waits_def place_waits_def can_move_def lock_free_def move_def
        greek_locks_def place_command_locks_def hold_def less_Suc_eq)
qed

end
