(* ===== verification/Snapshot.thy ===== *)
theory Snapshot
  imports Daemon_Tasks
begin

text \<open>
  The dashboard snapshot (\<open>corsair_snapshot\<close>): the payload built from the state of every component,
  and its write to disk through a temporary file and a rename. The JSON encoding is a parameter. The
  file system is a map from paths to contents, and a write is the sequence of its operations, any of
  which may be the last one before an error or a crash.
\<close>

section \<open>payload.rs\<close>

record snap_product =
  sn_net_delta :: f64
  sn_net_theta :: f64
  sn_net_vega :: f64
  sn_long_count :: int
  sn_short_count :: int

record snap_position =
  sp_product :: string
  sp_strike_px :: f64
  sp_expiry_on :: naive_date
  sp_right_of :: right
  sp_quantity :: int
  sp_avg_fill_price :: f64
  sp_current_price :: f64
  sp_delta :: f64
  sp_gamma :: f64
  sp_theta :: f64
  sp_vega :: f64
  sp_multiplier :: f64

record snap_portfolio =
  so_net_delta :: f64
  so_net_theta :: f64
  so_net_vega :: f64
  so_net_gamma :: f64
  so_long_count :: int
  so_short_count :: int
  so_gross_positions :: int
  so_fills_today :: int
  so_realized_pnl_persisted :: f64
  so_mtm_pnl :: f64
  so_daily_pnl :: f64
  so_spread_capture_today :: f64
  so_session_open_nlv :: "f64 option"
  so_positions :: "snap_position list"
  so_per_product :: "(string, snap_product) hmap"

record snap_kill =
  sk_killed :: bool
  sk_source :: "string option"
  sk_kill_type :: "string option"
  sk_reason :: "kill_reason option"

record snap_hedge =
  sh_product :: string
  sh_hedge_qty :: int
  sh_avg_entry_f :: f64
  sh_realized_pnl_usd :: f64
  sh_mtm_usd :: f64
  sh_mode :: string

record snap_account =
  sa_net_liquidation :: f64
  sa_maintenance_margin :: f64
  sa_initial_margin :: f64
  sa_buying_power :: f64
  sa_realized_pnl_today :: f64
  sa_ibkr_scale :: f64

record snapshot =
  ss_schema_version :: int
  ss_timestamp_ns :: int
  ss_portfolio :: snap_portfolio
  ss_kill :: snap_kill
  ss_hedges :: "snap_hedge list"
  ss_account :: snap_account
  ss_underlying :: "(string, f64) hmap"

definition schema_version :: int where
  "schema_version = 1"

section \<open>publisher.rs: build\<close>

definition snap_product_of :: "portfolio_greeks \<Rightarrow> snap_product" where
  "snap_product_of g =
     \<lparr>sn_net_delta = pg_net_delta g, sn_net_theta = pg_net_theta g, sn_net_vega = pg_net_vega g,
      sn_long_count = pg_long_count g, sn_short_count = pg_short_count g\<rparr>"

definition snap_position_of :: "position \<Rightarrow> snap_position" where
  "snap_position_of p =
     \<lparr>sp_product = p_product p, sp_strike_px = p_strike p, sp_expiry_on = p_expiry p, sp_right_of = p_right p,
      sp_quantity = p_quantity p, sp_avg_fill_price = p_avg_fill_price p, sp_current_price = p_current_price p,
      sp_delta = p_delta p, sp_gamma = p_gamma p, sp_theta = p_theta p, sp_vega = p_vega p,
      sp_multiplier = p_multiplier p\<rparr>"

definition snap_portfolio_of :: "market_view \<Rightarrow> portfolio_state \<Rightarrow> snap_portfolio" where
  "snap_portfolio_of market p =
     (let agg = aggregate p;
          per_product = fold (\<lambda>(prod, g). hm_insert prod (snap_product_of g)) (ag_per_product agg) hm_new;
          mtm_pnl = compute_mtm_pnl market p
      in \<lparr>so_net_delta = pg_net_delta (ag_total agg), so_net_theta = pg_net_theta (ag_total agg),
          so_net_vega = pg_net_vega (ag_total agg), so_net_gamma = pg_net_gamma (ag_total agg),
          so_long_count = pg_long_count (ag_total agg), so_short_count = pg_short_count (ag_total agg),
          so_gross_positions = pg_gross_positions (ag_total agg), so_fills_today = fills_today p,
          so_realized_pnl_persisted = realized_pnl_persisted p, so_mtm_pnl = mtm_pnl,
          so_daily_pnl = fadd (realized_pnl_persisted p) mtm_pnl, so_spread_capture_today = spread_capture_today p,
          so_session_open_nlv = session_open_nlv p, so_positions = map snap_position_of (positions p),
          so_per_product = per_product\<rparr>)"

text \<open>The lower-cased debug name of a kill type.\<close>

definition kill_type_text :: "kill_type \<Rightarrow> string" where
  "kill_type_text k = (case k of Halt \<Rightarrow> ''halt'' | Flatten \<Rightarrow> ''flatten'' | HedgeFlat \<Rightarrow> ''hedgeflat'')"

definition snap_kill_of :: "risk_monitor \<Rightarrow> snap_kill" where
  "snap_kill_of risk =
     (case rm_killed risk of
        None \<Rightarrow> \<lparr>sk_killed = False, sk_source = None, sk_kill_type = None, sk_reason = None\<rparr>
      | Some ev \<Rightarrow>
          \<lparr>sk_killed = True, sk_source = Some (source_label (ke_source ev)),
           sk_kill_type = Some (kill_type_text (ke_kill_type ev)), sk_reason = Some (ke_reason ev)\<rparr>)"

definition snap_hedge_of :: "market_view \<Rightarrow> hedge_manager \<Rightarrow> snap_hedge" where
  "snap_hedge_of market m =
     (let cfg = mg_cfg m;
          f = (case mv_underlying_price market (hc_product cfg) of Some p \<Rightarrow> p | None \<Rightarrow> fzero)
      in \<lparr>sh_product = hc_product cfg, sh_hedge_qty = mgr_hedge_qty m, sh_avg_entry_f = avg_entry_f (mg_state m),
          sh_realized_pnl_usd = realized_pnl_usd (mg_state m), sh_mtm_usd = mgr_mtm_usd f m,
          sh_mode = (case hc_mode cfg of Observe \<Rightarrow> ''observe'' | Execute \<Rightarrow> ''execute'')\<rparr>)"

definition snap_underlying_of :: "market_view \<Rightarrow> portfolio_state \<Rightarrow> (string, f64) hmap" where
  "snap_underlying_of market p =
     fold (\<lambda>prod m. case mv_underlying_price market prod of Some px \<Rightarrow> hm_insert prod px m | None \<Rightarrow> m)
       (registry_products (registry p)) hm_new"

definition build_snapshot ::
  "int \<Rightarrow> portfolio_state \<Rightarrow> risk_monitor \<Rightarrow> hedge_fanout \<Rightarrow> market_view \<Rightarrow> snap_account \<Rightarrow> snapshot" where
  "build_snapshot now p risk fo market account =
     \<lparr>ss_schema_version = schema_version, ss_timestamp_ns = now, ss_portfolio = snap_portfolio_of market p,
      ss_kill = snap_kill_of risk, ss_hedges = map (snap_hedge_of market) fo, ss_account = account,
      ss_underlying = snap_underlying_of market p\<rparr>"

section \<open>publisher.rs: the write\<close>

text \<open>A path as \<open>std::path\<close> splits it: whether it starts at the root, and its components.\<close>

record fs_path =
  fp_root :: bool
  fp_comps :: "string list"

definition path_parent :: "fs_path \<Rightarrow> fs_path option" where
  "path_parent p = (if fp_comps p = [] then None else Some (p\<lparr>fp_comps := butlast (fp_comps p)\<rparr>))"

definition path_file_name :: "fs_path \<Rightarrow> string option" where
  "path_file_name p =
     (if fp_comps p = [] \<or> last (fp_comps p) = ''..'' then None else Some (last (fp_comps p)))"

definition path_join :: "fs_path \<Rightarrow> string \<Rightarrow> fs_path" where
  "path_join p name = p\<lparr>fp_comps := fp_comps p @ [name]\<rparr>"

record file_system =
  fs_dirs :: "fs_path list"
  fs_files :: "(fs_path, byte list) hmap"

datatype fs_op =
    CreateDirAll fs_path
  | CreateFile fs_path
  | AppendFile fs_path "byte list"
  | SyncFile fs_path
  | RenameFile fs_path fs_path

fun fs_apply :: "fs_op \<Rightarrow> file_system \<Rightarrow> file_system" where
  "fs_apply (CreateDirAll d) fs =
     fs\<lparr>fs_dirs := map (\<lambda>n. d\<lparr>fp_comps := take n (fp_comps d)\<rparr>) [0..<Suc (length (fp_comps d))] @ fs_dirs fs\<rparr>"
| "fs_apply (CreateFile p) fs = fs\<lparr>fs_files := hm_insert p [] (fs_files fs)\<rparr>"
| "fs_apply (AppendFile p bytes) fs =
     (case hm_get (fs_files fs) p of
        Some old \<Rightarrow> fs\<lparr>fs_files := hm_insert p (old @ bytes) (fs_files fs)\<rparr>
      | None \<Rightarrow> fs)"
| "fs_apply (SyncFile p) fs = fs"
| "fs_apply (RenameFile p q) fs =
     (case hm_get (fs_files fs) p of
        Some body \<Rightarrow> fs\<lparr>fs_files := hm_insert q body (hm_remove p (fs_files fs))\<rparr>
      | None \<Rightarrow> fs)"

definition temp_name :: "fs_path \<Rightarrow> string" where
  "temp_name p = ''.'' @ (case path_file_name p of Some n \<Rightarrow> n | None \<Rightarrow> ''snapshot.json'') @ ''.tmp''"

text \<open>The operations of \<open>atomic_write\<close>; the body is written in the pieces the system accepts, which is
  the argument \<open>pieces\<close>.\<close>

definition atomic_write_ops :: "fs_path \<Rightarrow> byte list list \<Rightarrow> file_system \<Rightarrow> string + fs_op list" where
  "atomic_write_ops path pieces fs =
     (case path_parent path of
        None \<Rightarrow> Inl ''no parent''
      | Some dir \<Rightarrow>
          let tmp = path_join dir (temp_name path)
          in Inr ((if dir \<in> set (fs_dirs fs) then [] else [CreateDirAll dir]) @ [CreateFile tmp] @
               map (AppendFile tmp) pieces @ [SyncFile tmp, RenameFile tmp path]))"

text \<open>\<open>fault\<close> is the number of operations that succeed before one fails, if one does.\<close>

definition atomic_write ::
  "fs_path \<Rightarrow> byte list list \<Rightarrow> (nat \<times> string) option \<Rightarrow> file_system \<Rightarrow> (string + unit) \<times> file_system" where
  "atomic_write path pieces fault fs =
     (case atomic_write_ops path pieces fs of
        Inl e \<Rightarrow> (Inl e, fs)
      | Inr ops \<Rightarrow>
          (case fault of
             Some (n, e) \<Rightarrow>
               if n < length ops then (Inl e, fold fs_apply (take n ops) fs) else (Inr (), fold fs_apply ops fs)
           | None \<Rightarrow> (Inr (), fold fs_apply ops fs)))"

record snapshot_publisher =
  pb_path :: fs_path
  pb_write_count :: int

definition publisher_new :: "fs_path \<Rightarrow> snapshot_publisher" where
  "publisher_new path = \<lparr>pb_path = path, pb_write_count = 0\<rparr>"

text \<open>\<open>split\<close> is how the system cuts a body into the writes it accepts.\<close>

definition publish_snapshot ::
  "(snapshot \<Rightarrow> string + byte list) \<Rightarrow> (byte list \<Rightarrow> byte list list) \<Rightarrow> (nat \<times> string) option \<Rightarrow> snapshot \<Rightarrow>
   snapshot_publisher \<Rightarrow> file_system \<Rightarrow> (string + unit) \<times> snapshot_publisher \<times> file_system" where
  "publish_snapshot encode split fault snap pb fs =
     (case encode snap of
        Inl e \<Rightarrow> (Inl e, pb, fs)
      | Inr body \<Rightarrow>
          (case atomic_write (pb_path pb) (split body) fault fs of
             (Inl e, fs1) \<Rightarrow> (Inl e, pb, fs1)
           | (Inr _, fs1) \<Rightarrow> (Inr (), pb\<lparr>pb_write_count := wrap_u64 (pb_write_count pb + 1)\<rparr>, fs1)))"

text \<open>One turn of \<open>periodic_snapshot\<close>.\<close>

definition snap_account_of :: "runtime \<Rightarrow> snap_account" where
  "snap_account_of rt =
     (let a = rt_account rt
      in \<lparr>sa_net_liquidation = as_net_liquidation a, sa_maintenance_margin = as_maintenance_margin a,
          sa_initial_margin = as_initial_margin a, sa_buying_power = as_buying_power a,
          sa_realized_pnl_today = as_realized_pnl_today a, sa_ibkr_scale = cx_ibkr_scale (rt_constraint rt)\<rparr>)"

definition periodic_snapshot ::
  "(snapshot \<Rightarrow> string + byte list) \<Rightarrow> (byte list \<Rightarrow> byte list list) \<Rightarrow> (nat \<times> string) option \<Rightarrow> int \<Rightarrow> runtime \<Rightarrow>
   snapshot_publisher \<Rightarrow> file_system \<Rightarrow> (string + unit) \<times> snapshot_publisher \<times> file_system" where
  "periodic_snapshot encode split fault now rt pb fs =
     publish_snapshot encode split fault
       (build_snapshot now (rt_portfolio rt) (rt_risk rt) (rt_hedge rt) (md_view (rt_market_data rt)) (snap_account_of rt))
       pb fs"


section \<open>What a reader sees\<close>

definition read_file :: "fs_path \<Rightarrow> file_system \<Rightarrow> byte list option" where
  "read_file p fs = hm_get (fs_files fs) p"

lemma temp_differs:
  assumes "path_parent path = Some dir"
  shows "path_join dir (temp_name path) \<noteq> path"
proof
  assume e: "path_join dir (temp_name path) = path"
  have ne: "fp_comps path \<noteq> []" and dir: "dir = path\<lparr>fp_comps := butlast (fp_comps path)\<rparr>"
    using assms by (auto simp: path_parent_def split: if_splits)
  have "last (fp_comps (path_join dir (temp_name path))) = temp_name path" by (simp add: path_join_def)
  with e have l: "last (fp_comps path) = temp_name path" by simp
  show False
  proof (cases "path_file_name path")
    case None
    then have "last (fp_comps path) = ''..''" using ne by (simp add: path_file_name_def split: if_splits)
    then show False using l None by (simp add: temp_name_def)
  next
    case (Some n)
    then have "n = last (fp_comps path)" by (simp add: path_file_name_def split: if_splits)
    then have "length (temp_name path) = length (last (fp_comps path)) + 5" using Some by (simp add: temp_name_def)
    then show False using l by simp
  qed
qed

text \<open>An operation on another path.\<close>

fun elsewhere :: "fs_path \<Rightarrow> fs_op \<Rightarrow> bool" where
  "elsewhere p (CreateDirAll d) \<longleftrightarrow> True"
| "elsewhere p (CreateFile q) \<longleftrightarrow> q \<noteq> p"
| "elsewhere p (AppendFile q bytes) \<longleftrightarrow> q \<noteq> p"
| "elsewhere p (SyncFile q) \<longleftrightarrow> True"
| "elsewhere p (RenameFile q r) \<longleftrightarrow> False"

lemma elsewhere_read: "elsewhere p op \<Longrightarrow> read_file p (fs_apply op fs) = read_file p fs"
  by (cases op) (auto simp: read_file_def hm.get_insert split: option.split)

lemma elsewhere_reads: "list_all (elsewhere p) ops \<Longrightarrow> read_file p (fold fs_apply ops fs) = read_file p fs"
  by (induction ops arbitrary: fs) (simp_all add: elsewhere_read)

lemma append_reads:
  "read_file p fs = Some old \<Longrightarrow> read_file p (fold fs_apply (map (AppendFile p) pieces) fs) = Some (old @ concat pieces)"
  by (induction pieces arbitrary: fs old) (simp_all add: read_file_def hm.get_insert)

lemma list_all_take: "list_all P xs \<Longrightarrow> list_all P (take n xs)"
  by (auto simp: list_all_iff dest: in_set_takeD)

lemma atomic_write_read:
  assumes "atomic_write path pieces fault fs = (r, fs')"
  shows "(r = Inr () \<longrightarrow> read_file path fs' = Some (concat pieces)) \<and>
    (r \<noteq> Inr () \<longrightarrow> read_file path fs' = read_file path fs)"
proof (cases "path_parent path")
  case None
  then show ?thesis using assms by (auto simp: atomic_write_def atomic_write_ops_def)
next
  case (Some dir)
  define tmp where "tmp = path_join dir (temp_name path)"
  define head where "head = (if dir \<in> set (fs_dirs fs) then [] else [CreateDirAll dir]) @ [CreateFile tmp]"
  define pre where "pre = head @ map (AppendFile tmp) pieces @ [SyncFile tmp]"
  have ops: "atomic_write_ops path pieces fs = Inr (pre @ [RenameFile tmp path])"
    using Some by (simp add: atomic_write_ops_def Let_def pre_def head_def tmp_def)
  have ne: "tmp \<noteq> path" using temp_differs [OF Some] by (simp add: tmp_def)
  have quiet: "list_all (elsewhere path) pre" using ne by (auto simp: pre_def head_def list_all_iff)
  have "read_file tmp (fold fs_apply head fs) = Some []" by (simp add: head_def read_file_def hm.get_insert)
  from append_reads [OF this, of pieces]
  have tmp: "read_file tmp (fold fs_apply pre fs) = Some (concat pieces)" by (simp add: pre_def)
  have whole: "read_file path (fold fs_apply (pre @ [RenameFile tmp path]) fs) = Some (concat pieces)"
    using tmp by (simp add: read_file_def hm.get_insert)
  have part: "read_file path (fold fs_apply (take n (pre @ [RenameFile tmp path])) fs) = read_file path fs"
    if "n < length (pre @ [RenameFile tmp path])" for n
    using elsewhere_reads [OF list_all_take [OF quiet, of n]] that by simp
  show ?thesis
    using assms whole part unfolding atomic_write_def ops
    by (auto split: option.splits if_splits simp del: fold_append)
qed

text \<open>A run of publications, each with the fault that stops it, if one does; it answers what each of
  them returned.\<close>

fun publish_run ::
  "(snapshot \<Rightarrow> string + byte list) \<Rightarrow> (byte list \<Rightarrow> byte list list) \<Rightarrow> (snapshot \<times> (nat \<times> string) option) list \<Rightarrow>
   snapshot_publisher \<Rightarrow> file_system \<Rightarrow> (string + unit) list \<times> snapshot_publisher \<times> file_system" where
  "publish_run encode split [] pb fs = ([], pb, fs)"
| "publish_run encode split ((snap, fault) # turns) pb fs =
     (let (r, pb1, fs1) = publish_snapshot encode split fault snap pb fs;
          (rs, pb2, fs2) = publish_run encode split turns pb1 fs1
      in (r # rs, pb2, fs2))"

text \<open>The encodings of the snapshots whose publication returned success, in order.\<close>

definition published ::
  "(snapshot \<Rightarrow> string + byte list) \<Rightarrow> (snapshot \<times> (nat \<times> string) option) list \<Rightarrow> (string + unit) list \<Rightarrow> byte list list" where
  "published encode turns rs =
     List.map_filter (\<lambda>((snap, _), r).
         case (encode snap, r) of (Inr body, Inr _) \<Rightarrow> Some body | _ \<Rightarrow> None) (zip turns rs)"

lemma publish_read:
  assumes "publish_snapshot encode split fault snap pb fs = (r, pb1, fs1)" "\<And>body. concat (split body) = body"
  shows "pb_path pb1 = pb_path pb \<and>
    (case r of
       Inr _ \<Rightarrow> encode snap = Inr (the (read_file (pb_path pb) fs1)) \<and> read_file (pb_path pb) fs1 \<noteq> None \<and>
          pb_write_count pb1 = wrap_u64 (pb_write_count pb + 1)
     | Inl _ \<Rightarrow> read_file (pb_path pb) fs1 = read_file (pb_path pb) fs \<and> pb_write_count pb1 = pb_write_count pb)"
proof (cases "encode snap")
  case (Inl e)
  then show ?thesis using assms(1) by (auto simp: publish_snapshot_def)
next
  case (Inr body)
  obtain r1 fs2 where w: "atomic_write (pb_path pb) (split body) fault fs = (r1, fs2)" by fastforce
  from atomic_write_read [OF w] assms Inr w show ?thesis
    by (cases r1) (auto simp: publish_snapshot_def)
qed

lemma publish_succeeds:
  assumes "encode snap = Inr body" "path_parent (pb_path pb) \<noteq> None"
  shows "fst (publish_snapshot encode split None snap pb fs) = Inr ()"
  using assms by (auto simp: publish_snapshot_def atomic_write_def atomic_write_ops_def Let_def)

text \<open>C26. The dashboard reads exactly the last snapshot that was published. Take any run of
  publications, with the writes cut into any pieces and any of them stopped by an error of any
  file operation or by a crash between two of them. Afterwards the snapshot file holds the
  complete encoding of the last snapshot whose publication returned success; when none did, it
  holds what it held before, byte for byte. A publication returns success only when its snapshot
  could be encoded, and always does when it could, nothing fails and the path has a parent
  directory.\<close>

theorem readers_see_whole_snapshots:
  assumes "\<And>body. concat (split body) = body" "publish_run encode split turns pb fs = (rs, pb', fs')"
  shows "length rs = length turns \<and>
    read_file (pb_path pb) fs' =
      (if published encode turns rs = [] then read_file (pb_path pb) fs
       else Some (last (published encode turns rs))) \<and>
    (\<forall>((snap, fault), r) \<in> set (zip turns rs).
       (r = Inr () \<longrightarrow> (\<exists>body. encode snap = Inr body)) \<and>
       (fault = None \<and> (\<exists>body. encode snap = Inr body) \<and> path_parent (pb_path pb) \<noteq> None \<longrightarrow> r = Inr ()))"
  using assms(2)
proof (induction turns arbitrary: pb fs rs)
  case Nil
  then show ?case by (simp add: published_def map_filter_def)
next
  case (Cons turn turns)
  obtain snap fault where t: "turn = (snap, fault)" by fastforce
  obtain r pb1 fs1 where p: "publish_snapshot encode split fault snap pb fs = (r, pb1, fs1)" by (metis prod.exhaust)
  obtain rs1 where run: "publish_run encode split turns pb1 fs1 = (rs1, pb', fs')" and rs: "rs = r # rs1"
    using Cons.prems by (auto simp: t p split: prod.splits)
  note one = publish_read [OF p assms(1)] and ih = Cons.IH [OF run]
  have path: "pb_path pb1 = pb_path pb" using one by blast
  have pub: "published encode (turn # turns) rs =
      (case (encode snap, r) of (Inr body, Inr _) \<Rightarrow> [body] | _ \<Rightarrow> []) @ published encode turns rs1"
    by (simp add: published_def map_filter_simps rs t split: sum.split)
  have first: "fault = None \<and> (\<exists>body. encode snap = Inr body) \<and> path_parent (pb_path pb) \<noteq> None \<longrightarrow> r = Inr ()"
    using publish_succeeds [of encode snap _ pb split fs] p by auto
  show ?case
  proof (cases r)
    case (Inl e)
    with one have "read_file (pb_path pb) fs1 = read_file (pb_path pb) fs" by simp
    then show ?thesis using ih first Inl unfolding pub path by (auto simp: rs t split: sum.splits)
  next
    case (Inr u)
    with one have "encode snap = Inr (the (read_file (pb_path pb) fs1))" "read_file (pb_path pb) fs1 \<noteq> None" by simp_all
    then show ?thesis using ih first Inr unfolding pub path by (auto simp: rs t)
  qed
qed

text \<open>Applied to a first publication that stops after the temporary file is created and a second that
  succeeds.\<close>

definition demo_snapshot :: snapshot where
  "demo_snapshot = build_snapshot 0 (rt_portfolio demo_rt) (rt_risk demo_rt) (rt_hedge demo_rt)
     (md_view (rt_market_data demo_rt)) (snap_account_of demo_rt)"

theorem readers_see_whole_snapshots_witness:
  "\<exists>e pb fs. publish_run (\<lambda>_. Inr [1, 2]) (map (\<lambda>b. [b])) [(demo_snapshot, Some (2, ''no space'')), (demo_snapshot, None)]
       (publisher_new \<lparr>fp_root = True, fp_comps = [''app'', ''snapshot.json'']\<rparr>) \<lparr>fs_dirs = [], fs_files = hm_new\<rparr> =
       ([Inl e, Inr ()], pb, fs) \<and>
     read_file \<lparr>fp_root = True, fp_comps = [''app'', ''snapshot.json'']\<rparr> fs = Some [1, 2]"
proof -
  let ?path = "\<lparr>fp_root = True, fp_comps = [''app'', ''snapshot.json'']\<rparr>"
  let ?turns = "[(demo_snapshot, Some (2, ''no space'')), (demo_snapshot, None)]"
  have c: "concat (map (\<lambda>b. [b]) body) = body" for body :: "byte list" by (induction body) simp_all
  obtain rs pb fs where run: "publish_run (\<lambda>_. Inr [1, 2]) (map (\<lambda>b. [b])) ?turns (publisher_new ?path)
      \<lparr>fs_dirs = [], fs_files = hm_new\<rparr> = (rs, pb, fs)" by (metis prod.exhaust)
  note exact = readers_see_whole_snapshots [OF c run]
  have "length rs = Suc (Suc 0)" using exact by simp
  then obtain r1 r2 where rs: "rs = [r1, r2]" by (auto simp: length_Suc_conv)
  have parent: "path_parent (pb_path (publisher_new ?path)) \<noteq> None" by (simp add: publisher_new_def path_parent_def)
  have "r2 = Inr ()" using exact parent unfolding rs by simp
  moreover have "\<exists>e. r1 = Inl e"
    using run unfolding rs
    by (auto simp: publish_snapshot_def atomic_write_def atomic_write_ops_def Let_def publisher_new_def path_parent_def
        split: prod.splits)
  ultimately obtain e where "r1 = Inl e" "r2 = Inr ()" by blast
  moreover have "read_file ?path fs = Some [1, 2]"
    using exact calculation unfolding rs by (simp add: published_def map_filter_def publisher_new_def)
  ultimately show ?thesis using run rs by blast
qed

end
