(* ===== verification/Mock_Broker.thy ===== *)
theory Mock_Broker
  imports Gateway_Safety
begin

text \<open>
  The broker interface (\<open>corsair_broker_api/src/lib.rs\<close>) and its in-memory implementation
  (\<open>corsair_broker_api/src/mock.rs\<close>). The part of the interface that hands out order numbers is a
  locale, with the native adapter and the mock as its instances. A broadcast channel is the list of
  the values sent on it; a receiver sees those sent after it subscribed, as long as it keeps up. The
  texts of a local symbol and the calendar are parameters.
\<close>

section \<open>State\<close>

definition stream_capacity :: nat where
  "stream_capacity = 4096"

record call_log =
  cl_place_orders :: "place_order_req list"
  cl_cancel_orders :: "order_id list"
  cl_modify_orders :: "(order_id \<times> modify_order_req) list"
  cl_subscribe_ticks :: "tick_subscription list"
  cl_unsubscribe_ticks :: "stream_handle list"
  cl_connect_count :: int
  cl_disconnect_count :: int

definition call_log_default :: call_log where
  "call_log_default = \<lparr>cl_place_orders = [], cl_cancel_orders = [], cl_modify_orders = [], cl_subscribe_ticks = [],
     cl_unsubscribe_ticks = [], cl_connect_count = 0, cl_disconnect_count = 0\<rparr>"

record mock_broker =
  mk_connected :: bool
  mk_next_order_id :: int
  mk_next_handle :: int
  mk_calls :: call_log
  mk_fills :: "fill list"
  mk_status :: "order_status_update list"
  mk_ticks :: "tick list"
  mk_errors :: "broker_error list"
  mk_conn :: "connection_event list"
  mk_capabilities :: broker_capabilities
  mk_fixed_positions :: "broker_position list"
  mk_fixed_account :: "account_snapshot option"
  mk_fixed_open_orders :: "open_order list"
  mk_fixed_fills :: "fill list"

definition mock_capabilities :: broker_capabilities where
  "mock_capabilities = \<lparr>cap_kind = Mock, cap_requires_account_per_order = False, cap_fills_on_separate_channel = False,
     cap_supported_tifs = [Gtc, Day, Gtd, Ioc, Fok], cap_typical_rtt_ms = (1, 5), cap_provides_maintenance_margin = True\<rparr>"

definition mock_new :: mock_broker where
  "mock_new = \<lparr>mk_connected = False, mk_next_order_id = 1, mk_next_handle = 1, mk_calls = call_log_default,
     mk_fills = [], mk_status = [], mk_ticks = [], mk_errors = [], mk_conn = [], mk_capabilities = mock_capabilities,
     mk_fixed_positions = [], mk_fixed_account = None, mk_fixed_open_orders = [], mk_fixed_fills = []\<rparr>"

section \<open>Test fixtures\<close>

definition inject_fill :: "fill \<Rightarrow> mock_broker \<Rightarrow> mock_broker" where
  "inject_fill f b = b\<lparr>mk_fills := mk_fills b @ [f]\<rparr>"

definition inject_status :: "order_status_update \<Rightarrow> mock_broker \<Rightarrow> mock_broker" where
  "inject_status u b = b\<lparr>mk_status := mk_status b @ [u]\<rparr>"

definition inject_tick :: "tick \<Rightarrow> mock_broker \<Rightarrow> mock_broker" where
  "inject_tick t b = b\<lparr>mk_ticks := mk_ticks b @ [t]\<rparr>"

definition inject_error :: "broker_error \<Rightarrow> mock_broker \<Rightarrow> mock_broker" where
  "inject_error e b = b\<lparr>mk_errors := mk_errors b @ [e]\<rparr>"

definition inject_connection :: "connection_event \<Rightarrow> mock_broker \<Rightarrow> mock_broker" where
  "inject_connection e b = b\<lparr>mk_conn := mk_conn b @ [e]\<rparr>"

definition set_positions :: "broker_position list \<Rightarrow> mock_broker \<Rightarrow> mock_broker" where
  "set_positions ps b = b\<lparr>mk_fixed_positions := ps\<rparr>"

definition set_account :: "account_snapshot \<Rightarrow> mock_broker \<Rightarrow> mock_broker" where
  "set_account a b = b\<lparr>mk_fixed_account := Some a\<rparr>"

definition set_open_orders :: "open_order list \<Rightarrow> mock_broker \<Rightarrow> mock_broker" where
  "set_open_orders os b = b\<lparr>mk_fixed_open_orders := os\<rparr>"

definition set_recent_fills :: "fill list \<Rightarrow> mock_broker \<Rightarrow> mock_broker" where
  "set_recent_fills fs b = b\<lparr>mk_fixed_fills := fs\<rparr>"

section \<open>Operations\<close>

text \<open>A call log is changed through \<open>log_call\<close>.\<close>

definition log_call :: "(call_log \<Rightarrow> call_log) \<Rightarrow> mock_broker \<Rightarrow> mock_broker" where
  "log_call f b = b\<lparr>mk_calls := f (mk_calls b)\<rparr>"

definition mock_connect :: "mock_broker \<Rightarrow> (broker_error + unit) \<times> mock_broker" where
  "mock_connect b =
     (Inr (), inject_connection \<lparr>ce_state = Connected, ce_reason = Some ''mock connect'', ce_timestamp_ns = 0\<rparr>
        (log_call (\<lambda>l. l\<lparr>cl_connect_count := wrap_u32 (cl_connect_count l + 1)\<rparr>) (b\<lparr>mk_connected := True\<rparr>)))"

definition mock_disconnect :: "mock_broker \<Rightarrow> (broker_error + unit) \<times> mock_broker" where
  "mock_disconnect b =
     (Inr (), inject_connection \<lparr>ce_state = Closed, ce_reason = Some ''mock disconnect'', ce_timestamp_ns = 0\<rparr>
        (log_call (\<lambda>l. l\<lparr>cl_disconnect_count := wrap_u32 (cl_disconnect_count l + 1)\<rparr>) (b\<lparr>mk_connected := False\<rparr>)))"

definition mock_place_order :: "place_order_req \<Rightarrow> mock_broker \<Rightarrow> (broker_error + order_id) \<times> mock_broker" where
  "mock_place_order req b =
     (if \<not> mk_connected b then (Inl (NotConnectedErr ''mock not connected''), b)
      else
        (Inr (mk_next_order_id b),
         log_call (\<lambda>l. l\<lparr>cl_place_orders := cl_place_orders l @ [req]\<rparr>)
           (b\<lparr>mk_next_order_id := wrap_u64 (mk_next_order_id b + 1)\<rparr>)))"

definition mock_cancel_order :: "order_id \<Rightarrow> mock_broker \<Rightarrow> (broker_error + unit) \<times> mock_broker" where
  "mock_cancel_order oid b =
     (if \<not> mk_connected b then (Inl (NotConnectedErr ''mock not connected''), b)
      else (Inr (), log_call (\<lambda>l. l\<lparr>cl_cancel_orders := cl_cancel_orders l @ [oid]\<rparr>) b))"

definition mock_modify_order ::
  "order_id \<Rightarrow> modify_order_req \<Rightarrow> mock_broker \<Rightarrow> (broker_error + unit) \<times> mock_broker" where
  "mock_modify_order oid req b =
     (if \<not> mk_connected b then (Inl (NotConnectedErr ''mock not connected''), b)
      else (Inr (), log_call (\<lambda>l. l\<lparr>cl_modify_orders := cl_modify_orders l @ [(oid, req)]\<rparr>) b))"

definition mock_account_values :: "mock_broker \<Rightarrow> broker_error + account_snapshot" where
  "mock_account_values b =
     (case mk_fixed_account b of
        Some a \<Rightarrow> Inr a
      | None \<Rightarrow> Inl (InternalErr ''mock: no account snapshot configured''))"

definition mock_recent_fills :: "int \<Rightarrow> mock_broker \<Rightarrow> fill list" where
  "mock_recent_fills since_ns b = filter (\<lambda>f. since_ns \<le> f_timestamp_ns f) (mk_fixed_fills b)"

text \<open>The shared counter of instruments and stream handles.\<close>

definition take_handle :: "mock_broker \<Rightarrow> int \<times> mock_broker" where
  "take_handle b = (mk_next_handle b, b\<lparr>mk_next_handle := wrap_u64 (mk_next_handle b + 1)\<rparr>)"

record mock_texts =
  mt_year_month :: "naive_date \<Rightarrow> string"
  mt_date :: "naive_date \<Rightarrow> string"
  mt_strike :: "f64 \<Rightarrow> string"
  mt_next_month :: "naive_date \<Rightarrow> naive_date option"
  mt_default_start :: naive_date

definition mock_future :: "mock_texts \<Rightarrow> string \<Rightarrow> naive_date \<Rightarrow> exchange \<Rightarrow> currency \<Rightarrow> instrument_id \<Rightarrow> contract" where
  "mock_future T symbol expiry exch cur iid =
     \<lparr>c_instrument_id = iid, c_kind = Future, c_symbol = symbol, c_local_symbol = symbol @ mt_year_month T expiry,
      c_expiry = expiry, c_strike = None, c_right = None, c_multiplier = lit 25000, c_exchange = exch, c_currency = cur\<rparr>"

definition mock_qualify_future :: "mock_texts \<Rightarrow> future_query \<Rightarrow> mock_broker \<Rightarrow> contract \<times> mock_broker" where
  "mock_qualify_future T q b =
     (let (iid, b1) = take_handle b
      in (mock_future T (fq_symbol q) (fq_expiry q) (fq_exchange q) (fq_currency q) iid, b1))"

definition mock_qualify_option :: "mock_texts \<Rightarrow> option_query \<Rightarrow> mock_broker \<Rightarrow> contract \<times> mock_broker" where
  "mock_qualify_option T q b =
     (let (iid, b1) = take_handle b
      in (\<lparr>c_instrument_id = iid, c_kind = OptionKind, c_symbol = oq_symbol q,
           c_local_symbol = oq_symbol q @ ''-'' @ mt_date T (oq_expiry q) @ ''-'' @ mt_strike T (oq_strike q) @
              [right_as_char (oq_right q)],
           c_expiry = oq_expiry q, c_strike = Some (oq_strike q), c_right = Some (oq_right q),
           c_multiplier = oq_multiplier q, c_exchange = oq_exchange q, c_currency = oq_currency q\<rparr>, b1))"

text \<open>A month that cannot be added leaves the date as it is.\<close>

definition month_after :: "mock_texts \<Rightarrow> naive_date \<Rightarrow> naive_date" where
  "month_after T d = (case mt_next_month T d of Some d' \<Rightarrow> d' | None \<Rightarrow> d)"

definition mock_list_chain :: "mock_texts \<Rightarrow> chain_query \<Rightarrow> mock_broker \<Rightarrow> contract list \<times> mock_broker" where
  "mock_list_chain T q b =
     (let start = (case cq_min_expiry q of Some d \<Rightarrow> d | None \<Rightarrow> mt_default_start T)
      in fold (\<lambda>i (out, b).
             let (iid, b1) = take_handle b
             in (out @ [mock_future T (cq_symbol q) ((month_after T ^^ i) start) (cq_exchange q) (cq_currency q) iid], b1))
           [0, 1, 2] ([], b))"

definition mock_subscribe_ticks :: "tick_subscription \<Rightarrow> mock_broker \<Rightarrow> stream_handle \<times> mock_broker" where
  "mock_subscribe_ticks sub b =
     (let (h, b1) = take_handle b
      in (h, log_call (\<lambda>l. l\<lparr>cl_subscribe_ticks := cl_subscribe_ticks l @ [sub]\<rparr>) b1))"

definition mock_unsubscribe_ticks :: "stream_handle \<Rightarrow> mock_broker \<Rightarrow> mock_broker" where
  "mock_unsubscribe_ticks h b = log_call (\<lambda>l. l\<lparr>cl_unsubscribe_ticks := cl_unsubscribe_ticks l @ [h]\<rparr>) b"


section \<open>Order numbers\<close>

text \<open>Placing in sequence: the numbers of the orders that were accepted.\<close>

fun place_all :: "('req \<Rightarrow> 's \<Rightarrow> (broker_error + order_id) \<times> 's) \<Rightarrow> 'req list \<Rightarrow> 's \<Rightarrow> order_id list \<times> 's" where
  "place_all place [] s = ([], s)"
| "place_all place (r # rs) s =
     (let (res, s1) = place r s; (ids, s2) = place_all place rs s1
      in (case res of Inl _ \<Rightarrow> ids | Inr i \<Rightarrow> i # ids, s2))"

text \<open>The contract of \<open>place_order\<close>: below the limit of its counter an accepted order takes the next
  number, and a refused one takes at most one.\<close>

locale order_numbers =
  fixes place :: "'req \<Rightarrow> 's \<Rightarrow> (broker_error + order_id) \<times> 's"
    and next_id :: "'s \<Rightarrow> int"
    and limit :: int
  assumes accepted: "0 < next_id s \<Longrightarrow> next_id s < limit \<Longrightarrow> place r s = (Inr i, s') \<Longrightarrow>
      i = next_id s \<and> next_id s' = next_id s + 1"
    and refused: "0 < next_id s \<Longrightarrow> next_id s < limit \<Longrightarrow> place r s = (Inl e, s') \<Longrightarrow>
      next_id s' = next_id s \<or> next_id s' = next_id s + 1"
begin

lemma numbers_ascend:
  "0 < next_id s \<Longrightarrow> next_id s + int (length rs) \<le> limit \<Longrightarrow>
   sorted_wrt (<) (fst (place_all place rs s)) \<and>
   set (fst (place_all place rs s)) \<subseteq> {next_id s..<next_id s + int (length rs)}"
proof (induction rs arbitrary: s)
  case (Cons r rs)
  obtain res s1 where p: "place r s = (res, s1)" by fastforce
  have lt: "next_id s < limit" using Cons.prems by simp
  have n1: "next_id s1 = next_id s \<or> next_id s1 = next_id s + 1"
    using accepted [OF Cons.prems(1) lt] refused [OF Cons.prems(1) lt] p by (cases res) auto
  have ih: "sorted_wrt (<) (fst (place_all place rs s1)) \<and>
      set (fst (place_all place rs s1)) \<subseteq> {next_id s1..<next_id s1 + int (length rs)}"
    by (rule Cons.IH) (use n1 Cons.prems in auto)
  show ?case
  proof (cases res)
    case (Inl e)
    then show ?thesis using ih n1 by (auto simp: p split_def Let_def)
  next
    case (Inr i)
    then have "i = next_id s" "next_id s1 = next_id s + 1"
      using accepted [OF Cons.prems(1) lt, of r i s1] p by auto
    then show ?thesis using ih Inr by (auto simp: p split_def Let_def)
  qed
qed simp

end

interpretation mock_numbers: order_numbers mock_place_order mk_next_order_id "2 ^ 64 - 1"
  by unfold_locales (auto simp: mock_place_order_def log_call_def wrap_u64_def split: if_splits)

lemma nb_set_acks_client [simp]: "nb_client (nb_set_acks f nb) = nb_client nb"
  by (simp add: nb_set_acks_def)

text \<open>The adapter's orders, each with the fault of its write.\<close>

definition adapter_place ::
  "gateway_env \<Rightarrow> string option \<times> place_order_req \<Rightarrow> native_broker \<Rightarrow> (broker_error + order_id) \<times> native_broker" where
  "adapter_place E r nb = place_order_start E (fst r) (snd r) nb"

lemma broker_send_next: "broker_send fault frame nb = (r, nb') \<Longrightarrow>
    nc_next_order_id (nb_client nb') = nc_next_order_id (nb_client nb)"
  by (auto simp: broker_send_def send_raw_def split: prod.splits sum.splits option.splits if_splits)

interpretation adapter_numbers: order_numbers "adapter_place E" "\<lambda>nb :: native_broker. nc_next_order_id (nb_client nb)" "2 ^ 31 - 1"
proof unfold_locales
  fix s s' :: native_broker and r i e
  assume a: "0 < nc_next_order_id (nb_client s)" "nc_next_order_id (nb_client s) < 2 ^ 31 - 1"
  then have w: "wrap_i32 (nc_next_order_id (nb_client s) + 1) = nc_next_order_id (nb_client s) + 1"
    by (simp add: wrap_i32_id in_i32_def)
  show "adapter_place E r s = (Inr i, s') \<Longrightarrow>
      i = nc_next_order_id (nb_client s) \<and> nc_next_order_id (nb_client s') = nc_next_order_id (nb_client s) + 1"
    using a w by (auto simp: adapter_place_def place_order_start_def alloc_order_id_def Let_def
        split: if_splits sum.splits prod.splits dest!: broker_send_next)
  show "adapter_place E r s = (Inl e, s') \<Longrightarrow>
      nc_next_order_id (nb_client s') = nc_next_order_id (nb_client s) \<or>
      nc_next_order_id (nb_client s') = nc_next_order_id (nb_client s) + 1"
    using a w by (auto simp: adapter_place_def place_order_start_def alloc_order_id_def Let_def
        split: if_splits sum.splits prod.splits dest!: broker_send_next)
qed

section \<open>Connecting twice\<close>

text \<open>The interface makes a second \<open>connect\<close> a no-op: the adapter keeps to that, the mock counts and
  announces it.\<close>

lemma adapter_connect_idempotent: "nb_connected nb \<Longrightarrow> broker_connect E io now nb = (Inr (), nb)"
  by (simp add: broker_connect_def)

lemma mock_connect_announces: "length (mk_conn (snd (mock_connect (snd (mock_connect b))))) = length (mk_conn b) + 2"
  by (simp add: mock_connect_def inject_connection_def log_call_def)


section \<open>Properties\<close>

text \<open>Order numbers never repeat on the adapter: whatever orders are placed one after the other and
  whichever writes fail, the numbers of those the adapter accepts are strictly increasing from the
  number the gateway announced, as long as the counter stays within 31 bits.\<close>

lemma adapter_orders_are_numbered:
  assumes "0 < nc_next_order_id (nb_client nb)" "nc_next_order_id (nb_client nb) + int (length rs) \<le> 2 ^ 31 - 1"
  shows "sorted_wrt (<) (fst (place_all (adapter_place E) rs nb)) \<and>
     set (fst (place_all (adapter_place E) rs nb)) \<subseteq>
       {nc_next_order_id (nb_client nb)..<nc_next_order_id (nb_client nb) + int (length rs)}"
  using assms by (rule adapter_numbers.numbers_ascend)

end
