(* ===== verification/Jsonl_Log.thy ===== *)
theory Jsonl_Log
  imports Codec
begin

text \<open>
  The decision and event logs of the trader (\<open>corsair_trader/src/jsonl.rs\<close>): the bounded channel in
  front of the writer task, and the writer with its daily and size-based rotation. A file is what the
  writes accepted so far make of it, so the buffer of \<open>BufWriter\<close> counts as written. The date of the
  clock as text, the encoded line and what the system answers are arguments.
\<close>

section \<open>The channel\<close>

definition max_bytes_per_file :: int where
  "max_bytes_per_file = 256 * 1024 * 1024"

definition jsonl_capacity :: nat where
  "jsonl_capacity = 10000"

record 'v jsonl_writer =
  jw_queue :: "'v list"
  jw_receiving :: bool
  jw_dropped :: int

definition jsonl_start :: "bool \<Rightarrow> 'v jsonl_writer" where
  "jsonl_start dir_created = \<lparr>jw_queue = [], jw_receiving = dir_created, jw_dropped = 0\<rparr>"

definition jsonl_write :: "'v \<Rightarrow> 'v jsonl_writer \<Rightarrow> bool \<times> 'v jsonl_writer" where
  "jsonl_write v w =
     (if jw_receiving w \<and> length (jw_queue w) < jsonl_capacity
      then (True, w\<lparr>jw_queue := jw_queue w @ [v]\<rparr>)
      else (False, w\<lparr>jw_dropped := wrap_u64 (jw_dropped w + 1)\<rparr>))"

text \<open>\<open>jsonl_start\<close> is the handle once the writer task has tried to create its directory; when that failed
  the receiver is gone and every write is dropped.\<close>

section \<open>The writer task\<close>

record log_state =
  lg_file :: "string option"
  lg_day :: "string option"
  lg_part :: int
  lg_size :: int
  lg_since_flush :: int

definition log_state_new :: log_state where
  "log_state_new = \<lparr>lg_file = None, lg_day = None, lg_part = 0, lg_size = 0, lg_since_flush = 0\<rparr>"

definition log_name :: "string \<Rightarrow> string \<Rightarrow> int \<Rightarrow> string" where
  "log_name prefix day part = prefix @ ''-'' @ day @ ''.jsonl'' @ (if part = 0 then [] else ''.'' @ decimal part)"

text \<open>The part a record starts, if it starts one. A new day resets the part and does not look at the
  size.\<close>

definition roll_part :: "string \<Rightarrow> log_state \<Rightarrow> int option" where
  "roll_part day st =
     (case lg_day st of
        None \<Rightarrow> Some (lg_part st)
      | Some d \<Rightarrow>
          if d \<noteq> day then Some 0
          else if max_bytes_per_file \<le> lg_size st then Some (wrap_u32 (lg_part st + 1))
          else None)"

type_synonym log_files = "(string, byte list) hmap"

definition log_content :: "log_files \<Rightarrow> string \<Rightarrow> byte list" where
  "log_content fs name = (case hm_get fs name of Some body \<Rightarrow> body | None \<Rightarrow> [])"

datatype open_answer = OpenFailed | OpenedUnmeasured | Opened

definition roll_file ::
  "(string \<Rightarrow> open_answer) \<Rightarrow> string \<Rightarrow> string \<Rightarrow> log_state \<times> log_files \<Rightarrow> log_state \<times> log_files" where
  "roll_file opens prefix day sf =
     (let (st, fs) = sf
      in case roll_part day st of
           None \<Rightarrow> sf
         | Some part \<Rightarrow>
             let name = log_name prefix day part; st1 = st\<lparr>lg_part := part, lg_day := Some day\<rparr>
             in (case opens name of
                   OpenFailed \<Rightarrow> (st1\<lparr>lg_file := None\<rparr>, fs)
                 | opened \<Rightarrow>
                     (st1\<lparr>lg_file := Some name,
                          lg_size := (if opened = Opened then int (length (log_content fs name)) else 0)\<rparr>,
                      hm_insert name (log_content fs name) fs)))"

definition writer_step ::
  "(string \<Rightarrow> open_answer) \<Rightarrow> bool \<Rightarrow> string \<Rightarrow> string \<Rightarrow> byte list \<Rightarrow> log_state \<times> log_files \<Rightarrow> log_state \<times> log_files" where
  "writer_step opens write_ok prefix day encoded sf =
     (let (st, fs) = roll_file opens prefix day sf
      in case lg_file st of
           None \<Rightarrow> (st, fs)
         | Some name \<Rightarrow>
             let line = encoded @ [10];
                 n = wrap_u32 (lg_since_flush st + 1);
                 st1 = st\<lparr>lg_since_flush := (if 100 \<le> n then 0 else n)\<rparr>
             in if write_ok
                then (st1\<lparr>lg_size := wrap_u64 (lg_size st + int (length line))\<rparr>,
                      hm_insert name (log_content fs name @ line) fs)
                else (st1, fs))"

fun writer_run ::
  "(string \<Rightarrow> open_answer) \<Rightarrow> string \<Rightarrow> (string \<times> byte list) list \<Rightarrow> log_state \<times> log_files \<Rightarrow> log_state \<times> log_files" where
  "writer_run opens prefix [] sf = sf"
| "writer_run opens prefix ((day, encoded) # records) sf =
     writer_run opens prefix records (writer_step opens True prefix day encoded sf)"

section \<open>The channel is bounded and counts what it loses\<close>

lemma jsonl_writes:
  assumes "fold (\<lambda>v w. snd (jsonl_write v w)) vs (jsonl_start ok) = w" "length vs < 2 ^ 64"
  shows "length (jw_queue w) \<le> jsonl_capacity \<and> int (length (jw_queue w)) + jw_dropped w = int (length vs)"
  using assms
proof (induction vs arbitrary: w rule: rev_induct)
  case Nil
  then show ?case by (auto simp: jsonl_start_def)
next
  case (snoc v vs)
  define w0 where "w0 = fold (\<lambda>v w. snd (jsonl_write v w)) vs (jsonl_start ok)"
  have "length (jw_queue w0) \<le> jsonl_capacity \<and> int (length (jw_queue w0)) + jw_dropped w0 = int (length vs)"
    using snoc.IH [of w0] snoc.prems(2) by (simp add: w0_def)
  moreover have "w = snd (jsonl_write v w0)" using snoc.prems(1) by (simp add: w0_def)
  moreover have "wrap_u64 (jw_dropped w0 + 1) = jw_dropped w0 + 1" if "0 \<le> jw_dropped w0" "jw_dropped w0 + 1 < 2 ^ 64"
    using that by (simp add: wrap_u64_def)
  moreover have "0 \<le> jw_dropped w0"
  proof -
    have "0 \<le> jw_dropped (fold (\<lambda>v w. snd (jsonl_write v w)) us (jsonl_start ok))" for us
      by (induction us rule: rev_induct) (auto simp: jsonl_start_def jsonl_write_def wrap_u64_def)
    then show ?thesis by (simp add: w0_def)
  qed
  ultimately show ?case using snoc.prems(2) by (auto simp: jsonl_write_def)
qed

section \<open>Every record once, in order\<close>

text \<open>When every file opens, each record is appended to one file, in the order of the records.\<close>

definition append_line :: "string \<times> byte list \<Rightarrow> (string \<Rightarrow> byte list) \<Rightarrow> string \<Rightarrow> byte list" where
  "append_line nl contents = contents(fst nl := contents (fst nl) @ snd nl @ [10])"

lemma log_content_insert: "log_content (hm_insert k v fs) = (log_content fs)(k := v)"
  by (rule ext) (simp add: log_content_def hm.get_insert)

definition log_ready :: "log_state \<Rightarrow> bool" where
  "log_ready st \<longleftrightarrow> (lg_file st = None \<longrightarrow> lg_day st = None)"

lemma writer_step_opens:
  assumes "\<And>name. opens name \<noteq> OpenFailed" "log_ready st" "writer_step opens True prefix day encoded (st, fs) = (st', fs')"
  shows "log_ready st' \<and> (\<exists>name. log_content fs' = append_line (name, encoded) (log_content fs))"
proof -
  obtain st1 fs1 where r: "roll_file opens prefix day (st, fs) = (st1, fs1)" by fastforce
  have o: "opens n = OpenedUnmeasured \<or> opens n = Opened" for n using assms(1) [of n] by (cases "opens n") auto
  obtain name where n: "lg_file st1 = Some name" and c: "log_content fs1 = log_content fs"
  proof (cases "roll_part day st")
    case None
    then have "lg_day st \<noteq> None" by (cases "lg_day st") (auto simp: roll_part_def)
    then obtain name where "lg_file st = Some name" using assms(2) by (auto simp: log_ready_def)
    then show thesis using that None r by (simp add: roll_file_def)
  next
    case (Some part)
    then show thesis
      using that r o [of "log_name prefix day part"]
      by (auto simp: roll_file_def Let_def log_content_insert)
  qed
  show ?thesis
    using assms(3) r n c
    by (auto simp: writer_step_def Let_def log_ready_def append_line_def log_content_insert)
qed

theorem records_logged_once:
  assumes "\<And>name. opens name \<noteq> OpenFailed"
  shows "\<exists>names. length names = length records \<and>
     log_content (snd (writer_run opens prefix records (log_state_new, fs))) =
       fold append_line (zip names (map snd records)) (log_content fs)"
proof -
  have "\<exists>names. length names = length records \<and>
      log_content (snd (writer_run opens prefix records (st, fs))) =
        fold append_line (zip names (map snd records)) (log_content fs)" if "log_ready st" for st fs
    using that
  proof (induction records arbitrary: st fs)
    case (Cons entry records)
    obtain day encoded where d: "entry = (day, encoded)" by fastforce
    obtain st1 fs1 where s: "writer_step opens True prefix day encoded (st, fs) = (st1, fs1)" by fastforce
    obtain name where n: "log_ready st1" "log_content fs1 = append_line (name, encoded) (log_content fs)"
      using writer_step_opens [OF assms Cons.prems s] by blast
    obtain names where "length names = length records"
      "log_content (snd (writer_run opens prefix records (st1, fs1))) =
         fold append_line (zip names (map snd records)) (log_content fs1)"
      using Cons.IH [OF n(1)] by blast
    then show ?case using d s n(2) by (intro exI [of _ "name # names"]) simp
  qed simp
  then show ?thesis by (simp add: log_ready_def log_state_new_def)
qed

theorem records_logged_once_witness:
  "\<exists>names. length names = 1 \<and>
     log_content (snd (writer_run (\<lambda>_. Opened) ''e'' [(''2026-06-25'', [123, 125])] (log_state_new, hm_new))) =
       fold append_line (zip names [[123, 125]]) (log_content hm_new)"
  using records_logged_once [of "\<lambda>_. Opened" "[(''2026-06-25'', [123, 125])]" "''e''" hm_new] by simp

section \<open>A failed open\<close>

text \<open>When the file of a new day cannot be opened, every record of the rest of the day is lost: the
  writer retries only on the next day, and the counter of dropped records does not move.\<close>

theorem failed_open_loses_day:
  assumes "roll_part day st = Some part" "opens (log_name prefix day part) = OpenFailed" "lg_size st < max_bytes_per_file"
  shows "snd (writer_run opens prefix (map (Pair day) lines) (st, fs)) = fs"
proof -
  let ?lost = "st\<lparr>lg_part := part, lg_day := Some day, lg_file := None\<rparr>"
  have first: "writer_step opens True prefix day line (st, fs) = (?lost, fs)" for line
    using assms by (simp add: writer_step_def roll_file_def Let_def)
  have "writer_step opens True prefix day line (?lost, fs) = (?lost, fs)" for line
    using assms(3) by (simp add: writer_step_def roll_file_def roll_part_def Let_def)
  then have "writer_run opens prefix (map (Pair day) lines) (?lost, fs) = (?lost, fs)" for lines
    by (induction lines) simp_all
  then show ?thesis by (cases lines) (simp_all add: first)
qed

theorem failed_open_loses_day_witness:
  "snd (writer_run (\<lambda>_. OpenFailed) ''e'' (map (Pair ''2026-06-25'') [[1], [2], [3]]) (log_state_new, hm_new)) = hm_new"
  by (rule failed_open_loses_day [where part = 0])
    (simp_all add: roll_part_def log_state_new_def max_bytes_per_file_def)

end
