(* ===== verification/Python_Api.thy ===== *)
theory Python_Api
  imports Calibrate Span
begin

text \<open>
  The functions of the pricing crate that Python calls (\<open>corsair_pricing/src/lib.rs\<close>): the wrappers
  with the defaults of their signatures, the first letter of the right they pass on, and the
  dictionaries they return. An argument with a default is an option. A panic of the Rust code is an
  exception in Python. \<open>decide_quote\<close> and the price functions are in \<open>Pricing_Core\<close>.
\<close>

section \<open>Arguments and results\<close>

datatype py_value = PyFloat f64 | PyInt int

type_synonym py_dict = "(string \<times> py_value) list"

definition given :: "'a \<Rightarrow> 'a option \<Rightarrow> 'a" where
  "given d arg = (case arg of Some x \<Rightarrow> x | None \<Rightarrow> d)"

definition right_char :: "string \<Rightarrow> char" where
  "right_char rt = (case rt of [] \<Rightarrow> CHR ''C'' | c # _ \<Rightarrow> to_ascii_uppercase c)"

section \<open>Calibration\<close>

definition sabr_dict :: "sabr_fit \<Rightarrow> py_dict" where
  "sabr_dict p =
     [(''alpha'', PyFloat (sf_alpha p)), (''beta'', PyFloat (sf_beta p)), (''rho'', PyFloat (sf_rho p)),
      (''nu'', PyFloat (sf_nu p)), (''rmse'', PyFloat (sf_rmse p)), (''n_points'', PyInt (int (sf_n_points p)))]"

definition py_calibrate_sabr ::
  "trader_libm \<Rightarrow> f64 \<Rightarrow> f64 \<Rightarrow> f64 list \<Rightarrow> f64 list \<Rightarrow> f64 option \<Rightarrow> f64 option \<Rightarrow> f64 list option \<Rightarrow> py_dict option" where
  "py_calibrate_sabr M forward tte strikes market_ivs beta max_rmse weights =
     map_option sabr_dict
       (calibrate_sabr M forward tte strikes market_ivs weights (given (lit (1 / 2)) beta) (given (lit (3 / 100)) max_rmse))"

definition svi_dict :: "svi_fit \<Rightarrow> py_dict" where
  "svi_dict p =
     [(''a'', PyFloat (vf_a p)), (''b'', PyFloat (vf_b p)), (''rho'', PyFloat (vf_rho p)), (''m'', PyFloat (vf_m p)),
      (''sigma'', PyFloat (vf_sigma p)), (''rmse'', PyFloat (vf_rmse p)), (''n_points'', PyInt (int (vf_n_points p)))]"

definition py_calibrate_svi ::
  "'a libm_scheme \<Rightarrow> f64 \<Rightarrow> f64 \<Rightarrow> f64 list \<Rightarrow> f64 list \<Rightarrow> f64 option \<Rightarrow> f64 list option \<Rightarrow> panic + py_dict option" where
  "py_calibrate_svi M forward tte strikes market_ivs max_rmse weights =
     and_then (calibrate_svi M forward tte strikes market_ivs weights (given (lit (3 / 100)) max_rmse))
       (\<lambda>fit. Inr (map_option svi_dict fit))"

section \<open>Greeks and margin\<close>

definition py_compute_greeks ::
  "libm \<Rightarrow> f64 \<Rightarrow> f64 \<Rightarrow> f64 \<Rightarrow> f64 \<Rightarrow> f64 option \<Rightarrow> string option \<Rightarrow> f64 option \<Rightarrow> py_dict" where
  "py_compute_greeks M f k t sigma r rt multiplier =
     (let g = compute_greeks M f k t sigma (given fzero r) (right_char (given ''C'' rt)) (given (lit 50) multiplier)
      in [(''delta'', PyFloat (g_delta g)), (''gamma'', PyFloat (g_gamma g)), (''theta'', PyFloat (g_theta g)),
          (''vega'', PyFloat (g_vega g)), (''iv'', PyFloat (g_iv g))])"

definition py_span_config :: "f64 \<Rightarrow> f64 \<Rightarrow> f64 \<Rightarrow> f64 \<Rightarrow> f64 \<Rightarrow> f64 \<Rightarrow> f64 \<Rightarrow> span_config" where
  "py_span_config up down vol mult cover minimum multiplier =
     \<lparr>sc_up_scan_pct = up, sc_down_scan_pct = down, sc_vol_scan_pct = vol, sc_extreme_mult = mult,
      sc_extreme_cover = cover, sc_short_option_minimum = minimum, sc_multiplier = multiplier\<rparr>"

definition py_span_position_risk_array ::
  "'a libm_scheme \<Rightarrow> f64 \<Rightarrow> f64 \<Rightarrow> f64 \<Rightarrow> f64 \<Rightarrow> string \<Rightarrow> f64 \<Rightarrow> f64 \<Rightarrow> f64 \<Rightarrow> f64 \<Rightarrow> f64 \<Rightarrow> f64 \<Rightarrow> f64 list" where
  "py_span_position_risk_array M f k t iv rt up down vol mult cover multiplier =
     position_risk_array M f k t iv (right_char rt) (py_span_config up down vol mult cover fzero multiplier)"

definition py_span_portfolio_margin ::
  "'a libm_scheme \<Rightarrow> f64 \<Rightarrow> (f64 \<times> string \<times> f64 \<times> f64 \<times> int) list \<Rightarrow>
   f64 \<Rightarrow> f64 \<Rightarrow> f64 \<Rightarrow> f64 \<Rightarrow> f64 \<Rightarrow> f64 \<Rightarrow> f64 \<Rightarrow> py_dict" where
  "py_span_portfolio_margin M f positions up down vol mult cover minimum multiplier =
     (let m = portfolio_margin M f
                (map (\<lambda>(k, rt, t, iv, q).
                   \<lparr>sp_strike = k, sp_right = right_char rt, sp_tte = t, sp_iv = iv, sp_qty = q\<rparr>) positions)
                (py_span_config up down vol mult cover minimum multiplier)
      in [(''scan_risk'', PyFloat (pm_scan_risk m)), (''net_option_value'', PyFloat (pm_net_option_value m)),
          (''long_premium'', PyFloat (pm_long_premium m)), (''short_minimum'', PyFloat (pm_short_minimum m)),
          (''total_margin'', PyFloat (pm_total_margin m)), (''worst_scenario'', PyInt (pm_worst_scenario m))])"

definition py_functions :: "string list" where
  "py_functions =
     [''black76_price'', ''implied_vol'', ''sabr_implied_vol'', ''svi_implied_vol'', ''decide_quote'',
      ''calibrate_sabr'', ''calibrate_svi'', ''compute_greeks'', ''span_position_risk_array'',
      ''span_portfolio_margin'']"

section \<open>What a right is\<close>

text \<open>For a right of one letter the price functions, which compare the whole text, and the others,
  which look at the first letter, agree.\<close>

theorem one_letter_rights_agree: "(right_char [c] = CHR ''C'') = is_call_text [c]"
  by (simp add: right_char_def is_call_text_def)

text \<open>For a longer text they do not: \<open>CALL\<close> has the Greeks of a call and the price of a put.\<close>

theorem long_right_priced_as_put:
  "py_compute_greeks M f k t sigma r (Some ''CALL'') m = py_compute_greeks M f k t sigma r (Some ''C'') m \<and>
   black76_price_text M f k t sigma rate ''CALL'' = black76_price_text M f k t sigma rate ''P''"
  by (simp add: py_compute_greeks_def given_def right_char_def black76_price_text_def is_call_text_def
      to_ascii_uppercase_def)

text \<open>The same portfolio has the same margin whether its rights are spelled in upper or lower case,
  by letter or by word.\<close>

theorem margin_ignores_spelling:
  "py_span_portfolio_margin M f ((k, [c] @ rest, t, iv, q) # ps) up down vol mult cover minimum multiplier =
   py_span_portfolio_margin M f ((k, [to_ascii_uppercase c], t, iv, q) # ps) up down vol mult cover minimum multiplier"
proof -
  have "to_ascii_uppercase (to_ascii_uppercase c) = to_ascii_uppercase c"
    by (simp add: to_ascii_uppercase_def Let_def)
  then show ?thesis by (simp add: py_span_portfolio_margin_def right_char_def)
qed

end
