(* ===== verification/Shm_Boot.thy ===== *)
theory Shm_Boot
  imports Wire
begin

text \<open>
  How the two processes find each other (\<open>ring.rs\<close>, \<open>server.rs\<close>, the start of \<open>main\<close> in
  \<open>corsair_trader\<close>): the ring files and notification FIFOs as a shared world, the daemon creating
  them, the trader waiting for them and mapping them, a restart of the daemon under a running trader,
  and the wake-up by FIFO. A mapped file is shared: a handle holds the path, and every access goes to
  the current bytes of the file; an access behind its end kills the process and is None. What the
  operating system refuses is an argument of every call.
\<close>

section \<open>Files and FIFOs\<close>

text \<open>A FIFO is the number of bytes that wait in it, at most \<open>sw_pipe\<close>.\<close>

record shm_world =
  sw_files :: "(string, byte list) hmap"
  sw_fifos :: "(string, nat) hmap"
  sw_pipe :: nat

datatype io_call =
    MakeParent string
  | OpenTruncate string
  | SetLen string nat
  | OpenExisting string
  | MapFile string nat
  | MakeFifo string
  | OpenFifo string

type_synonym io_answers = "io_call \<Rightarrow> string option"

type_synonym 'a shm_io = "shm_world \<Rightarrow> (string + 'a) \<times> shm_world"

definition io_return :: "'a \<Rightarrow> 'a shm_io" where
  "io_return x w = (Inr x, w)"

definition io_bind :: "'a shm_io \<Rightarrow> ('a \<Rightarrow> 'b shm_io) \<Rightarrow> 'b shm_io" where
  "io_bind m k w = (case m w of (Inl e, w1) \<Rightarrow> (Inl e, w1) | (Inr x, w1) \<Rightarrow> k x w1)"

definition sys_call :: "io_answers \<Rightarrow> io_call \<Rightarrow> (shm_world \<Rightarrow> shm_world) \<Rightarrow> unit shm_io" where
  "sys_call io call change w = (case io call of Some e \<Rightarrow> (Inl e, w) | None \<Rightarrow> (Inr (), change w))"

definition io_require :: "bool \<Rightarrow> string \<Rightarrow> unit shm_io" where
  "io_require b e w = (if b then (Inr (), w) else (Inl e, w))"

definition store_file :: "string \<Rightarrow> byte list \<Rightarrow> shm_world \<Rightarrow> shm_world" where
  "store_file path body w = w\<lparr>sw_files := hm_insert path body (sw_files w)\<rparr>"

definition file_bytes :: "string \<Rightarrow> shm_world \<Rightarrow> byte list" where
  "file_bytes path w = (case hm_get (sw_files w) path of Some body \<Rightarrow> body | None \<Rightarrow> [])"

definition resize :: "nat \<Rightarrow> byte list \<Rightarrow> byte list" where
  "resize n body = take n body @ replicate (n - length body) 0"

section \<open>ring.rs: handles\<close>

record ring_handle =
  rh_path :: string
  rh_capacity :: nat
  rh_notify_w :: "string option"
  rh_notify_r :: "string option"
  rh_dropped :: nat

definition new_handle :: "string \<Rightarrow> nat \<Rightarrow> ring_handle" where
  "new_handle path capacity =
     \<lparr>rh_path = path, rh_capacity = capacity, rh_notify_w = None, rh_notify_r = None, rh_dropped = 0\<rparr>"

definition zero_header :: "byte list \<Rightarrow> byte list" where
  "zero_header body = copy_into 8 (le_bytes 8 0) (copy_into 0 (le_bytes 8 0) body)"

definition create_ring :: "io_answers \<Rightarrow> string \<Rightarrow> nat \<Rightarrow> ring_handle shm_io" where
  "create_ring io path capacity =
     (let len = hdr_size + capacity in
      io_bind (sys_call io (MakeParent path) (\<lambda>w. w)) (\<lambda>_.
      io_bind (sys_call io (OpenTruncate path) (store_file path [])) (\<lambda>_.
      io_bind (sys_call io (SetLen path len) (\<lambda>w. store_file path (resize len (file_bytes path w)) w)) (\<lambda>_.
      io_bind (sys_call io (MapFile path len) (\<lambda>w. store_file path (zero_header (file_bytes path w)) w)) (\<lambda>_.
      io_return (new_handle path capacity))))))"

definition open_client :: "io_answers \<Rightarrow> string \<Rightarrow> nat \<Rightarrow> ring_handle shm_io" where
  "open_client io path capacity w =
     io_bind (io_require (hm_contains (sw_files w) path) ''No such file or directory'') (\<lambda>_.
     io_bind (sys_call io (OpenExisting path) (\<lambda>w. w)) (\<lambda>_.
     io_bind (sys_call io (MapFile path (hdr_size + capacity)) (\<lambda>w. w)) (\<lambda>_.
     io_return (new_handle path capacity)))) w"

definition create_notify_fifo :: "io_answers \<Rightarrow> string \<Rightarrow> unit shm_io" where
  "create_notify_fifo io path w =
     (if CHR 0x00 \<in> set path then (Inl ''data provided contains a nul byte'', w)
      else if hm_contains (sw_fifos w) path \<or> hm_contains (sw_files w) path then (Inr (), w)
      else sys_call io (MakeFifo path) (\<lambda>w. w\<lparr>sw_fifos := hm_insert path 0 (sw_fifos w)\<rparr>) w)"

definition open_notify :: "io_answers \<Rightarrow> string \<Rightarrow> bool \<Rightarrow> ring_handle \<Rightarrow> ring_handle shm_io" where
  "open_notify io path as_writer h w =
     io_bind (io_require (hm_contains (sw_fifos w) path \<or> hm_contains (sw_files w) path) ''No such file or directory'') (\<lambda>_.
     io_bind (sys_call io (OpenFifo path) (\<lambda>w. w)) (\<lambda>_.
     io_return (if as_writer then h\<lparr>rh_notify_w := Some path\<rparr> else h\<lparr>rh_notify_r := Some path\<rparr>))) w"

definition notify_ring :: "ring_handle \<Rightarrow> shm_world \<Rightarrow> shm_world" where
  "notify_ring h w =
     (case rh_notify_w h of
        None \<Rightarrow> w
      | Some path \<Rightarrow>
          (case hm_get (sw_fifos w) path of
             None \<Rightarrow> w
           | Some n \<Rightarrow> w\<lparr>sw_fifos := hm_insert path (min (sw_pipe w) (n + 1)) (sw_fifos w)\<rparr>))"

definition drain_notify :: "ring_handle \<Rightarrow> shm_world \<Rightarrow> shm_world" where
  "drain_notify h w =
     (case rh_notify_r h of
        None \<Rightarrow> w
      | Some path \<Rightarrow>
          (case hm_get (sw_fifos w) path of
             None \<Rightarrow> w
           | Some _ \<Rightarrow> w\<lparr>sw_fifos := hm_insert path 0 (sw_fifos w)\<rparr>))"

text \<open>The ring a handle sees, and an operation of \<open>Shm_Ring\<close> through a handle. A file is shorter than its
  ring only between the truncation and the resizing of \<open>create_ring\<close>, where it is empty.\<close>

definition mapped :: "ring_handle \<Rightarrow> shm_world \<Rightarrow> ring option" where
  "mapped h w =
     (let len = hdr_size + rh_capacity h; body = file_bytes (rh_path h) w
      in if len \<le> length body
         then Some \<lparr>rg_mmap = take len body, rg_capacity = rh_capacity h, rg_frames_dropped = rh_dropped h\<rparr>
         else None)"

definition through ::
  "(ring \<Rightarrow> ring \<times> 'a) \<Rightarrow> ring_handle \<Rightarrow> shm_world \<Rightarrow> ((ring_handle \<times> 'a) \<times> shm_world) option" where
  "through f h w =
     map_option (\<lambda>g. let (g1, x) = f g
                     in ((h\<lparr>rh_dropped := rg_frames_dropped g1\<rparr>, x),
                         store_file (rh_path h)
                           (rg_mmap g1 @ drop (hdr_size + rh_capacity h) (file_bytes (rh_path h) w)) w))
       (mapped h w)"

definition write_through ::
  "byte list \<Rightarrow> ring_handle \<Rightarrow> shm_world \<Rightarrow> ((ring_handle \<times> bool) \<times> shm_world) option" where
  "write_through frame h w =
     map_option (\<lambda>((h1, ok), w1). ((h1, ok), if ok then notify_ring h1 w1 else w1))
       (through (write_frame frame) h w)"

section \<open>server.rs: the daemon's side\<close>

record shm_server =
  ss_base :: string
  ss_capacity :: nat
  ss_events :: ring_handle
  ss_commands :: ring_handle

definition server_create :: "io_answers \<Rightarrow> string \<Rightarrow> nat \<Rightarrow> shm_server shm_io" where
  "server_create io base capacity =
     (let events = base @ ''.events''; commands = base @ ''.commands'';
          events_notify = events @ ''.notify''; commands_notify = commands @ ''.notify'' in
      io_bind (create_ring io events capacity) (\<lambda>er.
      io_bind (create_ring io commands capacity) (\<lambda>cr.
      io_bind (create_notify_fifo io events_notify) (\<lambda>_.
      io_bind (create_notify_fifo io commands_notify) (\<lambda>_.
      io_bind (open_notify io events_notify True er) (\<lambda>er1.
      io_bind (open_notify io commands_notify False cr) (\<lambda>cr1.
      io_return \<lparr>ss_base = base, ss_capacity = capacity, ss_events = er1, ss_commands = cr1\<rparr>)))))))"

definition server_publish ::
  "byte list \<Rightarrow> shm_server \<Rightarrow> shm_world \<Rightarrow> ((shm_server \<times> bool) \<times> shm_world) option" where
  "server_publish body srv w =
     map_option (\<lambda>((h, ok), w1). ((srv\<lparr>ss_events := h\<rparr>, ok), w1))
       (write_through (pack_frame body) (ss_events srv) w)"

definition server_frames_dropped :: "shm_server \<Rightarrow> nat \<times> nat" where
  "server_frames_dropped srv = (rh_dropped (ss_events srv), rh_dropped (ss_commands srv))"

text \<open>One turn of the command pump: drain the FIFO, then read.\<close>

definition pump_turn ::
  "(byte list \<Rightarrow> string option) \<Rightarrow> ring_handle \<Rightarrow> shm_world \<Rightarrow>
   ((ring_handle \<times> server_command list) \<times> shm_world) option" where
  "pump_turn ext h w = through (command_pump_poll ext) h (drain_notify h w)"

section \<open>main.rs: the trader's start\<close>

type_synonym env_vars = "(string, string) hmap"

definition env_or :: "string \<Rightarrow> string \<Rightarrow> env_vars \<Rightarrow> string" where
  "env_or d name env = (case hm_get env name of Some v \<Rightarrow> v | None \<Rightarrow> d)"

definition busy_poll :: "env_vars \<Rightarrow> bool" where
  "busy_poll env =
     (case hm_get env ''CORSAIR_TRADER_BUSY_POLL'' of
        Some v \<Rightarrow> v = ''1'' \<or> map to_ascii_uppercase v = ''TRUE''
      | None \<Rightarrow> False)"

text \<open>The waits look at the world once per sleep; the list is what they see.\<close>

definition rings_present :: "string \<Rightarrow> shm_world \<Rightarrow> bool" where
  "rings_present base w \<longleftrightarrow>
     hm_contains (sw_files w) (base @ ''.events'') \<and> hm_contains (sw_files w) (base @ ''.commands'')"

definition wait_for_rings :: "string \<Rightarrow> shm_world list \<Rightarrow> shm_world option" where
  "wait_for_rings base seen = find (rings_present base) seen"

definition fifos_present :: "string \<Rightarrow> shm_world \<Rightarrow> bool" where
  "fifos_present base w \<longleftrightarrow>
     (\<forall>p \<in> {base @ ''.events.notify'', base @ ''.commands.notify''}.
        hm_contains (sw_fifos w) p \<or> hm_contains (sw_files w) p)"

text \<open>At most fifty looks; the trader goes on after the last one whatever it saw.\<close>

fun fifo_wait :: "nat \<Rightarrow> string \<Rightarrow> shm_world \<Rightarrow> shm_world list \<Rightarrow> shm_world" where
  "fifo_wait 0 base w seen = w"
| "fifo_wait (Suc n) base w seen =
     (if fifos_present base w then w
      else (case seen of [] \<Rightarrow> w | w1 # later \<Rightarrow> fifo_wait n base w1 later))"

datatype trader_start =
    ExitCode int
  | StillWaiting
  | StartFailed string
  | BusError
  | Started ring_handle ring_handle bool

definition welcome_wire :: "int \<Rightarrow> wire_map" where
  "welcome_wire now =
     [(''type'', WStr ''welcome''), (''ts_ns'', WInt now), (''trader_version'', WStr ''rust-v1'')]"

definition open_rings :: "io_answers \<Rightarrow> string \<Rightarrow> (ring_handle \<times> ring_handle) shm_io" where
  "open_rings io base =
     io_bind (open_client io (base @ ''.events'') default_ring_capacity) (\<lambda>er.
     io_bind (open_client io (base @ ''.commands'') default_ring_capacity) (\<lambda>cr.
     io_return (er, cr)))"

definition open_fifos :: "io_answers \<Rightarrow> string \<Rightarrow> ring_handle \<times> ring_handle \<Rightarrow> (ring_handle \<times> ring_handle) shm_io" where
  "open_fifos io base rings =
     io_bind (open_notify io (base @ ''.events.notify'') False (fst rings)) (\<lambda>er.
     io_bind (open_notify io (base @ ''.commands.notify'') True (snd rings)) (\<lambda>cr.
     io_return (er, cr)))"

definition send_welcome ::
  "(wire_map \<Rightarrow> byte list) \<Rightarrow> int \<Rightarrow> bool \<Rightarrow> ring_handle \<times> ring_handle \<Rightarrow> shm_world \<Rightarrow> trader_start \<times> shm_world" where
  "send_welcome encode now polling rings w =
     (case write_through (pack_frame (encode (welcome_wire now))) (snd rings) w of
        None \<Rightarrow> (BusError, w)
      | Some ((cr, _), w1) \<Rightarrow> (Started (fst rings) cr polling, w1))"

text \<open>From the start of \<open>main\<close> to its hot loop: \<open>seen\<close> is what the wait for the rings sees, \<open>seen2\<close> what
  the wait for the FIFOs sees afterwards; when a list ends, nothing changes any more.\<close>

definition trader_boot ::
  "io_answers \<Rightarrow> env_vars \<Rightarrow> (wire_map \<Rightarrow> byte list) \<Rightarrow> int \<Rightarrow> shm_world list \<Rightarrow> shm_world list \<Rightarrow>
   shm_world \<Rightarrow> trader_start \<times> shm_world" where
  "trader_boot io env encode now seen seen2 w0 =
     (if env_or ''shm'' ''CORSAIR_IPC_TRANSPORT'' env \<noteq> ''shm'' then (ExitCode 2, w0)
      else
        let base = env_or ''/app/data/corsair_ipc'' ''CORSAIR_IPC_BASE'' env
        in (case wait_for_rings base (w0 # seen) of
              None \<Rightarrow> (StillWaiting, w0)
            | Some w1 \<Rightarrow>
                (case open_rings io base w1 of
                   (Inl e, w2) \<Rightarrow> (StartFailed e, w2)
                 | (Inr rings, w2) \<Rightarrow>
                     (case open_fifos io base rings (fifo_wait 50 base w2 seen2) of
                        (Inl e, w3) \<Rightarrow> (StartFailed e, w3)
                      | (Inr rings1, w3) \<Rightarrow> send_welcome encode now (busy_poll env) rings1 w3))))"

section \<open>Lemmas\<close>

lemmas io_simps = io_bind_def io_return_def sys_call_def io_require_def

lemma file_bytes_store [simp]: "file_bytes p (store_file q body w) = (if p = q then body else file_bytes p w)"
  by (simp add: file_bytes_def store_file_def hm.get_insert)

lemma store_file_frame [simp]: "sw_fifos (store_file p b w) = sw_fifos w" "sw_pipe (store_file p b w) = sw_pipe w"
  by (simp_all add: store_file_def)

lemma file_bytes_fifo [simp]: "file_bytes p (w\<lparr>sw_fifos := x\<rparr>) = file_bytes p w"
  by (simp add: file_bytes_def)

lemma file_bytes_notify [simp]:
  "file_bytes p (notify_ring h w) = file_bytes p w" "file_bytes p (drain_notify h w) = file_bytes p w"
  by (simp_all add: notify_ring_def drain_notify_def split: option.splits)

lemma mapped_notify [simp]: "mapped g (notify_ring h w) = mapped g w" "mapped g (drain_notify h w) = mapped g w"
  by (simp_all add: mapped_def)

lemma create_owner_mmap: "rg_mmap (create_owner cap) = zero_header (resize (hdr_size + cap) [])"
  by (simp add: create_owner_def set_read_def set_write_def zero_header_def resize_def)

lemma create_ring_result:
  assumes "create_ring io path cap w = (Inr h, w1)"
  shows "h = new_handle path cap \<and> file_bytes path w1 = rg_mmap (create_owner cap) \<and>
    (\<forall>p. p \<noteq> path \<longrightarrow> file_bytes p w1 = file_bytes p w) \<and> sw_fifos w1 = sw_fifos w"
  using assms
  by (auto simp: create_ring_def Let_def io_simps create_owner_mmap split: option.splits)

lemma create_notify_result:
  "create_notify_fifo io path w = (Inr u, w1) \<Longrightarrow> \<forall>p. file_bytes p w1 = file_bytes p w"
  by (auto simp: create_notify_fifo_def io_simps split: if_splits option.splits)

lemma open_notify_result:
  "open_notify io path wr h w = (Inr h1, w1) \<Longrightarrow>
   w1 = w \<and> h1 = (if wr then h\<lparr>rh_notify_w := Some path\<rparr> else h\<lparr>rh_notify_r := Some path\<rparr>)"
  by (auto simp: open_notify_def io_simps split: if_splits option.splits)

lemma io_bindE:
  assumes "io_bind m k w = (Inr y, w2)"
  obtains x w1 where "m w = (Inr x, w1)" "k x w1 = (Inr y, w2)"
  using assms by (auto simp: io_bind_def split: prod.splits sum.splits)

text \<open>Whatever was there before, a created server finds two empty rings.\<close>

lemma server_create_result:
  assumes "server_create io base cap w = (Inr srv, w1)"
  shows "file_bytes (base @ ''.events'') w1 = rg_mmap (create_owner cap)"
    "file_bytes (base @ ''.commands'') w1 = rg_mmap (create_owner cap)"
    "ss_events srv = (new_handle (base @ ''.events'') cap)\<lparr>rh_notify_w := Some (base @ ''.events.notify'')\<rparr>"
    "ss_commands srv = (new_handle (base @ ''.commands'') cap)\<lparr>rh_notify_r := Some (base @ ''.commands.notify'')\<rparr>"
proof -
  from assms show "file_bytes (base @ ''.events'') w1 = rg_mmap (create_owner cap)"
    "file_bytes (base @ ''.commands'') w1 = rg_mmap (create_owner cap)"
    "ss_events srv = (new_handle (base @ ''.events'') cap)\<lparr>rh_notify_w := Some (base @ ''.events.notify'')\<rparr>"
    "ss_commands srv = (new_handle (base @ ''.commands'') cap)\<lparr>rh_notify_r := Some (base @ ''.commands.notify'')\<rparr>"
    unfolding server_create_def Let_def
    by (auto elim!: io_bindE simp: io_return_def
        dest!: create_ring_result create_notify_result open_notify_result)
qed

text \<open>When the system refuses nothing, both sides come up.\<close>

lemma io_bind_ok: "m w = (Inr x, w1) \<Longrightarrow> io_bind m k w = k x w1"
  by (simp add: io_bind_def)

lemma create_ring_succeeds:
  "\<exists>w1. create_ring (\<lambda>_. None) path cap w = (Inr (new_handle path cap), w1) \<and> sw_fifos w1 = sw_fifos w \<and>
     (\<forall>p. hm_contains (sw_files w1) p \<longleftrightarrow> p = path \<or> hm_contains (sw_files w) p)"
  by (auto simp: create_ring_def Let_def io_simps store_file_def hm_contains_def hm.get_insert)

lemma create_notify_succeeds:
  "CHR 0x00 \<notin> set path \<Longrightarrow>
   \<exists>w1. create_notify_fifo (\<lambda>_. None) path w = (Inr (), w1) \<and> sw_files w1 = sw_files w \<and>
     (\<forall>p. hm_contains (sw_fifos w1) p \<or> hm_contains (sw_files w) p \<longleftrightarrow>
        p = path \<or> hm_contains (sw_fifos w) p \<or> hm_contains (sw_files w) p)"
  by (auto simp: create_notify_fifo_def io_simps hm_contains_def hm.get_insert)

lemma open_notify_succeeds:
  "hm_contains (sw_fifos w) path \<or> hm_contains (sw_files w) path \<Longrightarrow>
   open_notify (\<lambda>_. None) path wr h w =
     (Inr (if wr then h\<lparr>rh_notify_w := Some path\<rparr> else h\<lparr>rh_notify_r := Some path\<rparr>), w)"
  by (simp add: open_notify_def io_simps)

lemma server_create_succeeds:
  assumes "CHR 0x00 \<notin> set base"
  shows "\<exists>srv w1. server_create (\<lambda>_. None) base cap w = (Inr srv, w1) \<and> rings_present base w1 \<and> fifos_present base w1"
proof -
  let ?e = "base @ ''.events''" and ?c = "base @ ''.commands''"
    and ?en = "base @ ''.events.notify''" and ?cn = "base @ ''.commands.notify''"
  obtain w1 where 1: "create_ring (\<lambda>_. None) ?e cap w = (Inr (new_handle ?e cap), w1)"
    "\<forall>p. hm_contains (sw_files w1) p \<longleftrightarrow> p = ?e \<or> hm_contains (sw_files w) p"
    using create_ring_succeeds by blast
  obtain w2 where 2: "create_ring (\<lambda>_. None) ?c cap w1 = (Inr (new_handle ?c cap), w2)"
    "\<forall>p. hm_contains (sw_files w2) p \<longleftrightarrow> p = ?c \<or> hm_contains (sw_files w1) p"
    using create_ring_succeeds by blast
  obtain w3 where 3: "create_notify_fifo (\<lambda>_. None) ?en w2 = (Inr (), w3)" "sw_files w3 = sw_files w2"
    "\<forall>p. hm_contains (sw_fifos w3) p \<or> hm_contains (sw_files w2) p \<longleftrightarrow>
        p = ?en \<or> hm_contains (sw_fifos w2) p \<or> hm_contains (sw_files w2) p"
    using create_notify_succeeds [of "?en" w2] assms by auto
  obtain w4 where 4: "create_notify_fifo (\<lambda>_. None) ?cn w3 = (Inr (), w4)" "sw_files w4 = sw_files w3"
    "\<forall>p. hm_contains (sw_fifos w4) p \<or> hm_contains (sw_files w3) p \<longleftrightarrow>
        p = ?cn \<or> hm_contains (sw_fifos w3) p \<or> hm_contains (sw_files w3) p"
    using create_notify_succeeds [of "?cn" w3] assms by auto
  have f: "fifos_present base w4" using 3 4 by (auto simp: fifos_present_def)
  have r: "rings_present base w4" using 1(2) 2(2) 3(2) 4(2) by (simp add: rings_present_def)
  have n: "open_notify (\<lambda>_. None) ?en True h w4 = (Inr (h\<lparr>rh_notify_w := Some ?en\<rparr>), w4)"
    "open_notify (\<lambda>_. None) ?cn False h w4 = (Inr (h\<lparr>rh_notify_r := Some ?cn\<rparr>), w4)" for h
    using f by (simp_all add: open_notify_succeeds fifos_present_def)
  show ?thesis
    using f r by (simp add: server_create_def Let_def io_bind_def io_return_def 1(1) 2(1) 3(1) 4(1) n)
qed

section \<open>A handle acts on the bytes of the file\<close>

text \<open>Two rings that differ at most in the counter of dropped frames.\<close>

definition same_bytes :: "ring \<Rightarrow> ring \<Rightarrow> bool" where
  "same_bytes g g' \<longleftrightarrow> rg_mmap g = rg_mmap g' \<and> rg_capacity g = rg_capacity g'"

lemma same_bytes_offsets: "same_bytes g g' \<Longrightarrow> read_offsets g = read_offsets g'"
  by (simp add: same_bytes_def read_offsets_def u64_at_def)

lemma same_bytes_write:
  assumes "same_bytes g g'"
  shows "snd (write_frame f g) = snd (write_frame f g') \<and> same_bytes (fst (write_frame f g)) (fst (write_frame f g'))"
  using assms same_bytes_offsets [OF assms]
  by (auto simp: same_bytes_def write_frame_def write_data_def set_write_def Let_def split: prod.splits)

lemma same_bytes_read:
  assumes "same_bytes g g'"
  shows "snd (read_available g) = snd (read_available g') \<and>
    same_bytes (fst (read_available g)) (fst (read_available g'))"
  using assms same_bytes_offsets [OF assms]
  by (auto simp: same_bytes_def read_available_def read_data_def set_read_def Let_def split: prod.splits)

lemma same_bytes_poll:
  assumes "same_bytes g g'"
  shows "snd (command_pump_poll ext g) = snd (command_pump_poll ext g') \<and>
    same_bytes (fst (command_pump_poll ext g)) (fst (command_pump_poll ext g'))"
  using same_bytes_read [OF assms]
  by (auto simp: command_pump_poll_def split: prod.splits sum.splits)

definition sized :: "ring \<Rightarrow> bool" where
  "sized g \<longleftrightarrow> 0 < rg_capacity g \<and> length (rg_mmap g) = hdr_size + rg_capacity g"

lemma sized_write: "sized g \<Longrightarrow> sized (fst (write_frame f g)) \<and> rg_capacity (fst (write_frame f g)) = rg_capacity g"
proof -
  assume s: "sized g"
  have "length (rg_mmap (set_write v (write_data (unat w mod rg_capacity g) f g))) = hdr_size + rg_capacity g"
    if "\<not> rg_capacity g div 2 < length f" for v w :: "64 word"
  proof -
    have "length (rg_mmap (write_data (unat w mod rg_capacity g) f g)) = hdr_size + rg_capacity g"
      using length_write_data [of g "unat w mod rg_capacity g" f] s that by (simp add: sized_def)
    then show ?thesis using length_set_offsets(1) [of "write_data (unat w mod rg_capacity g) f g" v] by simp
  qed
  then show ?thesis using s by (auto simp: sized_def write_frame_def Let_def split: prod.splits)
qed

lemma sized_poll:
  "sized g \<Longrightarrow> sized (fst (command_pump_poll ext g)) \<and> rg_capacity (fst (command_pump_poll ext g)) = rg_capacity g"
  by (auto simp: sized_def command_pump_poll_def read_available_def Let_def split: prod.splits sum.splits if_splits)

text \<open>A handle whose file holds a whole ring, and an operation that keeps its size.\<close>

definition holds :: "ring_handle \<Rightarrow> shm_world \<Rightarrow> ring \<Rightarrow> bool" where
  "holds h w g \<longleftrightarrow> sized g \<and> rh_capacity h = rg_capacity g \<and> file_bytes (rh_path h) w = rg_mmap g"

lemma through_holds:
  assumes "holds h w g0" "\<And>g. same_bytes g g0 \<Longrightarrow> snd (f g) = snd (f g0) \<and> same_bytes (fst (f g)) (fst (f g0))"
    and "sized (fst (f g0)) \<and> rg_capacity (fst (f g0)) = rg_capacity g0"
  shows "\<exists>d. through f h w =
    Some ((h\<lparr>rh_dropped := d\<rparr>, snd (f g0)), store_file (rh_path h) (rg_mmap (fst (f g0))) w)"
proof -
  let ?g = "\<lparr>rg_mmap = rg_mmap g0, rg_capacity = rg_capacity g0, rg_frames_dropped = rh_dropped h\<rparr>"
  have m: "mapped h w = Some ?g" using assms(1) by (simp add: mapped_def holds_def sized_def Let_def)
  obtain g1 x where f: "f ?g = (g1, x)" by fastforce
  have "same_bytes ?g g0" by (simp add: same_bytes_def)
  from assms(2) [OF this] f have "x = snd (f g0)" "rg_mmap g1 = rg_mmap (fst (f g0))"
    by (simp_all add: same_bytes_def)
  then show ?thesis
    using m f assms(1) by (auto simp: through_def holds_def sized_def)
qed

lemma write_through_holds:
  assumes "holds h w g0" "rh_path h' = rh_path h" "rh_capacity h' = rh_capacity h"
  shows "\<exists>d w1. write_through frame h w = Some ((h\<lparr>rh_dropped := d\<rparr>, snd (write_frame frame g0)), w1) \<and>
    holds h' w1 (fst (write_frame frame g0))"
proof -
  have s: "sized g0" using assms(1) by (simp add: holds_def)
  from through_holds [where f = "write_frame frame", OF assms(1) same_bytes_write sized_write [OF s]] obtain d where
    "through (write_frame frame) h w = Some ((h\<lparr>rh_dropped := d\<rparr>, snd (write_frame frame g0)),
       store_file (rh_path h) (rg_mmap (fst (write_frame frame g0))) w)" by blast
  then show ?thesis
    using assms sized_write [OF s, of frame] by (auto simp: write_through_def holds_def)
qed

lemma pump_turn_holds:
  assumes "holds h w g0" "rh_path h' = rh_path h" "rh_capacity h' = rh_capacity h"
  shows "\<exists>d w1. pump_turn ext h w = Some ((h\<lparr>rh_dropped := d\<rparr>, snd (command_pump_poll ext g0)), w1) \<and>
    holds h' w1 (fst (command_pump_poll ext g0))"
proof -
  have s: "sized g0" and h: "holds h (drain_notify h w) g0" using assms(1) by (simp_all add: holds_def)
  from through_holds [where f = "command_pump_poll ext", OF h same_bytes_poll sized_poll [OF s]] obtain d where
    "through (command_pump_poll ext) h (drain_notify h w) = Some ((h\<lparr>rh_dropped := d\<rparr>, snd (command_pump_poll ext g0)),
       store_file (rh_path h) (rg_mmap (fst (command_pump_poll ext g0))) (drain_notify h w))" by blast
  then show ?thesis
    using assms sized_poll [OF s, of ext] by (auto simp: pump_turn_def holds_def)
qed

section \<open>A restart of the daemon\<close>

text \<open>The trader writing commands through its handle and the daemon's pump, interleaved.\<close>

fun link_run ::
  "(byte list \<Rightarrow> string option) \<Rightarrow> ipc_event list \<Rightarrow> ring_handle \<times> ring_handle \<Rightarrow> shm_world \<Rightarrow>
   ((ring_handle \<times> ring_handle) \<times> byte list list \<times> byte list list \<times> shm_world) option" where
  "link_run ext [] hs w = Some (hs, [], [], w)"
| "link_run ext (Publish b # es) hs w =
     (case write_through (pack_frame b) (fst hs) w of
        None \<Rightarrow> None
      | Some ((h, acc), w1) \<Rightarrow>
          map_option (\<lambda>(hs1, accepted, delivered, w2). (hs1, if acc then b # accepted else accepted, delivered, w2))
            (link_run ext es (h, snd hs) w1))"
| "link_run ext (Poll # es) hs w =
     (case pump_turn ext (snd hs) w of
        None \<Rightarrow> None
      | Some ((h, cmds), w1) \<Rightarrow>
          map_option (\<lambda>(hs1, accepted, delivered, w2). (hs1, accepted, map sc_body cmds @ delivered, w2))
            (link_run ext es (fst hs, h) w1))"

lemma link_run_holds:
  assumes "holds (snd hs) w g" "rh_path (fst hs) = rh_path (snd hs)" "rh_capacity (fst hs) = rh_capacity (snd hs)"
    and "ipc_run ext es g = (g1, accepted, delivered)"
  shows "\<exists>hs1 w1. link_run ext es hs w = Some (hs1, accepted, delivered, w1) \<and> holds (snd hs1) w1 g1"
  using assms
proof (induction es arbitrary: hs w g accepted delivered)
  case Nil
  then show ?case by simp
next
  case (Cons e es)
  show ?case
  proof (cases e)
    case (Publish b)
    obtain g2 acc where p: "shm_publish b g = (g2, acc)" by fastforce
    obtain a2 d2 where r: "ipc_run ext es g2 = (g1, a2, d2)" "delivered = d2"
      "accepted = (if acc then b # a2 else a2)"
      using Cons.prems(4) by (auto simp: Publish p split: prod.splits)
    have "holds (fst hs) w g" using Cons.prems by (simp add: holds_def)
    from write_through_holds [OF this, of "snd hs" "pack_frame b"] Cons.prems p obtain d w2 where
      w: "write_through (pack_frame b) (fst hs) w = Some (((fst hs)\<lparr>rh_dropped := d\<rparr>, acc), w2)" "holds (snd hs) w2 g2"
      by (auto simp: shm_publish_def)
    from Cons.IH [of "((fst hs)\<lparr>rh_dropped := d\<rparr>, snd hs)" w2 g2 a2 d2] w(2) r(1) Cons.prems(2,3)
    show ?thesis using w(1) r by (auto simp: Publish)
  next
    case Poll
    obtain g2 cmds where p: "command_pump_poll ext g = (g2, cmds)" by fastforce
    obtain a2 d2 where r: "ipc_run ext es g2 = (g1, a2, d2)" "accepted = a2" "delivered = map sc_body cmds @ d2"
      using Cons.prems(4) by (auto simp: Poll p split: prod.splits)
    from pump_turn_holds [OF Cons.prems(1), of "snd hs" ext] p obtain d w2 where
      w: "pump_turn ext (snd hs) w = Some (((snd hs)\<lparr>rh_dropped := d\<rparr>, cmds), w2)" "holds (snd hs) w2 g2"
      by auto
    have "holds ((snd hs)\<lparr>rh_dropped := d\<rparr>) w2 g2" using w(2) by (simp add: holds_def)
    from Cons.IH [of "(fst hs, (snd hs)\<lparr>rh_dropped := d\<rparr>)" w2 g2 a2 d2] this r(1) Cons.prems(2,3)
    show ?thesis using w(1) r by (auto simp: Poll)
  qed
qed

lemma fresh_commands_ring:
  assumes "server_create io base cap w = (Inr srv, w1)" "0 < cap"
  shows "holds (ss_commands srv) w1 (create_owner cap)"
proof -
  have "length (rg_mmap (create_owner cap)) = hdr_size + cap" "rg_capacity (create_owner cap) = cap"
    by (simp_all add: create_owner_def hdr_size_def set_write_def set_read_def)
  then show ?thesis
    using server_create_result(2,4) [OF assms(1)] assms(2) by (simp add: holds_def sized_def new_handle_def)
qed

text \<open>The commands that fit: a frame of at most half the ring that has room beside what is unread.\<close>

fun fitting :: "nat \<Rightarrow> nat \<Rightarrow> ipc_event list \<Rightarrow> byte list list" where
  "fitting cap unread [] = []"
| "fitting cap unread (Publish b # es) =
     (if 4 + length b \<le> cap div 2 \<and> unread + (4 + length b) \<le> cap
      then b # fitting cap (unread + (4 + length b)) es
      else fitting cap unread es)"
| "fitting cap unread (Poll # es) = fitting cap 0 es"

lemma write_frame_capacity: "rg_capacity (fst (write_frame f g)) = rg_capacity g"
  by (auto simp: write_frame_def Let_def split: prod.splits)

lemma poll_ring: "fst (command_pump_poll ext g) = fst (read_available g)"
  by (auto simp: command_pump_poll_def Let_def split: prod.splits sum.splits)

lemma ipc_run_accepts:
  "ring_ok g \<Longrightarrow> written g + traffic es < 2 ^ 64 \<Longrightarrow> ipc_run ext es g = (g', accepted, delivered) \<Longrightarrow>
   accepted = fitting (rg_capacity g) (length (queued g)) es"
proof (induction es arbitrary: g accepted delivered)
  case (Cons e es)
  show ?case
  proof (cases e)
    case (Publish b)
    obtain g1 acc where p: "shm_publish b g = (g1, acc)" by fastforce
    obtain a1 d1 where r: "ipc_run ext es g1 = (g', a1, d1)" and ad: "accepted = (if acc then b # a1 else a1)"
      using Cons.prems(3) by (auto simp: Publish p split: prod.splits)
    have t: "traffic (e # es) = 4 + length b + traffic es" by (simp add: traffic_def Publish)
    have len: "length (pack_frame b) = 4 + length b" by (simp add: pack_frame_def)
    have nw: "written g + length (pack_frame b) < 2 ^ 64" using Cons.prems(2) t len by linarith
    have g1: "write_frame (pack_frame b) g = (g1, acc)" using p by (simp add: shm_publish_def)
    note q = write_frame_queue [OF Cons.prems(1) nw, unfolded Let_def g1 fst_conv snd_conv len]
    have c: "rg_capacity g1 = rg_capacity g" using write_frame_capacity [of "pack_frame b" g] g1 by simp
    have "written g1 + traffic es < 2 ^ 64" using q t Cons.prems(2) by (simp split: if_splits)
    then show ?thesis
      using Cons.IH [OF _ _ r] q c ad by (auto simp: Publish len)
  next
    case Poll
    obtain g1 cmds where p: "command_pump_poll ext g = (g1, cmds)" by fastforce
    obtain a1 d1 where r: "ipc_run ext es g1 = (g', a1, d1)" "accepted = a1"
      using Cons.prems(3) by (auto simp: Poll p split: prod.splits)
    have "g1 = fst (read_available g)" using poll_ring [of ext g] p by simp
    then have q: "ring_ok g1" "queued g1 = []" "written g1 = written g" "rg_capacity g1 = rg_capacity g"
      using read_available_queue [OF Cons.prems(1)] by simp_all
    then show ?thesis
      using Cons.IH [OF q(1) _ r(1)] Cons.prems(2) r(2) by (simp add: Poll traffic_def)
  qed
qed simp

text \<open>C22. A restart of the daemon does not cut off a running trader: whatever the shared files hold,
  after the daemon has created its rings again, every command that the trader sends through the
  mapping it has kept and that fits the ring is accepted and arrives, in order and once, with
  one more poll at the end. A command fits unless its frame is longer than half the ring or than
  the space beside the commands not yet polled; only those are refused.\<close>

theorem restart_keeps_trader:
  assumes "server_create io base cap w = (Inr srv, w1)" "0 < cap" "cap \<le> 8 * 1024 * 1024" "traffic es < 2 ^ 64"
    and "rh_path h = base @ ''.commands''" "rh_capacity h = cap"
  shows "\<exists>h2 sh accepted delivered w2 sh2 cmds w3.
    link_run ext es (h, ss_commands srv) w1 = Some ((h2, sh), accepted, delivered, w2) \<and>
    pump_turn ext sh w2 = Some ((sh2, cmds), w3) \<and> delivered @ map sc_body cmds = accepted \<and>
    accepted = fitting cap 0 es"
proof -
  obtain g accepted delivered where r: "ipc_run ext es (create_owner cap) = (g, accepted, delivered)"
    by (metis prod.collapse)
  have p: "rh_path (ss_commands srv) = base @ ''.commands''" "rh_capacity (ss_commands srv) = cap"
    using server_create_result(4) [OF assms(1)] by (simp_all add: new_handle_def)
  from link_run_holds [of "(h, ss_commands srv)" w1, OF _ _ _ r] fresh_commands_ring [OF assms(1,2)] p assms(5,6)
  obtain h2 sh w2 where l: "link_run ext es (h, ss_commands srv) w1 = Some ((h2, sh), accepted, delivered, w2)"
    "holds sh w2 g" by fastforce
  from pump_turn_holds [OF l(2) refl refl] obtain d w3 where
    t: "pump_turn ext sh w2 = Some ((sh\<lparr>rh_dropped := d\<rparr>, snd (command_pump_poll ext g)), w3)" by blast
  have c: "cap < 2 ^ 64" "rg_capacity (create_owner cap) div 2 \<le> max_frame_bytes"
    using assms(2,3) by (simp_all add: create_owner_ok max_frame_bytes_def)
  have "written (create_owner cap) + traffic es < 2 ^ 64"
    using assms(4) create_owner_ok(3) [OF assms(2) c(1)] by simp
  from ipc_run_order [OF create_owner_pending [OF assms(2) c(1)] this c(2) r]
  obtain rest where q: "delivered @ rest = accepted" "shm_frames.pending g rest" by auto
  have "delivered @ map sc_body (snd (command_pump_poll ext g)) = accepted"
    using q poll_delivers [OF q(2), of ext] by simp
  moreover have "accepted = fitting cap 0 es"
    using ipc_run_accepts [OF create_owner_ok(1) [OF assms(2) c(1)] _ r] assms(4) create_owner_ok [OF assms(2) c(1)]
    by simp
  ultimately show ?thesis using l(1) t by blast
qed

lemma restart_keeps_trader_witness:
  "\<exists>srv w1 h2 sh accepted delivered w2 sh2 cmds w3.
    server_create (\<lambda>_. None) ''/ipc'' 64 \<lparr>sw_files = hm_new, sw_fifos = hm_new, sw_pipe = 65536\<rparr> = (Inr srv, w1) \<and>
    link_run (\<lambda>_. None) [Publish [1, 2], Publish (replicate 40 0), Publish [3]]
      ((new_handle ''/ipc.commands'' 64)\<lparr>rh_dropped := 7\<rparr>, ss_commands srv) w1 = Some ((h2, sh), accepted, delivered, w2) \<and>
    pump_turn (\<lambda>_. None) sh w2 = Some ((sh2, cmds), w3) \<and> delivered @ map sc_body cmds = [[1, 2], [3]] \<and>
    accepted = [[1, 2], [3]]"
proof -
  let ?w = "\<lparr>sw_files = hm_new, sw_fifos = hm_new, sw_pipe = 65536\<rparr>"
  obtain srv w1 where c: "server_create (\<lambda>_. None) ''/ipc'' 64 ?w = (Inr srv, w1)"
    using server_create_succeeds [of "''/ipc''" 64 ?w] by auto
  have f: "fitting 64 0 [Publish [1, 2], Publish (replicate 40 0), Publish [3]] = [[1, 2], [3]]" by simp
  have t: "traffic [Publish [1, 2], Publish (replicate 40 0), Publish [3]] < 2 ^ 64" by (simp add: traffic_def)
  have h: "rh_path ((new_handle ''/ipc.commands'' 64)\<lparr>rh_dropped := 7\<rparr>) = ''/ipc'' @ ''.commands''"
    "rh_capacity ((new_handle ''/ipc.commands'' 64)\<lparr>rh_dropped := 7\<rparr>) = 64"
    by (simp_all add: new_handle_def)
  obtain h2 sh accepted delivered w2 sh2 cmds w3 where
    "link_run (\<lambda>_. None) [Publish [1, 2], Publish (replicate 40 0), Publish [3]]
      ((new_handle ''/ipc.commands'' 64)\<lparr>rh_dropped := 7\<rparr>, ss_commands srv) w1 = Some ((h2, sh), accepted, delivered, w2)"
    "pump_turn (\<lambda>_. None) sh w2 = Some ((sh2, cmds), w3)" "delivered @ map sc_body cmds = accepted"
    "accepted = fitting 64 0 [Publish [1, 2], Publish (replicate 40 0), Publish [3]]"
    using restart_keeps_trader [OF c _ _ t h, of "\<lambda>_. None"] by auto
  with c f show ?thesis by metis
qed

section \<open>The first start\<close>

text \<open>In a world without refusals the trader that starts after the daemon maps the rings, and its
  welcome is the first command the daemon receives.\<close>

lemma fresh_ring_takes_frame:
  assumes "0 < cap" "cap \<le> 8 * 1024 * 1024" "4 + length b \<le> cap div 2"
  shows "map sc_body (snd (command_pump_poll ext (fst (write_frame (pack_frame b) (create_owner cap))))) = [b]"
proof -
  have c: "cap < 2 ^ 64" using assms(2) by simp
  note ok = create_owner_ok [OF assms(1) c]
  have len: "length (pack_frame b) = 4 + length b" by (simp add: pack_frame_def)
  have nw: "written (create_owner cap) + (4 + length b) < 2 ^ 64" using ok assms by simp
  have "snd (shm_publish b (create_owner cap))"
    using write_frame_queue [OF ok(1), of "pack_frame b"] nw ok assms(3) by (simp add: shm_publish_def Let_def len)
  with publish_accepts [OF create_owner_pending [OF assms(1) c] nw] ok assms(2)
  have "shm_frames.pending (fst (shm_publish b (create_owner cap))) [b]"
    by (simp add: max_frame_bytes_def)
  from poll_delivers [OF this, of ext] show ?thesis by (simp add: shm_publish_def)
qed

lemma trader_boot_started:
  assumes "rings_present base w" "fifos_present base w"
    and "hm_get env ''CORSAIR_IPC_TRANSPORT'' = None" "hm_get env ''CORSAIR_IPC_BASE'' = Some base"
  shows "trader_boot (\<lambda>_. None) env encode now [] [] w =
    send_welcome encode now (busy_poll env)
      ((new_handle (base @ ''.events'') default_ring_capacity)\<lparr>rh_notify_r := Some (base @ ''.events.notify'')\<rparr>,
       (new_handle (base @ ''.commands'') default_ring_capacity)\<lparr>rh_notify_w := Some (base @ ''.commands.notify'')\<rparr>) w"
proof -
  have "open_rings (\<lambda>_. None) base w =
      (Inr (new_handle (base @ ''.events'') default_ring_capacity,
            new_handle (base @ ''.commands'') default_ring_capacity), w)"
    using assms(1) by (simp add: open_rings_def open_client_def io_simps rings_present_def)
  moreover have "open_fifos (\<lambda>_. None) base (er, cr) w =
      (Inr (er\<lparr>rh_notify_r := Some (base @ ''.events.notify'')\<rparr>, cr\<lparr>rh_notify_w := Some (base @ ''.commands.notify'')\<rparr>), w)"
    for er cr using assms(2) by (simp add: open_fifos_def open_notify_def io_simps fifos_present_def)
  moreover have "fifo_wait 50 base w [] = w" by (simp add: numeral_eq_Suc)
  ultimately show ?thesis
    using assms by (simp add: trader_boot_def env_or_def wait_for_rings_def)
qed

theorem welcome_is_first_command:
  assumes "CHR 0x00 \<notin> set base" "length (encode (welcome_wire now)) \<le> 500000"
    and "hm_get env ''CORSAIR_IPC_TRANSPORT'' = None" "hm_get env ''CORSAIR_IPC_BASE'' = Some base"
  shows "\<exists>srv w1 er cr w2 h cmds w3.
    server_create (\<lambda>_. None) base default_ring_capacity w = (Inr srv, w1) \<and>
    trader_boot (\<lambda>_. None) env encode now [] [] w1 = (Started er cr (busy_poll env), w2) \<and>
    pump_turn ext (ss_commands srv) w2 = Some ((h, cmds), w3) \<and>
    map sc_body cmds = [encode (welcome_wire now)]"
proof -
  let ?cap = default_ring_capacity and ?f = "pack_frame (encode (welcome_wire now))"
  obtain srv w1 where s: "server_create (\<lambda>_. None) base ?cap w = (Inr srv, w1)"
    "rings_present base w1" "fifos_present base w1"
    using server_create_succeeds [OF assms(1)] by blast
  let ?cr = "(new_handle (base @ ''.commands'') ?cap)\<lparr>rh_notify_w := Some (base @ ''.commands.notify'')\<rparr>"
  have c: "0 < ?cap" "?cap \<le> 8 * 1024 * 1024" by (simp_all add: default_ring_capacity_def)
  note p = server_create_result(4) [OF s(1)]
  have "holds ?cr w1 (create_owner ?cap)"
    using fresh_commands_ring [OF s(1) c(1)] p by (simp add: holds_def new_handle_def)
  from write_through_holds [OF this, of "ss_commands srv" ?f] p obtain d ok w2 where
    w: "write_through ?f ?cr w1 = Some ((?cr\<lparr>rh_dropped := d\<rparr>, ok), w2)"
    "holds (ss_commands srv) w2 (fst (write_frame ?f (create_owner ?cap)))"
    by (auto simp: new_handle_def)
  from pump_turn_holds [OF w(2) refl refl, of ext] obtain h w3 where
    t: "pump_turn ext (ss_commands srv) w2 =
      Some ((h, snd (command_pump_poll ext (fst (write_frame ?f (create_owner ?cap))))), w3)" by blast
  have "4 + length (encode (welcome_wire now)) \<le> ?cap div 2" using assms(2) by (simp add: default_ring_capacity_def)
  from fresh_ring_takes_frame [OF c this, of ext] t w(1) s
    trader_boot_started [OF s(2,3) assms(3,4), of encode now]
  show ?thesis by (auto simp: send_welcome_def)
qed

theorem welcome_is_first_command_witness:
  "\<exists>srv w1 er cr w2 h cmds w3.
    server_create (\<lambda>_. None) ''/ipc'' default_ring_capacity \<lparr>sw_files = hm_new, sw_fifos = hm_new, sw_pipe = 1\<rparr> = (Inr srv, w1) \<and>
    trader_boot (\<lambda>_. None) (hm_insert ''CORSAIR_IPC_BASE'' ''/ipc'' hm_new) (\<lambda>_. [1, 2, 3]) 0 [] [] w1 =
      (Started er cr False, w2) \<and>
    pump_turn (\<lambda>_. None) (ss_commands srv) w2 = Some ((h, cmds), w3) \<and> map sc_body cmds = [[1, 2, 3]]"
  using welcome_is_first_command [of "''/ipc''" "\<lambda>_. [1, 2, 3]" 0 "hm_insert ''CORSAIR_IPC_BASE'' ''/ipc'' hm_new"]
  by (simp add: busy_poll_def hm_simps)

end
