(* ===== verification/Shm_Wakeup.thy ===== *)
theory Shm_Wakeup
  imports Shm_Boot
begin

text \<open>
  The wake-up of the reader of a ring, one step of either process at a time. A writer stores a frame
  and then puts a byte into the FIFO (\<open>Ring::write_frame\<close>); a reader reads the ring, empties the FIFO
  and sleeps until the FIFO has a byte or its timer ends. The event loop of the trader reads first
  and empties afterwards (\<open>main.rs\<close>), the command pump of the daemon the other way round
  (\<open>server.rs\<close>). A store is one step because the write offset is published last. How the async
  runtime notices a byte is not part of it: a byte may wake the reader at any time after it arrived.
\<close>

section \<open>The steps\<close>

datatype sender_at = SenderIdle | SenderStored

datatype reader_at = ReadNext | DrainNext | Waiting

datatype reader_order = ReadThenDrain | DrainThenRead

record wake_state =
  wk_ring :: ring
  wk_fifo :: nat
  wk_sender :: sender_at
  wk_reader :: reader_at

fun after_read :: "reader_order \<Rightarrow> byte list \<Rightarrow> reader_at" where
  "after_read ReadThenDrain chunk = (if chunk = [] then DrainNext else ReadNext)"
| "after_read DrainThenRead chunk = Waiting"

fun after_drain :: "reader_order \<Rightarrow> reader_at" where
  "after_drain ReadThenDrain = Waiting"
| "after_drain DrainThenRead = ReadNext"

fun after_wait :: "reader_order \<Rightarrow> reader_at" where
  "after_wait ReadThenDrain = ReadNext"
| "after_wait DrainThenRead = DrainNext"

definition wake_init :: "nat \<Rightarrow> reader_order \<Rightarrow> wake_state" where
  "wake_init cap ord = \<lparr>wk_ring = create_owner cap, wk_fifo = 0, wk_sender = SenderIdle, wk_reader = after_wait ord\<rparr>"

inductive wake_step :: "nat \<Rightarrow> reader_order \<Rightarrow> wake_state \<Rightarrow> wake_state \<Rightarrow> bool" for pipe ord where
  Store: "wk_sender s = SenderIdle \<Longrightarrow> written (wk_ring s) + length f < 2 ^ 64 \<Longrightarrow>
    write_frame f (wk_ring s) = (g, ok) \<Longrightarrow>
    wake_step pipe ord s (s\<lparr>wk_ring := g, wk_sender := (if ok then SenderStored else SenderIdle)\<rparr>)"
| Notify: "wk_sender s = SenderStored \<Longrightarrow>
    wake_step pipe ord s (s\<lparr>wk_fifo := min pipe (wk_fifo s + 1), wk_sender := SenderIdle\<rparr>)"
| ReadStep: "wk_reader s = ReadNext \<Longrightarrow> read_available (wk_ring s) = (g, chunk) \<Longrightarrow>
    wake_step pipe ord s (s\<lparr>wk_ring := g, wk_reader := after_read ord chunk\<rparr>)"
| DrainStep: "wk_reader s = DrainNext \<Longrightarrow>
    wake_step pipe ord s (s\<lparr>wk_fifo := 0, wk_reader := after_drain ord\<rparr>)"
| Wake: "wk_reader s = Waiting \<Longrightarrow> 0 < wk_fifo s \<Longrightarrow>
    wake_step pipe ord s (s\<lparr>wk_reader := after_wait ord\<rparr>)"
| Timeout: "wk_reader s = Waiting \<Longrightarrow>
    wake_step pipe ord s (s\<lparr>wk_reader := after_wait ord\<rparr>)"

definition wake_reach :: "nat \<Rightarrow> reader_order \<Rightarrow> nat \<Rightarrow> wake_state \<Rightarrow> bool" where
  "wake_reach pipe ord cap s \<longleftrightarrow> (wake_step pipe ord)\<^sup>*\<^sup>* (wake_init cap ord) s"

text \<open>Bytes are unread, the writer is done, and nothing but the timer will wake the reader.\<close>

definition overslept :: "wake_state \<Rightarrow> bool" where
  "overslept s \<longleftrightarrow>
     queued (wk_ring s) \<noteq> [] \<and> wk_sender s = SenderIdle \<and> wk_reader s = Waiting \<and> wk_fifo s = 0"

section \<open>The invariant\<close>

definition wake_ok :: "reader_order \<Rightarrow> wake_state \<Rightarrow> bool" where
  "wake_ok ord s \<longleftrightarrow> ring_ok (wk_ring s) \<and> (ord = DrainThenRead \<longrightarrow> \<not> overslept s)"

lemma wake_init_ok: "0 < cap \<Longrightarrow> cap < 2 ^ 64 \<Longrightarrow> wake_ok ord (wake_init cap ord)"
  by (simp add: wake_ok_def wake_init_def create_owner_ok overslept_def)

lemma wake_step_ok:
  assumes "wake_step pipe ord s t" "0 < pipe" "wake_ok ord s"
  shows "wake_ok ord t"
  using assms
proof (induction rule: wake_step.induct)
  case (Store s f g ok)
  have q: "ring_ok g" "\<not> ok \<Longrightarrow> queued g = queued (wk_ring s)"
    using write_frame_queue [of "wk_ring s" f] Store by (auto simp: wake_ok_def Let_def)
  then show ?case using Store by (auto simp: wake_ok_def overslept_def)
next
  case (Notify s)
  then show ?case by (auto simp: wake_ok_def overslept_def)
next
  case (ReadStep s g chunk)
  have "ring_ok g" "queued g = []"
    using read_available_queue [of "wk_ring s"] ReadStep by (simp_all add: wake_ok_def)
  then show ?case by (simp add: wake_ok_def overslept_def)
next
  case (DrainStep s)
  then show ?case by (simp add: wake_ok_def overslept_def)
next
  case (Wake s)
  then show ?case by (cases ord) (simp_all add: wake_ok_def overslept_def)
next
  case (Timeout s)
  then show ?case by (cases ord) (simp_all add: wake_ok_def overslept_def)
qed

lemma wake_reach_ok:
  assumes "wake_reach pipe ord cap s" "0 < pipe" "0 < cap" "cap < 2 ^ 64"
  shows "wake_ok ord s"
  using assms(1) unfolding wake_reach_def
  by (induction rule: rtranclp_induct) (use assms wake_init_ok wake_step_ok in blast)+

section \<open>Properties\<close>

text \<open>The order of the command pump never oversleeps: in every state of every interleaving, as long as
  bytes are unread the writer is still to notify, or the FIFO holds a byte, or the reader is awake.\<close>

theorem drain_first_never_oversleeps:
  assumes "wake_reach pipe DrainThenRead cap s" "0 < pipe" "0 < cap" "cap < 2 ^ 64"
  shows "queued (wk_ring s) = [] \<or> wk_sender s = SenderStored \<or> 0 < wk_fifo s \<or> wk_reader s \<noteq> Waiting"
  using wake_reach_ok [OF assms] by (cases "wk_sender s") (auto simp: wake_ok_def overslept_def)

text \<open>The frame that the examples below send.\<close>

lemma demo_store:
  "written (create_owner 64) + length [1, 2, 3 :: byte] < 2 ^ 64"
  "\<exists>g. write_frame [1, 2, 3] (create_owner 64) = (g, True) \<and> queued g = [1, 2, 3]"
proof -
  have a: "ring_ok (create_owner 64)" "written (create_owner 64) = 0" "queued (create_owner 64) = []"
    "rg_capacity (create_owner 64) = 64"
    using create_owner_ok [of 64] by simp_all
  show w: "written (create_owner 64) + length [1, 2, 3 :: byte] < 2 ^ 64" using a by simp
  show "\<exists>g. write_frame [1, 2, 3] (create_owner 64) = (g, True) \<and> queued g = [1, 2, 3]"
    using write_frame_queue [OF a(1) w] a by (cases "write_frame [1, 2, 3] (create_owner 64)") simp
qed

theorem drain_first_never_oversleeps_witness:
  "\<exists>g. queued g = [1, 2, 3] \<and>
     wake_reach 1 DrainThenRead 64
       \<lparr>wk_ring = g, wk_fifo = 0, wk_sender = SenderStored, wk_reader = DrainNext\<rparr> \<and>
     (queued g = [] \<or> SenderStored = SenderStored \<or> 0 < (0 :: nat) \<or> DrainNext \<noteq> Waiting)"
proof -
  obtain g where g: "write_frame [1, 2, 3] (create_owner 64) = (g, True)" "queued g = [1, 2, 3]"
    using demo_store(2) by blast
  have r: "wake_reach 1 DrainThenRead 64
      \<lparr>wk_ring = g, wk_fifo = 0, wk_sender = SenderStored, wk_reader = DrainNext\<rparr>"
    using wake_step.Store [of "wake_init 64 DrainThenRead" "[1, 2, 3]" g True 1 DrainThenRead] g demo_store(1)
    by (simp add: wake_reach_def wake_init_def r_into_rtranclp)
  with drain_first_never_oversleeps [OF r] g show ?thesis by auto
qed

text \<open>The order of the trader does: a frame stored and announced between its empty read and its
  emptying of the FIFO stays unread while the trader sleeps with an empty FIFO.\<close>

theorem read_first_can_oversleep: "\<exists>s. wake_reach 65536 ReadThenDrain 64 s \<and> overslept s"
proof -
  obtain g where g: "write_frame [1, 2, 3] (create_owner 64) = (g, True)" "queued g = [1, 2, 3]"
    using demo_store(2) by blast
  have e: "read_available (create_owner 64) = (create_owner 64, [])"
  proof -
    have "read_offsets (create_owner 64) = (0, 0)"
      unfolding create_owner_def by (simp add: offsets_set_read offsets_set_write)
    then show ?thesis by (simp add: read_available_def)
  qed
  let ?s = "\<lambda>r f w p. \<lparr>wk_ring = r, wk_fifo = f, wk_sender = w, wk_reader = p\<rparr>"
  let ?R = "wake_step 65536 ReadThenDrain"
  have 1: "?R (wake_init 64 ReadThenDrain) (?s (create_owner 64) 0 SenderIdle DrainNext)"
    using wake_step.ReadStep [of "wake_init 64 ReadThenDrain" "create_owner 64" "[]" 65536 ReadThenDrain] e by (simp add: wake_init_def)
  have 2: "?R (?s (create_owner 64) 0 SenderIdle DrainNext) (?s g 0 SenderStored DrainNext)"
    using wake_step.Store [of "?s (create_owner 64) 0 SenderIdle DrainNext" "[1, 2, 3]" g True 65536 ReadThenDrain] g demo_store(1)
    by simp
  have 3: "?R (?s g 0 SenderStored DrainNext) (?s g 1 SenderIdle DrainNext)"
    using wake_step.Notify [of "?s g 0 SenderStored DrainNext" 65536 ReadThenDrain] by simp
  have 4: "?R (?s g 1 SenderIdle DrainNext) (?s g 0 SenderIdle Waiting)"
    using wake_step.DrainStep [of "?s g 1 SenderIdle DrainNext" 65536 ReadThenDrain] by simp
  have "?R\<^sup>*\<^sup>* (wake_init 64 ReadThenDrain) (?s g 0 SenderIdle Waiting)"
    using 1 2 3 4 by (meson rtranclp.rtrancl_into_rtrancl rtranclp.rtrancl_refl)
  then show ?thesis
    using g(2) by (intro exI [of _ "?s g 0 SenderIdle Waiting"]) (simp add: wake_reach_def overslept_def)
qed

text \<open>The timer bounds the delay: from every state in which the reader waits, the end of the timer leads
  to a read that takes everything unread.\<close>

theorem timer_ends_every_sleep:
  assumes "wake_reach pipe ReadThenDrain cap s" "0 < pipe" "0 < cap" "cap < 2 ^ 64" "wk_reader s = Waiting"
  shows "\<exists>g. wake_step pipe ReadThenDrain s (s\<lparr>wk_reader := ReadNext\<rparr>) \<and>
    read_available (wk_ring s) = (g, queued (wk_ring s)) \<and> queued g = [] \<and>
    wake_step pipe ReadThenDrain (s\<lparr>wk_reader := ReadNext\<rparr>)
      (s\<lparr>wk_ring := g, wk_reader := after_read ReadThenDrain (queued (wk_ring s))\<rparr>)"
proof -
  obtain g chunk where r: "read_available (wk_ring s) = (g, chunk)" by fastforce
  have q: "chunk = queued (wk_ring s)" "queued g = []"
    using read_available_queue [of "wk_ring s"] wake_reach_ok [OF assms(1-4)] r by (simp_all add: wake_ok_def)
  have "wake_step pipe ReadThenDrain s (s\<lparr>wk_reader := ReadNext\<rparr>)"
    using wake_step.Timeout [OF assms(5), of pipe ReadThenDrain] by simp
  moreover have "wake_step pipe ReadThenDrain (s\<lparr>wk_reader := ReadNext\<rparr>)
      (s\<lparr>wk_ring := g, wk_reader := after_read ReadThenDrain chunk\<rparr>)"
    using wake_step.ReadStep [of "s\<lparr>wk_reader := ReadNext\<rparr>" g chunk pipe ReadThenDrain] r by simp
  ultimately show ?thesis using r q by simp
qed

end
