(* ===== verification/Spec2Isabelle.thy ===== *)
theory Spec2Isabelle
  imports Prelude Float64 Broker_Api Orders Pricing Market_Data Portfolio Risk Hedge Constraint_Gates Bytes Framing Shm_Ring
    Trader_Pricing Trader_State Trader_Decision Trader
    Codec Gateway_Requests Gateway_Decoder Gateway_Client Gateway_Convert Gateway_Broker Gateway_Safety Gateway_Calls
    Pricing_Core Float_Bounds Span Calibrate Daemon_Config Daemon_Runtime Daemon_Tasks
    Wire Daemon_Ipc Daemon_Feed Vol_Surface Process_Pair Daemon_System Daemon_Types Lock_Order Snapshot Mock_Broker Jsonl_Log
    Python_Api Shm_Boot Shm_Wakeup
begin

text \<open>
  Corsair is an options market maker in Rust: a broker daemon (order gateway, market data, position
  book, Greeks, risk, hedging, surface calibration) and a trader (pricing and quoting decisions), two
  processes that talk over rings in shared memory. This library models the Rust code of both, from
  the bytes of the gateway to the frames between the processes. Paths below are under \<open>src/rust\<close>.

  \<^bold>\<open>How the program fits together.\<close> The native gateway client reads frames from a socket, the decoder
  turns them into messages and the adapter routes each to caches, waiters and streams. The tasks of
  the daemon drain those streams: ticks update the market data state, which answers the position
  book's questions through the market view interface; fills go to the hedger first and to the
  position book otherwise; the book's Greeks feed the kill switch and the hedger. The bridge publishes
  ticks, fills, statuses and the risk state as length-prefixed frames on a ring; a periodic task fits
  a surface per expiry and publishes it too. The trader drains that ring, decides on every tick and
  writes its commands on a second ring, which the bridge drains. A snapshot file shows the state of
  the daemon to other programs.

  \<^bold>\<open>Theories: foundations.\<close>
    \<^item> \<open>Prelude\<close>: wrapping integers of 32 and 64 bits, hash maps as association lists (a locale
      \<open>hash_map\<close> with its laws, interpreted on the operations), helpers for fallible code.
    \<^item> \<open>Float64\<close>: IEEE binary64 with exact rational values for finite numbers, round to nearest even,
      the negative zero, infinities and one NaN; comparison, arithmetic, rounding and the casts the
      program uses, with error bounds. \<open>Float_Bounds\<close>: maxima, rounding errors of
      moderate values, overflow.
    \<^item> \<open>Bytes\<close>, \<open>Framing\<close>, \<open>Shm_Ring\<close> (\<open>corsair_ipc\<close>): byte encodings and lossy UTF-8, the contract of
      length-prefixed framing as a locale, the ring over its mapped bytes, the server's command pump.
      \<open>Shm_Boot\<close>, \<open>Shm_Wakeup\<close>: the shared files and FIFOs, their creation by the daemon, the start of
      the trader over them (\<open>main.rs\<close>), a restart, and the wake-up of the reader step by step.

  \<^bold>\<open>Theories: the domain crates.\<close>
    \<^item> \<open>Broker_Api\<close>, \<open>Mock_Broker\<close> (\<open>corsair_broker_api\<close>): contracts, orders, ticks, fills, events,
      errors; the in-memory broker.
    \<^item> \<open>Orders\<close> (\<open>corsair_oms\<close>): the two-index order book; a per-key table is its specification.
    \<^item> \<open>Pricing\<close>, \<open>Pricing_Core\<close>, \<open>Span\<close>, \<open>Calibrate\<close>, \<open>Python_Api\<close> (\<open>corsair_pricing\<close>): Greeks,
      Black-76, Brent and implied volatility, SABR and SVI, SPAN margin, the linear and
      Levenberg-Marquardt solvers, the functions exported to Python.
    \<^item> \<open>Market_Data\<close> (\<open>corsair_market_data\<close>): the state behind the market view, the ATM window.
    \<^item> \<open>Portfolio\<close> (\<open>corsair_position\<close>), \<open>Risk\<close> (\<open>corsair_risk\<close>), \<open>Hedge\<close> (\<open>corsair_hedge\<close>),
      \<open>Constraint_Gates\<close> (\<open>corsair_constraint\<close>), \<open>Snapshot\<close> (\<open>corsair_snapshot\<close>).

  \<^bold>\<open>Theories: the gateway\<close> (\<open>corsair_broker_ibkr_native\<close>).
    \<^item> \<open>Codec\<close>, \<open>Gateway_Requests\<close>, \<open>Gateway_Decoder\<close>: frames and fields, every encoder and parser.
    \<^item> \<open>Gateway_Client\<close>, \<open>Gateway_Convert\<close>, \<open>Gateway_Broker\<close>: handshake, receive task, conversions, the
      adapter with its caches and waiters. \<open>Gateway_Calls\<close> joins the two halves of every asynchronous
      operation over the turns that other tasks take during its wait; \<open>Gateway_Safety\<close> has the laws that
      every step of the adapter keeps (waiters, caches, the types of cached positions).

  \<^bold>\<open>Theories: the two processes.\<close>
    \<^item> \<open>Trader_Pricing\<close>, \<open>Trader_State\<close>, \<open>Trader_Decision\<close>, \<open>Trader\<close>, \<open>Jsonl_Log\<close> (\<open>corsair_trader\<close>): pricing,
      state, the decision on a tick, the event handlers and periodic tasks, the logs.
    \<^item> \<open>Daemon_Config\<close>, \<open>Daemon_Runtime\<close>, \<open>Daemon_Tasks\<close>, \<open>Daemon_Feed\<close>, \<open>Vol_Surface\<close>, \<open>Daemon_Ipc\<close>
      (\<open>corsair_broker\<close>): one theory per file (\<open>config.rs\<close>, \<open>runtime.rs\<close>, \<open>tasks.rs\<close>, \<open>subscriptions.rs\<close>
      with \<open>main.rs\<close>, \<open>vol_surface.rs\<close>, \<open>ipc.rs\<close>).
    \<^item> \<open>Wire\<close>: what the derived serializers of both sides write and their deserializers accept.
    \<^item> \<open>Process_Pair\<close>: the daemon's messages as the trader reads them, and the trader's commands as the
      daemon reads them. \<open>Daemon_System\<close>: all tasks and the adapter as one step relation over the
      runtime; \<open>Daemon_Types\<close>: the type invariant of its reachable states. \<open>Lock_Order\<close>: the sequence of
      locks of every task and the interleavings of such sequences.

  \<^bold>\<open>Conventions.\<close> A Rust struct is a record, an enum a datatype, a method a function that returns
  the updated state, \<open>Option\<close> and \<open>Result\<close> are \<open>option\<close> and sums, a panic is a value of its own where the
  code can reach it. Integers are \<open>int\<close> with the wrap-around written out (release builds wrap) or
  words. A \<open>HashMap\<close> is an association list with distinct keys, so that iteration, which Rust leaves
  unordered, is a definite order; properties that iterate hold for every such list. The clock is an
  argument. Logging is omitted. Strings are the bytes of their UTF-8 encoding. An operation that waits
  is split at the wait, and what the others do meanwhile is an argument.

  \<^bold>\<open>Parameters.\<close> Code outside the repository is an argument: the functions of libm and the normal
  distribution (\<open>libm\<close>), the calendar and the date formats of chrono, the number printers itoa and ryu,
  the bytes of msgpack, JSON and YAML, the socket's chunks, what the operating system refuses. Laws assumed
  of them are premises of the theorem that needs them, and each such theorem has a witness.

  \<^bold>\<open>Loops and bounds.\<close> The solver's 200 iterations of at most 30 trial steps, Brent's iterations and the
  bisections are structural recursions with the bounds of the code, so they are total. The strike
  loop has no bound in the code and is a \<open>partial_function\<close> over \<open>option\<close>; it is proved to return the
  grid for a positive increment. Receive loops run over the list of what arrives. Delivery over the rings is
  stated for every interleaving of whole operations.

  \<^bold>\<open>What is shown.\<close> The properties are numbered in the theories.
    \<^item> Order book: over arbitrary sequences of its public calls the two indices agree exactly as long
      as every acknowledgement is well-formed, which \<open>link_order_id\<close> does not check, and then the book
      refines the table. Position book: positions are sums of fills and aggregates agree with the
      accessors up to the sign of a zero, since \<open>Iterator::sum\<close> starts at \<open>-0.0\<close>. Kill switch: health is exactly the limits, kills
      are sticky. Hedger: executions count once, a rebalance neutralises the delta. Gates: acceptance is
      exactly the specification. SPAN: the margin is the largest of its floors.
    \<^item> Ring and frames: a bounded queue, commands in order, also over a restart of the daemon, where
      exactly the commands that fit arrive; ticks of the daemon reach the trader.
    \<^item> Gateway: decoding never panics, requests without zero bytes in their texts put every field in
      its place, every waiter is answered once while the order counter does not wrap, a disconnect
      answers all of them, messages are delivered in order.
    \<^item> Trader: orders are placed only when the state allows, with the edge up to half a
      tick of the theoretical price of their tick; a kill stops orders; acknowledged orders stay
      indexed; the staleness pass cancels exactly the orders due.
    \<^item> Daemon: seeding books the broker's positions one by one, fills are routed once, health covers every product, a
      shadow daemon never trades, reachable states are well typed, readers of the snapshot file see
      the last snapshot published, the solver stops and never gets worse, published surfaces are
      bounded and, by the side the fit writes into them, never price a quote.
    \<^item> Locks: the periodic and stream tasks never deadlock.
    \<^item> Where the code falls short of its intent, a theorem says so: a frame can be left to the timer of
      the trader's loop, closed losses escape the daily
      halt, a surface of the daemon is never used by the trader, no command of the trader parses, no
      listing ever ends and so the daemon never places an order, a place command inverts a lock order.

  \<^bold>\<open>Not modelled.\<close> Signals, the logger and the closing of descriptors; sockets below the bytes they
  deliver; the async runtime (spawning, timers, what a slow receiver of a broadcast channel loses:
  outputs are lists in order); the memory order of the offsets below whole ring operations; the
  third-party codecs; the Python scripts, dashboards and tests of the repository.
\<close>

end
